(* ===== verification/Prelude.thy ===== *)
theory Prelude
  imports Main "HOL-Library.Word" "HOL-Library.Signed_Division"
begin

text \<open>
  The C integer types of the emulator as fixed-width words, the C shift operators on them,
  the bit patterns of the octal masks the sources use, and small facts about words that the
  component theories share.  \<open>int\<close> is a 32-bit word read as two's complement
  (\<open>sint\<close>, \<open><s\<close>); an \<open>int16_t\<close> cell is a 16-bit word.  C promotes an
  \<open>int16_t\<close> to \<open>int\<close> by sign extension (\<open>int_of_i16\<close>) and stores an
  \<open>int\<close> back into 16 bits by truncation (\<open>i16_of_int\<close>).
\<close>

unbundle bit_operations_syntax

section \<open>Machine integers\<close>

type_synonym cint = "32 word"
type_synonym i16 = "16 word"
type_synonym u16 = "16 word"
type_synonym u32 = "32 word"
type_synonym u64 = "64 word"
type_synonym u8 = "8 word"

abbreviation int_of_i16 :: "i16 \<Rightarrow> cint" where "int_of_i16 w \<equiv> scast w"
abbreviation int_of_u16 :: "u16 \<Rightarrow> cint" where "int_of_u16 w \<equiv> ucast w"
abbreviation i16_of_int :: "cint \<Rightarrow> i16" where "i16_of_int v \<equiv> ucast v"

text \<open>The shifts of C: \<open>shl\<close> is \<open><<\<close>, \<open>shr\<close> is \<open>>>\<close> on unsigned values and
  \<open>sar\<close> is \<open>>>\<close> on \<open>int\<close>, which the compilers the program supports implement
  as an arithmetic shift.\<close>

definition shl :: "nat \<Rightarrow> 'a::len word \<Rightarrow> 'a word" where "shl n v = push_bit n v"
definition shr :: "nat \<Rightarrow> 'a::len word \<Rightarrow> 'a word" where "shr n v = drop_bit n v"
definition sar :: "nat \<Rightarrow> 'a::len word \<Rightarrow> 'a word" where "sar n v = signed_drop_bit n v"

named_theorems mask_bits \<open>the bits of the masks of the sources\<close>
named_theorems shift_defs \<open>the C shifts, for evaluation\<close>

lemmas [shift_defs] = shl_def shr_def sar_def

lemma bit_shl [bit_simps]:
  "bit (shl n (v :: 'a::len word)) i \<longleftrightarrow> n \<le> i \<and> i < LENGTH('a) \<and> bit v (i - n)"
  by (auto simp: shl_def bit_push_bit_iff)

lemma bit_shr [bit_simps]: "bit (shr n v) i \<longleftrightarrow> bit v (n + i)"
  by (simp add: shr_def bit_drop_bit_eq)

lemma bit_sar [bit_simps]:
  "bit (sar n (v :: 'a::len word)) i \<longleftrightarrow>
     bit v (if LENGTH('a) - n \<le> i \<and> i < LENGTH('a) then LENGTH('a) - 1 else n + i)"
  by (simp add: sar_def bit_simps)

section \<open>Masks\<close>

text \<open>The numerals of the sources are low masks (\<open>mask k\<close>) or single bits; either
  decides a bit test symbolically.\<close>

lemma low_masks:
  "(0xFFFFFFF :: 'a::len word) = mask 28"
  "(0x1FFFFFFF :: 'a::len word) = mask 29"
  "(0x3FFFFFFF :: 'a::len word) = mask 30"
  "(0x1FFFF :: 'a::len word) = mask 17"
  "(0xFFFF :: 'a::len word) = mask 16"
  "(0x7FFF :: 'a::len word) = mask 15"
  "(0x3FFF :: 'a::len word) = mask 14"
  "(0x1FFF :: 'a::len word) = mask 13"
  "(0xFFF :: 'a::len word) = mask 12"
  "(0x7FF :: 'a::len word) = mask 11"
  "(0x3FF :: 'a::len word) = mask 10"
  "(0x1FF :: 'a::len word) = mask 9"
  "(0xFF :: 'a::len word) = mask 8"
  "(0x7F :: 'a::len word) = mask 7"
  "(0x3F :: 'a::len word) = mask 6"
  "(0x1F :: 'a::len word) = mask 5"
  "(0xF :: 'a::len word) = mask 4"
  "(7 :: 'a::len word) = mask 3"
  by (simp_all add: mask_eq_exp_minus_1)

lemma bits_low_masks [mask_bits]:
  "bit (0xFFFFFFF :: 'a::len word) i \<longleftrightarrow> i < LENGTH('a) \<and> i < 28"
  "bit (0x1FFFFFFF :: 'a::len word) i \<longleftrightarrow> i < LENGTH('a) \<and> i < 29"
  "bit (0x3FFFFFFF :: 'a::len word) i \<longleftrightarrow> i < LENGTH('a) \<and> i < 30"
  "bit (0x1FFFF :: 'a::len word) i \<longleftrightarrow> i < LENGTH('a) \<and> i < 17"
  "bit (0xFFFF :: 'a::len word) i \<longleftrightarrow> i < LENGTH('a) \<and> i < 16"
  "bit (0x7FFF :: 'a::len word) i \<longleftrightarrow> i < LENGTH('a) \<and> i < 15"
  "bit (0x3FFF :: 'a::len word) i \<longleftrightarrow> i < LENGTH('a) \<and> i < 14"
  "bit (0x1FFF :: 'a::len word) i \<longleftrightarrow> i < LENGTH('a) \<and> i < 13"
  "bit (0xFFF :: 'a::len word) i \<longleftrightarrow> i < LENGTH('a) \<and> i < 12"
  "bit (0x7FF :: 'a::len word) i \<longleftrightarrow> i < LENGTH('a) \<and> i < 11"
  "bit (0x3FF :: 'a::len word) i \<longleftrightarrow> i < LENGTH('a) \<and> i < 10"
  "bit (0x1FF :: 'a::len word) i \<longleftrightarrow> i < LENGTH('a) \<and> i < 9"
  "bit (0xFF :: 'a::len word) i \<longleftrightarrow> i < LENGTH('a) \<and> i < 8"
  "bit (0x7F :: 'a::len word) i \<longleftrightarrow> i < LENGTH('a) \<and> i < 7"
  "bit (0x3F :: 'a::len word) i \<longleftrightarrow> i < LENGTH('a) \<and> i < 6"
  "bit (0x1F :: 'a::len word) i \<longleftrightarrow> i < LENGTH('a) \<and> i < 5"
  "bit (0xF :: 'a::len word) i \<longleftrightarrow> i < LENGTH('a) \<and> i < 4"
  "bit (7 :: 'a::len word) i \<longleftrightarrow> i < LENGTH('a) \<and> i < 3"
  by (simp_all only: low_masks bit_mask_iff possible_bit_word)

lemma single_bits:
  "(0x20000000 :: 'a::len word) = 2 ^ 29"
  "(0x10000000 :: 'a::len word) = 2 ^ 28"
  "(0x10000 :: 'a::len word) = 2 ^ 16"
  "(0x8000 :: 'a::len word) = 2 ^ 15"
  "(0x4000 :: 'a::len word) = 2 ^ 14"
  "(0x2000 :: 'a::len word) = 2 ^ 13"
  "(0x1000 :: 'a::len word) = 2 ^ 12"
  "(0x800 :: 'a::len word) = 2 ^ 11"
  "(0x400 :: 'a::len word) = 2 ^ 10"
  "(0x200 :: 'a::len word) = 2 ^ 9"
  "(0x100 :: 'a::len word) = 2 ^ 8"
  "(0x80 :: 'a::len word) = 2 ^ 7"
  "(0x40 :: 'a::len word) = 2 ^ 6"
  "(0x20 :: 'a::len word) = 2 ^ 5"
  "(0x10 :: 'a::len word) = 2 ^ 4"
  "(0x8 :: 'a::len word) = 2 ^ 3"
  by simp_all

lemma bits_single [mask_bits]:
  "bit (0x20000000 :: 'a::len word) i \<longleftrightarrow> i < LENGTH('a) \<and> i = 29"
  "bit (0x10000000 :: 'a::len word) i \<longleftrightarrow> i < LENGTH('a) \<and> i = 28"
  "bit (0x10000 :: 'a::len word) i \<longleftrightarrow> i < LENGTH('a) \<and> i = 16"
  "bit (0x8000 :: 'a::len word) i \<longleftrightarrow> i < LENGTH('a) \<and> i = 15"
  "bit (0x4000 :: 'a::len word) i \<longleftrightarrow> i < LENGTH('a) \<and> i = 14"
  "bit (0x2000 :: 'a::len word) i \<longleftrightarrow> i < LENGTH('a) \<and> i = 13"
  "bit (0x1000 :: 'a::len word) i \<longleftrightarrow> i < LENGTH('a) \<and> i = 12"
  "bit (0x800 :: 'a::len word) i \<longleftrightarrow> i < LENGTH('a) \<and> i = 11"
  "bit (0x400 :: 'a::len word) i \<longleftrightarrow> i < LENGTH('a) \<and> i = 10"
  "bit (0x200 :: 'a::len word) i \<longleftrightarrow> i < LENGTH('a) \<and> i = 9"
  "bit (0x100 :: 'a::len word) i \<longleftrightarrow> i < LENGTH('a) \<and> i = 8"
  "bit (0x80 :: 'a::len word) i \<longleftrightarrow> i < LENGTH('a) \<and> i = 7"
  "bit (0x40 :: 'a::len word) i \<longleftrightarrow> i < LENGTH('a) \<and> i = 6"
  "bit (0x20 :: 'a::len word) i \<longleftrightarrow> i < LENGTH('a) \<and> i = 5"
  "bit (0x10 :: 'a::len word) i \<longleftrightarrow> i < LENGTH('a) \<and> i = 4"
  "bit (0x8 :: 'a::len word) i \<longleftrightarrow> i < LENGTH('a) \<and> i = 3"
  by (auto simp only: single_bits bit_exp_iff possible_bit_word)

text \<open>The simplifier reads a bit of a word numeral as a bit of the integer numeral.\<close>

lemma low_masks_int:
  "(0xFFFFFFF :: int) = mask 28"
  "(0x1FFFFFFF :: int) = mask 29"
  "(0x3FFFFFFF :: int) = mask 30"
  "(0x1FFFF :: int) = mask 17"
  "(0xFFFF :: int) = mask 16"
  "(0x7FFF :: int) = mask 15"
  "(0x3FFF :: int) = mask 14"
  "(0x1FFF :: int) = mask 13"
  "(0xFFF :: int) = mask 12"
  "(0x7FF :: int) = mask 11"
  "(0x3FF :: int) = mask 10"
  "(0x1FF :: int) = mask 9"
  "(0xFF :: int) = mask 8"
  "(0x7F :: int) = mask 7"
  "(0x3F :: int) = mask 6"
  "(0x1F :: int) = mask 5"
  "(0xF :: int) = mask 4"
  "(7 :: int) = mask 3"
  by (simp_all add: mask_eq_exp_minus_1)

lemma bits_low_masks_int [mask_bits]:
  "bit (0xFFFFFFF :: int) i \<longleftrightarrow> i < 28"
  "bit (0x1FFFFFFF :: int) i \<longleftrightarrow> i < 29"
  "bit (0x3FFFFFFF :: int) i \<longleftrightarrow> i < 30"
  "bit (0x1FFFF :: int) i \<longleftrightarrow> i < 17"
  "bit (0xFFFF :: int) i \<longleftrightarrow> i < 16"
  "bit (0x7FFF :: int) i \<longleftrightarrow> i < 15"
  "bit (0x3FFF :: int) i \<longleftrightarrow> i < 14"
  "bit (0x1FFF :: int) i \<longleftrightarrow> i < 13"
  "bit (0xFFF :: int) i \<longleftrightarrow> i < 12"
  "bit (0x7FF :: int) i \<longleftrightarrow> i < 11"
  "bit (0x3FF :: int) i \<longleftrightarrow> i < 10"
  "bit (0x1FF :: int) i \<longleftrightarrow> i < 9"
  "bit (0xFF :: int) i \<longleftrightarrow> i < 8"
  "bit (0x7F :: int) i \<longleftrightarrow> i < 7"
  "bit (0x3F :: int) i \<longleftrightarrow> i < 6"
  "bit (0x1F :: int) i \<longleftrightarrow> i < 5"
  "bit (0xF :: int) i \<longleftrightarrow> i < 4"
  "bit (7 :: int) i \<longleftrightarrow> i < 3"
  by (simp_all only: low_masks_int bit_mask_iff possible_bit_int simp_thms)

lemma single_bits_int:
  "(0x20000000 :: int) = 2 ^ 29"
  "(0x10000000 :: int) = 2 ^ 28"
  "(0x10000 :: int) = 2 ^ 16"
  "(0x8000 :: int) = 2 ^ 15"
  "(0x4000 :: int) = 2 ^ 14"
  "(0x2000 :: int) = 2 ^ 13"
  "(0x1000 :: int) = 2 ^ 12"
  "(0x800 :: int) = 2 ^ 11"
  "(0x400 :: int) = 2 ^ 10"
  "(0x200 :: int) = 2 ^ 9"
  "(0x100 :: int) = 2 ^ 8"
  "(0x80 :: int) = 2 ^ 7"
  "(0x40 :: int) = 2 ^ 6"
  "(0x20 :: int) = 2 ^ 5"
  "(0x10 :: int) = 2 ^ 4"
  "(0x8 :: int) = 2 ^ 3"
  by simp_all

lemma bits_single_int [mask_bits]:
  "bit (0x20000000 :: int) i \<longleftrightarrow> i = 29"
  "bit (0x10000000 :: int) i \<longleftrightarrow> i = 28"
  "bit (0x10000 :: int) i \<longleftrightarrow> i = 16"
  "bit (0x8000 :: int) i \<longleftrightarrow> i = 15"
  "bit (0x4000 :: int) i \<longleftrightarrow> i = 14"
  "bit (0x2000 :: int) i \<longleftrightarrow> i = 13"
  "bit (0x1000 :: int) i \<longleftrightarrow> i = 12"
  "bit (0x800 :: int) i \<longleftrightarrow> i = 11"
  "bit (0x400 :: int) i \<longleftrightarrow> i = 10"
  "bit (0x200 :: int) i \<longleftrightarrow> i = 9"
  "bit (0x100 :: int) i \<longleftrightarrow> i = 8"
  "bit (0x80 :: int) i \<longleftrightarrow> i = 7"
  "bit (0x40 :: int) i \<longleftrightarrow> i = 6"
  "bit (0x20 :: int) i \<longleftrightarrow> i = 5"
  "bit (0x10 :: int) i \<longleftrightarrow> i = 4"
  "bit (0x8 :: int) i \<longleftrightarrow> i = 3"
  by (auto simp only: single_bits_int bit_exp_iff possible_bit_int)

lemma bits_C000_int [mask_bits]: "bit (0xC000 :: int) i \<longleftrightarrow> i = 14 \<or> i = 15"
proof -
  have "(0xC000 :: int) = 0x4000 OR 0x8000" by simp
  then show ?thesis by (simp only: bit_or_iff bits_single_int)
qed

lemma bits_1FFFC000_int [mask_bits]: "bit (0x1FFFC000 :: int) i \<longleftrightarrow> 14 \<le> i \<and> i < 29"
proof -
  have "(0x1FFFC000 :: int) = 0x1FFFFFFF AND NOT 0x3FFF" by simp
  then show ?thesis
    by (simp only: bit_and_iff bit_not_iff bits_low_masks_int possible_bit_int) auto
qed

lemma bits_7000_int [mask_bits]: "bit (0x7000 :: int) i \<longleftrightarrow> 12 \<le> i \<and> i < 15"
proof -
  have "(0x7000 :: int) = 0x7FFF AND NOT 0xFFF" by simp
  then show ?thesis
    by (simp only: bit_and_iff bit_not_iff bits_low_masks_int possible_bit_int) auto
qed

lemma bits_fields_int [mask_bits]:
  "bit (0x47FF :: int) i \<longleftrightarrow> i < 11 \<or> i = 14"
  "bit (0x7C00 :: int) i \<longleftrightarrow> 10 \<le> i \<and> i < 15"
  "bit (0x5C00 :: int) i \<longleftrightarrow> 10 \<le> i \<and> i < 15 \<and> i \<noteq> 13"
  "bit (0x5FFF :: int) i \<longleftrightarrow> i < 15 \<and> i \<noteq> 13"
  "bit (0x7C07 :: int) i \<longleftrightarrow> i < 3 \<or> 10 \<le> i \<and> i < 15"
  "bit (0x700 :: int) i \<longleftrightarrow> 8 \<le> i \<and> i < 11"
  "bit (0x70 :: int) i \<longleftrightarrow> 4 \<le> i \<and> i < 7"
proof -
  have "(0x47FF :: int) = 0x7FF OR 0x4000" "(0x7C00 :: int) = 0x7FFF AND NOT 0x3FF"
    "(0x5C00 :: int) = 0x7FFF AND NOT 0x3FF AND NOT 0x2000" "(0x5FFF :: int) = 0x7FFF AND NOT 0x2000"
    "(0x7C07 :: int) = 7 OR (0x7FFF AND NOT 0x3FF)" "(0x700 :: int) = 0x7FF AND NOT 0xFF"
    "(0x70 :: int) = 0x7F AND NOT 0xF"
    by simp_all
  then show "bit (0x47FF :: int) i \<longleftrightarrow> i < 11 \<or> i = 14"
    "bit (0x7C00 :: int) i \<longleftrightarrow> 10 \<le> i \<and> i < 15"
    "bit (0x5C00 :: int) i \<longleftrightarrow> 10 \<le> i \<and> i < 15 \<and> i \<noteq> 13"
    "bit (0x5FFF :: int) i \<longleftrightarrow> i < 15 \<and> i \<noteq> 13"
    "bit (0x7C07 :: int) i \<longleftrightarrow> i < 3 \<or> 10 \<le> i \<and> i < 15"
    "bit (0x700 :: int) i \<longleftrightarrow> 8 \<le> i \<and> i < 11"
    "bit (0x70 :: int) i \<longleftrightarrow> 4 \<le> i \<and> i < 7"
    by (simp_all only: bit_and_iff bit_or_iff bit_not_iff bits_low_masks_int bits_single_int
        possible_bit_int simp_thms) auto
qed

text \<open>The complements of masks, as the simplifier writes them.\<close>

lemma complement_masks_int:
  "(- 512 :: int) = NOT (mask 9)"
  "(- 1024 :: int) = NOT (mask 10)"
  "(- 4096 :: int) = NOT (mask 12)"
  "(- 8192 :: int) = NOT (mask 13)"
  "(- 16384 :: int) = NOT (mask 14)"
  "(- 32768 :: int) = NOT (mask 15)"
  "(- 65536 :: int) = NOT (mask 16)"
  "(- 9 :: int) = NOT (2 ^ 3)"
  "(- 17 :: int) = NOT (2 ^ 4)"
  "(- 33 :: int) = NOT (2 ^ 5)"
  "(- 65 :: int) = NOT (2 ^ 6)"
  "(- 129 :: int) = NOT (2 ^ 7)"
  "(- 257 :: int) = NOT (2 ^ 8)"
  "(- 513 :: int) = NOT (2 ^ 9)"
  "(- 1025 :: int) = NOT (2 ^ 10)"
  "(- 2049 :: int) = NOT (2 ^ 11)"
  "(- 4097 :: int) = NOT (2 ^ 12)"
  "(- 8193 :: int) = NOT (2 ^ 13)"
  "(- 16385 :: int) = NOT (2 ^ 14)"
  "(- 32769 :: int) = NOT (2 ^ 15)"
  "(- 65537 :: int) = NOT (2 ^ 16)"
  "(- 536870913 :: int) = NOT (2 ^ 29)"
  by (simp_all add: not_int_def mask_eq_exp_minus_1)

lemma bits_complement_masks_int [mask_bits]:
  "bit (- 512 :: int) i \<longleftrightarrow> 9 \<le> i"
  "bit (- 1024 :: int) i \<longleftrightarrow> 10 \<le> i"
  "bit (- 4096 :: int) i \<longleftrightarrow> 12 \<le> i"
  "bit (- 8192 :: int) i \<longleftrightarrow> 13 \<le> i"
  "bit (- 16384 :: int) i \<longleftrightarrow> 14 \<le> i"
  "bit (- 32768 :: int) i \<longleftrightarrow> 15 \<le> i"
  "bit (- 65536 :: int) i \<longleftrightarrow> 16 \<le> i"
  "bit (- 9 :: int) i \<longleftrightarrow> i \<noteq> 3"
  "bit (- 17 :: int) i \<longleftrightarrow> i \<noteq> 4"
  "bit (- 33 :: int) i \<longleftrightarrow> i \<noteq> 5"
  "bit (- 65 :: int) i \<longleftrightarrow> i \<noteq> 6"
  "bit (- 129 :: int) i \<longleftrightarrow> i \<noteq> 7"
  "bit (- 257 :: int) i \<longleftrightarrow> i \<noteq> 8"
  "bit (- 513 :: int) i \<longleftrightarrow> i \<noteq> 9"
  "bit (- 1025 :: int) i \<longleftrightarrow> i \<noteq> 10"
  "bit (- 2049 :: int) i \<longleftrightarrow> i \<noteq> 11"
  "bit (- 4097 :: int) i \<longleftrightarrow> i \<noteq> 12"
  "bit (- 8193 :: int) i \<longleftrightarrow> i \<noteq> 13"
  "bit (- 16385 :: int) i \<longleftrightarrow> i \<noteq> 14"
  "bit (- 32769 :: int) i \<longleftrightarrow> i \<noteq> 15"
  "bit (- 65537 :: int) i \<longleftrightarrow> i \<noteq> 16"
  "bit (- 536870913 :: int) i \<longleftrightarrow> i \<noteq> 29"
  by (auto simp only: complement_masks_int bit_not_int_iff bit_mask_iff possible_bit_int
      bit_exp_iff bit_not_iff not_less simp_thms)

text \<open>A test of one bit, as the sources write it: \<open>0 != (m & v)\<close>.\<close>

lemma and_exp_eq_0_iff:
  fixes v :: "'a::len word"
  shows "v AND 2 ^ k = 0 \<longleftrightarrow> \<not> bit v k" "2 ^ k AND v = 0 \<longleftrightarrow> \<not> bit v k"
proof -
  show *: "v AND 2 ^ k = 0 \<longleftrightarrow> \<not> bit v k"
    by (metis and_exp_eq_0_iff_not_bit)
  show "2 ^ k AND v = 0 \<longleftrightarrow> \<not> bit v k"
    using * by (simp add: and.commute)
qed

lemma bit_tests [simp]:
  "v AND 0x20000000 = 0 \<longleftrightarrow> \<not> bit (v :: 'a::len word) 29"
  "0x20000000 AND v = 0 \<longleftrightarrow> \<not> bit (v :: 'a::len word) 29"
  "v AND 0x10000000 = 0 \<longleftrightarrow> \<not> bit (v :: 'a::len word) 28"
  "0x10000000 AND v = 0 \<longleftrightarrow> \<not> bit (v :: 'a::len word) 28"
  "v AND 0x10000 = 0 \<longleftrightarrow> \<not> bit (v :: 'a::len word) 16"
  "0x10000 AND v = 0 \<longleftrightarrow> \<not> bit (v :: 'a::len word) 16"
  "v AND 0x8000 = 0 \<longleftrightarrow> \<not> bit (v :: 'a::len word) 15"
  "0x8000 AND v = 0 \<longleftrightarrow> \<not> bit (v :: 'a::len word) 15"
  "v AND 0x4000 = 0 \<longleftrightarrow> \<not> bit (v :: 'a::len word) 14"
  "0x4000 AND v = 0 \<longleftrightarrow> \<not> bit (v :: 'a::len word) 14"
  "v AND 0x2000 = 0 \<longleftrightarrow> \<not> bit (v :: 'a::len word) 13"
  "0x2000 AND v = 0 \<longleftrightarrow> \<not> bit (v :: 'a::len word) 13"
  "v AND 0x1000 = 0 \<longleftrightarrow> \<not> bit (v :: 'a::len word) 12"
  "0x1000 AND v = 0 \<longleftrightarrow> \<not> bit (v :: 'a::len word) 12"
  "v AND 0x800 = 0 \<longleftrightarrow> \<not> bit (v :: 'a::len word) 11"
  "0x800 AND v = 0 \<longleftrightarrow> \<not> bit (v :: 'a::len word) 11"
  "v AND 0x400 = 0 \<longleftrightarrow> \<not> bit (v :: 'a::len word) 10"
  "0x400 AND v = 0 \<longleftrightarrow> \<not> bit (v :: 'a::len word) 10"
  "v AND 0x200 = 0 \<longleftrightarrow> \<not> bit (v :: 'a::len word) 9"
  "0x200 AND v = 0 \<longleftrightarrow> \<not> bit (v :: 'a::len word) 9"
  "v AND 0x100 = 0 \<longleftrightarrow> \<not> bit (v :: 'a::len word) 8"
  "0x100 AND v = 0 \<longleftrightarrow> \<not> bit (v :: 'a::len word) 8"
  "v AND 0x80 = 0 \<longleftrightarrow> \<not> bit (v :: 'a::len word) 7"
  "0x80 AND v = 0 \<longleftrightarrow> \<not> bit (v :: 'a::len word) 7"
  "v AND 0x40 = 0 \<longleftrightarrow> \<not> bit (v :: 'a::len word) 6"
  "0x40 AND v = 0 \<longleftrightarrow> \<not> bit (v :: 'a::len word) 6"
  "v AND 0x20 = 0 \<longleftrightarrow> \<not> bit (v :: 'a::len word) 5"
  "0x20 AND v = 0 \<longleftrightarrow> \<not> bit (v :: 'a::len word) 5"
  "v AND 0x10 = 0 \<longleftrightarrow> \<not> bit (v :: 'a::len word) 4"
  "0x10 AND v = 0 \<longleftrightarrow> \<not> bit (v :: 'a::len word) 4"
  "v AND 0x8 = 0 \<longleftrightarrow> \<not> bit (v :: 'a::len word) 3"
  "0x8 AND v = 0 \<longleftrightarrow> \<not> bit (v :: 'a::len word) 3"
  by (simp_all only: single_bits and_exp_eq_0_iff)

section \<open>Widths\<close>

lemma uint_i16_lt: "uint (w :: i16) < 65536"
  using uint_lt2p [of w] by simp

lemma uint_cint_lt: "uint (v :: cint) < 4294967296"
  using uint_lt2p [of v] by simp

lemma bit_i16_high [simp]: "16 \<le> n \<Longrightarrow> \<not> bit (w :: i16) n"
  using bit_imp_le_length [of w n] by auto

lemma bit_cint_high [simp]: "32 \<le> n \<Longrightarrow> \<not> bit (v :: cint) n"
  using bit_imp_le_length [of v n] by auto

lemma bit_int_of_i16 [simp]:
  "n < 16 \<Longrightarrow> bit (int_of_i16 w) n = bit w n"
  "16 \<le> n \<Longrightarrow> bit (int_of_i16 w) n \<longleftrightarrow> n < 32 \<and> bit w 15"
proof -
  show "n < 16 \<Longrightarrow> bit (int_of_i16 w) n = bit w n"
    by (cases "n = 15") (auto simp: bit_simps)
  show "16 \<le> n \<Longrightarrow> bit (int_of_i16 w) n \<longleftrightarrow> n < 32 \<and> bit w 15"
    by (auto simp: bit_simps)
qed

lemma bit_i16_of_int [simp]: "bit (i16_of_int v) n \<longleftrightarrow> n < 16 \<and> bit v n"
  by (simp add: bit_simps)

lemma bit_int_of_u16 [simp]: "bit (int_of_u16 w) n \<longleftrightarrow> n < 16 \<and> bit w n"
  by (auto simp: bit_simps dest: bit_imp_le_length)

text \<open>Two words are equal when their bits are; below and above bit 16 separately.\<close>

lemma cint_eqI:
  "(\<And>n. n < 16 \<Longrightarrow> bit a n = bit b n) \<Longrightarrow>
   (\<And>n. 16 \<le> n \<Longrightarrow> n < 32 \<Longrightarrow> bit a n = bit b n) \<Longrightarrow> (a :: cint) = b"
  by (rule bit_word_eqI) (simp, meson not_le)

lemma i16_eqI: "(\<And>n. n < 16 \<Longrightarrow> bit a n = bit b n) \<Longrightarrow> (a :: i16) = b"
  by (rule bit_word_eqI) simp

lemma i16_of_int_of_i16 [simp]: "i16_of_int (int_of_i16 w) = w"
  by (rule i16_eqI) simp

lemma i16_of_int_of_u16 [simp]: "i16_of_int (int_of_u16 w) = w"
  by (rule i16_eqI) simp

text \<open>Around a width boundary, a bound on a bit index is split into its last value.\<close>

lemma lt_steps:
  "n < (14 :: nat) \<longleftrightarrow> n < 13 \<or> n = 13"
  "n < (15 :: nat) \<longleftrightarrow> n < 14 \<or> n = 14"
  "n < (16 :: nat) \<longleftrightarrow> n < 15 \<or> n = 15"
  by auto

text \<open>The 16 bits of a register, read through the mask \<open>0177777\<close>.\<close>

lemma int_of_i16_and_FFFF [simp]:
  "0xFFFF AND int_of_i16 w = int_of_u16 w"
  "int_of_i16 w AND 0xFFFF = int_of_u16 w"
  by (auto intro!: cint_eqI simp: bit_and_iff mask_bits)

lemma uint_not_negative [simp]:
  "\<not> uint (v :: 'a::len word) < - numeral k" "- numeral k < uint (v :: 'a::len word)"
  "\<not> uint (v :: 'a::len word) \<le> - numeral k" "- numeral k \<le> uint (v :: 'a::len word)"
  "\<not> uint (v :: 'a::len word) < - 1" "- 1 < uint (v :: 'a::len word)"
  "\<not> uint (v :: 'a::len word) \<le> - 1" "- 1 \<le> uint (v :: 'a::len word)"
proof -
  have "- (numeral k :: int) < 0" by simp
  with uint_ge_0 [of v] have *: "- numeral k < uint v" by (rule order.strict_trans2 [rotated])
  with uint_ge_0 [of v] show "\<not> uint v < - numeral k" "- numeral k < uint v"
    "\<not> uint v \<le> - numeral k" "- numeral k \<le> uint v"
    by linarith+
  show "\<not> uint v < - 1" "- 1 < uint v" "\<not> uint v \<le> - 1" "- 1 \<le> uint v"
    using uint_ge_0 [of v] by linarith+
qed

lemma uint_neq_negative [simp]:
  "uint (v :: 'a::len word) \<noteq> - numeral k" "uint (v :: 'a::len word) \<noteq> - 1"
  "uint (v :: 'a::len word) + 1 \<noteq> 0" "1 + uint (v :: 'a::len word) \<noteq> 0"
proof -
  show "uint v \<noteq> - numeral k" using uint_not_negative(3) [of v k] by (intro notI) simp
  show "uint v \<noteq> - 1" "uint v + 1 \<noteq> 0" "1 + uint v \<noteq> 0"
    using uint_ge_0 [of v] by linarith+
qed

lemma unat_ltI: "uint w < int n \<Longrightarrow> unat w < n"
  by (metis of_nat_less_iff of_nat_unat)

section \<open>Masks and arithmetic\<close>

text \<open>A low mask is a remainder; masking the complement is subtraction from the mask.\<close>

lemma uint_and_low_mask:
  "uint (mask n AND (v :: 'a::len word)) = uint v mod 2 ^ n"
  "uint (v AND mask n) = uint v mod 2 ^ n"
proof -
  show "uint (v AND mask n) = uint v mod 2 ^ n"
    by (simp only: take_bit_eq_mask [symmetric] unsigned_take_bit_eq) (simp add: take_bit_eq_mod)
  then show "uint (mask n AND v) = uint v mod 2 ^ n"
    by (simp add: and.commute)
qed

lemma uint_and_low_mask_not:
  assumes "n \<le> LENGTH('a)"
  shows "uint (mask n AND NOT (v :: 'a::len word)) = 2 ^ n - 1 - uint v mod 2 ^ n"
proof -
  have "mask n AND NOT v = mask n - (v AND mask n)"
    by (simp add: take_bit_eq_mask [symmetric] take_bit_not_eq_mask_diff and.commute)
  moreover have "uint (mask n :: 'a word) = 2 ^ n - 1"
    using assms by (simp only: uint_mask_eq) (simp add: mask_eq_exp_minus_1 min_def)
  moreover have "uint (v AND mask n) \<le> 2 ^ n - 1"
    by (simp add: uint_and_low_mask)
  ultimately show ?thesis
    by (simp add: uint_and_low_mask uint_sub_if')
qed

lemma mod_upper_half: "m \<le> u \<Longrightarrow> u < 2 * m \<Longrightarrow> u mod m = u - (m :: int)"
  by (metis add_diff_cancel_left' diff_ge_0_iff_ge linorder_not_less minus_mod_self2
      mod_pos_pos_trivial mult_2 add_less_cancel_left diff_add_cancel add.commute)

lemma uint_not_mod:
  assumes "n \<le> LENGTH('a)"
  shows "uint (NOT (v :: 'a::len word)) mod 2 ^ n = 2 ^ n - 1 - uint v mod 2 ^ n"
  using uint_and_low_mask_not [OF assms, of v] by (simp only: uint_and_low_mask)

lemmas uint_mask_simps =
  uint_and_low_mask [of 14, folded low_masks] uint_and_low_mask [of 15, folded low_masks]
  uint_and_low_mask [of 16, folded low_masks] uint_and_low_mask [of 28, folded low_masks]
  uint_and_low_mask [of 29, folded low_masks]

lemma uint_not_mods:
  "uint (NOT (w :: i16)) mod 16384 = 16383 - uint w mod 16384"
  "uint (NOT (w :: i16)) mod 32768 = 32767 - uint w mod 32768"
  "uint (NOT (v :: cint)) mod 16384 = 16383 - uint v mod 16384"
  "uint (NOT (v :: cint)) mod 32768 = 32767 - uint v mod 32768"
  "uint (NOT (v :: cint)) mod 65536 = 65535 - uint v mod 65536"
  "uint (NOT (v :: cint)) mod 268435456 = 268435455 - uint v mod 268435456"
  "uint (NOT (v :: cint)) mod 536870912 = 536870911 - uint v mod 536870912"
proof -
  show "uint (NOT (w :: i16)) mod 16384 = 16383 - uint w mod 16384"
    using uint_not_mod [of 14 w] by simp
  show "uint (NOT (w :: i16)) mod 32768 = 32767 - uint w mod 32768"
    using uint_not_mod [of 15 w] by simp
  show "uint (NOT (v :: cint)) mod 16384 = 16383 - uint v mod 16384"
    using uint_not_mod [of 14 v] by simp
  show "uint (NOT (v :: cint)) mod 32768 = 32767 - uint v mod 32768"
    using uint_not_mod [of 15 v] by simp
  show "uint (NOT (v :: cint)) mod 65536 = 65535 - uint v mod 65536"
    using uint_not_mod [of 16 v] by simp
  show "uint (NOT (v :: cint)) mod 268435456 = 268435455 - uint v mod 268435456"
    using uint_not_mod [of 28 v] by simp
  show "uint (NOT (v :: cint)) mod 536870912 = 536870911 - uint v mod 536870912"
    using uint_not_mod [of 29 v] by simp
qed

lemmas [simp] = uint_mask_simps uint_not_mods

lemma bit_iff_uint_div: "bit (v :: 'a::len word) n \<longleftrightarrow> odd (uint v div 2 ^ n)"
  by (metis bit_iff_odd bit_uint_iff bit_imp_le_length)

text \<open>The top bit of a bounded value is a comparison.\<close>

lemma bit_top_iff:
  assumes "uint (v :: 'a::len word) < 2 ^ Suc n"
  shows "bit v n \<longleftrightarrow> 2 ^ n \<le> uint v"
proof (cases "2 ^ n \<le> uint v")
  case True
  then have "uint v div 2 ^ n = (uint v - 2 ^ n) div 2 ^ n + 1"
    by (simp add: div_pos_geq)
  also have "(uint v - 2 ^ n) div 2 ^ n = 0"
    using True assms by (intro div_pos_pos_trivial) auto
  finally show ?thesis
    using True by (simp add: bit_iff_uint_div)
next
  case False
  then have "uint v div 2 ^ n = 0"
    by (intro div_pos_pos_trivial) auto
  then show ?thesis
    using False by (simp add: bit_iff_uint_div)
qed

text \<open>A word whose upper bits are clear.\<close>

lemma uint_lt_iff_bits:
  "uint (v :: 'a::len word) < 2 ^ k \<longleftrightarrow> (\<forall>n. k \<le> n \<longrightarrow> \<not> bit v n)"
proof
  assume "uint v < 2 ^ k"
  then have "v AND mask k = v" by (simp add: mask_eq_iff)
  then show "\<forall>n. k \<le> n \<longrightarrow> \<not> bit v n"
    by (metis bit_and_iff bit_mask_iff not_le)
next
  assume "\<forall>n. k \<le> n \<longrightarrow> \<not> bit v n"
  then have "v AND mask k = v"
    by (intro bit_word_eqI) (auto simp: bit_and_iff bit_mask_iff not_le)
  then show "uint v < 2 ^ k" by (simp add: mask_eq_iff)
qed

text \<open>Equality of two words bit by bit, for terms whose bits evaluate.\<close>

lemma cint_eq_bitsI: "list_all (\<lambda>n. bit a n = bit b n) 
      [0, 1, 2, 3, 4, 5, 6, 7, 8, 9, 10, 11, 12, 13, 14, 15, 
      16, 17, 18, 19, 20, 21, 22, 23, 24, 25, 26, 27, 28, 29, 30, 31] \<Longrightarrow> (a :: cint) = b"
  by (rule bit_word_eqI) (auto simp: less_Suc_eq numeral_eq_Suc)

lemma u8_eq_bitsI: "list_all (\<lambda>n. bit a n = bit b n) 
      [0, 1, 2, 3, 4, 5, 6, 7] \<Longrightarrow> (a :: u8) = b"
  by (rule bit_word_eqI) (auto simp: less_Suc_eq numeral_eq_Suc)

section \<open>Signed values\<close>

lemma sint_word_of_int_small:
  assumes "- 2147483648 \<le> k" and "k < 2147483648"
  shows "sint (word_of_int k :: cint) = k"
proof -
  have "sint (word_of_int k :: cint) = signed_take_bit 31 k"
    by (simp add: signed_of_int)
  then show ?thesis
    using assms by (simp add: signed_take_bit_int_eq_self)
qed

lemma sint_cint_bounds: "- 2147483648 \<le> sint (v :: cint)" "sint (v :: cint) < 2147483648"
  using sint_greater_eq [of v] sint_less [of v] by simp_all

lemma sint_small: "uint (v :: cint) < 2147483648 \<Longrightarrow> sint v = uint v"
  using sint_word_of_int_small [of "uint v"] uint_ge_0 [of v] by simp

lemma sint_uminus_small: "uint (v :: cint) < 2147483648 \<Longrightarrow> sint (- v) = - uint v"
  using sint_word_of_int_small [of "- uint v"] uint_ge_0 [of v] by simp

lemma sint_times_small:
  assumes "- 2147483648 \<le> sint a * sint b" and "sint a * sint b < 2147483648"
  shows "sint (a * b :: cint) = sint a * sint b"
  using sint_word_of_int_small [OF assms] by simp

lemma sint_plus_small:
  "- 2147483648 \<le> sint a + sint b \<Longrightarrow> sint a + sint b < 2147483648 \<Longrightarrow>
     sint (a + b :: cint) = sint a + sint b"
  using sint_word_of_int_small [of "sint a + sint b"] by simp

lemma sint_minus_small:
  "- 2147483648 \<le> sint a - sint b \<Longrightarrow> sint a - sint b < 2147483648 \<Longrightarrow>
     sint (a - b :: cint) = sint a - sint b"
  using sint_word_of_int_small [of "sint a - sint b"] by simp

lemma sint_uminus:
  assumes "- 2147483648 < sint (a :: cint)"
  shows "sint (- a) = - sint a"
  using assms sint_word_of_int_small [of "- sint a"] sint_cint_bounds [of a] by simp

lemma uint_word_of_int_small:
  assumes "0 \<le> k" and "k < 4294967296"
  shows "uint (word_of_int k :: cint) = k"
  using assms by (simp add: uint_word_of_int)

lemma uint_of_nonneg: "0 \<le> sint x \<Longrightarrow> uint (x :: cint) = sint x"
  using uint_word_of_int_small [of "sint x"] sint_cint_bounds [of x] by simp

lemma uint_of_neg: "sint x < 0 \<Longrightarrow> uint (- x :: cint) = - sint x"
  using uint_word_of_int_small [of "- sint x"] sint_cint_bounds [of x] by simp

lemma sint_i16_small: "uint (w :: i16) < 32768 \<Longrightarrow> sint w = uint w"
  by (simp add: sint_uint signed_take_bit_int_eq_self)

lemma sless_0_iff: "x <s 0 \<longleftrightarrow> sint (x :: cint) < 0"
  by (simp add: word_sless_alt)

lemma int_div_less: "0 < d \<Longrightarrow> a < d * k \<Longrightarrow> a div d < (k :: int)"
proof (rule ccontr)
  assume d: "0 < d" "a < d * k" and "\<not> a div d < k"
  then have "d * k \<le> d * (a div d)"
    by (intro mult_left_mono) auto
  also have "\<dots> \<le> a"
    using mult_div_mod_eq [of d a] pos_mod_sign [OF d(1), of a] by linarith
  finally show False using d(2) by simp
qed

text \<open>A number of the right size is the value of the word with its bits.\<close>

lemma sint_eq_bitsI:
  assumes "\<And>n. n < LENGTH('a) \<Longrightarrow> bit (w :: 'a::len word) n = bit k n"
    and "- (2 ^ (LENGTH('a) - 1)) \<le> k" "k < 2 ^ (LENGTH('a) - 1)"
  shows "sint w = k"
proof -
  have "w = word_of_int k"
    by (rule bit_word_eqI) (simp add: assms(1) bit_simps)
  then show ?thesis
    using assms(2,3) by (simp add: signed_of_int signed_take_bit_int_eq_self)
qed

lemma sint_scast_64 [simp]: "sint (scast (v :: cint) :: u64) = sint v"
proof (rule sint_eq_bitsI)
  show "bit (scast v :: u64) n = bit (sint v) n" if "n < LENGTH(64)" for n
    using that by (auto simp: bit_simps)
qed (use sint_cint_bounds [of v] in auto)

section \<open>Lists\<close>

lemma list_update_last: "xs \<noteq> [] \<Longrightarrow> xs[length xs - 1 := y] = butlast xs @ [y]"
  by (cases xs rule: rev_cases) simp_all

end
