(* ===== verification/AGC_Arith.thy ===== *)
theory AGC_Arith
  imports Prelude
begin

text \<open>
  The arithmetic helpers of \<open>src/yaAGC/agc_engine.c\<close> (lines 899-1178): conversions
  between the one's-complement formats of the guidance computer and C integers, overflow of
  the 16-bit accumulator, the end-around-carry addition \<open>AddSP16\<close> and the double
  precision format that \<open>MP\<close> and \<open>DV\<close> use.  Octal constants of the source are
  written in hexadecimal: \<open>040000 = 0x4000\<close>, \<open>037777 = 0x3FFF\<close>,
  \<open>077777 = 0x7FFF\<close>, \<open>0100000 = 0x8000\<close>, \<open>0177777 = 0xFFFF\<close>.
\<close>

unbundle bit_operations_syntax

section \<open>The functions\<close>

abbreviation (input) AGC_P0 :: "'a::len word" where "AGC_P0 \<equiv> 0"
abbreviation (input) AGC_M0 :: "'a::len word" where "AGC_M0 \<equiv> 0x7FFF"
abbreviation (input) AGC_P1 :: "'a::len word" where "AGC_P1 \<equiv> 1"
abbreviation (input) AGC_M1 :: "'a::len word" where "AGC_M1 \<equiv> 0x7FFE"

definition dabs :: "i16 \<Rightarrow> i16" where
  "dabs Input =
     (let i = (if 0x4000 AND Input \<noteq> 0 then 0x3FFF AND NOT Input else Input)
      in if 1 <s i then i - 1 else AGC_P0)"

definition odabs :: "cint \<Rightarrow> cint" where
  "odabs Input =
     (let i = (if 0x8000 AND Input \<noteq> 0 then 0xFFFF AND NOT Input else Input)
      in if 1 <s i then i - 1 else AGC_P0)"

definition agc2cpu :: "cint \<Rightarrow> cint" where
  "agc2cpu Input =
     (if 0x4000 AND Input \<noteq> 0 then - (0x3FFF AND NOT Input) else 0x3FFF AND Input)"

definition cpu2agc :: "cint \<Rightarrow> cint" where
  "cpu2agc Input = (if Input <s 0 then 0x7FFF AND NOT (- Input) else 0x7FFF AND Input)"

definition agc2cpu2 :: "cint \<Rightarrow> cint" where
  "agc2cpu2 Input =
     (if 0x10000000 AND Input \<noteq> 0 then - (0x0FFFFFFF AND NOT Input) else 0x0FFFFFFF AND Input)"

definition cpu2agc2 :: "cint \<Rightarrow> cint" where
  "cpu2agc2 Input =
     (if Input <s 0 then 0x1FFFFFFF AND NOT (0x0FFFFFFF AND (- Input)) else 0x0FFFFFFF AND Input)"

definition ValueOverflowed :: "cint \<Rightarrow> i16" where
  "ValueOverflowed Value =
     (if Value AND 0xC000 = 0x4000 then AGC_P1
      else if Value AND 0xC000 = 0x8000 then AGC_M1
      else AGC_P0)"

definition OverflowCorrected :: "cint \<Rightarrow> i16" where
  "OverflowCorrected Value = i16_of_int ((Value AND 0x3FFF) OR (sar 1 Value AND 0x4000))"

definition SignExtend :: "i16 \<Rightarrow> cint" where
  "SignExtend Word = (int_of_i16 Word AND 0x7FFF) OR (shl 1 (int_of_i16 Word) AND 0x8000)"

text \<open>
  \<open>SpToDecent\<close> gets a pointer to the less significant word of a pair; here it gets the
  two words.  \<open>DecentToSp\<close> returns the pair (more significant word first).
\<close>

definition SpToDecent :: "i16 \<Rightarrow> i16 \<Rightarrow> cint" where
  "SpToDecent Msb Lsb =
     (if Msb = AGC_P0 \<or> Msb = AGC_M0 then
        (let Value = SignExtend Lsb;
             Value = (if Value AND 0x8000 \<noteq> 0 then Value OR NOT 0xFFFF else Value)
         in 0x3FFFFFFF AND Value)
      else
        (let (Msb, Lsb) =
           (if 0x4000 AND Lsb \<noteq> 0x4000 AND Msb then
              if Lsb = AGC_P0 \<or> Lsb = AGC_M0 then
                (Msb, if 0x4000 AND Msb = 0 then AGC_P0 else AGC_M0)
              else
                (let Complement = 0x4000 AND Msb;
                     Msb = (if Complement \<noteq> 0 then 0x7FFF AND NOT Msb else Msb);
                     Lsb = (if Complement \<noteq> 0 then 0x7FFF AND NOT Lsb else Lsb);
                     Msb = Msb - 1;
                     Lsb = (Lsb + 0x4000 + AGC_P1) AND 0x7FFF
                 in if Complement \<noteq> 0 then (0x7FFF AND NOT Msb, 0x7FFF AND NOT Lsb)
                    else (Msb, Lsb))
            else (Msb, Lsb));
             Value = (0x1FFFC000 AND shl 14 (int_of_i16 Msb)) OR (0x3FFF AND int_of_i16 Lsb)
         in if 0x10000000 AND Value \<noteq> 0 then Value OR 0x20000000 else Value))"

definition DecentToSp :: "cint \<Rightarrow> i16 \<times> i16" where
  "DecentToSp Decent =
     (let Sign = Decent AND 0x20000000;
          Lsb = i16_of_int (0x3FFF AND Decent);
          Lsb = (if Sign \<noteq> 0 then Lsb OR 0x4000 else Lsb)
      in (OverflowCorrected (0xFFFF AND sar 14 Decent), Lsb))"

definition AddSP16 :: "cint \<Rightarrow> cint \<Rightarrow> cint" where
  "AddSP16 Addend1 Addend2 =
     (let Sum = Addend1 + Addend2
      in if Sum AND 0x10000 \<noteq> 0 then (Sum + AGC_P1) AND 0xFFFF else Sum)"

definition AbsSP :: "i16 \<Rightarrow> i16" where
  "AbsSP Value = (if 0x4000 AND Value \<noteq> 0 then 0x7FFF AND NOT Value else Value)"

definition NegateSP :: "i16 \<Rightarrow> i16" where
  "NegateSP Value = 0x7FFF AND NOT Value"

section \<open>What the formats mean\<close>

text \<open>
  The value of a 15-bit single precision word (sign bit 15 of the manuals, bit 14 here), of a
  16-bit accumulator word and of a double precision pair.
\<close>

definition sp_val :: "i16 \<Rightarrow> int" where
  "sp_val w = (if bit w 14 then - uint (0x3FFF AND NOT w) else uint (0x3FFF AND w))"

definition acc_val :: "cint \<Rightarrow> int" where
  "acc_val v = (if bit v 15 then - uint (0x7FFF AND NOT v) else uint (0x7FFF AND v))"

definition dp_val :: "i16 \<Rightarrow> i16 \<Rightarrow> int" where
  "dp_val Msb Lsb = sp_val Msb * 2 ^ 14 + sp_val Lsb"

section \<open>Bits and values of the conversions\<close>

lemma bit_SignExtend [simp]:
  "bit (SignExtend w) n \<longleftrightarrow> (if n < 15 then bit w n else n = 15 \<and> bit w 14)"
  by (cases "n < 16")
    (auto simp: SignExtend_def bit_and_iff bit_or_iff bit_shl mask_bits lt_steps(3))

lemma bit_OverflowCorrected [simp]:
  "bit (OverflowCorrected v) n \<longleftrightarrow> (if n < 14 then bit v n else n = 14 \<and> bit v 15)"
  by (auto simp: OverflowCorrected_def bit_and_iff bit_or_iff bit_sar mask_bits)

lemma OverflowCorrected_SignExtend [simp]: "OverflowCorrected (SignExtend w) = 0x7FFF AND w"
  by (rule i16_eqI) (auto simp: bit_and_iff mask_bits lt_steps(2))

lemma SignExtend_and_FFFF [simp]: "0xFFFF AND SignExtend w = SignExtend w"
  by (rule bit_word_eqI) (auto simp: bit_and_iff mask_bits)

lemma uint_OverflowCorrected_lt: "uint (OverflowCorrected v) < 32768"
  using uint_lt_iff_bits [of "OverflowCorrected v" 15] by auto

lemma uint_SignExtend_lt: "uint (SignExtend w) < 65536"
  using uint_lt_iff_bits [of "SignExtend w" 16] by auto

lemma sp_val_eq:
  assumes "uint w < 32768"
  shows "sp_val w = (if uint w < 16384 then uint w else uint w - 32767)"
  using assms bit_top_iff [of w 14]
  by (auto simp: sp_val_def mod_upper_half) 

lemma acc_val_eq:
  assumes "uint v < 65536"
  shows "acc_val v = (if uint v < 32768 then uint v else uint v - 65535)"
  using assms bit_top_iff [of v 15]
  by (auto simp: acc_val_def mod_upper_half)

section \<open>End-around-carry addition\<close>

lemma uint_AddSP16:
  assumes "uint a < 65536" and "uint b < 65536"
  shows "uint (AddSP16 a b) =
    (if uint a + uint b < 65536 then uint a + uint b else uint a + uint b - 65535)"
proof -
  have sum: "uint (a + b) = uint a + uint b"
    using assms by (simp add: uint_plus_if')
  have carry: "bit (a + b) 16 \<longleftrightarrow> 65536 \<le> uint a + uint b"
    using bit_top_iff [of "a + b" 16] assms by (simp add: sum)
  have "uint (a + b + 1) = uint a + uint b + 1"
    using assms by (simp add: uint_plus_if' [of "a + b"] sum)
  then have "uint (0xFFFF AND (a + b + 1)) = (uint a + uint b + 1) mod 65536"
    by simp
  then show ?thesis
    using assms by (auto simp: AddSP16_def Let_def sum carry and.commute mod_upper_half)
qed

lemma AddSP16_lt: "uint a < 65536 \<Longrightarrow> uint b < 65536 \<Longrightarrow> uint (AddSP16 a b) < 65536"
  by (simp add: uint_AddSP16)

section \<open>Conversions to and from C integers\<close>

text \<open>The 29-bit format of double precision values: sign bit 28, 28 bits of magnitude.\<close>

definition dec_val :: "cint \<Rightarrow> int" where
  "dec_val v =
     (if bit v 28 then - uint (0x0FFFFFFF AND NOT v) else uint (0x0FFFFFFF AND v))"

lemma sp_val_bounds: "- 16383 \<le> sp_val w" "sp_val w \<le> 16383"
  using pos_mod_bound [of 16384 "uint w"] pos_mod_sign [of 16384 "uint w"]
  by (auto simp: sp_val_def)

lemma mod_bounds: "0 < (m :: int) \<Longrightarrow> 0 \<le> k mod m \<and> k mod m < m"
  by simp

lemma sint_agc2cpu:
  assumes "\<And>n. n < 15 \<Longrightarrow> bit v n = bit w n"
  shows "sint (agc2cpu v) = sp_val w"
proof -
  have u: "uint v mod 16384 = uint w mod 16384"
  proof -
    have "bit (take_bit 14 (uint v)) n = bit (take_bit 14 (uint w)) n" for n
      using assms [of n] by (cases "n < 14") (auto simp: bit_take_bit_iff bit_uint_iff)
    then show ?thesis
      by (simp add: bit_eq_iff take_bit_eq_mod)
  qed
  show ?thesis
    using assms [of 14] mod_bounds [of 16384 "uint w"]
    by (simp add: agc2cpu_def sp_val_def sint_uminus_small sint_small u)
qed

lemma uint_i16_of_int: "uint (i16_of_int v) = uint v mod 65536"
  by (simp add: unsigned_ucast_eq take_bit_eq_mod)

lemma uint_cpu2agc:
  assumes "\<bar>sint x\<bar> \<le> 16383"
  shows "uint (cpu2agc x) = (if sint x < 0 then 32767 + sint x else sint x)"
  using assms uint_of_neg [of x] uint_of_nonneg [of x]
  by (auto simp: cpu2agc_def sless_0_iff)

lemma sp_val_cpu2agc:
  assumes "\<bar>sint x\<bar> \<le> 16383"
  shows "sp_val (i16_of_int (cpu2agc x)) = sint x"
proof -
  have "uint (i16_of_int (cpu2agc x)) = (if sint x < 0 then 32767 + sint x else sint x)"
    using assms by (simp add: uint_i16_of_int uint_cpu2agc)
  then show ?thesis
    using assms sp_val_eq [of "i16_of_int (cpu2agc x)"] by (auto split: if_splits)
qed

lemma dec_val_eq:
  assumes "uint v < 536870912"
  shows "dec_val v = (if uint v < 268435456 then uint v else uint v - 536870911)"
  using assms bit_top_iff [of v 28]
  by (auto simp: dec_val_def mod_upper_half)

lemma sint_agc2cpu2: "sint (agc2cpu2 v) = dec_val v"
  using mod_bounds [of 268435456 "uint v"]
  by (simp add: agc2cpu2_def dec_val_def sint_uminus_small sint_small)

lemma uint_cpu2agc2:
  assumes "\<bar>sint x\<bar> \<le> 268435455"
  shows "uint (cpu2agc2 x) = (if sint x < 0 then 536870911 + sint x else sint x)"
proof -
  have "0x0FFFFFFF AND y = y" if "uint y < 268435456" for y :: cint
    using that mask_eq_iff [of y 28] by (simp add: low_masks and.commute)
  then show ?thesis
    using assms uint_of_neg [of x] uint_of_nonneg [of x]
    by (auto simp: cpu2agc2_def sless_0_iff)
qed

lemma dec_val_cpu2agc2:
  assumes "\<bar>sint x\<bar> \<le> 268435455"
  shows "dec_val (cpu2agc2 x) = sint x"
  using assms uint_cpu2agc2 [OF assms] dec_val_eq [of "cpu2agc2 x"] by (auto split: if_splits)

section \<open>Double precision\<close>

lemma uint_join:
  "uint ((0x1FFFC000 AND shl 14 (int_of_i16 m)) OR (0x3FFF AND int_of_i16 l)) =
     (uint m mod 32768) * 16384 + uint l mod 16384"
proof -
  let ?m = "0x1FFFC000 AND shl 14 (int_of_i16 m)" and ?l = "0x3FFF AND int_of_i16 l"
  have m: "?m = push_bit 14 (0x7FFF AND int_of_u16 m)"
    by (rule bit_word_eqI) (auto simp: bit_and_iff bit_shl bit_push_bit_iff mask_bits)
  have um: "uint ?m = (uint m mod 32768) * 16384"
    unfolding m unsigned_push_bit_eq
    using mod_bounds [of 32768 "uint m"] uint_i16_lt [of m]
    by (simp add: push_bit_eq_mult take_bit_int_eq_self unsigned_ucast_eq)
  have "?l = 0x3FFF AND int_of_u16 l"
    by (rule bit_word_eqI) (auto simp: bit_and_iff mask_bits)
  then have ul: "uint ?l = uint l mod 16384"
    using uint_i16_lt [of l] by (simp add: unsigned_ucast_eq take_bit_int_eq_self)
  have "?m AND ?l = 0"
    by (rule bit_word_eqI) (auto simp: bit_and_iff mask_bits)
  then have "?m OR ?l = ?m + ?l"
    by (simp add: disjunctive_add_eq_or)
  then show ?thesis
    using um ul mod_bounds [of 32768 "uint m"] mod_bounds [of 16384 "uint l"]
    by (simp add: uint_plus_if')
qed

text \<open>The pair that \<open>SpToDecent\<close> juxtaposes: both words with the sign of the value.\<close>

definition same_sign :: "i16 \<Rightarrow> i16 \<Rightarrow> i16 \<times> i16" where
  "same_sign Msb Lsb =
     (if 0x4000 AND Lsb \<noteq> 0x4000 AND Msb then
        if Lsb = AGC_P0 \<or> Lsb = AGC_M0 then
          (Msb, if 0x4000 AND Msb = 0 then AGC_P0 else AGC_M0)
        else if 0x4000 AND Msb \<noteq> 0 then
          (0x7FFF AND NOT ((0x7FFF AND NOT Msb) - 1),
           0x7FFF AND NOT (0x7FFF AND ((0x7FFF AND NOT Lsb) + 0x4000 + AGC_P1)))
        else (Msb - 1, 0x7FFF AND (Lsb + 0x4000 + AGC_P1))
      else (Msb, Lsb))"

lemma bit14_iff_mod: "bit (w :: i16) 14 \<longleftrightarrow> 16384 \<le> uint w mod 32768"
proof -
  have "bit w 14 \<longleftrightarrow> bit (0x7FFF AND w) 14"
    by (simp add: bit_and_iff mask_bits)
  then show ?thesis
    using bit_top_iff [of "0x7FFF AND w" 14] mod_bounds [of 32768 "uint w"] by simp
qed

lemma sp_val_mod:
  "sp_val w = (if uint w mod 32768 < 16384 then uint w mod 32768 else uint w mod 32768 - 32767)"
proof -
  let ?V = "uint w mod 32768"
  have "uint w mod 16384 = ?V mod 16384"
    by (simp add: mod_mod_cancel)
  also have "\<dots> = (if ?V < 16384 then ?V else ?V - 16384)"
    using mod_bounds [of 32768 "uint w"] by (simp add: mod_upper_half)
  finally show ?thesis
    by (simp add: sp_val_def bit14_iff_mod)
qed

lemma uint_borrow:
  "uint (0x7FFF AND ((l :: i16) + 0x4000 + 1)) = (uint l mod 32768 + 16385) mod 32768"
proof -
  have "uint (l + 0x4001) = (uint l + 16385) mod 65536"
    by (simp add: uint_word_ariths(1))
  then show ?thesis
    by (simp add: add.assoc mod_mod_cancel mod_simps)
qed

text \<open>The words of \<open>L\<close> for which the test \<open>Lsb == AGC_M0\<close> (or \<open>AGC_P0\<close>) misses
  a zero: minus zero and plus zero with bit 16 set.\<close>

definition unnoticed_zero :: "i16 \<Rightarrow> bool" where
  "unnoticed_zero l \<longleftrightarrow> l = 0xFFFF \<or> l = 0x8000"

lemma zero_cases:
  assumes "\<not> unnoticed_zero l"
  shows "uint l mod 32768 = 0 \<longleftrightarrow> l = 0" and "uint l mod 32768 = 32767 \<longleftrightarrow> l = 0x7FFF"
proof -
  have l: "uint l < 65536" by (rule uint_i16_lt)
  have n: "uint l \<noteq> 65535" "uint l \<noteq> 32768"
    using assms by (auto simp: unnoticed_zero_def word_uint_eq_iff)
  have "uint l = 0 \<longleftrightarrow> l = 0" "uint l = 32767 \<longleftrightarrow> l = 0x7FFF"
    by (auto simp: word_uint_eq_iff)
  moreover have "uint l mod 32768 = (if uint l < 32768 then uint l else uint l - 32768)"
    using l by (simp add: mod_upper_half)
  ultimately show "uint l mod 32768 = 0 \<longleftrightarrow> l = 0" "uint l mod 32768 = 32767 \<longleftrightarrow> l = 0x7FFF"
    using n by (auto split: if_splits)
qed

lemma and_4000_eq_iff: "0x4000 AND (a :: i16) = 0x4000 AND b \<longleftrightarrow> (bit a 14 \<longleftrightarrow> bit b 14)"
proof -
  have "0x4000 AND x = (if bit x 14 then 0x4000 else 0)" for x :: i16
    by (rule i16_eqI) (auto simp: bit_and_iff mask_bits)
  then show ?thesis by simp
qed

lemma mod_16384_eq:
  "uint (l :: i16) mod 16384 =
     (if bit l 14 then uint l mod 32768 - 16384 else uint l mod 32768)"
  using sp_val_mod [of l] by (auto simp: sp_val_def bit14_iff_mod split: if_splits)

lemma same_sign_join:
  assumes m: "uint m < 32768" "m \<noteq> 0" "m \<noteq> 0x7FFF" and l: "\<not> unnoticed_zero l"
    and eq: "same_sign m l = (m', l')"
  shows "(uint m' mod 32768) * 16384 + uint l' mod 16384 =
      (if bit m 14 then dp_val m l + 536870911 else dp_val m l)" (is "?J = ?R")
proof -
  let ?M = "uint m" and ?L = "uint l mod 32768"
  have M: "?M \<noteq> 0" "?M \<noteq> 32767"
    using m by (auto simp: word_uint_eq_iff)
  have L: "0 \<le> ?L" "?L < 32768"
    by simp_all
  have R: "?R = (if bit m 14 then (?M - 32767) * 16384 + sp_val l + 536870911
                 else ?M * 16384 + sp_val l)"
    using m M by (simp add: dp_val_def sp_val_mod [of m] bit14_iff_mod [of m])
  show ?thesis
  proof (cases "bit l 14 = bit m 14")
    case True
    then have "m' = m" "l' = l"
      using eq by (auto simp: same_sign_def and_4000_eq_iff)
    then show ?thesis
      using True m L R by (auto simp: sp_val_mod [of l] bit14_iff_mod mod_16384_eq split: if_splits)
  next
    case sign: False
    show ?thesis
    proof (cases "l = 0 \<or> l = 0x7FFF")
      case True
      then have "m' = m" "l' = (if bit m 14 then 0x7FFF else 0)"
        using eq sign by (auto simp: same_sign_def and_4000_eq_iff)
      then show ?thesis
        using True sign m R by (auto simp: sp_val_mod [of l] bit14_iff_mod split: if_splits)
    next
      case nz: False
      with zero_cases [OF l] have L': "?L \<noteq> 0" "?L \<noteq> 32767" by auto
      show ?thesis
      proof (cases "bit m 14")
        case True
        let ?cm = "0x7FFF AND NOT m" and ?cl = "0x7FFF AND NOT l"
        have eq': "m' = 0x7FFF AND NOT (?cm - 1)"
          "l' = 0x7FFF AND NOT (0x7FFF AND (?cl + 0x4000 + 1))"
          using eq sign nz True by (simp_all add: same_sign_def and_4000_eq_iff)
        have cm: "uint ?cm = 32767 - ?M" and cl: "uint ?cl = 32767 - ?L"
          using m by simp_all
        have "uint (?cm - 1) = 32766 - ?M"
          using cm m M by (simp add: uint_sub_if')
        moreover have "(32766 - ?M) mod 32768 = 32766 - ?M"
          using m M uint_ge_0 [of m] by (intro mod_pos_pos_trivial) linarith+
        ultimately have m': "uint m' = ?M + 1"
          by (simp add: eq'(1))
        define b where "b = 0x7FFF AND (?cl + 0x4000 + 1)"
        have "uint b = 32767 - ?L - 16383"
          using cl L sign True unfolding b_def
          by (simp only: uint_borrow) (simp add: mod_upper_half bit14_iff_mod)
        moreover have "l' = 0x7FFF AND NOT b"
          by (simp add: eq'(2) b_def)
        ultimately have "uint l' = ?L + 16383"
          using L sign True by (simp add: bit14_iff_mod)
        then have "uint l' mod 16384 = ?L - 1"
          using L L' sign True by (simp add: mod_upper_half bit14_iff_mod)
        then show ?thesis
          using True sign m M L m' unfolding R by (simp add: sp_val_mod [of l] bit14_iff_mod)
      next
        case False
        have eq': "m' = m - 1" "l' = 0x7FFF AND (l + 0x4000 + 1)"
          using eq sign nz False by (simp_all add: same_sign_def and_4000_eq_iff)
        have "1 \<le> ?M"
          using M uint_ge_0 [of m] by linarith
        then have m': "uint m' = ?M - 1"
          by (simp add: eq'(1) uint_sub_if')
        have "uint l' = ?L - 16383"
          using L sign False unfolding eq'(2)
          by (simp only: uint_borrow) (simp add: mod_upper_half bit14_iff_mod)
        then have "uint l' mod 16384 = ?L - 16383"
          using L L' sign False by (simp add: bit14_iff_mod)
        moreover have "(?M - 1) mod 32768 = ?M - 1"
          using m \<open>1 \<le> ?M\<close> by (intro mod_pos_pos_trivial) linarith+
        ultimately show ?thesis
          using False sign m M L m' unfolding R
          by (simp add: sp_val_mod [of l] bit14_iff_mod algebra_simps)
      qed
    qed
  qed
qed

lemma SpToDecent_eq_same_sign:
  assumes "m \<noteq> 0" and "m \<noteq> 0x7FFF"
  shows "SpToDecent m l =
    (case same_sign m l of (m', l') \<Rightarrow>
       let v = (0x1FFFC000 AND shl 14 (int_of_i16 m')) OR (0x3FFF AND int_of_i16 l')
       in if bit v 28 then v OR 0x20000000 else v)"
  using assms
  by (simp add: SpToDecent_def same_sign_def Let_def and.commute [of _ "0x7FFF"]
      split del: if_split cong: if_cong)

lemma dec_val_or_bit29 [simp]: "dec_val (v OR 0x20000000) = dec_val v"
proof -
  have "0x0FFFFFFF AND NOT (v OR 0x20000000) = 0x0FFFFFFF AND NOT v"
    "0x0FFFFFFF AND (v OR 0x20000000) = 0x0FFFFFFF AND v"
    by (rule bit_word_eqI; auto simp: bit_and_iff bit_or_iff bit_not_iff mask_bits)+
  then show ?thesis
    by (simp only: dec_val_def bit_or_iff) (simp add: mask_bits)
qed

lemma dec_val_SpToDecent_zero:
  assumes "m = 0 \<or> m = 0x7FFF"
  shows "dec_val (SpToDecent m l) = sp_val l" and "bit (SpToDecent m l) 29 \<longleftrightarrow> bit l 14"
    and "bit (SpToDecent m l) 28 \<longleftrightarrow> bit l 14"
proof -
  let ?v = "SpToDecent m l"
  have bits: "bit ?v n \<longleftrightarrow> (if n < 15 then bit l n else n < 30 \<and> bit l 14)" for n
    using assms
    by (auto simp: SpToDecent_def Let_def bit_and_iff bit_or_iff bit_not_iff mask_bits)
  then show "bit ?v 29 \<longleftrightarrow> bit l 14" "bit ?v 28 \<longleftrightarrow> bit l 14" by simp_all
  have "bit l 14 \<Longrightarrow> 0x0FFFFFFF AND NOT ?v = int_of_u16 (0x3FFF AND NOT l)"
    "\<not> bit l 14 \<Longrightarrow> 0x0FFFFFFF AND ?v = int_of_u16 (0x3FFF AND l)"
    by (rule bit_word_eqI; auto simp: bits bit_and_iff bit_not_iff mask_bits lt_steps(2))+
  moreover have "uint (int_of_u16 w) = uint w" for w
    using uint_i16_lt [of w] by (simp add: unsigned_ucast_eq take_bit_int_eq_self)
  ultimately show "dec_val ?v = sp_val l"
    using bits [of 28] by (simp only: dec_val_def sp_val_def) auto
qed

lemma sp_val_nonzero:
  assumes "uint m < 32768" "m \<noteq> 0" "m \<noteq> 0x7FFF"
  shows "bit m 14 \<Longrightarrow> sp_val m \<le> - 1" and "\<not> bit m 14 \<Longrightarrow> 1 \<le> sp_val m"
proof -
  have "uint m \<noteq> 0" "uint m \<noteq> 32767" using assms by (auto simp: word_uint_eq_iff)
  then have "1 \<le> uint m" "uint m < 32767" using assms(1) uint_ge_0 [of m] by linarith+
  then show "bit m 14 \<Longrightarrow> sp_val m \<le> - 1" "\<not> bit m 14 \<Longrightarrow> 1 \<le> sp_val m"
    by (auto simp: sp_val_mod bit14_iff_mod)
qed

lemma SpToDecent_nonzero:
  assumes m: "uint m < 32768" "m \<noteq> 0" "m \<noteq> 0x7FFF" and l: "\<not> unnoticed_zero l"
  shows "dec_val (SpToDecent m l) = dp_val m l"
    and "bit (SpToDecent m l) 29 \<longleftrightarrow> bit m 14" and "bit (SpToDecent m l) 28 \<longleftrightarrow> bit m 14"
proof -
  obtain m' l' where eq: "same_sign m l = (m', l')" by fastforce
  define v where "v = (0x1FFFC000 AND shl 14 (int_of_i16 m')) OR (0x3FFF AND int_of_i16 l')"
  have v: "uint v = (if bit m 14 then dp_val m l + 536870911 else dp_val m l)"
    unfolding v_def uint_join by (rule same_sign_join [OF m l eq])
  have b: "if bit m 14 then - 268435455 \<le> dp_val m l \<and> dp_val m l < 0
           else 0 < dp_val m l \<and> dp_val m l \<le> 268435455"
    using sp_val_nonzero [OF m] sp_val_bounds [of m] sp_val_bounds [of l] by (auto simp: dp_val_def)
  have S: "SpToDecent m l = (if bit v 28 then v OR 0x20000000 else v)"
    using m by (simp add: SpToDecent_eq_same_sign eq v_def Let_def)
  have lt: "uint v < 536870912"
    using v b by (auto split: if_splits)
  then have sign: "bit v 28 \<longleftrightarrow> bit m 14"
    using bit_top_iff [of v 28] v b by (auto split: if_splits)
  have "\<not> bit v 29"
    using lt uint_lt_iff_bits [of v 29] by auto
  then show "bit (SpToDecent m l) 29 \<longleftrightarrow> bit m 14" "bit (SpToDecent m l) 28 \<longleftrightarrow> bit m 14"
    using sign by (auto simp: S bit_or_iff mask_bits)
  have "dec_val v = dp_val m l"
    using dec_val_eq [OF lt] v b sign by (auto split: if_splits)
  then show "dec_val (SpToDecent m l) = dp_val m l"
    by (simp add: S)
qed

text \<open>\<open>SpToDecent\<close> computes the value of the pair, with bit 29 a copy of the sign bit 28.\<close>

lemma dec_val_SpToDecent:
  assumes "uint m < 32768" and "m = 0 \<or> m = 0x7FFF \<or> \<not> unnoticed_zero l"
  shows "dec_val (SpToDecent m l) = dp_val m l"
    and "bit (SpToDecent m l) 29 = bit (SpToDecent m l) 28"
proof -
  have z: "sp_val 0 = 0" "sp_val 0x7FFF = 0"
    by (simp_all add: sp_val_def mask_bits)
  show "dec_val (SpToDecent m l) = dp_val m l"
    using assms dec_val_SpToDecent_zero(1) [of m l] SpToDecent_nonzero(1) [of m l]
    by (cases "m = 0 \<or> m = 0x7FFF") (auto simp: dp_val_def z)
  show "bit (SpToDecent m l) 29 = bit (SpToDecent m l) 28"
    using assms dec_val_SpToDecent_zero(2,3) [of m l] SpToDecent_nonzero(2,3) [of m l]
    by (cases "m = 0 \<or> m = 0x7FFF") auto
qed

text \<open>\<open>DecentToSp\<close> splits a value into two words of its sign.\<close>

lemma bits_DecentToSp:
  assumes "DecentToSp d = (m, l)"
  shows "bit m n \<longleftrightarrow> (if n < 14 then bit d (n + 14) else n = 14 \<and> bit d 29)"
    and "bit l n \<longleftrightarrow> (if n < 14 then bit d n else n = 14 \<and> bit d 29)"
  using assms
  by (auto simp: DecentToSp_def Let_def bit_and_iff bit_or_iff bit_sar mask_bits add.commute
      split: if_splits)

lemma uint_DecentToSp_lt:
  assumes "DecentToSp d = (m, l)"
  shows "uint m < 32768" and "uint l < 32768"
  using uint_lt_iff_bits [of m 15] uint_lt_iff_bits [of l 15] bits_DecentToSp [OF assms] by auto

lemma uint_split_28:
  fixes d :: cint
  shows "uint (0x0FFFFFFF AND d) = uint (0x3FFF AND shr 14 d) * 2 ^ 14 + uint (0x3FFF AND d)"
proof -
  have "uint d mod 268435456 = uint d mod (16384 * 16384)" by simp
  also have "\<dots> = 16384 * (uint d div 16384 mod 16384) + uint d mod 16384"
    by (rule zmod_zmult2_eq) simp
  finally show ?thesis
    by (simp add: shr_def drop_bit_eq_div uint_div_distrib unsigned_drop_bit_eq)
qed

lemma dp_val_DecentToSp:
  assumes "DecentToSp d = (m, l)" and "bit d 29 = bit d 28"
  shows "dp_val m l = dec_val d"
proof -
  have u: "uint (int_of_u16 w) = uint w" for w
    using uint_i16_lt [of w] by (simp add: unsigned_ucast_eq take_bit_int_eq_self)
  have "int_of_u16 (0x3FFF AND m) = 0x3FFF AND shr 14 d"
    "int_of_u16 (0x3FFF AND NOT m) = 0x3FFF AND shr 14 (NOT d)"
    "int_of_u16 (0x3FFF AND l) = 0x3FFF AND d"
    "int_of_u16 (0x3FFF AND NOT l) = 0x3FFF AND NOT d"
    by (rule bit_word_eqI; auto simp: bits_DecentToSp [OF assms(1)] bit_and_iff bit_not_iff bit_shr
        mask_bits add.commute)+
  then have "uint (0x3FFF AND m) = uint (0x3FFF AND shr 14 d)"
    "uint (0x3FFF AND NOT m) = uint (0x3FFF AND shr 14 (NOT d))"
    "uint (0x3FFF AND l) = uint (0x3FFF AND d)"
    "uint (0x3FFF AND NOT l) = uint (0x3FFF AND NOT d)"
    using u by metis+
  then show ?thesis
    using assms(2) bits_DecentToSp [OF assms(1), of 14]
    by (simp only: dp_val_def sp_val_def dec_val_def uint_split_28) auto
qed

section \<open>Accumulator values and overflow\<close>

lemma uint_SignExtend: "uint (SignExtend w) =
    (if bit w 14 then uint w mod 32768 + 32768 else uint w mod 32768)"
proof -
  let ?h = "if bit w 14 then 0x8000 else 0 :: cint"
  have eq: "SignExtend w = int_of_u16 (0x7FFF AND w) OR ?h"
    by (rule bit_word_eqI) (auto simp: bit_or_iff bit_and_iff mask_bits)
  have u: "uint (int_of_u16 (0x7FFF AND w)) = uint w mod 32768"
    using mod_bounds [of 32768 "uint w"] by (simp add: unsigned_ucast_eq take_bit_int_eq_self)
  have "int_of_u16 (0x7FFF AND w) AND ?h = 0"
    by (rule bit_word_eqI) (auto simp: bit_and_iff mask_bits)
  then have "int_of_u16 (0x7FFF AND w) OR ?h = int_of_u16 (0x7FFF AND w) + ?h"
    by (simp add: disjunctive_add_eq_or)
  then show ?thesis
    using u mod_bounds [of 32768 "uint w"] by (simp add: eq uint_plus_if')
qed

lemma acc_val_SignExtend [simp]: "acc_val (SignExtend w) = sp_val w"
  using acc_val_eq [OF uint_SignExtend_lt, of w] mod_bounds [of 32768 "uint w"]
  by (simp add: uint_SignExtend sp_val_mod bit14_iff_mod)

lemma acc_val_AddSP16:
  assumes "uint a < 65536" "uint b < 65536" "\<bar>acc_val a + acc_val b\<bar> \<le> 32767"
  shows "acc_val (AddSP16 a b) = acc_val a + acc_val b"
  using assms(3) AddSP16_lt [OF assms(1,2)]
  by (auto simp: acc_val_eq assms(1,2) uint_AddSP16 split: if_splits)

lemma bit_of_mod:
  assumes "k < n"
  shows "bit (v :: 'a::len word) k \<longleftrightarrow> odd (uint v mod 2 ^ n div 2 ^ k)"
proof -
  have "bit v k \<longleftrightarrow> bit (take_bit n (uint v)) k"
    using assms by (auto simp: bit_take_bit_iff bit_uint_iff dest: bit_imp_le_length)
  then show ?thesis by (simp add: bit_iff_odd take_bit_eq_mod)
qed

lemma ValueOverflowed_bits:
  "ValueOverflowed v =
     (if bit v 14 = bit v 15 then AGC_P0 else if bit v 14 then AGC_P1 else AGC_M1)"
proof -
  have "v AND 0xC000 = (if bit v 14 then 0x4000 else 0) OR (if bit v 15 then 0x8000 else 0)"
    by (rule bit_word_eqI) (auto simp: bit_and_iff bit_or_iff mask_bits)
  then show ?thesis by (simp add: ValueOverflowed_def)
qed

lemma bit14_cases:
  assumes "uint (v :: cint) < 65536"
  shows "bit v 14 \<longleftrightarrow> 16384 \<le> uint v \<and> uint v < 32768 \<or> 49152 \<le> uint v"
proof -
  have "uint (0x7FFF AND v) = uint v mod 32768" by simp
  also have "\<dots> = (if uint v < 32768 then uint v else uint v - 32768)"
    using assms by (simp add: mod_upper_half)
  finally have u: "uint (0x7FFF AND v) = (if uint v < 32768 then uint v else uint v - 32768)" .
  have "bit v 14 \<longleftrightarrow> bit (0x7FFF AND v) 14"
    by (simp add: bit_and_iff mask_bits)
  also have "\<dots> \<longleftrightarrow> 16384 \<le> uint (0x7FFF AND v)"
    using bit_top_iff [of "0x7FFF AND v" 14] u assms by simp
  finally show ?thesis using u assms by (auto split: if_splits)
qed

lemma ValueOverflowed_acc_val:
  assumes "uint v < 65536"
  shows "ValueOverflowed v =
    (if 16383 < acc_val v then AGC_P1 else if acc_val v < - 16383 then AGC_M1 else AGC_P0)"
  using assms bit_top_iff [of v 15]
  by (auto simp: ValueOverflowed_bits bit14_cases acc_val_eq)

lemma uint_OverflowCorrected:
  assumes "uint v < 65536"
  shows "uint (OverflowCorrected v) = uint v mod 16384 + (if bit v 15 then 16384 else 0)"
proof -
  let ?h = "if bit v 15 then 0x4000 else 0 :: i16"
  have eq: "OverflowCorrected v = (i16_of_int (0x3FFF AND v)) OR ?h"
    by (rule bit_word_eqI) (auto simp: bit_or_iff bit_and_iff mask_bits)
  have u: "uint (i16_of_int (0x3FFF AND v)) = uint v mod 16384"
    using mod_bounds [of 16384 "uint v"] by (simp add: uint_i16_of_int)
  have "i16_of_int (0x3FFF AND v) AND ?h = 0"
    by (rule bit_word_eqI) (auto simp: bit_and_iff mask_bits)
  then have "i16_of_int (0x3FFF AND v) OR ?h = i16_of_int (0x3FFF AND v) + ?h"
    by (simp add: disjunctive_add_eq_or)
  then show ?thesis
    using u mod_bounds [of 16384 "uint v"] by (auto simp: eq uint_plus_if')
qed

lemma sp_val_OverflowCorrected:
  assumes "uint v < 65536"
  shows "sp_val (OverflowCorrected v) =
    (if 16383 < acc_val v then acc_val v - 16384
     else if acc_val v < - 16383 then acc_val v + 16384 else acc_val v)"
proof -
  let ?u = "uint v"
  have m: "?u mod 16384 = (if ?u < 16384 then ?u else if ?u < 32768 then ?u - 16384
      else if ?u < 49152 then ?u - 32768 else ?u - 49152)"
  proof -
    have "?u mod 16384 = ?u - 16384 * k" if "16384 * k \<le> ?u" "?u < 16384 * k + 16384" for k
    proof -
      have "?u mod 16384 = (?u - 16384 * k) mod 16384"
        by (simp add: mod_diff_eq [symmetric])
      also have "\<dots> = ?u - 16384 * k"
        using that by (intro mod_pos_pos_trivial) auto
      finally show ?thesis .
    qed
    from this [of 1] this [of 2] this [of 3] show ?thesis
      using assms by auto
  qed
  have b: "bit v 15 \<longleftrightarrow> 32768 \<le> ?u"
    using bit_top_iff [of v 15] assms by simp
  show ?thesis
    using assms sp_val_eq [OF uint_OverflowCorrected_lt, of v]
    by (auto simp: uint_OverflowCorrected b m acc_val_eq split: if_splits)
qed

section \<open>Diminished absolute values\<close>

lemma uint_dabs:
  assumes "uint w < 32768"
  shows "uint (dabs w) = max 0 (\<bar>sp_val w\<bar> - 1)"
proof -
  define i where "i = (if 0x4000 AND w \<noteq> 0 then 0x3FFF AND NOT w else w)"
  have i: "uint i = \<bar>sp_val w\<bar>"
    using assms bit_top_iff [of w 14] sp_val_eq [OF assms]
    by (auto simp: i_def mod_upper_half)
  have lt: "uint i < 16384"
    using sp_val_bounds [of w] by (simp add: i)
  then have "sint i = uint i"
    by (intro sint_i16_small) simp
  then have "1 <s i \<longleftrightarrow> 1 < uint i"
    by (simp add: word_sless_alt)
  then have "dabs w = (if 1 < uint i then i - 1 else 0)"
    by (simp add: dabs_def i_def Let_def)
  then show ?thesis
    using i uint_sub_if' [of i 1] by auto
qed

lemma uint_odabs:
  assumes "uint v < 65536"
  shows "uint (odabs v) = max 0 (\<bar>acc_val v\<bar> - 1)"
proof -
  define i where "i = (if 0x8000 AND v \<noteq> 0 then 0xFFFF AND NOT v else v)"
  have i: "uint i = \<bar>acc_val v\<bar>"
    using assms bit_top_iff [of v 15] acc_val_eq [OF assms]
    by (auto simp: i_def)
  have lt: "uint i < 65536"
    using assms by (simp add: i_def)
  then have "sint i = uint i"
    by (simp add: sint_small)
  then have "1 <s i \<longleftrightarrow> 1 < uint i"
    by (simp add: word_sless_alt)
  then have "odabs v = (if 1 < uint i then i - 1 else 0)"
    by (simp add: odabs_def i_def Let_def)
  then show ?thesis
    using i uint_sub_if' [of i 1] by auto
qed

section \<open>Registers\<close>

text \<open>Registers hold sign-extended words; the extension keeps the value.\<close>

lemma bit_i16_SignExtend [simp]:
  "bit (i16_of_int (SignExtend w)) n \<longleftrightarrow> (if n < 15 then bit w n else n = 15 \<and> bit w 14)"
  by auto

lemma sp_val_i16_SignExtend [simp]: "sp_val (i16_of_int (SignExtend w)) = sp_val w"
proof -
  have "0x3FFF AND NOT (i16_of_int (SignExtend w)) = 0x3FFF AND NOT w"
    "0x3FFF AND i16_of_int (SignExtend w) = 0x3FFF AND w"
    by (rule i16_eqI; auto simp: bit_and_iff bit_not_iff mask_bits)+
  then show ?thesis
    by (simp only: sp_val_def bit_i16_SignExtend) simp
qed

lemma dp_val_i16_SignExtend [simp]:
  "dp_val (i16_of_int (SignExtend m)) (i16_of_int (SignExtend l)) = dp_val m l"
  by (simp add: dp_val_def)

lemma sint_agc2cpu_SignExtend [simp]: "sint (agc2cpu (SignExtend w)) = sp_val w"
  by (rule sint_agc2cpu) simp

lemma sint_agc2cpu_i16 [simp]: "sint (agc2cpu (int_of_i16 w)) = sp_val w"
  by (rule sint_agc2cpu) simp

lemma OverflowCorrected_i16_SignExtend [simp]:
  "OverflowCorrected (int_of_i16 (i16_of_int (SignExtend w))) = 0x7FFF AND w"
  by (rule i16_eqI) (auto simp: bit_and_iff mask_bits lt_steps(2))

lemma ValueOverflowed_i16_SignExtend [simp]:
  "ValueOverflowed (int_of_i16 (i16_of_int (SignExtend w))) = AGC_P0"
  by (simp add: ValueOverflowed_bits)

lemma sp_val_and_7FFF [simp]: "sp_val (0x7FFF AND w) = sp_val w"
  by (simp add: sp_val_mod)

lemma AbsSP_value:
  assumes "uint w < 32768"
  shows "uint (AbsSP w) = \<bar>sp_val w\<bar>"
  using assms bit_top_iff [of w 14] by (auto simp: AbsSP_def sp_val_eq)

lemma sp_val_zero: "sp_val 0 = 0" "sp_val 0x7FFF = 0"
  by (simp_all add: sp_val_def mask_bits)

section \<open>Properties\<close>

text \<open>C14: adding two memory words through the 16-bit accumulator (\<open>AddSP16\<close> on the
  sign-extended words) is exact; \<open>ValueOverflowed\<close> reports exactly the sums outside the
  15-bit range, with their sign, and \<open>OverflowCorrected\<close> brings the sum back by
  \<open>16384\<close>.\<close>

theorem AddSP16_of_words:
  "let s = AddSP16 (SignExtend a) (SignExtend b); v = sp_val a + sp_val b
   in acc_val s = v \<and>
      ValueOverflowed s = (if 16383 < v then AGC_P1 else if v < - 16383 then AGC_M1 else AGC_P0) \<and>
      sp_val (OverflowCorrected s) =
        (if 16383 < v then v - 16384 else if v < - 16383 then v + 16384 else v)"
proof -
  let ?s = "AddSP16 (SignExtend a) (SignExtend b)"
  have lt: "uint ?s < 65536"
    by (intro AddSP16_lt uint_SignExtend_lt)
  have "acc_val ?s = sp_val a + sp_val b"
    using acc_val_AddSP16 [OF uint_SignExtend_lt uint_SignExtend_lt, of a b]
      sp_val_bounds [of a] sp_val_bounds [of b] by simp
  then show ?thesis
    unfolding Let_def ValueOverflowed_acc_val [OF lt] sp_val_OverflowCorrected [OF lt] by simp
qed

text \<open>A pair of words survives the conversion to the 29-bit format and back in value,
  and the words come back with equal signs (or the result is the given pair's value split
  with one sign), for every pair whose lower word is not the sign-extended minus zero.\<close>

theorem DecentToSp_SpToDecent:
  assumes "uint m < 32768" and "m = 0 \<or> m = 0x7FFF \<or> \<not> unnoticed_zero l"
    and "DecentToSp (SpToDecent m l) = (m', l')"
  shows "dp_val m' l' = dp_val m l \<and> (bit m' 14 \<longleftrightarrow> bit l' 14)"
proof
  show "dp_val m' l' = dp_val m l"
    using dp_val_DecentToSp [OF assms(3) dec_val_SpToDecent(2) [OF assms(1,2)]]
      dec_val_SpToDecent(1) [OF assms(1,2)] by simp
  show "bit m' 14 \<longleftrightarrow> bit l' 14"
    using bits_DecentToSp [OF assms(3), of 14] by simp
qed

theorem DecentToSp_SpToDecent_witness:
  "DecentToSp (SpToDecent 3 0x7FFE) = (2, 0x3FFF) \<and> dp_val 2 0x3FFF = dp_val 3 0x7FFE"
proof -
  have *: "DecentToSp (SpToDecent 3 0x7FFE) = (2, 0x3FFF)"
    by (simp add: SpToDecent_def DecentToSp_def OverflowCorrected_def shift_defs Let_def)
  show ?thesis
    using * DecentToSp_SpToDecent [OF _ _ *] by (simp add: unnoticed_zero_def)
qed

text \<open>The exception of the previous property, which the emulator reaches: for the pair
  \<open>A = 2\<close>, \<open>L = -0\<close> as the sign-extended register \<open>0177777\<close>, the
  conversion loses \<open>2 ^ 14\<close>, while the same minus zero as a 15-bit word is
  recognised.\<close>

theorem SpToDecent_minus_zero:
  "dp_val 2 0xFFFF = 32768 \<and> dec_val (SpToDecent 2 0xFFFF) = 16384 \<and>
   dec_val (SpToDecent 2 0x7FFF) = 32768"
proof -
  have e: "SpToDecent 2 0xFFFF = 0x4000" "SpToDecent 2 0x7FFF = 0x8000"
    by (simp_all add: SpToDecent_def shift_defs Let_def)
  show ?thesis
    unfolding e by (simp add: dp_val_def sp_val_def dec_val_def)
qed

end
