(* ===== verification/Packets.thy ===== *)
theory Packets
  imports Prelude
begin

text \<open>
  The 4-byte packets of the channel i/o protocol: \<open>FormIoPacket\<close>, \<open>ParseIoPacket\<close>
  and the variants for the abort guidance system, \<open>FormIoPacketAGS\<close> and
  \<open>ParseIoPacketAGS\<close>, of \<open>src/yaAGC/agc_utilities.c\<close>.  A packet buffer
  \<open>unsigned char Packet[4]\<close> is a 4-tuple of bytes; a function that returns 1 without
  touching its results is \<open>None\<close>, one that returns 0 is \<open>Some\<close> of the results.
\<close>

unbundle bit_operations_syntax

type_synonym packet = "u8 \<times> u8 \<times> u8 \<times> u8"

section \<open>The functions\<close>

definition FormIoPacket :: "cint \<Rightarrow> cint \<Rightarrow> packet option" where
  "FormIoPacket Channel Value =
     (if Channel <s 0 \<or> 0x1FF <s Channel then None
      else if Value <s 0 \<or> 0x7FFF <s Value then None
      else Some
        (ucast (sar 3 Channel),
         ucast (0x40 OR (shl 3 Channel AND 0x38) OR (sar 12 Value AND 0x07)),
         ucast (0x80 OR (sar 6 Value AND 0x3F)),
         ucast (0xC0 OR (Value AND 0x3F))))"

definition FormIoPacketAGS :: "cint \<Rightarrow> cint \<Rightarrow> packet option" where
  "FormIoPacketAGS Type Data =
     (if Type <s 0 \<or> 0x3F <s Type then None
      else
        let Data = Data AND 0x3FFFF
        in Some
          (ucast Type,
           ucast (0xC0 OR (sar 12 Data AND 0x3F)),
           ucast (0x80 OR (sar 6 Data AND 0x3F)),
           ucast (0x40 OR (Data AND 0x3F))))"

text \<open>The bytes are promoted to \<open>int\<close>; the results are channel, value and mask bit.\<close>

definition ParseIoPacket :: "packet \<Rightarrow> (cint \<times> cint \<times> cint) option" where
  "ParseIoPacket = (\<lambda>(p0, p1, p2, p3).
     if 0x00 \<noteq> 0xC0 AND (ucast p0 :: cint) then None
     else if 0x40 \<noteq> 0xC0 AND (ucast p1 :: cint) then None
     else if 0x80 \<noteq> 0xC0 AND (ucast p2 :: cint) then None
     else if 0xC0 \<noteq> 0xC0 AND (ucast p3 :: cint) then None
     else Some
       (shl 3 (ucast p0 AND 0x1F) OR (sar 3 (ucast p1) AND 7),
        (shl 12 (ucast p1) AND 0x7000) OR (shl 6 (ucast p2) AND 0x0FC0) OR (ucast p3 AND 0x003F),
        0x20 AND ucast p0))"

definition ParseIoPacketAGS :: "packet \<Rightarrow> (cint \<times> cint) option" where
  "ParseIoPacketAGS = (\<lambda>(p0, p1, p2, p3).
     if 0xC0 \<noteq> 0xC0 AND (ucast p1 :: cint) then None
     else if 0x80 \<noteq> 0xC0 AND (ucast p2 :: cint) then None
     else if 0x40 \<noteq> 0xC0 AND (ucast p3 :: cint) then None
     else Some
       (ucast p0, shl 12 (ucast p1 AND 0x3F) OR shl 6 (ucast p2 AND 0x3F) OR (ucast p3 AND 0x3F)))"

section \<open>Round trips\<close>

lemma FormIoPacket_Some:
  assumes "0 \<le> sint c" "sint c < 512" "0 \<le> sint v" "sint v < 32768"
  shows "FormIoPacket c v = Some
        (ucast (sar 3 c),
         ucast (0x40 OR (shl 3 c AND 0x38) OR (sar 12 v AND 0x07)),
         ucast (0x80 OR (sar 6 v AND 0x3F)),
         ucast (0xC0 OR (v AND 0x3F)))"
  using assms by (simp add: FormIoPacket_def word_sless_alt)

lemma ParseIoPacket_FormIoPacket:
  assumes "0 \<le> sint c" "sint c < 512" "0 \<le> sint v" "sint v < 32768"
  shows "\<exists>p. FormIoPacket c v = Some p \<and>
    ParseIoPacket p = Some (c AND 0xFF, v, if bit c 8 then 0x20 else 0)"
proof -
  have "uint c < 2 ^ 9" "uint v < 2 ^ 15"
    using assms by (simp_all add: uint_of_nonneg)
  then have c: "\<And>n. 9 \<le> n \<Longrightarrow> \<not> bit c n" and v: "\<And>n. 15 \<le> n \<Longrightarrow> \<not> bit v n"
    by (simp_all only: uint_lt_iff_bits) simp_all
  let ?p0 = "ucast (sar 3 c) :: u8"
  let ?p1 = "ucast (0x40 OR (shl 3 c AND 0x38) OR (sar 12 v AND 0x07)) :: u8"
  let ?p2 = "ucast (0x80 OR (sar 6 v AND 0x3F)) :: u8"
  let ?p3 = "ucast (0xC0 OR (v AND 0x3F)) :: u8"
  have sig: "0xC0 AND (ucast ?p0 :: cint) = 0" "0xC0 AND (ucast ?p1 :: cint) = 0x40"
    "0xC0 AND (ucast ?p2 :: cint) = 0x80" "0xC0 AND (ucast ?p3 :: cint) = 0xC0"
    by (rule cint_eq_bitsI; simp add: bit_simps c v)+
  have parts: "shl 3 (ucast ?p0 AND 0x1F) OR (sar 3 (ucast ?p1) AND 7) = c AND 0xFF"
    "(shl 12 (ucast ?p1) AND 0x7000) OR (shl 6 (ucast ?p2) AND 0x0FC0) OR (ucast ?p3 AND 0x003F) = v"
    "0x20 AND ucast ?p0 = (if bit c 8 then 0x20 else 0 :: cint)"
    by (rule cint_eq_bitsI; simp add: bit_simps c v)+
  show ?thesis
    using FormIoPacket_Some [OF assms] sig parts by (simp add: ParseIoPacket_def)
qed

lemma ParseIoPacketAGS_FormIoPacketAGS:
  assumes "0 \<le> sint t" "sint t < 64"
  shows "\<exists>p. FormIoPacketAGS t d = Some p \<and> ParseIoPacketAGS p = Some (t, d AND 0x3FFFF)"
proof -
  have "uint t < 2 ^ 6"
    using assms by (simp add: uint_of_nonneg)
  then have t: "\<And>n. 6 \<le> n \<Longrightarrow> \<not> bit t n"
    by (simp only: uint_lt_iff_bits) simp
  let ?d = "d AND 0x3FFFF"
  let ?p1 = "ucast (0xC0 OR (sar 12 ?d AND 0x3F)) :: u8"
  let ?p2 = "ucast (0x80 OR (sar 6 ?d AND 0x3F)) :: u8"
  let ?p3 = "ucast (0x40 OR (?d AND 0x3F)) :: u8"
  have sig: "0xC0 AND (ucast ?p1 :: cint) = 0xC0" "0xC0 AND (ucast ?p2 :: cint) = 0x80"
    "0xC0 AND (ucast ?p3 :: cint) = 0x40"
    by (rule cint_eq_bitsI; simp add: bit_simps t)+
  have parts: "(ucast (ucast t :: u8) :: cint) = t"
    "shl 12 (ucast ?p1 AND 0x3F) OR shl 6 (ucast ?p2 AND 0x3F) OR (ucast ?p3 AND 0x3F) = ?d"
    by (rule cint_eq_bitsI; simp add: bit_simps t)+
  have "FormIoPacketAGS t d = Some (ucast t, ?p1, ?p2, ?p3)"
    using assms by (simp add: FormIoPacketAGS_def word_sless_alt Let_def)
  then show ?thesis
    using sig parts by (simp add: ParseIoPacketAGS_def)
qed

text \<open>What the receiver accepts, \<open>FormIoPacket\<close> could have sent: the mask bit is
  bit 8 of the channel.\<close>

lemma FormIoPacket_ParseIoPacket:
  assumes "ParseIoPacket p = Some (c, v, u)"
  shows "FormIoPacket (c OR (if u = 0 then 0 else 0x100)) v = Some p"
    and "0 \<le> sint c \<and> sint c < 256 \<and> 0 \<le> sint v \<and> sint v < 32768"
proof -
  obtain p0 p1 p2 p3 where p: "p = (p0, p1, p2, p3)" by (cases p)
  have sig: "0xC0 AND (ucast p0 :: cint) = 0" "0xC0 AND (ucast p1 :: cint) = 0x40"
      "0xC0 AND (ucast p2 :: cint) = 0x80" "0xC0 AND (ucast p3 :: cint) = 0xC0"
    and c: "c = shl 3 (ucast p0 AND 0x1F) OR (sar 3 (ucast p1) AND 7)"
    and v: "v = (shl 12 (ucast p1) AND 0x7000) OR (shl 6 (ucast p2) AND 0x0FC0)
                 OR (ucast p3 AND 0x003F)"
    and u: "u = 0x20 AND ucast p0"
    using assms by (auto simp: ParseIoPacket_def p split: if_splits)
  have top: "\<not> bit p0 6" "\<not> bit p0 7" "bit p1 6" "\<not> bit p1 7" "\<not> bit p2 6" "bit p2 7"
      "bit p3 6" "bit p3 7"
    using sig [THEN arg_cong, of "\<lambda>w. bit w 6"] sig [THEN arg_cong, of "\<lambda>w. bit w 7"]
    by (simp_all add: bit_simps)
  have u0: "u = 0 \<longleftrightarrow> \<not> bit p0 5"
    unfolding u using and_exp_eq_0_iff(2) [of 5 "ucast p0 :: cint"] by (simp add: bit_simps)
  define C where "C = c OR (if u = 0 then 0 else 0x100)"
  have bytes: "ucast (sar 3 C) = p0"
    "ucast (0x40 OR (shl 3 C AND 0x38) OR (sar 12 v AND 0x07)) = p1"
    "ucast (0x80 OR (sar 6 v AND 0x3F)) = p2" "ucast (0xC0 OR (v AND 0x3F)) = p3"
    by (rule u8_eq_bitsI; simp add: C_def c v u0 bit_simps top)+
  have "\<forall>n. 8 \<le> n \<longrightarrow> \<not> bit c n" "\<forall>n. 9 \<le> n \<longrightarrow> \<not> bit C n" "\<forall>n. 15 \<le> n \<longrightarrow> \<not> bit v n"
    by (auto simp: C_def c v bit_simps mask_bits top dest: bit_imp_le_length)
  then have lt: "uint c < 256" "uint C < 512" "uint v < 32768"
    using uint_lt_iff_bits [of c 8] uint_lt_iff_bits [of C 9] uint_lt_iff_bits [of v 15] by auto
  then show "0 \<le> sint c \<and> sint c < 256 \<and> 0 \<le> sint v \<and> sint v < 32768"
    by (simp add: sint_small)
  have "FormIoPacket C v = Some p"
    using FormIoPacket_Some [of C v] lt bytes by (simp add: sint_small p)
  then show "FormIoPacket (c OR (if u = 0 then 0 else 0x100)) v = Some p"
    by (simp only: C_def)
qed

section \<open>Properties\<close>

text \<open>a packet carries a channel below 1000 (octal) and a 15-bit value without loss: what
  \<open>FormIoPacket\<close> makes of them, \<open>ParseIoPacket\<close> reads back, bit 8 of the channel
  number being the mask bit; other arguments give no packet.\<close>

theorem IoPacket_roundtrip:
  "if 0 \<le> sint c \<and> sint c < 512 \<and> 0 \<le> sint v \<and> sint v < 32768
   then (case FormIoPacket c v of None \<Rightarrow> False
         | Some p \<Rightarrow> ParseIoPacket p = Some (c AND 0xFF, v, if bit c 8 then 0x20 else 0))
   else FormIoPacket c v = None"
  using ParseIoPacket_FormIoPacket [of c v] by (auto simp: FormIoPacket_def word_sless_alt)

text \<open>The receiver accepts no other packets: whenever \<open>ParseIoPacket\<close> delivers a
  channel, a value and a mask bit, they are in range and \<open>FormIoPacket\<close> makes exactly this
  packet of them, so parsing is injective.\<close>

theorem ParseIoPacket_inverse:
  "case ParseIoPacket p of None \<Rightarrow> True
   | Some (c, v, u) \<Rightarrow> uint c < 256 \<and> uint v < 32768 \<and>
       FormIoPacket (c OR (if u = 0 then 0 else 0x100)) v = Some p"
proof (cases "ParseIoPacket p")
  case (Some r)
  obtain c v u where r: "r = (c, v, u)" by (cases r)
  then show ?thesis
    using Some FormIoPacket_ParseIoPacket [of p c v u] by (auto simp: uint_of_nonneg)
qed simp

text \<open>A packet of the abort guidance system carries its 6-bit type and the low 18 bits of
  its data; other types give no packet.\<close>

theorem IoPacketAGS_roundtrip:
  "if 0 \<le> sint t \<and> sint t < 64
   then (case FormIoPacketAGS t d of None \<Rightarrow> False
         | Some p \<Rightarrow> ParseIoPacketAGS p = Some (t, d AND 0x3FFFF))
   else FormIoPacketAGS t d = None"
  using ParseIoPacketAGS_FormIoPacketAGS [of t d]
  by (auto simp: FormIoPacketAGS_def word_sless_alt)

end
