(* ===== verification/Queues.thy ===== *)
theory Queues
  imports Main
begin

text \<open>
  The contract of a first-in first-out queue, which the packet buffers and the queues of CDU
  pulses implement, and of a queue of bounded length.  \<open>contents\<close> reads the queue as a
  list, oldest element first; a queue may refuse an element, and then does not change.
  \<open>fits\<close> is the precondition of \<open>put\<close>.
\<close>

locale fifo_queue =
  fixes inv :: "'q \<Rightarrow> bool"
    and contents :: "'q \<Rightarrow> 'p list"
    and fits :: "'q \<Rightarrow> 'p \<Rightarrow> bool"
    and accepts :: "'q \<Rightarrow> 'p \<Rightarrow> bool"
    and put :: "'q \<Rightarrow> 'p \<Rightarrow> 'q"
    and get :: "'q \<Rightarrow> 'p option \<times> 'q"
  assumes put_accept: "inv q \<Longrightarrow> fits q p \<Longrightarrow> accepts q p \<Longrightarrow>
      inv (put q p) \<and> contents (put q p) = contents q @ [p]"
    and put_reject: "inv q \<Longrightarrow> fits q p \<Longrightarrow> \<not> accepts q p \<Longrightarrow> put q p = q"
    and get_empty: "inv q \<Longrightarrow> contents q = [] \<Longrightarrow> get q = (None, q)"
    and get_first: "inv q \<Longrightarrow> contents q = p # ps \<Longrightarrow>
      fst (get q) = Some p \<and> inv (snd (get q)) \<and> contents (snd (get q)) = ps"
begin

lemma put_inv: "inv q \<Longrightarrow> fits q p \<Longrightarrow> inv (put q p)"
  using put_accept [of q p] put_reject [of q p] by (cases "accepts q p") auto

lemma get_inv: "inv q \<Longrightarrow> inv (snd (get q))"
  using get_empty [of q] get_first [of q] by (cases "contents q") auto

lemma put_contents:
  "inv q \<Longrightarrow> fits q p \<Longrightarrow>
     contents (put q p) = (if accepts q p then contents q @ [p] else contents q)"
  using put_accept [of q p] put_reject [of q p] by auto

lemma get_contents: "inv q \<Longrightarrow> contents (snd (get q)) = tl (contents q)"
  using get_empty [of q] get_first [of q] by (cases "contents q") auto

lemma get_result:
  "inv q \<Longrightarrow> fst (get q) = (case contents q of [] \<Rightarrow> None | p # ps \<Rightarrow> Some p)"
  using get_empty [of q] get_first [of q] by (cases "contents q") auto

lemma get_None_iff: "inv q \<Longrightarrow> fst (get q) = None \<longleftrightarrow> contents q = []"
  by (simp add: get_result split: list.splits)

lemma get_SomeE:
  assumes "inv q" "get q = (Some p, q')"
  shows "contents q = p # contents q'" "inv q'"
  using assms get_empty [of q] get_first [of q] by (cases "contents q"; auto)+

text \<open>\<open>k\<close> reads deliver the oldest \<open>k\<close> elements, in order.\<close>

primrec drain :: "nat \<Rightarrow> 'q \<Rightarrow> 'p list \<times> 'q" where
  "drain 0 q = ([], q)"
| "drain (Suc k) q =
     (case get q of
        (None, q') \<Rightarrow> ([], q')
      | (Some p, q') \<Rightarrow> (case drain k q' of (ps, q'') \<Rightarrow> (p # ps, q'')))"

lemma drain_contents:
  "inv q \<Longrightarrow> fst (drain k q) = take k (contents q) \<and>
     inv (snd (drain k q)) \<and> contents (snd (drain k q)) = drop k (contents q)"
proof (induction k arbitrary: q)
  case (Suc k)
  show ?case
  proof (cases "contents q")
    case Nil
    then show ?thesis using get_empty [OF Suc.prems] Suc.prems by simp
  next
    case (Cons p ps)
    from get_first [OF Suc.prems this] obtain q' where
      q': "get q = (Some p, q')" "inv q'" "contents q' = ps" by (cases "get q") auto
    with Suc.IH [of q'] Cons show ?thesis by (auto split: prod.splits)
  qed
qed simp

end

locale bounded_queue =
  fifo_queue inv contents "\<lambda>_ _. True" "\<lambda>q p. length (contents q) < capacity" put get
  for inv :: "'q \<Rightarrow> bool"
    and contents :: "'q \<Rightarrow> 'p list"
    and capacity :: nat
    and put :: "'q \<Rightarrow> 'p \<Rightarrow> 'q"
    and get :: "'q \<Rightarrow> 'p option \<times> 'q" +
  assumes bounded: "inv q \<Longrightarrow> length (contents q) \<le> capacity"
begin

text \<open>A run of puts stores as much as there is room for.\<close>

lemma puts_contents:
  "inv q \<Longrightarrow> inv (fold (\<lambda>p q. put q p) ps q) \<and>
     contents (fold (\<lambda>p q. put q p) ps q) =
       contents q @ take (capacity - length (contents q)) ps"
proof (induction ps arbitrary: q)
  case (Cons p ps)
  have "inv (put q p)" using Cons.prems TrueI by (rule put_inv)
  from Cons.IH [OF this] show ?case
    using put_contents [OF Cons.prems TrueI, of p] bounded [OF Cons.prems]
    by (cases "length (contents q) < capacity") (auto simp: Suc_diff_Suc [symmetric])
qed simp

lemma puts_then_drain:
  assumes "inv q" "contents q = []" "length ps \<le> capacity"
  shows "fst (drain (length ps) (fold (\<lambda>p q. put q p) ps q)) = ps"
  using puts_contents [OF assms(1), of ps] assms(2,3) drain_contents by simp

end

end
