(* ===== verification/Ringbuffer.thy ===== *)
theory Ringbuffer
  imports Packets Queues
begin

text \<open>
  The packet queue of \<open>src/yaAGC/ringbuffer.c\<close> and the proof that the byte array with
  its two indices implements a bounded first-in first-out queue.  The capacity is one packet less than \<open>RINGBUFFER_ELEMENTS\<close>: a full
  buffer must differ from an empty one.
\<close>

unbundle bit_operations_syntax

section \<open>The implementation\<close>

record ringbuffer =
  data :: "nat \<Rightarrow> u8"
  tail :: cint
  head :: cint

abbreviation (input) RINGBUFFER_ELEMENT_SIZE :: cint where "RINGBUFFER_ELEMENT_SIZE \<equiv> 4"
abbreviation (input) RINGBUFFER_CAPACITY :: cint where "RINGBUFFER_CAPACITY \<equiv> 4096"

definition ringbuffer_init :: "ringbuffer \<Rightarrow> ringbuffer" where
  "ringbuffer_init buf = buf\<lparr>tail := 0, head := 0\<rparr>"

text \<open>The two calls of \<open>memcpy\<close>, of four bytes.\<close>

definition store_packet :: "(nat \<Rightarrow> u8) \<Rightarrow> nat \<Rightarrow> packet \<Rightarrow> nat \<Rightarrow> u8" where
  "store_packet d a = (\<lambda>(p0, p1, p2, p3).
     d(a := p0, a + 1 := p1, a + 2 := p2, a + 3 := p3))"

definition load_packet :: "(nat \<Rightarrow> u8) \<Rightarrow> nat \<Rightarrow> packet" where
  "load_packet d a = (d a, d (a + 1), d (a + 2), d (a + 3))"

definition ringbuffer_put :: "ringbuffer \<Rightarrow> packet \<Rightarrow> cint \<times> ringbuffer" where
  "ringbuffer_put buf element =
     (let i = (head buf + RINGBUFFER_ELEMENT_SIZE) AND (RINGBUFFER_CAPACITY - 1)
      in if i = tail buf then (0, buf)
         else (RINGBUFFER_ELEMENT_SIZE,
               buf\<lparr>data := store_packet (data buf) (unat (head buf)) element, head := i\<rparr>))"

definition ringbuffer_get :: "ringbuffer \<Rightarrow> packet option \<times> ringbuffer" where
  "ringbuffer_get buf =
     (if tail buf = head buf then (None, buf)
      else (Some (load_packet (data buf) (unat (tail buf))),
            buf\<lparr>tail := (tail buf + RINGBUFFER_ELEMENT_SIZE) AND (RINGBUFFER_CAPACITY - 1)\<rparr>))"

section \<open>The byte array implements the contract\<close>

text \<open>The number of stored packets, the packet at a position and the stored packets.\<close>

definition rb_ok :: "ringbuffer \<Rightarrow> bool" where
  "rb_ok b \<longleftrightarrow> unat (head b) mod 4 = 0 \<and> unat (tail b) mod 4 = 0 \<and>
     unat (head b) < 4096 \<and> unat (tail b) < 4096"

definition rb_length :: "ringbuffer \<Rightarrow> nat" where
  "rb_length b = ((unat (head b) + 4096 - unat (tail b)) mod 4096) div 4"

definition rb_contents :: "ringbuffer \<Rightarrow> packet list" where
  "rb_contents b =
     map (\<lambda>k. load_packet (data b) ((unat (tail b) + 4 * k) mod 4096)) [0..<rb_length b]"

definition rb_put :: "ringbuffer \<Rightarrow> packet \<Rightarrow> ringbuffer" where
  "rb_put b p = snd (ringbuffer_put b p)"

lemma unat_advance:
  assumes "unat (h :: cint) < 4096"
  shows "unat (4095 AND (h + 4)) = (unat h + 4) mod 4096"
    and "unat ((h + 4) AND 4095) = (unat h + 4) mod 4096"
proof -
  have "unat (h + 4) = unat h + 4"
    using assms by (simp add: unat_plus_if_size word_size)
  moreover have "unat (x AND mask 12) = unat x mod 4096" for x :: cint
    by (simp only: take_bit_eq_mask [symmetric] unsigned_take_bit_eq) (simp add: take_bit_eq_mod)
  ultimately show "unat ((h + 4) AND 4095) = (unat h + 4) mod 4096"
    by (simp add: mask_eq_exp_minus_1)
  then show "unat (4095 AND (h + 4)) = (unat h + 4) mod 4096"
    by (simp add: and.commute)
qed

lemma load_store_same: "load_packet (store_packet d a p) a = p"
  by (cases p) (simp add: load_packet_def store_packet_def)

lemma load_store_other:
  assumes "a mod 4 = 0" "b mod 4 = 0" "a \<noteq> b"
  shows "load_packet (store_packet d a p) b = load_packet d b"
proof -
  obtain i where a: "a = 4 * i" using assms(1) by (metis mod_0_imp_dvd dvd_def)
  obtain j where b: "b = 4 * j" using assms(2) by (metis mod_0_imp_dvd dvd_def)
  have "i \<noteq> j" using assms(3) a b by simp
  then have "4 * i + x \<noteq> 4 * j + y" if "x < 4" "y < 4" for x y
    using that by arith
  then show ?thesis
    using \<open>i \<noteq> j\<close> by (cases p) (simp add: load_packet_def store_packet_def a b) 
qed

text \<open>Positions modulo the size of the array, without \<open>mod\<close>.\<close>

lemma wrap_4096: "(x :: nat) < 8192 \<Longrightarrow> x mod 4096 = (if x < 4096 then x else x - 4096)"
  by (simp add: le_mod_geq)

lemma rb_length_cases:
  assumes "rb_ok b" "unat (head b) = 4 * h" "unat (tail b) = 4 * t"
  shows "rb_length b = (if t \<le> h then h - t else h + 1024 - t)"
  using assms by (auto simp: rb_length_def rb_ok_def wrap_4096)

lemma rb_okE:
  assumes "rb_ok b"
  obtains h t where "unat (head b) = 4 * h" "unat (tail b) = 4 * t" "h < 1024" "t < 1024"
proof -
  have "unat (head b) = 4 * (unat (head b) div 4)" "unat (tail b) = 4 * (unat (tail b) div 4)"
    "unat (head b) div 4 < 1024" "unat (tail b) div 4 < 1024"
    using assms by (auto simp: rb_ok_def)
  then show ?thesis by (rule that)
qed

lemma rb_put_cases:
  assumes ok: "rb_ok b" and hd: "unat (head b) = 4 * h" and tl: "unat (tail b) = 4 * t"
    and lt: "h < 1024" "t < 1024"
  shows "(head b + 4) AND 4095 = tail b \<longleftrightarrow> rb_length b = 1023"
    and "unat ((head b + 4) AND 4095) = 4 * (if h = 1023 then 0 else h + 1)"
proof -
  have u: "unat ((head b + 4) AND 4095) = (4 * h + 4) mod 4096"
    using unat_advance(2) [of "head b"] lt hd by simp
  then show u': "unat ((head b + 4) AND 4095) = 4 * (if h = 1023 then 0 else h + 1)"
    using lt by (auto simp: wrap_4096)
  have "(head b + 4) AND 4095 = tail b \<longleftrightarrow> (if h = 1023 then 0 else h + 1) = t"
    unfolding word_unat_eq_iff u' tl by simp
  also have "\<dots> \<longleftrightarrow> rb_length b = 1023"
    using rb_length_cases [OF ok hd tl] lt by auto
  finally show "(head b + 4) AND 4095 = tail b \<longleftrightarrow> rb_length b = 1023" .
qed

lemma rb_contents_put:
  assumes ok: "rb_ok b" and len: "rb_length b < 1023"
    and b': "b' = b\<lparr>data := store_packet (data b) (unat (head b)) p, head := (head b + 4) AND 4095\<rparr>"
  shows "rb_ok b' \<and> rb_contents b' = rb_contents b @ [p]"
proof -
  obtain h t where hd: "unat (head b) = 4 * h" and tl: "unat (tail b) = 4 * t"
    and lt: "h < 1024" "t < 1024"
    using rb_okE [OF ok] by blast
  note put = rb_put_cases [OF ok hd tl lt]
  let ?n = "rb_length b"
  have n: "?n = (if t \<le> h then h - t else h + 1024 - t)"
    using rb_length_cases [OF ok hd tl] .
  have hd': "unat (head b') = 4 * (if h = 1023 then 0 else h + 1)" and tl': "unat (tail b') = 4 * t"
    using put(2) tl by (simp_all add: b')
  have ok': "rb_ok b'"
    using lt by (auto simp: rb_ok_def hd' tl')
  have len': "rb_length b' = Suc ?n"
    using rb_length_cases [OF ok' hd' tl'] n lt len by (auto split: if_splits)
  have last: "(unat (tail b') + 4 * ?n) mod 4096 = unat (head b)"
    using lt n by (auto simp: tl' hd wrap_4096)
  have "load_packet (data b') ((unat (tail b') + 4 * k) mod 4096) =
      load_packet (data b) ((unat (tail b) + 4 * k) mod 4096)" if "k < ?n" for k
  proof -
    have k: "(unat (tail b) + 4 * k) mod 4096 = 4 * ((t + k) mod 1024)"
      by (simp add: tl mult_mod_right)
    have "(t + k) mod 1024 = (if t + k < 1024 then t + k else t + k - 1024)"
      using that len lt by (simp add: le_mod_geq)
    then have "(t + k) mod 1024 \<noteq> h"
      using that n lt by (simp split: if_splits)
    then show ?thesis
      using k tl' tl by (simp add: b' hd load_store_other)
  qed
  then have "map (\<lambda>k. load_packet (data b') ((unat (tail b') + 4 * k) mod 4096)) [0..<?n] = rb_contents b"
    by (simp add: rb_contents_def)
  moreover have "load_packet (data b') (unat (head b)) = p"
    by (simp add: b' load_store_same)
  ultimately show ?thesis
    using ok' by (simp add: rb_contents_def [of b'] len' last)
qed

lemma rb_contents_get:
  assumes ok: "rb_ok b" and ne: "tail b \<noteq> head b"
    and b': "b' = b\<lparr>tail := (tail b + 4) AND 4095\<rparr>"
  shows "rb_ok b' \<and> rb_contents b = load_packet (data b) (unat (tail b)) # rb_contents b'"
proof -
  obtain h t where hd: "unat (head b) = 4 * h" and tl: "unat (tail b) = 4 * t"
    and lt: "h < 1024" "t < 1024"
    using rb_okE [OF ok] by blast
  have "t \<noteq> h"
    using ne hd tl by (auto simp: word_unat_eq_iff)
  have n: "rb_length b = (if t \<le> h then h - t else h + 1024 - t)"
    using rb_length_cases [OF ok hd tl] .
  have "unat ((tail b + 4) AND 4095) = 4 * (if t = 1023 then 0 else t + 1)"
    using unat_advance(2) [of "tail b"] lt tl by (auto simp: wrap_4096)
  then have tl': "unat (tail b') = 4 * (if t = 1023 then 0 else t + 1)" and hd': "unat (head b') = 4 * h"
    using hd by (simp_all add: b')
  have ok': "rb_ok b'"
    using lt by (auto simp: rb_ok_def hd' tl')
  have len': "rb_length b = Suc (rb_length b')"
    using rb_length_cases [OF ok' hd' tl'] n lt \<open>t \<noteq> h\<close> by (auto split: if_splits)
  have shift: "(unat (tail b) + 4 * Suc k) mod 4096 = (unat (tail b') + 4 * k) mod 4096" for k
    by (auto simp: tl tl' algebra_simps mod_add_self1 [of 4096, simplified])
  have f: "load_packet (data b) ((unat (tail b) + 4 * Suc k) mod 4096) =
      load_packet (data b') ((unat (tail b') + 4 * k) mod 4096)" for k
    by (simp only: shift) (simp add: b')
  have "rb_contents b = map (\<lambda>k. load_packet (data b) ((unat (tail b) + 4 * k) mod 4096))
      (0 # map Suc [0..<rb_length b'])"
    by (simp add: rb_contents_def len' upt_conv_Cons map_Suc_upt del: upt_Suc)
  also have "\<dots> = load_packet (data b) (unat (tail b)) # rb_contents b'"
    using lt by (simp only: list.map map_map o_def f) (simp add: rb_contents_def [of b'] tl)
  finally show ?thesis using ok' by simp
qed

lemma rb_empty_iff: "rb_ok b \<Longrightarrow> rb_contents b = [] \<longleftrightarrow> tail b = head b"
proof -
  assume ok: "rb_ok b"
  obtain h t where hd: "unat (head b) = 4 * h" and tl: "unat (tail b) = 4 * t"
    and lt: "h < 1024" "t < 1024"
    using rb_okE [OF ok] by blast
  have "tail b = head b \<longleftrightarrow> t = h"
    unfolding word_unat_eq_iff hd tl by simp
  then show ?thesis
    using rb_length_cases [OF ok hd tl] lt by (auto simp: rb_contents_def)
qed

lemma rb_length_le: "rb_ok b \<Longrightarrow> rb_length b \<le> 1023"
  unfolding rb_length_def using mod_less_divisor [of 4096] by (simp add: less_mult_imp_div_less
      less_Suc_eq_le [symmetric])

lemma length_rb_contents [simp]: "length (rb_contents b) = rb_length b"
  by (simp add: rb_contents_def)

interpretation rb: bounded_queue rb_ok rb_contents 1023 rb_put ringbuffer_get
proof
  fix b :: ringbuffer and p :: packet and ps
  assume ok: "rb_ok b"
  obtain h t where ht: "unat (head b) = 4 * h" "unat (tail b) = 4 * t" "h < 1024" "t < 1024"
    using rb_okE [OF ok] by blast
  note put = rb_put_cases(1) [OF ok ht]
  show "length (rb_contents b) < 1023 \<Longrightarrow>
      rb_ok (rb_put b p) \<and> rb_contents (rb_put b p) = rb_contents b @ [p]"
    using rb_contents_put [OF ok _ refl] put
    by (simp add: rb_put_def ringbuffer_put_def Let_def)
  show "\<not> length (rb_contents b) < 1023 \<Longrightarrow> rb_put b p = b"
    using put rb_length_le [OF ok] by (simp add: rb_put_def ringbuffer_put_def Let_def)
  show "rb_contents b = [] \<Longrightarrow> ringbuffer_get b = (None, b)"
    using rb_empty_iff [OF ok] by (simp add: ringbuffer_get_def)
  show "rb_contents b = p # ps \<Longrightarrow> fst (ringbuffer_get b) = Some p \<and>
      rb_ok (snd (ringbuffer_get b)) \<and> rb_contents (snd (ringbuffer_get b)) = ps"
    using rb_empty_iff [OF ok] rb_contents_get [OF ok _ refl]
    by (auto simp: ringbuffer_get_def)
  show "length (rb_contents b) \<le> 1023"
    using rb_length_le [OF ok] by simp
qed

text \<open>The result of \<open>ringbuffer_put\<close> tells whether the packet was stored.\<close>

lemma ringbuffer_put_result:
  assumes "rb_ok b"
  shows "fst (ringbuffer_put b p) = (if length (rb_contents b) < 1023 then 4 else 0)"
proof -
  obtain h t where ht: "unat (head b) = 4 * h" "unat (tail b) = 4 * t" "h < 1024" "t < 1024"
    using rb_okE [OF assms] by blast
  show ?thesis
    using rb_put_cases(1) [OF assms ht] rb_length_le [OF assms]
    by (simp add: ringbuffer_put_def Let_def)
qed

lemma ringbuffer_init_contents [simp]:
  "rb_ok (ringbuffer_init b)" "rb_contents (ringbuffer_init b) = []"
  by (simp_all add: rb_ok_def ringbuffer_init_def rb_contents_def rb_length_def)

section \<open>Properties\<close>

text \<open>A session with the buffer is a sequence of puts (\<open>Some p\<close>) and gets
  (\<open>None\<close>) with their replies; \<open>queue_run\<close> is the same session with a list of at
  most \<open>n\<close> packets.\<close>

datatype reply = Stored bool | Received "packet option"

fun rb_run :: "packet option list \<Rightarrow> ringbuffer \<Rightarrow> reply list" where
  "rb_run [] b = []"
| "rb_run (Some p # ops) b =
     (case ringbuffer_put b p of (n, b) \<Rightarrow> Stored (n \<noteq> 0) # rb_run ops b)"
| "rb_run (None # ops) b =
     (case ringbuffer_get b of (r, b) \<Rightarrow> Received r # rb_run ops b)"

fun queue_run :: "nat \<Rightarrow> packet option list \<Rightarrow> packet list \<Rightarrow> reply list" where
  "queue_run n [] q = []"
| "queue_run n (Some p # ops) q =
     (if length q < n then Stored True # queue_run n ops (q @ [p])
      else Stored False # queue_run n ops q)"
| "queue_run n (None # ops) q =
     (case q of [] \<Rightarrow> Received None # queue_run n ops []
      | p # q \<Rightarrow> Received (Some p) # queue_run n ops q)"

lemma rb_run_queue_run: "rb_ok b \<Longrightarrow> rb_run ops b = queue_run 1023 ops (rb_contents b)"
proof (induction ops arbitrary: b)
  case (Cons op ops)
  show ?case
  proof (cases op)
    case None
    then show ?thesis
      using Cons.IH [OF rb.get_inv [OF Cons.prems]] rb.get_result [OF Cons.prems]
        rb.get_contents [OF Cons.prems]
      by (auto simp: split_beta split: list.splits)
  next
    case (Some p)
    have "rb_put b p = snd (ringbuffer_put b p)" by (simp add: rb_put_def)
    then show ?thesis
      using Some Cons.IH [OF rb.put_inv [OF Cons.prems TrueI, of p]]
        rb.put_contents [OF Cons.prems TrueI, of p] ringbuffer_put_result [OF Cons.prems, of p]
      by (auto simp: split_beta)
  qed
qed simp

text \<open>C29: the ring buffer refines a queue of at most 1023 packets: after \<open>ringbuffer_init\<close>
  every sequence of puts and gets is answered as by a first-in first-out list that refuses a
  packet exactly when 1023 are waiting.\<close>

theorem ringbuffer_refines_queue: "rb_run ops (ringbuffer_init b) = queue_run 1023 ops []"
  using rb_run_queue_run [of "ringbuffer_init b" ops] by simp

end
