(* ===== verification/AGC_State.thy ===== *)
theory AGC_State
  imports AGC_Arith Ringbuffer
begin

text \<open>
  The state of the emulator.  \<open>agc_t\<close> is the structure of
  \<open>src/yaAGC/agc_engine.h\<close>; \<open>yaagc\<close> extends it with the file-scope
  variables of \<open>agc_engine.c\<close>, \<open>ringbuffer_api.c\<close> and \<open>wasm.c\<close> that
  the engine reads or writes.  One-bit fields are \<open>bool\<close>, the 3-bit and 4-bit
  fields are words of that width.  \<open>Erasable[8][0400]\<close> and \<open>Fixed[40][02000]\<close>
  are read through the flat index \<open>bank * 256 + offset\<close> and
  \<open>bank * 1024 + offset\<close>, the order in which C lays them out: the engine itself
  forms \<open>Pointer - State->Erasable[0]\<close>.  The counters of the coverage reports, the
  debugger's rules and the CDU log file carry no behaviour of the machine and are left out.
\<close>

unbundle bit_operations_syntax

section \<open>Records\<close>

text \<open>One of the three queues of CDU pulses (\<open>agc_engine.c\<close>, \<open>CduFifo_t\<close>).\<close>

record cdu_fifo =
  Ptr :: cint
  Size :: cint
  IntervalType :: cint
  NextUpdate :: u64
  Counts :: "nat \<Rightarrow> cint"

record agc_t =
  CycleCounter :: u64
  Erasable :: "nat \<Rightarrow> i16"
  Fixed :: "nat \<Rightarrow> i16"
  Parities :: "nat \<Rightarrow> u32"
  InputChannel :: "nat \<Rightarrow> i16"
  OutputChannel7 :: i16
  OutputChannel10 :: "nat \<Rightarrow> i16"
  IndexValue :: i16
  InterruptRequests :: "nat \<Rightarrow> 8 word"
  ExtraCode :: bool
  AllowInterrupt :: bool
  InIsr :: bool
  SubstituteInstruction :: bool
  PendFlag :: bool
  PendDelay :: "3 word"
  ExtraDelay :: "3 word"
  DownruptTimeValid :: bool
  NightWatchman :: bool
  NightWatchmanTripped :: bool
  RuptLock :: bool
  NoRupt :: bool
  TCTrap :: bool
  NoTC :: bool
  Standby :: bool
  SbyPressed :: bool
  SbyStillPressed :: bool
  ParityFail :: bool
  CheckParity :: bool
  RestartLight :: bool
  TookBZF :: bool
  TookBZMF :: bool
  GeneratedWarning :: bool
  Trap31A :: bool
  Trap31B :: bool
  Trap32 :: bool
  RadarGateCounter :: "4 word"
  WarningFilter :: u32
  DownruptTime :: u64
  Downlink :: cint
  NextZ :: cint
  ScalerCounter :: cint
  ChannelRoutineCount :: cint
  DskyTimer :: u32
  DskyFlash :: u32
  DskyChannel163 :: u32

text \<open>The file-scope variables, and below them the variables that only the command line
  or the debugger sets.\<close>

record yaagc = agc_t +
  CduFifos :: "nat \<Rightarrow> cdu_fifo"
  CduChecker :: cint
  CountCDUX :: cint
  CountCDUY :: cint
  CountCDUZ :: cint
  GyroCount :: u32
  OldChannel14 :: u32
  GyroTimer :: u32
  ImuCduCount :: u64
  ImuChannel14 :: u32
  ringbuffer_in :: ringbuffer
  ringbuffer_out :: ringbuffer
  ChannelMasks :: "nat \<Rightarrow> cint"
  ChannelIsSetUp :: bool
  LastRhcPitch :: cint
  LastRhcYaw :: cint
  LastRhcRoll :: cint
  DebugDsky :: bool
  InhibitAlarms :: bool
  CmOrLm :: bool
  DedaMonitor :: bool
  DedaWhen :: u64
  DebuggerInterruptMasks :: "nat \<Rightarrow> bool"
  initializeSunburst37 :: bool

section \<open>Names of the registers\<close>

abbreviation (input) RegA :: nat where "RegA \<equiv> 0"
abbreviation (input) RegL :: nat where "RegL \<equiv> 1"
abbreviation (input) RegQ :: nat where "RegQ \<equiv> 2"
abbreviation (input) RegEB :: nat where "RegEB \<equiv> 3"
abbreviation (input) RegFB :: nat where "RegFB \<equiv> 4"
abbreviation (input) RegZ :: nat where "RegZ \<equiv> 5"
abbreviation (input) RegBB :: nat where "RegBB \<equiv> 6"
abbreviation (input) RegZERO :: nat where "RegZERO \<equiv> 7"
abbreviation (input) RegARUPT :: nat where "RegARUPT \<equiv> 8"
abbreviation (input) RegLRUPT :: nat where "RegLRUPT \<equiv> 9"
abbreviation (input) RegQRUPT :: nat where "RegQRUPT \<equiv> 10"
abbreviation (input) RegZRUPT :: nat where "RegZRUPT \<equiv> 13"
abbreviation (input) RegBBRUPT :: nat where "RegBBRUPT \<equiv> 14"
abbreviation (input) RegBRUPT :: nat where "RegBRUPT \<equiv> 15"
abbreviation (input) RegCYR :: nat where "RegCYR \<equiv> 16"
abbreviation (input) RegSR :: nat where "RegSR \<equiv> 17"
abbreviation (input) RegCYL :: nat where "RegCYL \<equiv> 18"
abbreviation (input) RegEDOP :: nat where "RegEDOP \<equiv> 19"
abbreviation (input) RegCOUNTER :: nat where "RegCOUNTER \<equiv> 20"
abbreviation (input) RegTIME2 :: nat where "RegTIME2 \<equiv> 20"
abbreviation (input) RegTIME1 :: nat where "RegTIME1 \<equiv> 21"
abbreviation (input) RegTIME3 :: nat where "RegTIME3 \<equiv> 22"
abbreviation (input) RegTIME4 :: nat where "RegTIME4 \<equiv> 23"
abbreviation (input) RegTIME5 :: nat where "RegTIME5 \<equiv> 24"
abbreviation (input) RegTIME6 :: nat where "RegTIME6 \<equiv> 25"
abbreviation (input) RegCDUX :: nat where "RegCDUX \<equiv> 26"
abbreviation (input) RegCDUY :: nat where "RegCDUY \<equiv> 27"
abbreviation (input) RegCDUZ :: nat where "RegCDUZ \<equiv> 28"
abbreviation (input) RegOPTY :: nat where "RegOPTY \<equiv> 29"
abbreviation (input) RegOPTX :: nat where "RegOPTX \<equiv> 30"
abbreviation (input) RegPIPAX :: nat where "RegPIPAX \<equiv> 31"
abbreviation (input) RegPIPAY :: nat where "RegPIPAY \<equiv> 32"
abbreviation (input) RegPIPAZ :: nat where "RegPIPAZ \<equiv> 33"
abbreviation (input) RegINLINK :: nat where "RegINLINK \<equiv> 37"
abbreviation (input) RegRNRAD :: nat where "RegRNRAD \<equiv> 38"
abbreviation (input) RegGYROCTR :: nat where "RegGYROCTR \<equiv> 39"
abbreviation (input) RegCDUXCMD :: nat where "RegCDUXCMD \<equiv> 40"
abbreviation (input) RegCDUYCMD :: nat where "RegCDUYCMD \<equiv> 41"
abbreviation (input) RegCDUZCMD :: nat where "RegCDUZCMD \<equiv> 42"
abbreviation (input) RegOPTYCMD :: nat where "RegOPTYCMD \<equiv> 43"
abbreviation (input) RegOPTXCMD :: nat where "RegOPTXCMD \<equiv> 44"
abbreviation (input) RegOUTLINK :: nat where "RegOUTLINK \<equiv> 47"
abbreviation (input) RegALTM :: nat where "RegALTM \<equiv> 48"

text \<open>Registers below \<open>REG16\<close> keep 16 bits, all other cells 15.\<close>

abbreviation (input) REG16 :: nat where "REG16 \<equiv> 3"

abbreviation (input) CH77_PARITY_FAIL :: "'a::len word" where "CH77_PARITY_FAIL \<equiv> 1"
abbreviation (input) CH77_TC_TRAP :: "'a::len word" where "CH77_TC_TRAP \<equiv> 4"
abbreviation (input) CH77_RUPT_LOCK :: "'a::len word" where "CH77_RUPT_LOCK \<equiv> 8"
abbreviation (input) CH77_NIGHT_WATCHMAN :: "'a::len word" where "CH77_NIGHT_WATCHMAN \<equiv> 16"

abbreviation (input) DSKY_AGC_WARN :: u32 where "DSKY_AGC_WARN \<equiv> 1"
abbreviation (input) DSKY_TEMP :: u32 where "DSKY_TEMP \<equiv> 8"
abbreviation (input) DSKY_KEY_REL :: u32 where "DSKY_KEY_REL \<equiv> 16"
abbreviation (input) DSKY_VN_FLASH :: u32 where "DSKY_VN_FLASH \<equiv> 32"
abbreviation (input) DSKY_OPER_ERR :: u32 where "DSKY_OPER_ERR \<equiv> 64"
abbreviation (input) DSKY_RESTART :: u32 where "DSKY_RESTART \<equiv> 128"
abbreviation (input) DSKY_STBY :: u32 where "DSKY_STBY \<equiv> 256"
abbreviation (input) DSKY_EL_OFF :: u32 where "DSKY_EL_OFF \<equiv> 512"

abbreviation (input) DSKY_OVERFLOW :: u32 where "DSKY_OVERFLOW \<equiv> 81920"
abbreviation (input) DSKY_FLASH_PERIOD :: u32 where "DSKY_FLASH_PERIOD \<equiv> 4"
abbreviation (input) WARNING_FILTER_INCREMENT :: u32 where "WARNING_FILTER_INCREMENT \<equiv> 15000"
abbreviation (input) WARNING_FILTER_DECREMENT :: u32 where "WARNING_FILTER_DECREMENT \<equiv> 15"
abbreviation (input) WARNING_FILTER_MAX :: u32 where "WARNING_FILTER_MAX \<equiv> 140000"
abbreviation (input) WARNING_FILTER_THRESHOLD :: u32 where "WARNING_FILTER_THRESHOLD \<equiv> 20000"

text \<open>\<open>AGC_PER_SECOND\<close>, the machine cycles of a second.\<close>

abbreviation (input) AGC_PER_SECOND :: "'a::len word" where "AGC_PER_SECOND \<equiv> 85333"

section \<open>Reading and writing cells\<close>

text \<open>The macro \<open>c(Reg)\<close> as a value and as the target of an assignment, an entry of
  \<open>InputChannel\<close> and of \<open>InterruptRequests\<close> as the target of an assignment.\<close>

abbreviation creg :: "yaagc \<Rightarrow> nat \<Rightarrow> i16" where
  "creg State r \<equiv> Erasable State r"

abbreviation set_creg :: "nat \<Rightarrow> i16 \<Rightarrow> yaagc \<Rightarrow> yaagc" where
  "set_creg r v State \<equiv> State\<lparr>Erasable := (Erasable State)(r := v)\<rparr>"

abbreviation set_chan :: "nat \<Rightarrow> i16 \<Rightarrow> yaagc \<Rightarrow> yaagc" where
  "set_chan n v State \<equiv> State\<lparr>InputChannel := (InputChannel State)(n := v)\<rparr>"

abbreviation request :: "nat \<Rightarrow> yaagc \<Rightarrow> yaagc" where
  "request n State \<equiv> State\<lparr>InterruptRequests := (InterruptRequests State)(n := 1)\<rparr>"

section \<open>The static initial state\<close>

text \<open>The variables have static storage: when the program starts they are zero, apart from
  the first channel mask and the debugger's interrupt masks.\<close>

definition power_on :: yaagc where
  "power_on =
     \<lparr>CycleCounter = 0, Erasable = (\<lambda>_. 0), Fixed = (\<lambda>_. 0),
      Parities = (\<lambda>_. 0), InputChannel = (\<lambda>_. 0), OutputChannel7 = 0,
      OutputChannel10 = (\<lambda>_. 0), IndexValue = 0, InterruptRequests = (\<lambda>_. 0),
      ExtraCode = False, AllowInterrupt = False, InIsr = False, SubstituteInstruction = False,
      PendFlag = False, PendDelay = 0, ExtraDelay = 0, DownruptTimeValid = False,
      NightWatchman = False, NightWatchmanTripped = False, RuptLock = False, NoRupt = False,
      TCTrap = False, NoTC = False, Standby = False, SbyPressed = False, SbyStillPressed = False,
      ParityFail = False, CheckParity = False, RestartLight = False, TookBZF = False,
      TookBZMF = False, GeneratedWarning = False, Trap31A = False, Trap31B = False,
      Trap32 = False, RadarGateCounter = 0, WarningFilter = 0, DownruptTime = 0, Downlink = 0,
      NextZ = 0, ScalerCounter = 0, ChannelRoutineCount = 0, DskyTimer = 0, DskyFlash = 0,
      DskyChannel163 = 0,
      CduFifos = (\<lambda>_. \<lparr>Ptr = 0, Size = 0, IntervalType = 0, NextUpdate = 0, Counts = (\<lambda>_. 0)\<rparr>),
      CduChecker = 0, CountCDUX = 0, CountCDUY = 0, CountCDUZ = 0, GyroCount = 0,
      OldChannel14 = 0, GyroTimer = 0, ImuCduCount = 0, ImuChannel14 = 0,
      ringbuffer_in = \<lparr>data = (\<lambda>_. 0), tail = 0, head = 0\<rparr>,
      ringbuffer_out = \<lparr>data = (\<lambda>_. 0), tail = 0, head = 0\<rparr>,
      ChannelMasks = (\<lambda>i. if i = 0 then 0x7FFF else 0), ChannelIsSetUp = False,
      LastRhcPitch = 0, LastRhcYaw = 0, LastRhcRoll = 0, DebugDsky = False,
      InhibitAlarms = False, CmOrLm = False, DedaMonitor = False, DedaWhen = 0,
      DebuggerInterruptMasks = (\<lambda>_. True), initializeSunburst37 = False\<rparr>"

end
