(* ===== verification/Stores.thy ===== *)
theory Stores
  imports Main
begin

text \<open>
  The contract of a memory of cells that normalise what is stored in them, such as the editing
  registers and the 15-bit words of the erasable memory: a stored value is read back as the
  cell's normal form of it, and other cells are left alone.
\<close>

locale store =
  fixes ok :: "'l \<Rightarrow> bool"
    and get :: "'s \<Rightarrow> 'l \<Rightarrow> 'w"
    and put :: "'l \<Rightarrow> 'v \<Rightarrow> 's \<Rightarrow> 's"
    and norm :: "'l \<Rightarrow> 'v \<Rightarrow> 'w"
  assumes get_put_same: "ok l \<Longrightarrow> get (put l v s) l = norm l v"
    and get_put_other: "ok l \<Longrightarrow> l' \<noteq> l \<Longrightarrow> get (put l v s) l' = get s l'"
begin

lemma get_put: "ok l \<Longrightarrow> get (put l v s) l' = (if l' = l then norm l v else get s l')"
  by (simp add: get_put_same get_put_other)

lemma put_put_get: "ok l \<Longrightarrow> get (put l v (put l u s)) l' = get (put l v s) l'"
  by (simp add: get_put)

lemma put_commute:
  "ok l \<Longrightarrow> ok k \<Longrightarrow> l \<noteq> k \<Longrightarrow> get (put l v (put k u s)) l' = get (put k u (put l v s)) l'"
  by (simp add: get_put)

text \<open>Storing at several places: the last store at a place counts.\<close>

lemma get_puts:
  assumes "\<forall>(l, v) \<in> set ps. ok l"
  shows "get (fold (\<lambda>(l, v). put l v) ps s) l' =
    (case map_of (rev ps) l' of None \<Rightarrow> get s l' | Some v \<Rightarrow> norm l' v)"
  using assms
proof (induction ps arbitrary: s)
  case (Cons p ps)
  obtain l v where p: "p = (l, v)" by fastforce
  have "ok l" using Cons.prems by (simp add: p)
  then show ?case
    using Cons.IH [of "put l v s"] Cons.prems
    by (auto simp: p get_put map_add_def split: option.splits)
qed simp

end

text \<open>A store whose cells keep every value of a range: what is read back is what was
  stored, and an exchange of a cell with a register is undone by a second exchange.\<close>

locale exact_store = store ok get put norm
  for ok :: "'l \<Rightarrow> bool"
    and get :: "'s \<Rightarrow> 'l \<Rightarrow> 'w"
    and put :: "'l \<Rightarrow> 'v \<Rightarrow> 's \<Rightarrow> 's"
    and norm :: "'l \<Rightarrow> 'v \<Rightarrow> 'w" +
  fixes fits :: "'v \<Rightarrow> bool"
    and read :: "'w \<Rightarrow> 'v"
  assumes norm_fits: "ok l \<Longrightarrow> fits v \<Longrightarrow> read (norm l v) = v"
    and norm_read: "ok l \<Longrightarrow> fits v \<Longrightarrow> norm l (read (norm l v)) = norm l v"
begin

lemma read_back: "ok l \<Longrightarrow> fits v \<Longrightarrow> read (get (put l v s) l) = v"
  by (simp add: get_put_same norm_fits)

definition exchange :: "'l \<Rightarrow> 'v \<times> 's \<Rightarrow> 'v \<times> 's" where
  "exchange l x = (read (get (snd x) l), put l (fst x) (snd x))"

lemma exchange_twice:
  assumes "ok l" "fits v" "fits (read (get s l))" "norm l (read (get s l)) = get s l"
  shows "fst (exchange l (exchange l (v, s))) = v \<and>
    get (snd (exchange l (exchange l (v, s)))) l' = get s l'"
  using assms by (simp add: exchange_def get_put norm_fits)

end

end
