(* ===== verification/AGC_Memory.thy ===== *)
theory AGC_Memory
  imports AGC_State Stores
begin

text \<open>
  The memory of \<open>src/yaAGC/agc_engine.c\<close>: \<open>FindMemoryWord\<close> turns a 12-bit address
  into a pointer to a cell, through the bank registers and the superbank bit, with the parity
  check and the night watchman as side effects; \<open>Assign\<close> and
  \<open>AssignFromPointer\<close> store a value, with the editing registers.  An
  \<open>int16_t *\<close> into the two arrays is a \<open>loc\<close>.  The C code passes bank numbers and
  offsets as non-negative \<open>int\<close>; they are natural numbers here, so the tests for
  negative ones disappear.
\<close>

unbundle bit_operations_syntax

section \<open>Pointers\<close>

datatype loc = ErasableLoc nat | FixedLoc nat

definition deref :: "yaagc \<Rightarrow> loc \<Rightarrow> i16" where
  "deref State p = (case p of ErasableLoc i \<Rightarrow> Erasable State i | FixedLoc i \<Rightarrow> Fixed State i)"

text \<open>The pointer one word below, as in \<open>WhereWord[-1]\<close>.  Below the first word of an
  array the C code leaves the array, and there is no result.\<close>

definition pred_loc :: "loc \<Rightarrow> loc option" where
  "pred_loc p =
     (case p of
        ErasableLoc i \<Rightarrow> (if i = 0 then None else Some (ErasableLoc (i - 1)))
      | FixedLoc i \<Rightarrow> (if i = 0 then None else Some (FixedLoc (i - 1))))"

section \<open>Address translation\<close>

text \<open>The parity of a fixed-memory word: 1 when the word with its parity bit is odd.\<close>

definition word_parity :: "i16 \<Rightarrow> i16 \<Rightarrow> i16" where
  "word_parity Word ExpectedParity =
     (let Word = shl 1 Word OR ExpectedParity;
          Word = Word XOR sar 8 Word;
          Word = Word XOR sar 4 Word;
          Word = Word XOR sar 2 Word;
          Word = Word XOR sar 1 Word
      in Word AND 1)"

definition FixedBank :: "yaagc \<Rightarrow> nat" where
  "FixedBank State =
     (let AdjustmentFB = 0x1F AND sar 10 (int_of_i16 (creg State RegFB))
      in unat (if 0x18 = AdjustmentFB AND 0x18 \<and> int_of_i16 (OutputChannel7 State) AND 0x40 \<noteq> 0
               then AdjustmentFB + 8 else AdjustmentFB))"

definition ErasableBank :: "yaagc \<Rightarrow> nat" where
  "ErasableBank State = unat (7 AND sar 8 (int_of_i16 (creg State RegEB)))"

text \<open>The check of fixed memory: a bad word raises the parity alarm.\<close>

definition ParityCheck :: "nat \<Rightarrow> nat \<Rightarrow> yaagc \<Rightarrow> yaagc" where
  "ParityCheck AdjustmentFB Address12 State =
     (if CheckParity State then
        let LinearAddr = AdjustmentFB * 1024 + (Address12 AND 0x3FF);
            ExpectedParity =
              ucast (shr (LinearAddr mod 32) (Parities State (LinearAddr div 32)) AND 1)
        in if word_parity (Fixed State LinearAddr) ExpectedParity \<noteq> 1
           then set_chan 0x3F (InputChannel State 0x3F OR CH77_PARITY_FAIL)
                  (State\<lparr>ParityFail := True\<rparr>)
           else State
      else State)"

definition FindMemoryWord :: "yaagc \<Rightarrow> nat \<Rightarrow> loc \<times> yaagc" where
  "FindMemoryWord State Address12 =
     (let Address12 = Address12 AND 0xFFF;
          State = (if Address12 = 0x37 then State\<lparr>NightWatchman := False\<rparr> else State)
      in if Address12 < 0x100 then (ErasableLoc (Address12 AND 0xFF), State)
         else if Address12 < 0x200 then (ErasableLoc (1 * 256 + (Address12 AND 0xFF)), State)
         else if Address12 < 0x300 then (ErasableLoc (2 * 256 + (Address12 AND 0xFF)), State)
         else if Address12 < 0x400 then
           (ErasableLoc (ErasableBank State * 256 + (Address12 AND 0xFF)), State)
         else
           let AdjustmentFB =
             (if Address12 < 0x800 then FixedBank State else if Address12 < 0xC00 then 2 else 3)
           in (FixedLoc (AdjustmentFB * 1024 + (Address12 AND 0x3FF)),
               ParityCheck AdjustmentFB Address12 State))"

section \<open>Stores\<close>

text \<open>What an editing register makes of a value.\<close>

definition EditCYR :: "cint \<Rightarrow> cint" where
  "EditCYR Value =
     (let Value = Value AND 0x7FFF
      in if Value AND 1 \<noteq> 0 then sar 1 Value OR 0x4000 else sar 1 Value)"

definition EditSR :: "cint \<Rightarrow> cint" where
  "EditSR Value =
     (let Value = Value AND 0x7FFF
      in if Value AND 0x4000 \<noteq> 0 then sar 1 Value OR 0x4000 else sar 1 Value)"

definition EditCYL :: "cint \<Rightarrow> cint" where
  "EditCYL Value =
     (let Value = Value AND 0x7FFF
      in if Value AND 0x4000 \<noteq> 0 then shl 1 Value + 1 else shl 1 Value)"

definition EditEDOP :: "cint \<Rightarrow> cint" where
  "EditEDOP Value = (let Value = Value AND 0x7FFF in sar 7 Value AND 0x7F)"

definition Assign :: "nat \<Rightarrow> nat \<Rightarrow> cint \<Rightarrow> yaagc \<Rightarrow> yaagc" where
  "Assign Bank Offset Value State =
     (if 8 \<le> Bank then State
      else if 0x100 \<le> Offset then State
      else if Bank = 0 then
        let State = (if Offset = RegZ then State\<lparr>NextZ := Value\<rparr> else State);
            Value =
              (if Offset = RegCYR then EditCYR Value
               else if Offset = RegSR then EditSR Value
               else if Offset = RegCYL then EditCYL Value
               else if Offset = RegEDOP then EditEDOP Value
               else if Offset = RegZERO then AGC_P0
               else Value)
        in if REG16 \<le> Offset \<or> 0x10 \<le> Offset \<and> Offset \<le> 0x13
           then set_creg Offset (i16_of_int (Value AND 0x7FFF)) State
           else set_creg Offset (i16_of_int (Value AND 0xFFFF)) State
      else set_creg (Bank * 256 + Offset) (i16_of_int (Value AND 0x7FFF)) State)"

definition AssignFromPointer :: "loc \<Rightarrow> cint \<Rightarrow> yaagc \<Rightarrow> yaagc" where
  "AssignFromPointer Pointer Value State =
     (case Pointer of
        ErasableLoc Address \<Rightarrow>
          (if Address < 0x800 then Assign (Address div 0x100) (Address AND 0xFF) Value State
           else State)
      | FixedLoc _ \<Rightarrow> State)"

section \<open>What the operations leave alone\<close>

lemma FindMemoryWord_frame [simp]:
  "CycleCounter (snd (FindMemoryWord State Address)) = CycleCounter State"
  "Erasable (snd (FindMemoryWord State Address)) = Erasable State"
  "Fixed (snd (FindMemoryWord State Address)) = Fixed State"
  "Parities (snd (FindMemoryWord State Address)) = Parities State"
  "OutputChannel7 (snd (FindMemoryWord State Address)) = OutputChannel7 State"
  "OutputChannel10 (snd (FindMemoryWord State Address)) = OutputChannel10 State"
  "IndexValue (snd (FindMemoryWord State Address)) = IndexValue State"
  "InterruptRequests (snd (FindMemoryWord State Address)) = InterruptRequests State"
  "ExtraCode (snd (FindMemoryWord State Address)) = ExtraCode State"
  "AllowInterrupt (snd (FindMemoryWord State Address)) = AllowInterrupt State"
  "InIsr (snd (FindMemoryWord State Address)) = InIsr State"
  "SubstituteInstruction (snd (FindMemoryWord State Address)) = SubstituteInstruction State"
  "PendFlag (snd (FindMemoryWord State Address)) = PendFlag State"
  "PendDelay (snd (FindMemoryWord State Address)) = PendDelay State"
  "ExtraDelay (snd (FindMemoryWord State Address)) = ExtraDelay State"
  "DownruptTimeValid (snd (FindMemoryWord State Address)) = DownruptTimeValid State"
  "NightWatchmanTripped (snd (FindMemoryWord State Address)) = NightWatchmanTripped State"
  "RuptLock (snd (FindMemoryWord State Address)) = RuptLock State"
  "NoRupt (snd (FindMemoryWord State Address)) = NoRupt State"
  "TCTrap (snd (FindMemoryWord State Address)) = TCTrap State"
  "NoTC (snd (FindMemoryWord State Address)) = NoTC State"
  "Standby (snd (FindMemoryWord State Address)) = Standby State"
  "SbyPressed (snd (FindMemoryWord State Address)) = SbyPressed State"
  "SbyStillPressed (snd (FindMemoryWord State Address)) = SbyStillPressed State"
  "CheckParity (snd (FindMemoryWord State Address)) = CheckParity State"
  "RestartLight (snd (FindMemoryWord State Address)) = RestartLight State"
  "TookBZF (snd (FindMemoryWord State Address)) = TookBZF State"
  "TookBZMF (snd (FindMemoryWord State Address)) = TookBZMF State"
  "GeneratedWarning (snd (FindMemoryWord State Address)) = GeneratedWarning State"
  "Trap31A (snd (FindMemoryWord State Address)) = Trap31A State"
  "Trap31B (snd (FindMemoryWord State Address)) = Trap31B State"
  "Trap32 (snd (FindMemoryWord State Address)) = Trap32 State"
  "RadarGateCounter (snd (FindMemoryWord State Address)) = RadarGateCounter State"
  "WarningFilter (snd (FindMemoryWord State Address)) = WarningFilter State"
  "DownruptTime (snd (FindMemoryWord State Address)) = DownruptTime State"
  "Downlink (snd (FindMemoryWord State Address)) = Downlink State"
  "NextZ (snd (FindMemoryWord State Address)) = NextZ State"
  "ScalerCounter (snd (FindMemoryWord State Address)) = ScalerCounter State"
  "ChannelRoutineCount (snd (FindMemoryWord State Address)) = ChannelRoutineCount State"
  "DskyTimer (snd (FindMemoryWord State Address)) = DskyTimer State"
  "DskyFlash (snd (FindMemoryWord State Address)) = DskyFlash State"
  "DskyChannel163 (snd (FindMemoryWord State Address)) = DskyChannel163 State"
  "CduFifos (snd (FindMemoryWord State Address)) = CduFifos State"
  "CduChecker (snd (FindMemoryWord State Address)) = CduChecker State"
  "CountCDUX (snd (FindMemoryWord State Address)) = CountCDUX State"
  "CountCDUY (snd (FindMemoryWord State Address)) = CountCDUY State"
  "CountCDUZ (snd (FindMemoryWord State Address)) = CountCDUZ State"
  "GyroCount (snd (FindMemoryWord State Address)) = GyroCount State"
  "OldChannel14 (snd (FindMemoryWord State Address)) = OldChannel14 State"
  "GyroTimer (snd (FindMemoryWord State Address)) = GyroTimer State"
  "ImuCduCount (snd (FindMemoryWord State Address)) = ImuCduCount State"
  "ImuChannel14 (snd (FindMemoryWord State Address)) = ImuChannel14 State"
  "ringbuffer_in (snd (FindMemoryWord State Address)) = ringbuffer_in State"
  "ringbuffer_out (snd (FindMemoryWord State Address)) = ringbuffer_out State"
  "ChannelMasks (snd (FindMemoryWord State Address)) = ChannelMasks State"
  "ChannelIsSetUp (snd (FindMemoryWord State Address)) = ChannelIsSetUp State"
  "LastRhcPitch (snd (FindMemoryWord State Address)) = LastRhcPitch State"
  "LastRhcYaw (snd (FindMemoryWord State Address)) = LastRhcYaw State"
  "LastRhcRoll (snd (FindMemoryWord State Address)) = LastRhcRoll State"
  "DebugDsky (snd (FindMemoryWord State Address)) = DebugDsky State"
  "InhibitAlarms (snd (FindMemoryWord State Address)) = InhibitAlarms State"
  "CmOrLm (snd (FindMemoryWord State Address)) = CmOrLm State"
  "DedaMonitor (snd (FindMemoryWord State Address)) = DedaMonitor State"
  "DedaWhen (snd (FindMemoryWord State Address)) = DedaWhen State"
  "DebuggerInterruptMasks (snd (FindMemoryWord State Address)) = DebuggerInterruptMasks State"
  "initializeSunburst37 (snd (FindMemoryWord State Address)) = initializeSunburst37 State"
  by (simp_all add: FindMemoryWord_def ParityCheck_def Let_def)

lemma Assign_frame [simp]:
  "CycleCounter (Assign Bank Offset Value State) = CycleCounter State"
  "Fixed (Assign Bank Offset Value State) = Fixed State"
  "Parities (Assign Bank Offset Value State) = Parities State"
  "InputChannel (Assign Bank Offset Value State) = InputChannel State"
  "OutputChannel7 (Assign Bank Offset Value State) = OutputChannel7 State"
  "OutputChannel10 (Assign Bank Offset Value State) = OutputChannel10 State"
  "IndexValue (Assign Bank Offset Value State) = IndexValue State"
  "InterruptRequests (Assign Bank Offset Value State) = InterruptRequests State"
  "ExtraCode (Assign Bank Offset Value State) = ExtraCode State"
  "AllowInterrupt (Assign Bank Offset Value State) = AllowInterrupt State"
  "InIsr (Assign Bank Offset Value State) = InIsr State"
  "SubstituteInstruction (Assign Bank Offset Value State) = SubstituteInstruction State"
  "PendFlag (Assign Bank Offset Value State) = PendFlag State"
  "PendDelay (Assign Bank Offset Value State) = PendDelay State"
  "ExtraDelay (Assign Bank Offset Value State) = ExtraDelay State"
  "DownruptTimeValid (Assign Bank Offset Value State) = DownruptTimeValid State"
  "NightWatchman (Assign Bank Offset Value State) = NightWatchman State"
  "NightWatchmanTripped (Assign Bank Offset Value State) = NightWatchmanTripped State"
  "RuptLock (Assign Bank Offset Value State) = RuptLock State"
  "NoRupt (Assign Bank Offset Value State) = NoRupt State"
  "TCTrap (Assign Bank Offset Value State) = TCTrap State"
  "NoTC (Assign Bank Offset Value State) = NoTC State"
  "Standby (Assign Bank Offset Value State) = Standby State"
  "SbyPressed (Assign Bank Offset Value State) = SbyPressed State"
  "SbyStillPressed (Assign Bank Offset Value State) = SbyStillPressed State"
  "ParityFail (Assign Bank Offset Value State) = ParityFail State"
  "CheckParity (Assign Bank Offset Value State) = CheckParity State"
  "RestartLight (Assign Bank Offset Value State) = RestartLight State"
  "TookBZF (Assign Bank Offset Value State) = TookBZF State"
  "TookBZMF (Assign Bank Offset Value State) = TookBZMF State"
  "GeneratedWarning (Assign Bank Offset Value State) = GeneratedWarning State"
  "Trap31A (Assign Bank Offset Value State) = Trap31A State"
  "Trap31B (Assign Bank Offset Value State) = Trap31B State"
  "Trap32 (Assign Bank Offset Value State) = Trap32 State"
  "RadarGateCounter (Assign Bank Offset Value State) = RadarGateCounter State"
  "WarningFilter (Assign Bank Offset Value State) = WarningFilter State"
  "DownruptTime (Assign Bank Offset Value State) = DownruptTime State"
  "Downlink (Assign Bank Offset Value State) = Downlink State"
  "ScalerCounter (Assign Bank Offset Value State) = ScalerCounter State"
  "ChannelRoutineCount (Assign Bank Offset Value State) = ChannelRoutineCount State"
  "DskyTimer (Assign Bank Offset Value State) = DskyTimer State"
  "DskyFlash (Assign Bank Offset Value State) = DskyFlash State"
  "DskyChannel163 (Assign Bank Offset Value State) = DskyChannel163 State"
  "CduFifos (Assign Bank Offset Value State) = CduFifos State"
  "CduChecker (Assign Bank Offset Value State) = CduChecker State"
  "CountCDUX (Assign Bank Offset Value State) = CountCDUX State"
  "CountCDUY (Assign Bank Offset Value State) = CountCDUY State"
  "CountCDUZ (Assign Bank Offset Value State) = CountCDUZ State"
  "GyroCount (Assign Bank Offset Value State) = GyroCount State"
  "OldChannel14 (Assign Bank Offset Value State) = OldChannel14 State"
  "GyroTimer (Assign Bank Offset Value State) = GyroTimer State"
  "ImuCduCount (Assign Bank Offset Value State) = ImuCduCount State"
  "ImuChannel14 (Assign Bank Offset Value State) = ImuChannel14 State"
  "ringbuffer_in (Assign Bank Offset Value State) = ringbuffer_in State"
  "ringbuffer_out (Assign Bank Offset Value State) = ringbuffer_out State"
  "ChannelMasks (Assign Bank Offset Value State) = ChannelMasks State"
  "ChannelIsSetUp (Assign Bank Offset Value State) = ChannelIsSetUp State"
  "LastRhcPitch (Assign Bank Offset Value State) = LastRhcPitch State"
  "LastRhcYaw (Assign Bank Offset Value State) = LastRhcYaw State"
  "LastRhcRoll (Assign Bank Offset Value State) = LastRhcRoll State"
  "DebugDsky (Assign Bank Offset Value State) = DebugDsky State"
  "InhibitAlarms (Assign Bank Offset Value State) = InhibitAlarms State"
  "CmOrLm (Assign Bank Offset Value State) = CmOrLm State"
  "DedaMonitor (Assign Bank Offset Value State) = DedaMonitor State"
  "DedaWhen (Assign Bank Offset Value State) = DedaWhen State"
  "DebuggerInterruptMasks (Assign Bank Offset Value State) = DebuggerInterruptMasks State"
  "initializeSunburst37 (Assign Bank Offset Value State) = initializeSunburst37 State"
  by (simp_all add: Assign_def Let_def)

lemma AssignFromPointer_frame [simp]:
  "CycleCounter (AssignFromPointer p Value State) = CycleCounter State"
  "Fixed (AssignFromPointer p Value State) = Fixed State"
  "Parities (AssignFromPointer p Value State) = Parities State"
  "InputChannel (AssignFromPointer p Value State) = InputChannel State"
  "OutputChannel7 (AssignFromPointer p Value State) = OutputChannel7 State"
  "OutputChannel10 (AssignFromPointer p Value State) = OutputChannel10 State"
  "IndexValue (AssignFromPointer p Value State) = IndexValue State"
  "InterruptRequests (AssignFromPointer p Value State) = InterruptRequests State"
  "ExtraCode (AssignFromPointer p Value State) = ExtraCode State"
  "AllowInterrupt (AssignFromPointer p Value State) = AllowInterrupt State"
  "InIsr (AssignFromPointer p Value State) = InIsr State"
  "SubstituteInstruction (AssignFromPointer p Value State) = SubstituteInstruction State"
  "PendFlag (AssignFromPointer p Value State) = PendFlag State"
  "PendDelay (AssignFromPointer p Value State) = PendDelay State"
  "ExtraDelay (AssignFromPointer p Value State) = ExtraDelay State"
  "DownruptTimeValid (AssignFromPointer p Value State) = DownruptTimeValid State"
  "NightWatchman (AssignFromPointer p Value State) = NightWatchman State"
  "NightWatchmanTripped (AssignFromPointer p Value State) = NightWatchmanTripped State"
  "RuptLock (AssignFromPointer p Value State) = RuptLock State"
  "NoRupt (AssignFromPointer p Value State) = NoRupt State"
  "TCTrap (AssignFromPointer p Value State) = TCTrap State"
  "NoTC (AssignFromPointer p Value State) = NoTC State"
  "Standby (AssignFromPointer p Value State) = Standby State"
  "SbyPressed (AssignFromPointer p Value State) = SbyPressed State"
  "SbyStillPressed (AssignFromPointer p Value State) = SbyStillPressed State"
  "ParityFail (AssignFromPointer p Value State) = ParityFail State"
  "CheckParity (AssignFromPointer p Value State) = CheckParity State"
  "RestartLight (AssignFromPointer p Value State) = RestartLight State"
  "TookBZF (AssignFromPointer p Value State) = TookBZF State"
  "TookBZMF (AssignFromPointer p Value State) = TookBZMF State"
  "GeneratedWarning (AssignFromPointer p Value State) = GeneratedWarning State"
  "Trap31A (AssignFromPointer p Value State) = Trap31A State"
  "Trap31B (AssignFromPointer p Value State) = Trap31B State"
  "Trap32 (AssignFromPointer p Value State) = Trap32 State"
  "RadarGateCounter (AssignFromPointer p Value State) = RadarGateCounter State"
  "WarningFilter (AssignFromPointer p Value State) = WarningFilter State"
  "DownruptTime (AssignFromPointer p Value State) = DownruptTime State"
  "Downlink (AssignFromPointer p Value State) = Downlink State"
  "ScalerCounter (AssignFromPointer p Value State) = ScalerCounter State"
  "ChannelRoutineCount (AssignFromPointer p Value State) = ChannelRoutineCount State"
  "DskyTimer (AssignFromPointer p Value State) = DskyTimer State"
  "DskyFlash (AssignFromPointer p Value State) = DskyFlash State"
  "DskyChannel163 (AssignFromPointer p Value State) = DskyChannel163 State"
  "CduFifos (AssignFromPointer p Value State) = CduFifos State"
  "CduChecker (AssignFromPointer p Value State) = CduChecker State"
  "CountCDUX (AssignFromPointer p Value State) = CountCDUX State"
  "CountCDUY (AssignFromPointer p Value State) = CountCDUY State"
  "CountCDUZ (AssignFromPointer p Value State) = CountCDUZ State"
  "GyroCount (AssignFromPointer p Value State) = GyroCount State"
  "OldChannel14 (AssignFromPointer p Value State) = OldChannel14 State"
  "GyroTimer (AssignFromPointer p Value State) = GyroTimer State"
  "ImuCduCount (AssignFromPointer p Value State) = ImuCduCount State"
  "ImuChannel14 (AssignFromPointer p Value State) = ImuChannel14 State"
  "ringbuffer_in (AssignFromPointer p Value State) = ringbuffer_in State"
  "ringbuffer_out (AssignFromPointer p Value State) = ringbuffer_out State"
  "ChannelMasks (AssignFromPointer p Value State) = ChannelMasks State"
  "ChannelIsSetUp (AssignFromPointer p Value State) = ChannelIsSetUp State"
  "LastRhcPitch (AssignFromPointer p Value State) = LastRhcPitch State"
  "LastRhcYaw (AssignFromPointer p Value State) = LastRhcYaw State"
  "LastRhcRoll (AssignFromPointer p Value State) = LastRhcRoll State"
  "DebugDsky (AssignFromPointer p Value State) = DebugDsky State"
  "InhibitAlarms (AssignFromPointer p Value State) = InhibitAlarms State"
  "CmOrLm (AssignFromPointer p Value State) = CmOrLm State"
  "DedaMonitor (AssignFromPointer p Value State) = DedaMonitor State"
  "DedaWhen (AssignFromPointer p Value State) = DedaWhen State"
  "DebuggerInterruptMasks (AssignFromPointer p Value State) = DebuggerInterruptMasks State"
  "initializeSunburst37 (AssignFromPointer p Value State) = initializeSunburst37 State"
  by (simp_all add: AssignFromPointer_def split: loc.splits)

lemma deref_FindMemoryWord [simp]: "deref (snd (FindMemoryWord State Address)) p = deref State p"
  by (simp add: deref_def split: loc.splits)

section \<open>Where addresses lead\<close>

lemma nat_and_mask: "(n :: nat) AND mask k = n mod 2 ^ k"
  by (simp add: take_bit_eq_mask [symmetric] take_bit_eq_mod)

lemma nat_masks [simp]:
  "(n :: nat) AND 0xFF = n mod 256" "(n :: nat) AND 0x1FF = n mod 512"
  "(n :: nat) AND 0x3FF = n mod 1024" "(n :: nat) AND 0xFFF = n mod 4096"
  "(n :: nat) AND 0x7F = n mod 128"
  using nat_and_mask [of n 8] nat_and_mask [of n 9] nat_and_mask [of n 10] nat_and_mask [of n 12]
    nat_and_mask [of n 7] by (simp_all add: mask_eq_exp_minus_1)

lemma ErasableBank_lt: "ErasableBank State < 8"
proof -
  have "uint (7 AND (x :: cint)) < 8" for x
    using mod_bounds [of 8 "uint x"] uint_and_low_mask(1) [of 3 x] by (simp only: low_masks) simp
  then show ?thesis
    unfolding ErasableBank_def by (intro unat_ltI) simp
qed

lemma FixedBank_lt: "FixedBank State < 40"
proof -
  let ?x = "sar 10 (int_of_i16 (creg State RegFB))"
  have *: "uint (0x1F AND ?x) < 32"
    using mod_bounds [of 32 "uint ?x"] uint_and_low_mask(1) [of 5 ?x] by (simp only: low_masks) simp
  then have "uint ((0x1F AND ?x) + 8) < 40"
    by (simp add: uint_plus_if')
  with * show ?thesis
    unfolding FixedBank_def Let_def by (intro unat_ltI) simp
qed

text \<open>Pointers into the arrays, and the flat index of unswitched memory.\<close>

definition loc_ok :: "loc \<Rightarrow> bool" where
  "loc_ok p = (case p of ErasableLoc i \<Rightarrow> i < 2048 | FixedLoc i \<Rightarrow> i < 40 * 1024)"

lemma FindMemoryWord_loc:
  "fst (FindMemoryWord State a) =
     (let a = a mod 4096
      in if a < 0x300 then ErasableLoc a
         else if a < 0x400 then ErasableLoc (ErasableBank State * 256 + (a - 0x300))
         else if a < 0x800 then FixedLoc (FixedBank State * 1024 + (a - 0x400))
         else FixedLoc a)"
proof -
  have e: "\<And>S. ErasableBank (State\<lparr>NightWatchman := S\<rparr>) = ErasableBank State"
    "\<And>S. FixedBank (State\<lparr>NightWatchman := S\<rparr>) = FixedBank State"
    by (simp_all add: ErasableBank_def FixedBank_def)
  have m: "n mod 256 = n - 256" if "256 \<le> n" "n < 512" for n :: nat
    using that by (simp add: le_mod_geq)
  have m2: "n mod 256 = n - 512" if "512 \<le> n" "n < 768" for n :: nat
    using that by (simp add: le_mod_geq)
  have m3: "n mod 256 = n - 768" if "768 \<le> n" "n < 1024" for n :: nat
    using that by (simp add: le_mod_geq)
  have m4: "n mod 1024 = n - 1024" if "1024 \<le> n" "n < 2048" for n :: nat
    using that by (simp add: le_mod_geq)
  have m5: "n mod 1024 = n - 2048" if "2048 \<le> n" "n < 3072" for n :: nat
    using that by (simp add: le_mod_geq)
  have m6: "n mod 1024 = n - 3072" if "3072 \<le> n" "n < 4096" for n :: nat
    using that by (simp add: le_mod_geq)
  define b where "b = a mod 4096"
  have b: "b < 4096" "b mod 4096 = b" by (simp_all add: b_def)
  show ?thesis
    unfolding FindMemoryWord_def Let_def nat_masks b_def [symmetric]
    using b m [of b] m2 [of b] m3 [of b] m4 [of b] m5 [of b] m6 [of b]
    by (simp add: e split del: if_split split: if_splits) 
qed

section \<open>Stored values\<close>

text \<open>What a cell of erasable memory makes of a stored value.\<close>

definition stored :: "nat \<Rightarrow> cint \<Rightarrow> i16" where
  "stored i v =
     (if i < REG16 then i16_of_int v
      else i16_of_int (0x7FFF AND
        (if i = RegCYR then EditCYR v else if i = RegSR then EditSR v
         else if i = RegCYL then EditCYL v else if i = RegEDOP then EditEDOP v
         else if i = RegZERO then 0 else v)))"

lemma i16_of_int_and_FFFF [simp]:
  "i16_of_int (v AND 0xFFFF) = i16_of_int v" "i16_of_int (0xFFFF AND v) = i16_of_int v"
  by (rule i16_eqI; auto simp: bit_and_iff mask_bits)+

lemma Erasable_Assign:
  assumes "b < 8" "off < 256"
  shows "Erasable (Assign b off v State) =
    (Erasable State)(b * 256 + off := stored (b * 256 + off) v)"
  using assms by (auto simp: Assign_def Let_def stored_def and.commute [of _ "0x7FFF"])

lemma NextZ_Assign:
  "NextZ (Assign b off v State) = (if b = 0 \<and> off = RegZ then v else NextZ State)"
  by (simp add: Assign_def Let_def)

lemma Erasable_AssignFromPointer:
  "Erasable (AssignFromPointer p v State) =
     (case p of
        ErasableLoc i \<Rightarrow> if i < 2048 then (Erasable State)(i := stored i v) else Erasable State
      | FixedLoc _ \<Rightarrow> Erasable State)"
proof (cases p)
  case (ErasableLoc i)
  then show ?thesis
    using Erasable_Assign [of "i div 256" "i mod 256" v State] by (simp add: AssignFromPointer_def)
qed (simp add: AssignFromPointer_def)

lemma NextZ_AssignFromPointer:
  "NextZ (AssignFromPointer p v State) = (if p = ErasableLoc RegZ then v else NextZ State)"
  by (auto simp: AssignFromPointer_def NextZ_Assign split: loc.splits)

lemma Fixed_AssignFromPointer [simp]: "Fixed (AssignFromPointer p v State) = Fixed State"
  by simp

text \<open>Every cell from \<open>REG16\<close> on receives 15 bits.\<close>

lemma uint_stored_lt: "REG16 \<le> i \<Longrightarrow> uint (stored i v) < 32768"
proof -
  have "uint (i16_of_int (0x7FFF AND x)) < 32768" for x :: cint
    using mod_bounds [of 32768 "uint x"] by (simp add: uint_i16_of_int)
  then show "REG16 \<le> i \<Longrightarrow> ?thesis" by (simp add: stored_def)
qed

text \<open>A pointer to erasable memory is a cell of a store; the cells without editing keep every
  15-bit value.\<close>

definition plain_cell :: "loc \<Rightarrow> bool" where
  "plain_cell p = (case p of
     ErasableLoc i \<Rightarrow> REG16 \<le> i \<and> i < 2048 \<and> i \<noteq> RegZERO \<and> i \<notin> {RegCYR, RegSR, RegCYL, RegEDOP}
   | FixedLoc _ \<Rightarrow> False)"

definition stored_at :: "loc \<Rightarrow> cint \<Rightarrow> i16" where
  "stored_at p v = (case p of ErasableLoc i \<Rightarrow> stored i v | FixedLoc _ \<Rightarrow> 0)"

lemma deref_AssignFromPointer:
  "deref (AssignFromPointer p v State) q =
     (if q = p \<and> (\<exists>i<2048. p = ErasableLoc i) then stored_at p v else deref State q)"
  by (auto simp: deref_def Erasable_AssignFromPointer stored_at_def split: loc.splits)

interpretation mem: store "\<lambda>p. \<exists>i<2048. p = ErasableLoc i" deref AssignFromPointer stored_at
  by unfold_locales (auto simp: deref_AssignFromPointer)

lemma fits_int: "uint v < 32768 \<Longrightarrow> int_of_i16 (i16_of_int (0x7FFF AND v)) = (v :: cint)"
proof (rule cint_eqI)
  assume "uint v < 32768"
  then have b: "\<not> bit v n" if "15 \<le> n" for n
    using uint_lt_iff_bits [of v 15] that by auto
  show "n < 16 \<Longrightarrow> bit (int_of_i16 (i16_of_int (0x7FFF AND v))) n = bit v n" for n
    using b [of n] by (cases "15 \<le> n") (auto simp: bit_and_iff mask_bits)
  show "16 \<le> n \<Longrightarrow> n < 32 \<Longrightarrow> bit (int_of_i16 (i16_of_int (0x7FFF AND v))) n = bit v n" for n
    using b [of n] b [of 15] by (simp add: bit_and_iff mask_bits)
qed

interpretation cell: exact_store plain_cell deref AssignFromPointer stored_at
  "\<lambda>v. uint v < 32768" "\<lambda>w. int_of_i16 w"
proof
  fix p q :: loc and v :: cint and State
  assume p: "plain_cell p"
  then obtain i where i: "p = ErasableLoc i" "i < 2048" by (auto simp: plain_cell_def split: loc.splits)
  show "deref (AssignFromPointer p v State) p = stored_at p v"
    using i by (auto simp: deref_AssignFromPointer)
  show "q \<noteq> p \<Longrightarrow> deref (AssignFromPointer p v State) q = deref State q"
    by (simp add: deref_AssignFromPointer)
  assume v: "uint v < 32768"
  have "stored_at p v = i16_of_int (0x7FFF AND v)"
    using p by (auto simp: i plain_cell_def stored_at_def stored_def)
  then show "int_of_i16 (stored_at p v) = v"
    "stored_at p (int_of_i16 (stored_at p v)) = stored_at p v"
    using fits_int [OF v] by simp_all
qed

section \<open>Properties\<close>

text \<open>A field of a register, as the code extracts it.\<close>

lemma field_value:
  assumes "k + m \<le> 16"
  shows "unat (mask m AND sar k (int_of_i16 w)) = unat w div 2 ^ k mod 2 ^ m"
proof -
  have "unat (mask m AND sar k (int_of_i16 w)) = take_bit m (drop_bit k (unat w))"
    using assms by (intro bit_eqI) (auto simp: bit_unsigned_iff bit_and_iff bit_mask_iff bit_sar
      bit_take_bit_iff bit_drop_bit_eq add.commute)
  then show ?thesis by (simp add: take_bit_eq_mod drop_bit_eq_div)
qed

lemma ErasableBank_value: "ErasableBank State = unat (creg State RegEB) div 256 mod 8"
  using field_value [of 8 3 "creg State RegEB"] by (simp add: ErasableBank_def mask_numeral)

lemma FixedBank_value:
  "FixedBank State =
     (if 24 \<le> unat (creg State RegFB) div 1024 mod 32 \<and> bit (OutputChannel7 State) 6
      then unat (creg State RegFB) div 1024 mod 32 + 8 else unat (creg State RegFB) div 1024 mod 32)"
proof -
  let ?x = "0x1F AND sar 10 (int_of_i16 (creg State RegFB))"
  let ?f = "unat (creg State RegFB) div 1024 mod 32"
  have x: "unat ?x = ?f"
    using field_value [of 10 5 "creg State RegFB"] by (simp add: mask_numeral)
  have f: "?f < 32" by simp
  have "list_all (\<lambda>n. (0x18 = (word_of_nat n :: cint) AND 0x18) = (24 \<le> n)) [0..<32]"
    by (simp add: upt_rec list_all_iff)
  moreover have "?x = word_of_nat ?f"
    by (simp only: x [symmetric]) simp
  ultimately have top: "0x18 = ?x AND 0x18 \<longleftrightarrow> 24 \<le> ?f"
    using f unfolding list_all_iff by (metis atLeastLessThan_iff set_upt zero_le)
  have plus: "unat (?x + 8) = ?f + 8"
    using x f by (simp add: unat_plus_if')
  have super: "int_of_i16 (OutputChannel7 State) AND 0x40 \<noteq> 0 \<longleftrightarrow> bit (OutputChannel7 State) 6"
    by (simp add: mask_bits)
  show ?thesis
    unfolding FixedBank_def Let_def top super using x plus by simp
qed

text \<open>C1: \<open>FindMemoryWord\<close> implements the address map of the computer and never leaves
  the arrays: unswitched erasable memory is one block, the next 256 words go through the
  erasable bank (three bits of \<open>EB\<close>), the next 1024 through the fixed bank (five bits of
  \<open>FB\<close>; the superbank bit of channel 7 moves the last eight up by eight), and the rest is
  the fixed-fixed block of banks 2 and 3.\<close>

theorem FindMemoryWord_map:
  "fst (FindMemoryWord State a) =
     (let a = a mod 4096;
          eb = unat (creg State RegEB) div 256 mod 8;
          fb = unat (creg State RegFB) div 1024 mod 32;
          fb = (if 24 \<le> fb \<and> bit (OutputChannel7 State) 6 then fb + 8 else fb)
      in if a < 0x300 then ErasableLoc a
         else if a < 0x400 then ErasableLoc (eb * 256 + (a - 0x300))
         else if a < 0x800 then FixedLoc (fb * 1024 + (a - 0x400))
         else FixedLoc a) \<and>
   loc_ok (fst (FindMemoryWord State a))"
proof -
  have eq: "fst (FindMemoryWord State a) =
     (let a = a mod 4096
      in if a < 0x300 then ErasableLoc a
         else if a < 0x400 then ErasableLoc (ErasableBank State * 256 + (a - 0x300))
         else if a < 0x800 then FixedLoc (FixedBank State * 1024 + (a - 0x400))
         else FixedLoc a)"
    by (rule FindMemoryWord_loc)
  have "a mod 4096 < 4096" by simp
  then have "loc_ok (fst (FindMemoryWord State a))"
    using ErasableBank_lt [of State] FixedBank_lt [of State] unfolding eq
    by (auto simp: loc_ok_def Let_def)
  then show ?thesis
    by (simp only: eq Let_def ErasableBank_value FixedBank_value simp_thms)
qed

lemma word_parity_iff:
  assumes "p = 0 \<or> p = 1"
  shows "word_parity w p = 1 \<longleftrightarrow> odd ((\<Sum>n<15. of_bool (bit w n)) + (of_bool (p = 1) :: nat))"
proof -
  define x0 where "x0 = shl 1 w OR p"
  define x1 where "x1 = x0 XOR sar 8 x0"
  define x2 where "x2 = x1 XOR sar 4 x1"
  define x3 where "x3 = x2 XOR sar 2 x2"
  define x4 where "x4 = x3 XOR sar 1 x3"
  define f where "f n = (of_bool (bit x0 n) :: nat)" for n
  have 1: "bit x1 n \<longleftrightarrow> odd (f n + f (n + 8))" if "n < 8" for n
    using that by (simp add: x1_def bit_xor_iff bit_sar f_def add.commute)
  have 2: "bit x2 n \<longleftrightarrow> odd (f n + f (n + 8) + (f (n + 4) + f (n + 12)))" if "n < 4" for n
    using that 1 [of n] 1 [of "n + 4"] by (auto simp add: x2_def bit_xor_iff bit_sar add.commute)
  define s where "s n = f n + f (n + 8) + (f (n + 4) + f (n + 12)) +
      (f (n + 2) + f (n + 10) + (f (n + 6) + f (n + 14)))" for n
  have 3: "bit x3 n \<longleftrightarrow> odd (s n)" if "n < 2" for n
    using that 2 [of n] 2 [of "n + 2"]
    by (simp add: x3_def bit_xor_iff bit_sar add.commute s_def) argo
  have "bit x4 0 \<longleftrightarrow> odd (s 0 + s 1)"
    using 3 [of 0] 3 [of 1] by (simp add: x4_def bit_xor_iff bit_sar)
  also have "s 0 + s 1 = (\<Sum>n<16. f n)"
    by (simp add: s_def lessThan_nat_numeral lessThan_Suc numeral_2_eq_2 numeral_3_eq_3)
  finally have 4: "bit x4 0 \<longleftrightarrow> odd (\<Sum>n<16. f n)" .
  have "(\<Sum>n<16. f n) = f 0 + (\<Sum>n<15. f (Suc n))"
    using sum.lessThan_Suc_shift [of f 15] by simp
  moreover have "f 0 = of_bool (p = 1)"
    using assms by (auto simp: f_def x0_def bit_or_iff bit_shl bit_1_iff)
  moreover have "f (Suc n) = of_bool (bit w n)" if "n < 15" for n
    using assms that by (auto simp: f_def x0_def bit_or_iff bit_shl bit_1_iff)
  ultimately have "(\<Sum>n<16. f n) = (\<Sum>n<15. of_bool (bit w n)) + of_bool (p = 1)"
    by simp
  moreover have "word_parity w p = x4 AND 1"
    by (simp add: word_parity_def x0_def x1_def x2_def x3_def x4_def Let_def)
  moreover have "x4 AND 1 = 1 \<longleftrightarrow> bit x4 0"
  proof -
    have "x4 AND 1 = (if bit x4 0 then 1 else 0)"
      by (rule bit_word_eqI) (auto simp: bit_and_iff bit_1_iff intro: gr0I)
    then show ?thesis by simp
  qed
  ultimately show ?thesis using 4 by simp
qed

text \<open>The parity check accepts exactly the words with an odd number of ones among the 15
  data bits and the parity bit; an access to fixed memory raises \<open>ParityFail\<close> and its bit
  in channel 77 exactly when checking is enabled and the word fails.\<close>

theorem ParityCheck_correct:
  "let k = b * 1024 + a mod 1024;
       good = odd ((\<Sum>n<15. of_bool (bit (Fixed State k) n)) +
                   (of_bool (bit (Parities State (k div 32)) (k mod 32)) :: nat))
   in ParityCheck b a State =
        (if CheckParity State \<and> \<not> good
         then State\<lparr>ParityFail := True, InputChannel :=
                (InputChannel State)(0x3F := InputChannel State 0x3F OR CH77_PARITY_FAIL)\<rparr>
         else State)"
proof -
  let ?k = "b * 1024 + a mod 1024"
  let ?e = "shr (?k mod 32) (Parities State (?k div 32)) AND 1"
  have e: "?e = of_bool (bit (Parities State (?k div 32)) (?k mod 32))"
    by (rule bit_word_eqI) (auto simp: bit_and_iff bit_1_iff bit_shr bit_of_bool_iff)
  have "word_parity w (ucast ?e) = 1 \<longleftrightarrow> odd ((\<Sum>n<15. of_bool (bit w n)) +
      (of_bool (bit (Parities State (?k div 32)) (?k mod 32)) :: nat))" for w
    unfolding e using word_parity_iff [of 0 w] word_parity_iff [of 1 w]
    by (cases "bit (Parities State (?k div 32)) (?k mod 32)") simp_all
  then show ?thesis
    by (simp add: ParityCheck_def Let_def)
qed

lemma bit_stored:
  "bit (stored i v) n \<longleftrightarrow>
     (if i = RegCYR then n < 15 \<and> bit v (if n = 14 then 0 else n + 1)
      else if i = RegCYL then n < 15 \<and> bit v (if n = 0 then 14 else n - 1)
      else if i = RegSR then n < 15 \<and> bit v (if n = 14 then 14 else n + 1)
      else if i = RegEDOP then n < 7 \<and> bit v (n + 7)
      else if i = RegZERO then False
      else n < (if i < REG16 then 16 else 15) \<and> bit v n)"
proof -
  have cyr: "bit (stored RegCYR v) n \<longleftrightarrow> n < 15 \<and> bit v (if n = 14 then 0 else n + 1)"
  proof -
    have "(v AND 0x7FFF) AND 1 = (if bit v 0 then 1 else 0)"
      by (rule bit_word_eqI) (auto simp: bit_and_iff bit_1_iff mask_bits intro: gr0I)
    then show ?thesis
      by (auto simp: stored_def EditCYR_def Let_def bit_simps mask_bits)
  qed
  have cyl: "bit (stored RegCYL v) n \<longleftrightarrow> n < 15 \<and> bit v (if n = 0 then 14 else n - 1)"
  proof -
    have "shl 1 (v AND 0x7FFF) AND 1 = 0"
      by (rule bit_word_eqI) (auto simp: bit_and_iff bit_shl bit_1_iff)
    then have "shl 1 (v AND 0x7FFF) + 1 = shl 1 (v AND 0x7FFF) OR 1"
      by (simp add: disjunctive_add_eq_or)
    then show ?thesis
      by (auto simp: stored_def EditCYL_def Let_def bit_and_iff bit_or_iff bit_shl bit_1_iff mask_bits)
  qed
  have sr: "bit (stored RegSR v) n \<longleftrightarrow> n < 15 \<and> bit v (if n = 14 then 14 else n + 1)"
    by (auto simp: stored_def EditSR_def Let_def bit_simps mask_bits)
  have edop: "bit (stored RegEDOP v) n \<longleftrightarrow> n < 7 \<and> bit v (n + 7)"
    by (auto simp: stored_def EditEDOP_def Let_def bit_simps mask_bits add.commute)
  consider "i = RegCYR" | "i = RegCYL" | "i = RegSR" | "i = RegEDOP" | "i = RegZERO"
    | "i \<notin> {RegCYR, RegCYL, RegSR, RegEDOP, RegZERO}" by blast
  then show ?thesis
  proof cases
    case 1 then show ?thesis using cyr by simp
  next
    case 2 then show ?thesis using cyl by simp
  next
    case 3 then show ?thesis using sr by simp
  next
    case 4 then show ?thesis using edop by simp
  next
    case 5 then show ?thesis by (simp add: stored_def)
  next
    case 6 then show ?thesis by (auto simp: stored_def bit_and_iff mask_bits)
  qed
qed

text \<open>C3: a store into erasable memory changes the one cell pointed to, and the cell gets the
  edited value: \<open>CYR\<close> and \<open>CYL\<close> rotate the 15 bits right and left, \<open>SR\<close>
  shifts right and keeps the sign, \<open>EDOP\<close> keeps bits 8 to 14, \<open>ZERO\<close> stays zero,
  the registers below \<open>REG16\<close> keep 16 bits and all other cells 15; a pointer to fixed
  memory stores nothing.\<close>

theorem AssignFromPointer_edits:
  "deref (AssignFromPointer p v State) q =
     (if q = p \<and> (\<exists>i<2048. p = ErasableLoc i) then stored_at p v else deref State q) \<and>
   (bit (stored_at (ErasableLoc i) v) n \<longleftrightarrow>
     (if i = RegCYR then n < 15 \<and> bit v (if n = 14 then 0 else n + 1)
      else if i = RegCYL then n < 15 \<and> bit v (if n = 0 then 14 else n - 1)
      else if i = RegSR then n < 15 \<and> bit v (if n = 14 then 14 else n + 1)
      else if i = RegEDOP then n < 7 \<and> bit v (n + 7)
      else if i = RegZERO then False
      else n < (if i < REG16 then 16 else 15) \<and> bit v n))"
  using bit_stored [of i v n] by (simp add: deref_AssignFromPointer stored_at_def)

end
