(* ===== verification/AGC_Divide.thy ===== *)
theory AGC_Divide
  imports AGC_Memory
begin

text \<open>
  Multiplication and division of \<open>src/yaAGC/agc_engine.c\<close>: \<open>MP\<close> (lines 3420-3470),
  \<open>DV\<close> (lines 3090-3205) and \<open>SimulateDV\<close> (lines 1757-1829), the register-level
  simulation that \<open>DV\<close> falls back on.  \<open>IsA\<close>, \<open>IsL\<close> and \<open>IsZ\<close>
  compare the address with the register's.  The C operators \<open>/\<close> and \<open>%\<close> truncate
  towards zero (\<open>sdiv\<close>, \<open>smod\<close>).
\<close>

unbundle bit_operations_syntax

section \<open>The simulated divider\<close>

text \<open>\<open>ValueOverflowed\<close> and \<open>AddSP16\<close> get the \<open>uint16_t\<close> values promoted to
  \<open>int\<close>.\<close>

abbreviation u16_of_int :: "cint \<Rightarrow> u16" where "u16_of_int v \<equiv> ucast v"

definition DVShift :: "u16 \<Rightarrow> u16 \<times> u16 \<Rightarrow> u16 \<times> u16" where
  "DVShift divisor = (\<lambda>(quotient, remainder).
     (let quotient = shl 1 quotient;
          remainder_sign = remainder AND 0x8000;
          remainder = remainder_sign OR shl 1 (remainder AND 0x3FFF);
          remainder = (if quotient AND 0x8000 = 0 then remainder OR shr 15 remainder_sign
                       else remainder);
          sum1 = u16_of_int (AddSP16 (int_of_u16 remainder) (int_of_u16 divisor))
      in if sum1 AND 0x8000 \<noteq> 0 then (quotient OR 1, sum1) else (quotient, remainder)))"

definition SimulateDV :: "u16 \<Rightarrow> yaagc \<Rightarrow> yaagc" where
  "SimulateDV divisor State =
     (let a = creg State RegA;
          l = creg State RegL;
          dividend_sign = a AND 0x8000;
          a = (if dividend_sign = 0 then NOT a else a);
          dividend_sign = (if a = 0xFFFF then l AND 0x8000 else dividend_sign);
          l = (if dividend_sign \<noteq> 0 then NOT l else l);
          l = u16_of_int (AddSP16 (int_of_u16 l) 0x4000);
          a = (if ValueOverflowed (int_of_u16 l) \<noteq> AGC_P1
               then u16_of_int (AddSP16 (int_of_u16 a) 1) else a);
          remainder = a;
          divisor_sign = divisor AND 0x8000;
          divisor = (if divisor_sign \<noteq> 0 then NOT divisor else divisor);
          quotient_sign = l AND 0x8000;
          quotient = quotient_sign OR shl 1 (l AND 0x3FFF) OR shr 15 quotient_sign;
          (quotient, remainder) = (DVShift divisor ^^ 14) (quotient, remainder);
          a = quotient_sign OR (quotient AND 0x7FFF)
      in set_creg RegL (if dividend_sign \<noteq> 0 then remainder else NOT remainder)
           (set_creg RegA (if dividend_sign \<noteq> divisor_sign then NOT a else a) State))"

section \<open>DV\<close>

text \<open>The divisor that \<open>DV\<close> sees: for \<open>A\<close>, \<open>L\<close> and \<open>Z\<close> the register as
  modified before it is read.\<close>

definition DVNegative :: "i16 \<Rightarrow> yaagc \<Rightarrow> bool" where
  "DVNegative AbsA State \<longleftrightarrow>
     AbsA = 0 \<and> 0x8000 AND creg State RegL \<noteq> 0 \<or> AbsA \<noteq> 0 \<and> 0x8000 AND creg State RegA \<noteq> 0"

definition DVDivisor :: "nat \<Rightarrow> i16 \<Rightarrow> yaagc \<Rightarrow> i16 \<times> yaagc" where
  "DVDivisor Address10 AbsA State =
     (if Address10 = RegA then
        (if creg State RegA AND 0x8000 = 0 then 0xFFFF AND NOT (creg State RegA)
         else creg State RegA, State)
      else if Address10 = RegL then
        let Div16 = creg State RegL;
            Div16 = (if DVNegative AbsA State then 0xFFFF AND NOT Div16 else Div16)
        in (i16_of_int (SignExtend (OverflowCorrected (AddSP16 (int_of_u16 Div16) 0x4000))), State)
      else if Address10 = RegZ then
        let Div16 = creg State RegZ
        in (if DVNegative AbsA State then Div16 OR 0x8000 else Div16, State)
      else if Address10 < REG16 then (creg State Address10, State)
      else
        case FindMemoryWord State Address10 of
          (WhereWord, State) \<Rightarrow> (i16_of_int (SignExtend (deref State WhereWord)), State))"

text \<open>The case of a divisor larger than the dividend.\<close>

definition DVQuotient :: "cint \<Rightarrow> i16 \<Rightarrow> yaagc \<Rightarrow> yaagc" where
  "DVQuotient Dividend Div16 State =
     (let Dividend = agc2cpu2 Dividend;
          Divisor = agc2cpu (int_of_i16 (OverflowCorrected (int_of_i16 Div16)));
          Quotient = word_of_int (sint Dividend sdiv sint Divisor) :: cint;
          Remainder = word_of_int (sint Dividend smod sint Divisor) :: cint;
          State = set_creg RegA (i16_of_int (SignExtend (i16_of_int (cpu2agc Quotient)))) State
      in set_creg RegL
           (if Remainder = 0 then
              (if 0 \<le>s Dividend then AGC_P0 else i16_of_int (SignExtend AGC_M0))
            else i16_of_int (SignExtend (i16_of_int (cpu2agc Remainder)))) State)"

definition exec_DV :: "nat \<Rightarrow> cint \<Rightarrow> yaagc \<Rightarrow> yaagc" where
  "exec_DV Address10 Accumulator State =
     (let AccPair0 = OverflowCorrected Accumulator;
          AccPair1 = creg State RegL;
          Dividend = SpToDecent AccPair0 AccPair1;
          (AccPair0, AccPair1) = DecentToSp Dividend;
          AbsA = AbsSP AccPair0;
          AbsL = AbsSP AccPair1;
          (Div16, State) = DVDivisor Address10 AbsA State;
          DivSP = OverflowCorrected (int_of_i16 Div16);
          AbsK = AbsSP DivSP
      in if AbsK <s AbsA \<or> AbsA = AbsK \<and> AbsL \<noteq> AGC_P0 \<or>
            ValueOverflowed (int_of_i16 Div16) \<noteq> AGC_P0 then SimulateDV Div16 State
         else if AbsA = 0 \<and> AbsL = 0 then
           let Operand16 =
             (if 0x4000 AND creg State RegL = 0x4000 AND DivSP
              then if AbsK = 0 then 0x3FFF else AGC_P0
              else if AbsK = 0 then 0x7FFF AND NOT 0x3FFF else AGC_M0)
           in set_creg RegA (i16_of_int (SignExtend Operand16)) State
         else if AbsA = AbsK \<and> AbsL = AGC_P0 then
           let Operand16 = (if AccPair0 = DivSP then 0x3FFF else 0x7FFF AND NOT 0x3FFF)
           in set_creg RegA (i16_of_int (SignExtend Operand16))
                (set_creg RegL (i16_of_int (SignExtend AccPair0)) State)
         else DVQuotient Dividend Div16 State)"

section \<open>MP\<close>

definition exec_MP :: "nat \<Rightarrow> cint \<Rightarrow> yaagc \<Rightarrow> yaagc" where
  "exec_MP Address12 Accumulator State =
     (case FindMemoryWord State Address12 of
        (WhereWord, State) \<Rightarrow>
          let Operand16 = OverflowCorrected Accumulator;
              OtherOperand16 =
                (if Address12 < REG16 then OverflowCorrected (int_of_i16 (creg State Address12))
                 else deref State WhereWord);
              (MsWord, LsWord) =
                (if OtherOperand16 = AGC_P0 \<or> OtherOperand16 = AGC_M0 then (AGC_P0, AGC_P0)
                 else if Operand16 = AGC_P0 \<or> Operand16 = AGC_M0 then
                   if Operand16 = AGC_P0 \<and> 0x4000 AND OtherOperand16 \<noteq> 0 \<or>
                      Operand16 = AGC_M0 \<and> 0x4000 AND OtherOperand16 = 0
                   then (AGC_M0, AGC_M0) else (AGC_P0, AGC_P0)
                 else
                   let Product = agc2cpu (SignExtend Operand16) * agc2cpu (SignExtend OtherOperand16);
                       Product = cpu2agc2 Product;
                       Product = (if 0x10000000 AND Product \<noteq> 0 then Product OR 0x20000000
                                  else Product)
                   in DecentToSp Product)
          in set_creg RegL (i16_of_int (SignExtend LsWord))
               (set_creg RegA (i16_of_int (SignExtend MsWord)) State))"

section \<open>The product\<close>

text \<open>The word that \<open>MP\<close> and \<open>DV\<close> operate on.\<close>

definition operand :: "nat \<Rightarrow> yaagc \<Rightarrow> i16" where
  "operand Address State =
     (if Address < REG16 then OverflowCorrected (int_of_i16 (creg State Address))
      else deref State (fst (FindMemoryWord State Address)))"

lemma SignExtend_M0: "i16_of_int (SignExtend 0x7FFF) = 0xFFFF" "SignExtend 0 = 0"
    "sp_val 0xFFFF = 0"
  by (simp_all add: SignExtend_def sp_val_def shift_defs)

lemma cpu2agc2_product:
  assumes "DecentToSp (if 0x10000000 AND P \<noteq> 0 then P OR 0x20000000 else P) = (m, l)"
    and P: "P = cpu2agc2 x" and x: "\<bar>sint x\<bar> \<le> 268435455"
  shows "dp_val m l = sint x \<and> (bit m 14 \<longleftrightarrow> bit l 14)"
proof -
  let ?Q = "if 0x10000000 AND P \<noteq> 0 then P OR 0x20000000 else P"
  have "uint P < 536870912"
    using x uint_cpu2agc2 [OF x] by (auto simp: P)
  then have "\<not> bit P 29"
    using uint_lt_iff_bits [of P 29] by auto
  then have b: "bit ?Q 29 = bit ?Q 28"
    by (auto simp: bit_or_iff mask_bits)
  have "dec_val ?Q = dec_val P"
    by auto
  also have "\<dots> = sint x"
    using x by (simp add: P dec_val_cpu2agc2)
  finally show ?thesis
    using dp_val_DecentToSp [OF assms(1) b] bits_DecentToSp [OF assms(1), of 14] by simp
qed

lemma product_bound:
  "\<bar>a\<bar> \<le> 16383 \<Longrightarrow> \<bar>b\<bar> \<le> 16383 \<Longrightarrow> \<bar>a * b\<bar> \<le> (268435455 :: int)"
  using mult_mono [of "\<bar>a\<bar>" 16383 "\<bar>b\<bar>" 16383] by (simp add: abs_mult)

text \<open>C19: \<open>MP\<close> leaves in \<open>A\<close> and \<open>L\<close> the exact double precision product of the
  overflow-corrected accumulator and the operand, with equal signs in both words.  A zero operand
  gives plus zero; a zero accumulator gives the zero with the sign of the product.\<close>

theorem MP_product:
  "let State' = exec_MP K v State
   in dp_val (creg State' RegA) (creg State' RegL) =
        sp_val (OverflowCorrected v) * sp_val (operand K State) \<and>
      (bit (creg State' RegA) 14 \<longleftrightarrow> bit (creg State' RegL) 14) \<and>
      (if operand K State \<in> {AGC_P0, AGC_M0} then creg State' RegA = 0
       else if OverflowCorrected v \<in> {AGC_P0, AGC_M0}
       then creg State' RegA =
         (if bit (OverflowCorrected v) 14 = bit (operand K State) 14 then 0 else 0xFFFF)
       else True)"
proof -
  let ?a = "OverflowCorrected v" and ?k = "operand K State"
  obtain p S where F: "FindMemoryWord State K = (p, S)" by fastforce
  have frame: "Erasable S = Erasable State" "deref S p = deref State p"
    using FindMemoryWord_frame [of State K] deref_FindMemoryWord [of State K p] by (simp_all add: F)
  have k: "(if K < REG16 then OverflowCorrected (int_of_i16 (creg S K)) else deref S p) = ?k"
    by (simp add: operand_def F frame)
  let ?x = "agc2cpu (SignExtend ?a) * agc2cpu (SignExtend ?k)"
  have bound: "\<bar>sp_val ?a * sp_val ?k\<bar> \<le> 268435455"
    using sp_val_bounds [of ?a] sp_val_bounds [of ?k] by (intro product_bound) auto
  then have x: "sint ?x = sp_val ?a * sp_val ?k"
    by (subst sint_times_small) auto
  define Q where "Q = (if 0x10000000 AND cpu2agc2 ?x \<noteq> 0 then cpu2agc2 ?x OR 0x20000000 else cpu2agc2 ?x)"
  obtain m l where ml: "DecentToSp Q = (m, l)" by fastforce
  have prod: "dp_val m l = sp_val ?a * sp_val ?k \<and> (bit m 14 \<longleftrightarrow> bit l 14)"
    using cpu2agc2_product [OF ml [unfolded Q_def] refl] bound by (simp add: x)
  have zero: "?a = 0 \<or> ?a = 0x7FFF \<or> ?k = 0 \<or> ?k = 0x7FFF \<Longrightarrow> sp_val ?a * sp_val ?k = 0"
    by (auto simp: sp_val_zero)
  have sign: "0x4000 AND ?k \<noteq> 0 \<longleftrightarrow> bit ?k 14" "0x4000 AND ?k = 0 \<longleftrightarrow> \<not> bit ?k 14"
    by (simp_all add: mask_bits)
  consider "?k = 0 \<or> ?k = 0x7FFF" | "\<not> (?k = 0 \<or> ?k = 0x7FFF)" "?a = 0" | "\<not> (?k = 0 \<or> ?k = 0x7FFF)" "?a = 0x7FFF"
    | "\<not> (?k = 0 \<or> ?k = 0x7FFF)" "?a \<noteq> 0" "?a \<noteq> 0x7FFF" by blast
  then show ?thesis
    unfolding exec_MP_def F prod.case k Let_def Q_def [symmetric] ml sign
    using zero prod by cases (simp_all add: sp_val_zero dp_val_def SignExtend_M0)
qed

section \<open>The quotient\<close>

lemma sdiv_bound:
  assumes "\<bar>n\<bar> < \<bar>d\<bar> * (k :: int)" "d \<noteq> 0"
  shows "\<bar>n sdiv d\<bar> < k"
proof -
  have "\<bar>n\<bar> div \<bar>d\<bar> < k" "0 \<le> \<bar>n\<bar> div \<bar>d\<bar>"
    using assms int_div_less [of "\<bar>d\<bar>" "\<bar>n\<bar>" k] by (auto simp: pos_imp_zdiv_nonneg_iff)
  then show ?thesis
    using assms(2) by (auto simp: signed_divide_int_def abs_mult sgn_if)
qed

text \<open>Two words of one sign: the magnitude of the pair.\<close>

lemma dp_val_abs:
  assumes "bit m 14 \<longleftrightarrow> bit l 14"
  shows "\<bar>dp_val m l\<bar> = \<bar>sp_val m\<bar> * 16384 + \<bar>sp_val l\<bar>"
proof -
  have s: "(bit w 14 \<longrightarrow> sp_val w \<le> 0) \<and> (\<not> bit w 14 \<longrightarrow> 0 \<le> sp_val w)" for w :: i16
    by (auto simp: sp_val_def)
  show ?thesis
  proof (cases "bit m 14")
    case True
    then have "sp_val m \<le> 0" "sp_val l \<le> 0" using s assms by blast+
    then show ?thesis by (simp add: dp_val_def)
  next
    case False
    then have "0 \<le> sp_val m" "0 \<le> sp_val l" using s assms by blast+
    then show ?thesis by (simp add: dp_val_def)
  qed
qed

lemma sless_of_small:
  "uint a < 32768 \<Longrightarrow> uint b < 32768 \<Longrightarrow> (a :: i16) <s b \<longleftrightarrow> uint a < uint b"
  by (simp add: word_sless_alt sint_i16_small)

lemma sp_val_put_quotient:
  assumes "\<bar>q\<bar> \<le> 16383"
  shows "sp_val (i16_of_int (SignExtend (i16_of_int (cpu2agc (word_of_int q))))) = q"
proof -
  have "sint (word_of_int q :: cint) = q"
    using assms by (intro sint_word_of_int_small) auto
  then show ?thesis
    using sp_val_cpu2agc [of "word_of_int q"] assms by simp
qed

lemma DVQuotient_value:
  assumes N: "dec_val Dividend = N" and D: "D = sp_val (OverflowCorrected (int_of_i16 Div16))"
    and lt: "\<bar>N\<bar> < \<bar>D\<bar> * 16384"
  shows "sp_val (creg (DVQuotient Dividend Div16 State) RegA) = N sdiv D \<and>
    sp_val (creg (DVQuotient Dividend Div16 State) RegL) = N smod D"
proof -
  have D0: "D \<noteq> 0"
    using lt by auto
  have dn: "sint (agc2cpu2 Dividend) = N"
    using N by (simp add: sint_agc2cpu2)
  have Db: "\<bar>D\<bar> \<le> 16383"
    using sp_val_bounds [of "OverflowCorrected (int_of_i16 Div16)"] D by auto
  have q: "\<bar>N sdiv D\<bar> \<le> 16383"
    using sdiv_bound [OF lt D0] by simp
  have r: "\<bar>N smod D\<bar> \<le> 16383"
    using smod_int_range [OF D0, of N] Db by auto
  have r0: "(word_of_int (N smod D) :: cint) = 0 \<longleftrightarrow> N smod D = 0"
    using sint_word_of_int_small [of "N smod D"] r by auto
  show ?thesis
    using sp_val_put_quotient [OF q] sp_val_put_quotient [OF r] r0
    by (auto simp: DVQuotient_def Let_def dn D [symmetric] sp_val_zero)
qed

text \<open>C20: in its regular case \<open>DV\<close> divides exactly: for a dividend in \<open>A\<close>,
  \<open>L\<close> smaller than the divisor shifted by 14 bits, a divisor in memory, and \<open>L\<close>
  not the sign-extended minus zero, \<open>A\<close> gets the quotient truncated towards zero and
  \<open>L\<close> the remainder with the sign of the dividend.\<close>

theorem DV_quotient:
  fixes State :: yaagc
  defines "N \<equiv> \<lambda>v. dp_val (OverflowCorrected v) (creg State RegL)"
  assumes K: "REG16 \<le> K" "K \<noteq> RegZ"
    and nz: "\<not> unnoticed_zero (creg State RegL)"
    and lt: "N v \<noteq> 0" "\<bar>N v\<bar> < \<bar>sp_val (operand K State)\<bar> * 16384"
  shows "sp_val (creg (exec_DV K v State) RegA) = N v sdiv sp_val (operand K State) \<and>
    sp_val (creg (exec_DV K v State) RegL) = N v smod sp_val (operand K State)"
proof -
  let ?a = "OverflowCorrected v" and ?l = "creg State RegL" and ?w = "operand K State"
  obtain m l where ml: "DecentToSp (SpToDecent ?a ?l) = (m, l)" by fastforce
  have a: "uint ?a < 32768" by (rule uint_OverflowCorrected_lt)
  note dec = dec_val_SpToDecent [OF a disjI2 [OF disjI2 [OF nz]]]
  have ml_N: "dp_val m l = N v"
    using dp_val_DecentToSp [OF ml dec(2)] dec(1) by (simp add: N_def)
  have small: "uint m < 32768" "uint l < 32768"
    using uint_DecentToSp_lt [OF ml] by simp_all
  have abs: "\<bar>N v\<bar> = \<bar>sp_val m\<bar> * 16384 + \<bar>sp_val l\<bar>"
    using dp_val_abs [of m l] bits_DecentToSp [OF ml, of 14] by (simp add: ml_N)
  obtain p S where F: "FindMemoryWord State K = (p, S)" by fastforce
  have S: "deref S p = ?w" "Erasable S = Erasable State"
    using K FindMemoryWord_frame [of State K] deref_FindMemoryWord [of State K p]
    by (simp_all add: operand_def F)
  let ?d = "i16_of_int (SignExtend ?w)"
  have Dv: "DVDivisor K x State = (?d, S)" for x
    using K by (simp add: DVDivisor_def F S)
  have absk: "uint (AbsSP (0x7FFF AND ?w)) = \<bar>sp_val ?w\<bar>"
    using AbsSP_value [of "0x7FFF AND ?w"] mod_bounds [of 32768 "uint ?w"] by simp
  have A: "\<bar>sp_val m\<bar> < \<bar>sp_val ?w\<bar>"
    using abs lt by auto
  have cond: "\<not> AbsSP (0x7FFF AND ?w) <s AbsSP m" "AbsSP m \<noteq> AbsSP (0x7FFF AND ?w)"
    "\<not> (AbsSP m = 0 \<and> AbsSP l = 0)"
    using A absk AbsSP_value [OF small(1)] AbsSP_value [OF small(2)] abs lt(1)
      sp_val_bounds [of m] sp_val_bounds [of ?w]
    by (auto simp: sless_of_small)
  have "exec_DV K v State = DVQuotient (SpToDecent ?a ?l) ?d S"
    unfolding exec_DV_def Let_def ml prod.case Dv OverflowCorrected_i16_SignExtend
      ValueOverflowed_i16_SignExtend
    by (simp only: cond simp_thms if_False)
  then show ?thesis
    using DVQuotient_value [of "SpToDecent ?a ?l" "N v" "sp_val ?w" ?d S] dec(1) lt
    by (simp add: N_def)
qed

theorem DV_quotient_witness:
  "let State = power_on\<lparr>Erasable := (\<lambda>_. 0)(48 := 0x7FFC)\<rparr>; v = 1; State' = exec_DV 48 v State
   in sp_val (creg State' RegA) = - 5461 \<and> sp_val (creg State' RegL) = 1"
proof -
  let ?S = "power_on\<lparr>Erasable := (\<lambda>_. 0)(48 := 0x7FFC)\<rparr>"
  have e: "operand 48 ?S = 0x7FFC" "OverflowCorrected 1 = 1"
    by (simp_all add: operand_def FindMemoryWord_def deref_def power_on_def OverflowCorrected_def
        shift_defs)
  have "sp_val (operand 48 ?S) = - 3" "dp_val (OverflowCorrected 1) (creg ?S RegL) = 16384"
    unfolding e by (simp_all add: sp_val_def dp_val_def)
  then show ?thesis
    using DV_quotient [of 48 ?S 1] by (simp add: unnoticed_zero_def signed_divide_int_def
        signed_modulo_int_def)
qed

text \<open>The irregular case: with \<open>A = 2\<close>, \<open>L = -0\<close> (the register content
  \<open>0177777\<close>) and the divisor 3, \<open>DV\<close> divides 16384 instead of 32768.\<close>

theorem DV_minus_zero:
  "let State = power_on\<lparr>Erasable := (\<lambda>_. 0)(1 := 0xFFFF, 48 := 3)\<rparr>; State' = exec_DV 48 2 State
   in dp_val 2 (creg State RegL) = 32768 \<and> sp_val (operand 48 State) = 3 \<and>
      sp_val (creg State' RegA) = 16384 sdiv 3 \<and> sp_val (creg State' RegL) = 16384 smod 3"
proof -
  let ?S = "power_on\<lparr>Erasable := (\<lambda>_. 0)(1 := 0xFFFF, 48 := 3)\<rparr>"
  have F: "FindMemoryWord S 48 = (ErasableLoc 48, S)" for S
    by (simp add: FindMemoryWord_def)
  have d: "i16_of_int (SignExtend 3) = 3" "OverflowCorrected 3 = 3" "OverflowCorrected 2 = 2"
    by (simp_all add: SignExtend_def OverflowCorrected_def shift_defs)
  have m: "SpToDecent 2 0xFFFF = 0x4000" "DecentToSp 0x4000 = (1, 0)"
    by (simp_all add: SpToDecent_def DecentToSp_def OverflowCorrected_def shift_defs Let_def)
  have v: "sp_val 3 = 3" "dec_val 0x4000 = 16384" "ValueOverflowed 3 = 0"
    by (simp_all add: sp_val_def dec_val_def ValueOverflowed_def)
  have "exec_DV 48 2 ?S = DVQuotient 0x4000 3 ?S"
    by (simp add: exec_DV_def DVDivisor_def F deref_def d m v AbsSP_def word_sless_alt)
  then show ?thesis
    using DVQuotient_value [of "0x4000" 16384 3 3 ?S] d v
    by (simp add: operand_def F deref_def dp_val_def sp_val_def)
qed

end
