(* ===== verification/AGC_Counters.thy ===== *)
theory AGC_Counters
  imports AGC_State
begin

text \<open>
  The counter operations of \<open>src/yaAGC/agc_engine.c\<close> (lines 1189-1339) that only touch
  the counter: they take the old cell and return the overflow flag and the new cell.
  \<open>CounterDINC\<close>, which also emits a pulse, is in the theory of the i/o channels.
\<close>

unbundle bit_operations_syntax

section \<open>The operations\<close>

definition CounterPINC :: "i16 \<Rightarrow> cint \<times> i16" where
  "CounterPINC i =
     (if i = 0x3FFF then (1, AGC_P0)
      else
        (let i = (i + 1) AND 0x7FFF;
             i = (if i = AGC_P0 then i + 1 else i)
         in (0, i)))"

definition CounterMINC :: "i16 \<Rightarrow> cint \<times> i16" where
  "CounterMINC i =
     (if i = 0x4000 then (1, AGC_M0)
      else
        (let i = (i - 1) AND 0x7FFF;
             i = (if i = AGC_M0 then i - 1 else i)
         in (0, i)))"

definition CounterPCDU :: "i16 \<Rightarrow> cint \<times> i16" where
  "CounterPCDU i = (if i = 0x7FFF then 1 else 0, (i + 1) AND 0x7FFF)"

definition CounterMCDU :: "i16 \<Rightarrow> cint \<times> i16" where
  "CounterMCDU i = (if i = 0 then 1 else 0, (i - 1) AND 0x7FFF)"

definition CounterSHINC :: "i16 \<Rightarrow> cint \<times> i16" where
  "CounterSHINC i = (if 0x2000 AND i \<noteq> 0 then 1 else 0, shl 1 i AND 0x3FFF)"

definition CounterSHANC :: "i16 \<Rightarrow> cint \<times> i16" where
  "CounterSHANC i = (if 0x2000 AND i \<noteq> 0 then 1 else 0, (shl 1 i + 1) AND 0x3FFF)"

section \<open>Values\<close>

text \<open>The cells of the counters hold 15 bits.\<close>

lemma uint_add_one: "uint (w :: i16) < 65535 \<Longrightarrow> uint (w + 1) = uint w + 1"
  by (simp add: uint_plus_if')

lemma uint_sub_one: "0 < uint (w :: i16) \<Longrightarrow> uint (w - 1) = uint w - 1"
  by (simp add: uint_sub_if')

lemma i16_eq_iff_uint: "(w :: i16) = numeral k \<longleftrightarrow> uint w = uint (numeral k :: i16)"
  by (simp only: word_uint_eq_iff)

lemma CounterPINC_uint:
  assumes "uint w < 32768"
  shows "uint (snd (CounterPINC w)) =
    (if uint w = 16383 then 0 else if uint w = 32767 then 1 else uint w + 1)"
proof -
  have "uint (0x7FFF AND (w + 1)) = (uint w + 1) mod 32768"
    using assms by (simp add: uint_add_one)
  moreover have "(uint w + 1) mod 32768 = (if uint w = 32767 then 0 else uint w + 1)"
    using assms by (simp add: mod_pos_pos_trivial)
  ultimately show ?thesis
    using assms by (auto simp: CounterPINC_def Let_def and.commute [of _ "0x7FFF"] uint_add_one
        word_uint_eq_iff [of _ "0x3FFF"] word_uint_eq_iff [of _ 0])
qed

lemma CounterMINC_uint:
  assumes "uint w < 32768"
  shows "uint (snd (CounterMINC w)) =
    (if uint w = 16384 then 32767 else if uint w = 0 then 32766 else uint w - 1)"
proof -
  have u: "uint (w - 1) = (if uint w = 0 then 65535 else uint w - 1)"
  proof (cases "uint w = 0")
    case False
    then have "1 \<le> uint w" using uint_ge_0 [of w] by linarith
    then show ?thesis by (simp add: uint_sub_if')
  qed (simp add: uint_sub_if')
  have "uint (0x7FFF AND (w - 1)) = uint (w - 1) mod 32768"
    by simp
  also have "\<dots> = (if uint w = 0 then 32767 else uint w - 1)"
  proof (cases "uint w = 0")
    case False
    then have "0 \<le> uint w - 1" using uint_ge_0 [of w] by linarith
    then have "(uint w - 1) mod 32768 = uint w - 1"
      using assms by (intro mod_pos_pos_trivial) simp_all
    with False show ?thesis by (simp add: u)
  qed (simp add: u)
  finally have v: "uint (0x7FFF AND (w - 1)) = (if uint w = 0 then 32767 else uint w - 1)" .
  show ?thesis
    using assms v by (auto simp: CounterMINC_def Let_def and.commute [of _ "0x7FFF"] uint_sub_if'
        word_uint_eq_iff [of _ "0x4000"] word_uint_eq_iff [of _ "0x7FFF"])
qed

text \<open>\<open>PINC\<close> adds one to the one's-complement value and reports the overflow at
  \<open>037777\<close>, where the cell restarts at plus zero; \<open>MINC\<close> mirrors it.\<close>

lemma CounterPINC_value:
  assumes "uint w < 32768"
  shows "uint (snd (CounterPINC w)) < 32768"
    and "fst (CounterPINC w) = (if sp_val w = 16383 then 1 else 0)"
    and "sp_val (snd (CounterPINC w)) = (if sp_val w = 16383 then 0 else sp_val w + 1)"
proof -
  show lt: "uint (snd (CounterPINC w)) < 32768"
    using assms by (auto simp: CounterPINC_uint)
  show "fst (CounterPINC w) = (if sp_val w = 16383 then 1 else 0)"
    using assms by (auto simp: CounterPINC_def Let_def sp_val_eq word_uint_eq_iff)
  show "sp_val (snd (CounterPINC w)) = (if sp_val w = 16383 then 0 else sp_val w + 1)"
    using assms sp_val_eq [OF lt] by (auto simp: CounterPINC_uint sp_val_eq)
qed

lemma CounterMINC_value:
  assumes "uint w < 32768"
  shows "uint (snd (CounterMINC w)) < 32768"
    and "fst (CounterMINC w) = (if sp_val w = - 16383 then 1 else 0)"
    and "sp_val (snd (CounterMINC w)) = (if sp_val w = - 16383 then 0 else sp_val w - 1)"
proof -
  show lt: "uint (snd (CounterMINC w)) < 32768"
    using assms by (auto simp: CounterMINC_uint)
  show "fst (CounterMINC w) = (if sp_val w = - 16383 then 1 else 0)"
    using assms by (auto simp: CounterMINC_def Let_def sp_val_eq word_uint_eq_iff)
  show "sp_val (snd (CounterMINC w)) = (if sp_val w = - 16383 then 0 else sp_val w - 1)"
    using assms sp_val_eq [OF lt] uint_ge_0 [of w] by (auto simp: CounterMINC_uint sp_val_eq)
qed

section \<open>Cyclic counters\<close>

text \<open>The contract of a pair of operations that count up and down modulo a period.\<close>

locale cyclic_counter =
  fixes period :: int
    and ok :: "'c \<Rightarrow> bool"
    and count :: "'c \<Rightarrow> int"
    and up :: "'c \<Rightarrow> 'c"
    and down :: "'c \<Rightarrow> 'c"
  assumes positive: "0 < period"
    and range: "ok c \<Longrightarrow> 0 \<le> count c \<and> count c < period"
    and determined: "ok c \<Longrightarrow> ok d \<Longrightarrow> count c = count d \<Longrightarrow> c = d"
    and up: "ok c \<Longrightarrow> ok (up c) \<and> count (up c) = (count c + 1) mod period"
    and down: "ok c \<Longrightarrow> ok (down c) \<and> count (down c) = (count c - 1) mod period"
begin

lemma up_down: "ok c \<Longrightarrow> up (down c) = c"
  by (rule determined) (auto simp: up down mod_simps range)

lemma down_up: "ok c \<Longrightarrow> down (up c) = c"
  by (rule determined) (auto simp: up down mod_simps range)

text \<open>A train of pulses moves the counter by its algebraic sum.\<close>

definition pulses :: "bool list \<Rightarrow> 'c \<Rightarrow> 'c" where
  "pulses ps = fold (\<lambda>p. if p then up else down) ps"

lemma pulses_count:
  "ok c \<Longrightarrow> ok (pulses ps c) \<and>
     count (pulses ps c) =
       (count c + (\<Sum>p\<leftarrow>ps. if p then 1 else - 1)) mod period"
proof (induction ps arbitrary: c)
  case Nil
  then show ?case using range [OF Nil] by (simp add: pulses_def)
next
  case (Cons p ps)
  let ?c = "if p then up c else down c"
  have "ok ?c" using Cons.prems by (simp add: up down)
  from Cons.IH [OF this] show ?case
    using Cons.prems up [of c] down [of c]
    by (auto simp: pulses_def mod_simps algebra_simps split: if_splits)
qed

lemma pulses_balanced:
  assumes "ok c" and "length (filter id ps) = length (filter Not ps)"
  shows "pulses ps c = c"
proof (rule determined)
  have "(\<Sum>p\<leftarrow>ps. if p then 1 else - 1 :: int) =
      int (length (filter id ps)) - int (length (filter Not ps))"
    by (induction ps) auto
  then show "count (pulses ps c) = count c"
    using assms pulses_count [OF assms(1)] range [OF assms(1)] by simp
qed (simp_all add: assms pulses_count)

end

lemma CounterPCDU_count:
  assumes "uint w < 32768"
  shows "uint (snd (CounterPCDU w)) = (uint w + 1) mod 32768"
  using assms by (simp add: CounterPCDU_def and.commute [of _ "0x7FFF"] uint_add_one)

lemma CounterMCDU_count:
  assumes "uint w < 32768"
  shows "uint (snd (CounterMCDU w)) = (uint w - 1) mod 32768"
proof -
  have "uint (w - 1) = (uint w - 1) mod 65536"
    by (simp add: uint_word_ariths)
  then show ?thesis
    by (simp add: CounterMCDU_def and.commute [of _ "0x7FFF"] mod_mod_cancel)
qed

interpretation cdu: cyclic_counter 32768 "\<lambda>w :: i16. uint w < 32768" uint
  "\<lambda>w. snd (CounterPCDU w)" "\<lambda>w. snd (CounterMCDU w)"
  by unfold_locales (auto simp: CounterPCDU_count CounterMCDU_count word_uint_eq_iff)

section \<open>Shifted-in bits\<close>

text \<open>\<open>SHINC\<close> and \<open>SHANC\<close> shift a zero or a one into the low end of a 14-bit
  register; the bit shifted out is the overflow.\<close>

lemma shift_in_value:
  "snd (CounterSHINC w) = 0x3FFF AND shl 1 w"
  "snd (CounterSHANC w) = (0x3FFF AND shl 1 w) OR 1"
proof -
  show "snd (CounterSHINC w) = 0x3FFF AND shl 1 w"
    by (simp add: CounterSHINC_def and.commute)
  have "shl 1 w AND 1 = 0"
    by (rule i16_eqI) (auto simp: bit_and_iff bit_shl bit_1_iff)
  then have "shl 1 w + 1 = shl 1 w OR 1"
    by (simp add: disjunctive_add_eq_or)
  then show "snd (CounterSHANC w) = (0x3FFF AND shl 1 w) OR 1"
    by (auto intro!: i16_eqI simp: CounterSHANC_def bit_and_iff bit_or_iff bit_1_iff mask_bits)
qed

section \<open>Properties\<close>

text \<open>\<open>PINC\<close> and \<open>MINC\<close> count a 15-bit cell up and down by one as a
  one's-complement number; they report the overflow exactly at \<open>037777\<close> and at
  \<open>-037777\<close>, where the cell restarts at zero; either keeps the cell within 15 bits.\<close>

theorem PINC_MINC_count:
  assumes "uint w < 32768"
  shows "uint (snd (CounterPINC w)) < 32768 \<and>
    fst (CounterPINC w) = (if sp_val w = 16383 then 1 else 0) \<and>
    sp_val (snd (CounterPINC w)) = (if sp_val w = 16383 then 0 else sp_val w + 1) \<and>
    uint (snd (CounterMINC w)) < 32768 \<and>
    fst (CounterMINC w) = (if sp_val w = - 16383 then 1 else 0) \<and>
    sp_val (snd (CounterMINC w)) = (if sp_val w = - 16383 then 0 else sp_val w - 1)"
  using CounterPINC_value [OF assms] CounterMINC_value [OF assms] by simp

theorem PINC_MINC_count_witness:
  "uint (0x7FFE :: i16) < 32768 \<and> sp_val (snd (CounterPINC 0x7FFE)) = 0 \<and>
   sp_val (snd (CounterMINC 0x7FFE)) = - 2"
proof -
  have "sp_val 0x7FFE = - 1" by (simp add: sp_val_def mask_bits)
  then show ?thesis using PINC_MINC_count [of "0x7FFE"] by simp
qed

text \<open>a train of \<open>PCDU\<close> and \<open>MCDU\<close> pulses moves an angle counter by their
  algebraic sum, modulo \<open>2^15\<close>, in whatever order they come.\<close>

theorem CDU_pulse_train:
  assumes "uint w < 32768"
  shows "uint (fold (\<lambda>up w. if up then snd (CounterPCDU w) else snd (CounterMCDU w)) ps w) =
    (uint w + int (length (filter id ps)) - int (length (filter Not ps))) mod 32768"
proof -
  have "(\<lambda>p. if p then (\<lambda>w. snd (CounterPCDU w)) else (\<lambda>w. snd (CounterMCDU w))) =
      (\<lambda>up w. if up then snd (CounterPCDU w) else snd (CounterMCDU w))"
    by (intro ext) simp
  moreover have "(\<Sum>p\<leftarrow>ps. if p then 1 else - 1 :: int) =
      int (length (filter id ps)) - int (length (filter Not ps))"
    by (induction ps) auto
  ultimately show ?thesis
    using cdu.pulses_count [OF assms, of ps] by (simp add: cdu.pulses_def add_diff_eq)
qed

theorem CDU_pulse_train_witness:
  "uint (fold (\<lambda>up w. if up then snd (CounterPCDU w) else snd (CounterMCDU w))
     [True, False, False] (0 :: i16)) = 32767"
  using CDU_pulse_train [of 0 "[True, False, False]"] by simp

lemma uint_shift_in:
  "uint (snd (CounterSHINC w)) = (2 * uint w) mod 16384"
  "uint (snd (CounterSHANC w)) = (2 * uint w + 1) mod 16384"
proof -
  have m: "uint (v AND 0x3FFF) = uint v mod 16384" for v :: i16
    using uint_and_low_mask(2) [of v 14] by (simp only: low_masks) simp
  have s: "uint (shl (Suc 0) w) = (2 * uint w) mod 65536"
    by (simp add: shl_def uint_word_ariths push_bit_eq_mult mult.commute)
  show "uint (snd (CounterSHINC w)) = (2 * uint w) mod 16384"
    by (simp add: CounterSHINC_def m s mod_mod_cancel)
  have "uint (shl (Suc 0) w + 1) = (2 * uint w + 1) mod 65536"
    by (simp add: uint_word_ariths s mod_simps)
  then show "uint (snd (CounterSHANC w)) = (2 * uint w + 1) mod 16384"
    by (simp add: CounterSHANC_def m mod_mod_cancel)
qed

text \<open>A serial input register receives its bits most significant first: after a train
  of \<open>SHINC\<close> (zero) and \<open>SHANC\<close> (one) the 14 low bits are the binary number shifted in
  behind the old content, and the overflow of a shift is the bit that leaves.\<close>

theorem serial_input:
  "uint (fold (\<lambda>b w. if b then snd (CounterSHANC w) else snd (CounterSHINC w)) bs w) mod 16384 =
     foldl (\<lambda>n b. 2 * n + of_bool b) (uint w) bs mod 16384 \<and>
   fst (CounterSHINC w) = (if bit w 13 then 1 else 0) \<and>
   fst (CounterSHANC w) = (if bit w 13 then 1 else 0)"
proof -
  have cong: "foldl (\<lambda>n b. 2 * n + of_bool b) x bs mod 16384 =
      foldl (\<lambda>n b. 2 * n + of_bool b) y bs mod (16384 :: int)"
    if "x mod 16384 = y mod 16384" for x y bs
    using that
  proof (induction bs arbitrary: x y)
    case (Cons b bs)
    have "(2 * x + of_bool b) mod 16384 = (2 * y + of_bool b) mod 16384"
      using Cons.prems by (intro mod_add_cong mod_mult_cong) simp_all
    from Cons.IH [OF this] show ?case by simp
  qed simp
  have "uint (fold (\<lambda>b w. if b then snd (CounterSHANC w) else snd (CounterSHINC w)) bs w) mod 16384 =
      foldl (\<lambda>n b. 2 * n + of_bool b) (uint w) bs mod 16384"
  proof (induction bs arbitrary: w)
    case (Cons b bs)
    let ?w = "if b then snd (CounterSHANC w) else snd (CounterSHINC w)"
    have "uint ?w mod 16384 = (2 * uint w + of_bool b) mod 16384"
      by (simp add: uint_shift_in)
    from cong [OF this, of bs] Cons.IH [of ?w] show ?case by simp
  qed simp
  then show ?thesis
    by (simp add: CounterSHINC_def CounterSHANC_def)
qed

end
