(* ===== verification/AGC_IO.thy ===== *)
theory AGC_IO
  imports AGC_Memory AGC_Counters
begin

text \<open>
  The i/o channels: \<open>ReadIO\<close>, \<open>WriteIO\<close>, \<open>CpuWriteIO\<close> and
  \<open>CounterDINC\<close> of \<open>src/yaAGC/agc_engine.c\<close>, and the output half of the ring-buffer
  transport, \<open>ChannelSetup\<close> and \<open>ChannelOutput\<close> of
  \<open>src/yaAGC/ringbuffer_api.c\<close>.  Channel numbers are natural numbers: the engine passes
  none that is negative.
\<close>

unbundle bit_operations_syntax

section \<open>Channels\<close>

definition ReadIO :: "yaagc \<Rightarrow> nat \<Rightarrow> cint" where
  "ReadIO State Address =
     (if 0x1FF < Address then 0
      else if Address = RegL \<or> Address = RegQ then int_of_i16 (creg State Address)
      else int_of_i16 (InputChannel State Address))"

definition WriteIO :: "nat \<Rightarrow> cint \<Rightarrow> yaagc \<Rightarrow> yaagc" where
  "WriteIO Address Value State =
     (let Value = Value AND 0x7FFF
      in if 0x1FF < Address then State
      else
        let State = (if Address = RegL \<or> Address = RegQ
                     then set_creg Address (i16_of_int Value) State else State)
        in if Address = 0x8 then
             let State = State\<lparr>OutputChannel10 :=
                   (OutputChannel10 State)(unat (sar 11 Value AND 0xF) := i16_of_int Value)\<rparr>
             in set_chan Address (i16_of_int Value) State
           else if (Address = 0xD \<or> Address = 0xE) \<and> Value = 0x12 then
             set_chan Address (i16_of_int Value) (State\<lparr>RestartLight := False\<rparr>)
           else if Address = 0x1B then
             let Value = (int_of_i16 (InputChannel State Address) AND 0x7C00) OR (Value AND 0x3FF)
             in set_chan Address (i16_of_int Value) State
           else set_chan Address (i16_of_int Value) State)"

text \<open>The ring buffers are set up by the first call of \<open>ChannelOutput\<close> or
  \<open>ChannelInput\<close>, which empties them.\<close>

definition ChannelSetup :: "yaagc \<Rightarrow> yaagc" where
  "ChannelSetup State =
     State\<lparr>ChannelIsSetUp := True,
       ringbuffer_out := ringbuffer_init (ringbuffer_out State),
       ringbuffer_in := ringbuffer_init (ringbuffer_in State),
       ChannelMasks := (\<lambda>i. if i < 256 then 0x7FFF else ChannelMasks State i)\<rparr>"

definition ChannelOutput :: "nat \<Rightarrow> cint \<Rightarrow> yaagc \<Rightarrow> yaagc" where
  "ChannelOutput Channel Value State =
     (let State = (if \<not> ChannelIsSetUp State then ChannelSetup State else State)
      in if Channel = 7 then
           set_chan 7 (i16_of_int (Value AND 0x70))
             (State\<lparr>OutputChannel7 := i16_of_int (Value AND 0x70)\<rparr>)
         else
           let State =
             (if Channel = 0xB \<and> 0x180 = 0x180 AND Value \<and> \<not> CmOrLm State then
                set_creg 36 (i16_of_int (LastRhcRoll State))
                  (set_creg 35 (i16_of_int (LastRhcYaw State))
                    (set_creg 34 (i16_of_int (LastRhcPitch State)) State))
              else State)
           in case FormIoPacket (of_nat Channel) Value of
                None \<Rightarrow> State
              | Some Packet \<Rightarrow>
                  State\<lparr>ringbuffer_out := snd (ringbuffer_put (ringbuffer_out State) Packet)\<rparr>)"

definition CpuWriteIO :: "nat \<Rightarrow> cint \<Rightarrow> yaagc \<Rightarrow> yaagc" where
  "CpuWriteIO Address Value State =
     (let (Value, State) =
        (if Address = 0xB then
           let State = (if Value AND 0x800 \<noteq> 0 then State\<lparr>Trap31A := True\<rparr> else State);
               State = (if Value AND 0x1000 \<noteq> 0 then State\<lparr>Trap31B := True\<rparr> else State);
               State = (if Value AND 0x2000 \<noteq> 0 then State\<lparr>Trap32 := True\<rparr> else State)
           in (Value AND 0x47FF, State)
         else (Value, State));
          (Value, State) =
        (if Address = 0x1B then
           let State = set_chan Address (InputChannel State Address OR 0x7C00) State;
               State = (if WARNING_FILTER_THRESHOLD < WarningFilter State
                        then set_chan Address (InputChannel State Address AND 0x5FFF) State
                        else State)
           in (int_of_i16 (InputChannel State Address), State)
         else if Address = 0x3F then
           (if NightWatchmanTripped State then CH77_NIGHT_WATCHMAN else 0, State)
         else if Address = 0x9 \<and> Value AND 0x200 \<noteq> 0 then
           (Value, State\<lparr>RestartLight := False\<rparr>)
         else (Value, State));
          State = WriteIO Address Value State;
          State = ChannelOutput Address (Value AND 0x7FFF) State;
          State =
        (if Address = 0x1C then State\<lparr>Downlink := Downlink State OR 1\<rparr>
         else if Address = 0x1D then State\<lparr>Downlink := Downlink State OR 2\<rparr>
         else State)
      in if Downlink State = 3 then
           State\<lparr>DownruptTimeValid := True,
                 DownruptTime := CycleCounter State + 1706,
                 Downlink := 0\<rparr>
         else State)"

section \<open>Diminish increment\<close>

text \<open>The counter is passed by value, and its new content returned.  A counter number of 0
  suppresses the output pulse.\<close>

definition CounterDINC :: "yaagc \<Rightarrow> nat \<Rightarrow> i16 \<Rightarrow> cint \<times> i16 \<times> yaagc" where
  "CounterDINC State CounterNum i =
     (let out = (\<lambda>Value. if CounterNum \<noteq> 0
                 then ChannelOutput (0x80 OR CounterNum) Value State else State)
      in if i = AGC_P0 \<or> i = AGC_M0 then (1, i, out 0xF)
         else if 0x4000 AND i \<noteq> 0 then
           (0, i16_of_int (AddSP16 (SignExtend i) (SignExtend AGC_P1) AND 0x7FFF), out 0xE)
         else
           (0, i16_of_int (AddSP16 (SignExtend i) (SignExtend AGC_M1) AND 0x7FFF), out 0xD))"

text \<open>The overflow tests of \<open>INCR\<close> and \<open>AUG\<close>: the function
  \<open>InterruptRequests\<close> of the C code, whose name the field has.\<close>

definition RaiseInterruptRequests :: "nat \<Rightarrow> cint \<Rightarrow> yaagc \<Rightarrow> yaagc" where
  "RaiseInterruptRequests Address10 Value State =
     (if ValueOverflowed Value = AGC_P0 then State
      else if Address10 = RegTIME1 then
        set_creg RegTIME2 (snd (CounterPINC (creg State RegTIME2))) State
      else if Address10 = RegTIME5 then request 2 State
      else if Address10 = RegTIME3 then request 3 State
      else if Address10 = RegTIME4 then request 4 State
      else State)"

section \<open>What the operations leave alone\<close>

text \<open>Output reaches the transport, channel 7 and the rotational hand controller counters.\<close>

lemma ChannelSetup_frame [simp]:
  "CycleCounter (ChannelSetup State) = CycleCounter State"
  "Erasable (ChannelSetup State) = Erasable State"
  "Fixed (ChannelSetup State) = Fixed State"
  "Parities (ChannelSetup State) = Parities State"
  "InputChannel (ChannelSetup State) = InputChannel State"
  "OutputChannel7 (ChannelSetup State) = OutputChannel7 State"
  "OutputChannel10 (ChannelSetup State) = OutputChannel10 State"
  "IndexValue (ChannelSetup State) = IndexValue State"
  "InterruptRequests (ChannelSetup State) = InterruptRequests State"
  "ExtraCode (ChannelSetup State) = ExtraCode State"
  "AllowInterrupt (ChannelSetup State) = AllowInterrupt State"
  "InIsr (ChannelSetup State) = InIsr State"
  "SubstituteInstruction (ChannelSetup State) = SubstituteInstruction State"
  "PendFlag (ChannelSetup State) = PendFlag State"
  "PendDelay (ChannelSetup State) = PendDelay State"
  "ExtraDelay (ChannelSetup State) = ExtraDelay State"
  "DownruptTimeValid (ChannelSetup State) = DownruptTimeValid State"
  "NightWatchman (ChannelSetup State) = NightWatchman State"
  "NightWatchmanTripped (ChannelSetup State) = NightWatchmanTripped State"
  "RuptLock (ChannelSetup State) = RuptLock State"
  "NoRupt (ChannelSetup State) = NoRupt State"
  "TCTrap (ChannelSetup State) = TCTrap State"
  "NoTC (ChannelSetup State) = NoTC State"
  "Standby (ChannelSetup State) = Standby State"
  "SbyPressed (ChannelSetup State) = SbyPressed State"
  "SbyStillPressed (ChannelSetup State) = SbyStillPressed State"
  "ParityFail (ChannelSetup State) = ParityFail State"
  "CheckParity (ChannelSetup State) = CheckParity State"
  "RestartLight (ChannelSetup State) = RestartLight State"
  "TookBZF (ChannelSetup State) = TookBZF State"
  "TookBZMF (ChannelSetup State) = TookBZMF State"
  "GeneratedWarning (ChannelSetup State) = GeneratedWarning State"
  "Trap31A (ChannelSetup State) = Trap31A State"
  "Trap31B (ChannelSetup State) = Trap31B State"
  "Trap32 (ChannelSetup State) = Trap32 State"
  "RadarGateCounter (ChannelSetup State) = RadarGateCounter State"
  "WarningFilter (ChannelSetup State) = WarningFilter State"
  "DownruptTime (ChannelSetup State) = DownruptTime State"
  "Downlink (ChannelSetup State) = Downlink State"
  "NextZ (ChannelSetup State) = NextZ State"
  "ScalerCounter (ChannelSetup State) = ScalerCounter State"
  "ChannelRoutineCount (ChannelSetup State) = ChannelRoutineCount State"
  "DskyTimer (ChannelSetup State) = DskyTimer State"
  "DskyFlash (ChannelSetup State) = DskyFlash State"
  "DskyChannel163 (ChannelSetup State) = DskyChannel163 State"
  "CduFifos (ChannelSetup State) = CduFifos State"
  "CduChecker (ChannelSetup State) = CduChecker State"
  "CountCDUX (ChannelSetup State) = CountCDUX State"
  "CountCDUY (ChannelSetup State) = CountCDUY State"
  "CountCDUZ (ChannelSetup State) = CountCDUZ State"
  "GyroCount (ChannelSetup State) = GyroCount State"
  "OldChannel14 (ChannelSetup State) = OldChannel14 State"
  "GyroTimer (ChannelSetup State) = GyroTimer State"
  "ImuCduCount (ChannelSetup State) = ImuCduCount State"
  "ImuChannel14 (ChannelSetup State) = ImuChannel14 State"
  "LastRhcPitch (ChannelSetup State) = LastRhcPitch State"
  "LastRhcYaw (ChannelSetup State) = LastRhcYaw State"
  "LastRhcRoll (ChannelSetup State) = LastRhcRoll State"
  "DebugDsky (ChannelSetup State) = DebugDsky State"
  "InhibitAlarms (ChannelSetup State) = InhibitAlarms State"
  "CmOrLm (ChannelSetup State) = CmOrLm State"
  "DedaMonitor (ChannelSetup State) = DedaMonitor State"
  "DedaWhen (ChannelSetup State) = DedaWhen State"
  "DebuggerInterruptMasks (ChannelSetup State) = DebuggerInterruptMasks State"
  "initializeSunburst37 (ChannelSetup State) = initializeSunburst37 State"
  by (simp_all add: ChannelSetup_def)

lemma ChannelOutput_frame [simp]:
  "CycleCounter (ChannelOutput Channel Value State) = CycleCounter State"
  "Fixed (ChannelOutput Channel Value State) = Fixed State"
  "Parities (ChannelOutput Channel Value State) = Parities State"
  "OutputChannel10 (ChannelOutput Channel Value State) = OutputChannel10 State"
  "IndexValue (ChannelOutput Channel Value State) = IndexValue State"
  "InterruptRequests (ChannelOutput Channel Value State) = InterruptRequests State"
  "ExtraCode (ChannelOutput Channel Value State) = ExtraCode State"
  "AllowInterrupt (ChannelOutput Channel Value State) = AllowInterrupt State"
  "InIsr (ChannelOutput Channel Value State) = InIsr State"
  "SubstituteInstruction (ChannelOutput Channel Value State) = SubstituteInstruction State"
  "PendFlag (ChannelOutput Channel Value State) = PendFlag State"
  "PendDelay (ChannelOutput Channel Value State) = PendDelay State"
  "ExtraDelay (ChannelOutput Channel Value State) = ExtraDelay State"
  "DownruptTimeValid (ChannelOutput Channel Value State) = DownruptTimeValid State"
  "NightWatchman (ChannelOutput Channel Value State) = NightWatchman State"
  "NightWatchmanTripped (ChannelOutput Channel Value State) = NightWatchmanTripped State"
  "RuptLock (ChannelOutput Channel Value State) = RuptLock State"
  "NoRupt (ChannelOutput Channel Value State) = NoRupt State"
  "TCTrap (ChannelOutput Channel Value State) = TCTrap State"
  "NoTC (ChannelOutput Channel Value State) = NoTC State"
  "Standby (ChannelOutput Channel Value State) = Standby State"
  "SbyPressed (ChannelOutput Channel Value State) = SbyPressed State"
  "SbyStillPressed (ChannelOutput Channel Value State) = SbyStillPressed State"
  "ParityFail (ChannelOutput Channel Value State) = ParityFail State"
  "CheckParity (ChannelOutput Channel Value State) = CheckParity State"
  "RestartLight (ChannelOutput Channel Value State) = RestartLight State"
  "TookBZF (ChannelOutput Channel Value State) = TookBZF State"
  "TookBZMF (ChannelOutput Channel Value State) = TookBZMF State"
  "GeneratedWarning (ChannelOutput Channel Value State) = GeneratedWarning State"
  "Trap31A (ChannelOutput Channel Value State) = Trap31A State"
  "Trap31B (ChannelOutput Channel Value State) = Trap31B State"
  "Trap32 (ChannelOutput Channel Value State) = Trap32 State"
  "RadarGateCounter (ChannelOutput Channel Value State) = RadarGateCounter State"
  "WarningFilter (ChannelOutput Channel Value State) = WarningFilter State"
  "DownruptTime (ChannelOutput Channel Value State) = DownruptTime State"
  "Downlink (ChannelOutput Channel Value State) = Downlink State"
  "NextZ (ChannelOutput Channel Value State) = NextZ State"
  "ScalerCounter (ChannelOutput Channel Value State) = ScalerCounter State"
  "ChannelRoutineCount (ChannelOutput Channel Value State) = ChannelRoutineCount State"
  "DskyTimer (ChannelOutput Channel Value State) = DskyTimer State"
  "DskyFlash (ChannelOutput Channel Value State) = DskyFlash State"
  "DskyChannel163 (ChannelOutput Channel Value State) = DskyChannel163 State"
  "CduFifos (ChannelOutput Channel Value State) = CduFifos State"
  "CduChecker (ChannelOutput Channel Value State) = CduChecker State"
  "CountCDUX (ChannelOutput Channel Value State) = CountCDUX State"
  "CountCDUY (ChannelOutput Channel Value State) = CountCDUY State"
  "CountCDUZ (ChannelOutput Channel Value State) = CountCDUZ State"
  "GyroCount (ChannelOutput Channel Value State) = GyroCount State"
  "OldChannel14 (ChannelOutput Channel Value State) = OldChannel14 State"
  "GyroTimer (ChannelOutput Channel Value State) = GyroTimer State"
  "ImuCduCount (ChannelOutput Channel Value State) = ImuCduCount State"
  "ImuChannel14 (ChannelOutput Channel Value State) = ImuChannel14 State"
  "LastRhcPitch (ChannelOutput Channel Value State) = LastRhcPitch State"
  "LastRhcYaw (ChannelOutput Channel Value State) = LastRhcYaw State"
  "LastRhcRoll (ChannelOutput Channel Value State) = LastRhcRoll State"
  "DebugDsky (ChannelOutput Channel Value State) = DebugDsky State"
  "InhibitAlarms (ChannelOutput Channel Value State) = InhibitAlarms State"
  "CmOrLm (ChannelOutput Channel Value State) = CmOrLm State"
  "DedaMonitor (ChannelOutput Channel Value State) = DedaMonitor State"
  "DedaWhen (ChannelOutput Channel Value State) = DedaWhen State"
  "DebuggerInterruptMasks (ChannelOutput Channel Value State) = DebuggerInterruptMasks State"
  "initializeSunburst37 (ChannelOutput Channel Value State) = initializeSunburst37 State"
  by (simp_all add: ChannelOutput_def Let_def split: option.splits)

lemma WriteIO_frame [simp]:
  "CycleCounter (WriteIO Address Value State) = CycleCounter State"
  "Fixed (WriteIO Address Value State) = Fixed State"
  "Parities (WriteIO Address Value State) = Parities State"
  "OutputChannel7 (WriteIO Address Value State) = OutputChannel7 State"
  "IndexValue (WriteIO Address Value State) = IndexValue State"
  "InterruptRequests (WriteIO Address Value State) = InterruptRequests State"
  "ExtraCode (WriteIO Address Value State) = ExtraCode State"
  "AllowInterrupt (WriteIO Address Value State) = AllowInterrupt State"
  "InIsr (WriteIO Address Value State) = InIsr State"
  "SubstituteInstruction (WriteIO Address Value State) = SubstituteInstruction State"
  "PendFlag (WriteIO Address Value State) = PendFlag State"
  "PendDelay (WriteIO Address Value State) = PendDelay State"
  "ExtraDelay (WriteIO Address Value State) = ExtraDelay State"
  "DownruptTimeValid (WriteIO Address Value State) = DownruptTimeValid State"
  "NightWatchman (WriteIO Address Value State) = NightWatchman State"
  "NightWatchmanTripped (WriteIO Address Value State) = NightWatchmanTripped State"
  "RuptLock (WriteIO Address Value State) = RuptLock State"
  "NoRupt (WriteIO Address Value State) = NoRupt State"
  "TCTrap (WriteIO Address Value State) = TCTrap State"
  "NoTC (WriteIO Address Value State) = NoTC State"
  "Standby (WriteIO Address Value State) = Standby State"
  "SbyPressed (WriteIO Address Value State) = SbyPressed State"
  "SbyStillPressed (WriteIO Address Value State) = SbyStillPressed State"
  "ParityFail (WriteIO Address Value State) = ParityFail State"
  "CheckParity (WriteIO Address Value State) = CheckParity State"
  "TookBZF (WriteIO Address Value State) = TookBZF State"
  "TookBZMF (WriteIO Address Value State) = TookBZMF State"
  "GeneratedWarning (WriteIO Address Value State) = GeneratedWarning State"
  "Trap31A (WriteIO Address Value State) = Trap31A State"
  "Trap31B (WriteIO Address Value State) = Trap31B State"
  "Trap32 (WriteIO Address Value State) = Trap32 State"
  "RadarGateCounter (WriteIO Address Value State) = RadarGateCounter State"
  "WarningFilter (WriteIO Address Value State) = WarningFilter State"
  "DownruptTime (WriteIO Address Value State) = DownruptTime State"
  "Downlink (WriteIO Address Value State) = Downlink State"
  "NextZ (WriteIO Address Value State) = NextZ State"
  "ScalerCounter (WriteIO Address Value State) = ScalerCounter State"
  "ChannelRoutineCount (WriteIO Address Value State) = ChannelRoutineCount State"
  "DskyTimer (WriteIO Address Value State) = DskyTimer State"
  "DskyFlash (WriteIO Address Value State) = DskyFlash State"
  "DskyChannel163 (WriteIO Address Value State) = DskyChannel163 State"
  "CduFifos (WriteIO Address Value State) = CduFifos State"
  "CduChecker (WriteIO Address Value State) = CduChecker State"
  "CountCDUX (WriteIO Address Value State) = CountCDUX State"
  "CountCDUY (WriteIO Address Value State) = CountCDUY State"
  "CountCDUZ (WriteIO Address Value State) = CountCDUZ State"
  "GyroCount (WriteIO Address Value State) = GyroCount State"
  "OldChannel14 (WriteIO Address Value State) = OldChannel14 State"
  "GyroTimer (WriteIO Address Value State) = GyroTimer State"
  "ImuCduCount (WriteIO Address Value State) = ImuCduCount State"
  "ImuChannel14 (WriteIO Address Value State) = ImuChannel14 State"
  "ringbuffer_in (WriteIO Address Value State) = ringbuffer_in State"
  "ringbuffer_out (WriteIO Address Value State) = ringbuffer_out State"
  "ChannelMasks (WriteIO Address Value State) = ChannelMasks State"
  "ChannelIsSetUp (WriteIO Address Value State) = ChannelIsSetUp State"
  "LastRhcPitch (WriteIO Address Value State) = LastRhcPitch State"
  "LastRhcYaw (WriteIO Address Value State) = LastRhcYaw State"
  "LastRhcRoll (WriteIO Address Value State) = LastRhcRoll State"
  "DebugDsky (WriteIO Address Value State) = DebugDsky State"
  "InhibitAlarms (WriteIO Address Value State) = InhibitAlarms State"
  "CmOrLm (WriteIO Address Value State) = CmOrLm State"
  "DedaMonitor (WriteIO Address Value State) = DedaMonitor State"
  "DedaWhen (WriteIO Address Value State) = DedaWhen State"
  "DebuggerInterruptMasks (WriteIO Address Value State) = DebuggerInterruptMasks State"
  "initializeSunburst37 (WriteIO Address Value State) = initializeSunburst37 State"
  by (simp_all add: WriteIO_def Let_def)

lemma CpuWriteIO_frame [simp]:
  "CycleCounter (CpuWriteIO Address Value State) = CycleCounter State"
  "Fixed (CpuWriteIO Address Value State) = Fixed State"
  "Parities (CpuWriteIO Address Value State) = Parities State"
  "IndexValue (CpuWriteIO Address Value State) = IndexValue State"
  "InterruptRequests (CpuWriteIO Address Value State) = InterruptRequests State"
  "ExtraCode (CpuWriteIO Address Value State) = ExtraCode State"
  "AllowInterrupt (CpuWriteIO Address Value State) = AllowInterrupt State"
  "InIsr (CpuWriteIO Address Value State) = InIsr State"
  "SubstituteInstruction (CpuWriteIO Address Value State) = SubstituteInstruction State"
  "PendFlag (CpuWriteIO Address Value State) = PendFlag State"
  "PendDelay (CpuWriteIO Address Value State) = PendDelay State"
  "ExtraDelay (CpuWriteIO Address Value State) = ExtraDelay State"
  "NightWatchman (CpuWriteIO Address Value State) = NightWatchman State"
  "NightWatchmanTripped (CpuWriteIO Address Value State) = NightWatchmanTripped State"
  "RuptLock (CpuWriteIO Address Value State) = RuptLock State"
  "NoRupt (CpuWriteIO Address Value State) = NoRupt State"
  "TCTrap (CpuWriteIO Address Value State) = TCTrap State"
  "NoTC (CpuWriteIO Address Value State) = NoTC State"
  "Standby (CpuWriteIO Address Value State) = Standby State"
  "SbyPressed (CpuWriteIO Address Value State) = SbyPressed State"
  "SbyStillPressed (CpuWriteIO Address Value State) = SbyStillPressed State"
  "ParityFail (CpuWriteIO Address Value State) = ParityFail State"
  "CheckParity (CpuWriteIO Address Value State) = CheckParity State"
  "TookBZF (CpuWriteIO Address Value State) = TookBZF State"
  "TookBZMF (CpuWriteIO Address Value State) = TookBZMF State"
  "GeneratedWarning (CpuWriteIO Address Value State) = GeneratedWarning State"
  "RadarGateCounter (CpuWriteIO Address Value State) = RadarGateCounter State"
  "WarningFilter (CpuWriteIO Address Value State) = WarningFilter State"
  "NextZ (CpuWriteIO Address Value State) = NextZ State"
  "ScalerCounter (CpuWriteIO Address Value State) = ScalerCounter State"
  "ChannelRoutineCount (CpuWriteIO Address Value State) = ChannelRoutineCount State"
  "DskyTimer (CpuWriteIO Address Value State) = DskyTimer State"
  "DskyFlash (CpuWriteIO Address Value State) = DskyFlash State"
  "DskyChannel163 (CpuWriteIO Address Value State) = DskyChannel163 State"
  "CduFifos (CpuWriteIO Address Value State) = CduFifos State"
  "CduChecker (CpuWriteIO Address Value State) = CduChecker State"
  "CountCDUX (CpuWriteIO Address Value State) = CountCDUX State"
  "CountCDUY (CpuWriteIO Address Value State) = CountCDUY State"
  "CountCDUZ (CpuWriteIO Address Value State) = CountCDUZ State"
  "GyroCount (CpuWriteIO Address Value State) = GyroCount State"
  "OldChannel14 (CpuWriteIO Address Value State) = OldChannel14 State"
  "GyroTimer (CpuWriteIO Address Value State) = GyroTimer State"
  "ImuCduCount (CpuWriteIO Address Value State) = ImuCduCount State"
  "ImuChannel14 (CpuWriteIO Address Value State) = ImuChannel14 State"
  "LastRhcPitch (CpuWriteIO Address Value State) = LastRhcPitch State"
  "LastRhcYaw (CpuWriteIO Address Value State) = LastRhcYaw State"
  "LastRhcRoll (CpuWriteIO Address Value State) = LastRhcRoll State"
  "DebugDsky (CpuWriteIO Address Value State) = DebugDsky State"
  "InhibitAlarms (CpuWriteIO Address Value State) = InhibitAlarms State"
  "CmOrLm (CpuWriteIO Address Value State) = CmOrLm State"
  "DedaMonitor (CpuWriteIO Address Value State) = DedaMonitor State"
  "DedaWhen (CpuWriteIO Address Value State) = DedaWhen State"
  "DebuggerInterruptMasks (CpuWriteIO Address Value State) = DebuggerInterruptMasks State"
  "initializeSunburst37 (CpuWriteIO Address Value State) = initializeSunburst37 State"
  by (simp_all add: CpuWriteIO_def Let_def)

section \<open>What the operations do\<close>

lemma InputChannel_ChannelOutput:
  "InputChannel (ChannelOutput n v State) =
     (if n = 7 then (InputChannel State)(7 := i16_of_int (v AND 0x70)) else InputChannel State)"
  by (simp add: ChannelOutput_def Let_def split: option.splits)

lemma InputChannel_WriteIO:
  "InputChannel (WriteIO n v State) =
     (if 0x1FF < n then InputChannel State
      else (InputChannel State)(n := i16_of_int
        (if n = 0x1B then (int_of_i16 (InputChannel State n) AND 0x7C00) OR (v AND 0x3FF)
         else v AND 0x7FFF)))"
proof -
  have "(v AND 0x7FFF) AND 0x3FF = v AND 0x3FF"
    by (rule bit_word_eqI) (auto simp: bit_and_iff mask_bits)
  then show ?thesis
    by (simp add: WriteIO_def Let_def)
qed

lemma Erasable_ChannelOutput:
  "Erasable (ChannelOutput n v State) =
     (if n = 0xB \<and> 0x180 = 0x180 AND v \<and> \<not> CmOrLm State
      then (Erasable State)(34 := i16_of_int (LastRhcPitch State),
        35 := i16_of_int (LastRhcYaw State), 36 := i16_of_int (LastRhcRoll State))
      else Erasable State)"
  by (simp add: ChannelOutput_def Let_def split: option.splits)

lemma Erasable_WriteIO:
  "Erasable (WriteIO n v State) =
     (if n = RegL \<or> n = RegQ then (Erasable State)(n := i16_of_int (v AND 0x7FFF))
      else Erasable State)"
  by (simp add: WriteIO_def Let_def)

lemma Erasable_CpuWriteIO_zero:
  "n \<noteq> RegL \<Longrightarrow> n \<noteq> RegQ \<Longrightarrow> Erasable (CpuWriteIO n 0 State) = Erasable State"
  by (simp add: CpuWriteIO_def Let_def Erasable_WriteIO Erasable_ChannelOutput)

text \<open>What the channel written by \<open>CpuWriteIO\<close> then holds.  Channel 33 (octal) has
  five bits that the computer sets itself, bit 14 being the warning.\<close>

definition WrittenChannel :: "yaagc \<Rightarrow> nat \<Rightarrow> cint \<Rightarrow> i16" where
  "WrittenChannel State n v =
     (if n = 7 then i16_of_int (v AND 0x70)
      else if n = 0xB then i16_of_int (v AND 0x47FF)
      else if n = 0x1B then
        (if WARNING_FILTER_THRESHOLD < WarningFilter State then 0x5C00 else 0x7C00) OR
        (InputChannel State n AND 0x3FF)
      else if n = 0x3F then (if NightWatchmanTripped State then CH77_NIGHT_WATCHMAN else 0)
      else i16_of_int (v AND 0x7FFF))"

lemma InputChannel_CpuWriteIO:
  assumes "n < 512"
  shows "InputChannel (CpuWriteIO n v State) = (InputChannel State)(n := WrittenChannel State n v)"
proof -
  have B: "i16_of_int ((v AND 0x47FF) AND 0x7FFF) = i16_of_int (v AND 0x47FF)"
    by (rule i16_eqI) (auto simp: bit_and_iff mask_bits)
  have 7: "i16_of_int ((v AND 0x7FFF) AND 0x70) = i16_of_int (v AND 0x70)"
    by (rule i16_eqI) (auto simp: bit_and_iff mask_bits)
  have 33: "i16_of_int (int_of_i16 w AND 0x7C00 OR int_of_i16 w AND 0x3FF) = w AND 0x7FFF"
    "(w OR 0x7C00) AND 0x7FFF = 0x7C00 OR w AND 0x3FF"
    "((w OR 0x7C00) AND 0x5FFF) AND 0x7FFF = 0x5C00 OR w AND 0x3FF" for w :: i16
    by (rule i16_eqI; auto simp: bit_and_iff bit_or_iff mask_bits)+
  show ?thesis
    using assms by (auto simp: CpuWriteIO_def Let_def InputChannel_ChannelOutput
        InputChannel_WriteIO WrittenChannel_def B 7 33)
qed

lemma Trap_WriteIO [simp]:
  "RestartLight (WriteIO n v State) =
     (RestartLight State \<and> \<not> ((n = 0xD \<or> n = 0xE) \<and> v AND 0x7FFF = 0x12))"
  by (simp add: WriteIO_def Let_def)

text \<open>C28: a program's write to a channel changes that channel only, to the value the hardware
  keeps: 15 bits, channel 7 its three superbank bits, channel 13 without the three bits that only
  set the hand controller traps, channel 33 its own lamp bits, and channel 77 the night watchman.
  The traps and the restart light follow the bits written.\<close>

theorem CpuWriteIO_channel:
  assumes "n < 512"
  shows "InputChannel (CpuWriteIO n v State) = (InputChannel State)(n := WrittenChannel State n v) \<and>
    (Trap31A (CpuWriteIO n v State) \<longleftrightarrow> Trap31A State \<or> n = 0xB \<and> bit v 11) \<and>
    (Trap31B (CpuWriteIO n v State) \<longleftrightarrow> Trap31B State \<or> n = 0xB \<and> bit v 12) \<and>
    (Trap32 (CpuWriteIO n v State) \<longleftrightarrow> Trap32 State \<or> n = 0xB \<and> bit v 13) \<and>
    (RestartLight (CpuWriteIO n v State) \<longleftrightarrow> RestartLight State \<and>
       \<not> (n = 9 \<and> bit v 9) \<and> \<not> (n \<in> {0xD, 0xE} \<and> v AND 0x7FFF = 0x12))"
  unfolding InputChannel_CpuWriteIO [OF assms]
  by (auto simp: CpuWriteIO_def Let_def)

theorem CpuWriteIO_channel_witness:
  "InputChannel (CpuWriteIO 0xB 0x7FFF power_on) 0xB = 0x47FF \<and> Trap32 (CpuWriteIO 0xB 0x7FFF power_on)"
  using CpuWriteIO_channel [of "0xB" "0x7FFF" power_on] by (simp add: WrittenChannel_def mask_bits)

text \<open>The telemetry handshake: writing channels 34 and 35, in any order and with any other
  writes between, schedules the DOWNRUPT interrupt 1706 cycles after the write that completes the
  pair, and starts over; a single one of them schedules nothing.\<close>

theorem CpuWriteIO_downlink:
  "let d = Downlink State OR (if n = 0x1C then 1 else if n = 0x1D then 2 else 0);
       State' = CpuWriteIO n v State
   in (if d = 3
       then Downlink State' = 0 \<and> DownruptTimeValid State' \<and>
            DownruptTime State' = CycleCounter State + 1706
       else Downlink State' = d \<and> DownruptTimeValid State' = DownruptTimeValid State \<and>
            DownruptTime State' = DownruptTime State)"
  by (simp add: CpuWriteIO_def Let_def)

lemma ringbuffer_out_ChannelOutput:
  assumes "ChannelIsSetUp State" "n \<noteq> 7" "FormIoPacket (of_nat n) v = Some p"
  shows "ringbuffer_out (ChannelOutput n v State) = rb_put (ringbuffer_out State) p"
  using assms by (simp add: ChannelOutput_def rb_put_def)

text \<open>Output to a channel queues one packet for the host behind those that wait, unless 1023
  are waiting; the packet carries the channel number and the value.\<close>

theorem ChannelOutput_sends:
  assumes "ChannelIsSetUp State" "rb_ok (ringbuffer_out State)"
    and "n \<noteq> 7" "n < 256" "0 \<le> sint v" "sint v < 32768"
  shows "let q = rb_contents (ringbuffer_out State); b' = ringbuffer_out (ChannelOutput n v State)
    in rb_ok b' \<and>
       (case FormIoPacket (of_nat n) v of None \<Rightarrow> False
        | Some p \<Rightarrow> ParseIoPacket p = Some (of_nat n, v, 0) \<and>
            rb_contents b' = (if length q < 1023 then q @ [p] else q))"
proof -
  have n: "sint (of_nat n :: cint) = int n"
    using assms(4) sint_word_of_int_small [of "int n"] by simp
  have lt: "uint (of_nat n :: cint) < 2 ^ 8"
    using assms(4) by (simp add: unsigned_of_nat take_bit_eq_mod)
  then have b: "\<not> bit (of_nat n :: cint) k" if "8 \<le> k" for k
    using that lt unfolding uint_lt_iff_bits by blast
  have "(of_nat n :: cint) AND 0xFF = of_nat n"
  proof (rule bit_word_eqI)
    show "bit ((of_nat n :: cint) AND 0xFF) k = bit (of_nat n :: cint) k" for k
      using b [of k] by (cases "8 \<le> k") (auto simp: bit_and_iff mask_bits)
  qed
  moreover obtain p where p: "FormIoPacket (of_nat n) v = Some p"
      "ParseIoPacket p = Some (of_nat n AND 0xFF, v, if bit (of_nat n :: cint) 8 then 0x20 else 0)"
    using ParseIoPacket_FormIoPacket [of "of_nat n" v] assms n by auto
  ultimately show ?thesis
    using b [of 8] rb.put_contents [OF assms(2) TrueI, of p] rb.put_inv [OF assms(2) TrueI, of p]
      ringbuffer_out_ChannelOutput [OF assms(1,3) p(1)]
    by (simp add: Let_def)
qed

theorem ChannelOutput_sends_witness:
  "rb_contents (ringbuffer_out (ChannelOutput 9 5 (ChannelSetup power_on))) = [(1, 0x48, 0x80, 0xC5)]"
proof -
  have "ChannelIsSetUp (ChannelSetup power_on)"
    "ringbuffer_out (ChannelSetup power_on) = ringbuffer_init (ringbuffer_out power_on)"
    by (simp_all add: ChannelSetup_def)
  moreover have "FormIoPacket 9 5 = Some (1, 0x48, 0x80, 0xC5)"
    by (simp add: FormIoPacket_def shift_defs word_sless_alt)
  ultimately show ?thesis
    using ChannelOutput_sends [of "ChannelSetup power_on" 9 5] by (simp add: Let_def)
qed

end
