(* ===== verification/AGC_Instructions.thy ===== *)
theory AGC_Instructions
  imports AGC_Divide AGC_IO
begin

text \<open>
  The instructions of the \<open>switch\<close> in \<open>agc_engine\<close>
  (\<open>src/yaAGC/agc_engine.c\<close>, lines 2584-3475), one definition per group of
  \<open>case\<close> labels; \<open>DV\<close> and \<open>MP\<close> are in the theory of division.
  \<open>insn\<close> holds the local variables that decoding sets, \<open>marks\<close> the local flags that an
  instruction reports to the end of the cycle.  The four instructions that read
  \<open>WhereWord[-1]\<close> or \<open>c (Address - 1)\<close> have no result (\<open>None\<close>) where that lies
  before the array.  The calls of \<open>BacktraceAdd\<close> are empty in this configuration.
\<close>

unbundle bit_operations_syntax

section \<open>Decoded instruction and marks\<close>

record insn =
  Instruction :: u16
  ExtendedOpcode :: nat
  Address12 :: nat
  Address10 :: nat
  Address9 :: nat
  Accumulator :: cint
  Overflow :: bool
  CurrentEB :: i16
  CurrentFB :: i16
  CurrentBB :: i16

record marks =
  KeepExtraCode :: bool
  ExecutedTC :: bool
  TCTransient :: bool
  JustTookBZF :: bool
  JustTookBZMF :: bool

definition no_marks :: marks where
  "no_marks = \<lparr>KeepExtraCode = False, ExecutedTC = False, TCTransient = False,
     JustTookBZF = False, JustTookBZMF = False\<rparr>"

text \<open>A register read as 16 bits, \<open>0177777 & c (Reg)\<close>, and an \<open>int\<close> stored into a
  register.\<close>

abbreviation reg16 :: "yaagc \<Rightarrow> nat \<Rightarrow> cint" where
  "reg16 State r \<equiv> int_of_u16 (creg State r)"

abbreviation put_reg :: "nat \<Rightarrow> cint \<Rightarrow> yaagc \<Rightarrow> yaagc" where
  "put_reg r v State \<equiv> set_creg r (i16_of_int v) State"

abbreviation set_NextZ :: "cint \<Rightarrow> yaagc \<Rightarrow> yaagc" where
  "set_NextZ v State \<equiv> State\<lparr>NextZ := v\<rparr>"

text \<open>\<open>SignExtend (OverflowCorrected (v))\<close>, the 15-bit value of a 16-bit one.\<close>

abbreviation Correct16 :: "cint \<Rightarrow> cint" where
  "Correct16 v \<equiv> SignExtend (OverflowCorrected v)"

section \<open>Transfers of control\<close>

definition exec_TC :: "insn \<Rightarrow> marks \<times> yaagc \<Rightarrow> marks \<times> yaagc" where
  "exec_TC i = (\<lambda>(m, State).
     let ValueK = Address12 i;
         transient = (\<lambda>m. if TookBZF State \<or> TookBZMF State then m\<lparr>TCTransient := True\<rparr> else m)
     in if ValueK = 3 then (transient m, State\<lparr>AllowInterrupt := True\<rparr>)
        else if ValueK = 4 then (transient m, State\<lparr>AllowInterrupt := False\<rparr>)
        else if ValueK = 6 then (m\<lparr>KeepExtraCode := True\<rparr>, State\<lparr>ExtraCode := True\<rparr>)
        else
          let State = (if ValueK \<noteq> RegQ then put_reg RegQ (0xFFFF AND NextZ State) State else State)
          in (m\<lparr>ExecutedTC := True\<rparr>, set_NextZ (of_nat (Address12 i)) State))"

definition exec_CCS :: "insn \<Rightarrow> yaagc \<Rightarrow> yaagc" where
  "exec_CCS i State =
     (if Address10 i < REG16 then
        let ValueK = reg16 State (Address10 i);
            Operand16 = OverflowCorrected ValueK;
            State = put_reg RegA (odabs ValueK) State
        in if ValueOverflowed ValueK = AGC_P1 then State
           else if ValueOverflowed ValueK = AGC_M1 then set_NextZ (NextZ State + 2) State
           else if Operand16 = AGC_P0 then set_NextZ (NextZ State + 1) State
           else if Operand16 = AGC_M0 then set_NextZ (NextZ State + 3) State
           else if 0 \<noteq> Operand16 AND 0x4000 then set_NextZ (NextZ State + 2) State
           else State
      else
        case FindMemoryWord State (Address10 i) of
          (WhereWord, State) \<Rightarrow>
            let Operand16 = deref State WhereWord AND 0x7FFF;
                State = set_creg RegA (dabs Operand16) State;
                State = AssignFromPointer WhereWord (int_of_i16 Operand16) State
            in if Operand16 = AGC_P0 then set_NextZ (NextZ State + 1) State
               else if Operand16 = AGC_M0 then set_NextZ (NextZ State + 3) State
               else if 0 \<noteq> Operand16 AND 0x4000 then set_NextZ (NextZ State + 2) State
               else State)"

definition exec_TCF :: "insn \<Rightarrow> marks \<times> yaagc \<Rightarrow> marks \<times> yaagc" where
  "exec_TCF i = (\<lambda>(m, State). (m\<lparr>ExecutedTC := True\<rparr>, set_NextZ (of_nat (Address12 i)) State))"

definition exec_BZF :: "insn \<Rightarrow> marks \<times> yaagc \<Rightarrow> marks \<times> yaagc" where
  "exec_BZF i = (\<lambda>(m, State).
     if Accumulator i = 0 \<or> Accumulator i = 0xFFFF
     then (m\<lparr>JustTookBZF := True\<rparr>, set_NextZ (of_nat (Address12 i)) State) else (m, State))"

definition exec_BZMF :: "insn \<Rightarrow> marks \<times> yaagc \<Rightarrow> marks \<times> yaagc" where
  "exec_BZMF i = (\<lambda>(m, State).
     if Accumulator i = 0 \<or> 0 \<noteq> Accumulator i AND 0x8000
     then (m\<lparr>JustTookBZMF := True\<rparr>, set_NextZ (of_nat (Address12 i)) State) else (m, State))"

text \<open>\<open>RESUME\<close> and \<open>INDEX\<close>; the extracode form keeps the extracode.\<close>

definition exec_RESUME :: "yaagc \<Rightarrow> yaagc" where
  "exec_RESUME State =
     set_NextZ (int_of_i16 (creg State RegZRUPT) - 1)
       (State\<lparr>InIsr := False, SubstituteInstruction := True\<rparr>)"

definition SetIndex :: "nat \<Rightarrow> yaagc \<Rightarrow> yaagc" where
  "SetIndex Address State =
     (if Address < REG16
      then State\<lparr>IndexValue := OverflowCorrected (int_of_i16 (creg State Address))\<rparr>
      else case FindMemoryWord State Address of
             (WhereWord, State) \<Rightarrow> State\<lparr>IndexValue := deref State WhereWord\<rparr>)"

definition exec_INDEX :: "insn \<Rightarrow> yaagc \<Rightarrow> yaagc" where
  "exec_INDEX i State =
     (if Address10 i = 0xF then exec_RESUME State else SetIndex (Address10 i) State)"

definition exec_INDEX_extra :: "insn \<Rightarrow> marks \<times> yaagc \<Rightarrow> marks \<times> yaagc" where
  "exec_INDEX_extra i = (\<lambda>(m, State).
     if Address12 i = 0x1E then (m, exec_RESUME State)
     else (m\<lparr>KeepExtraCode := True\<rparr>, SetIndex (Address12 i) State))"

section \<open>Arithmetic\<close>

text \<open>The carry of the less significant sum into the more significant one.\<close>

definition CarryInto :: "cint \<Rightarrow> cint \<Rightarrow> cint" where
  "CarryInto Lsw Msw =
     (if 0xC000 AND Lsw = 0x4000 then AddSP16 Msw AGC_P1
      else if 0xC000 AND Lsw = 0x8000 then AddSP16 Msw (SignExtend AGC_M1)
      else Msw)"

definition exec_DAS :: "insn \<Rightarrow> yaagc \<Rightarrow> yaagc option" where
  "exec_DAS i State =
     (if Address10 i = RegL then
        let Lsw = AddSP16 (reg16 State RegL) (reg16 State RegL);
            Msw = CarryInto Lsw (AddSP16 (Accumulator i) (Accumulator i));
            Lsw = OverflowCorrected Lsw
        in Some (put_reg RegL (0xFFFF AND SignExtend Lsw) (put_reg RegA (0xFFFF AND Msw) State))
      else
        case FindMemoryWord State (Address10 i) of
          (WhereWord, State) \<Rightarrow>
            let Lsw = AddSP16 (reg16 State RegL)
                  (if Address10 i < REG16 then reg16 State (Address10 i)
                   else SignExtend (deref State WhereWord));
                Below = (if Address10 i < REG16 + 1 then
                           if Address10 i = 0 then None
                           else Some (ErasableLoc (Address10 i - 1))
                         else pred_loc WhereWord)
            in case Below of
                 None \<Rightarrow> None
               | Some Below \<Rightarrow>
                   let Msw = AddSP16 (Accumulator i)
                         (if Address10 i < REG16 + 1 then int_of_u16 (deref State Below)
                          else SignExtend (deref State Below));
                       Msw = CarryInto Lsw Msw;
                       Lsw = OverflowCorrected Lsw;
                       State = put_reg RegA
                         (if 0xC000 AND Msw = 0x8000 then SignExtend AGC_M1
                          else if 0xC000 AND Msw = 0x4000 then AGC_P1 else AGC_P0) State;
                       State = set_creg RegL AGC_P0 State;
                       State =
                         (if Address10 i < REG16 then put_reg (Address10 i) (SignExtend Lsw) State
                          else AssignFromPointer WhereWord (int_of_i16 Lsw) State)
                   in Some
                        (if Address10 i < REG16 + 1 then put_reg (Address10 i - 1) Msw State
                         else AssignFromPointer Below (int_of_i16 (OverflowCorrected Msw)) State))"

definition exec_INCR :: "insn \<Rightarrow> yaagc \<Rightarrow> yaagc" where
  "exec_INCR i State =
     (case FindMemoryWord State (Address10 i) of
        (WhereWord, State) \<Rightarrow>
          if Address10 i < REG16
          then put_reg (Address10 i) (AddSP16 AGC_P1 (reg16 State (Address10 i))) State
          else
            let Value = AddSP16 AGC_P1 (SignExtend (deref State WhereWord));
                State = AssignFromPointer WhereWord (int_of_i16 (OverflowCorrected Value)) State
            in RaiseInterruptRequests (Address10 i) Value State)"

definition exec_ADS :: "insn \<Rightarrow> yaagc \<Rightarrow> yaagc" where
  "exec_ADS i State =
     (case FindMemoryWord State (Address10 i) of
        (WhereWord, State) \<Rightarrow>
          let Acc = AddSP16 (Accumulator i)
                (if Address10 i = RegA then Accumulator i
                 else if Address10 i < REG16 then reg16 State (Address10 i)
                 else SignExtend (deref State WhereWord));
              State = put_reg RegA Acc State
          in if Address10 i = RegA then State
             else if Address10 i < REG16 then put_reg (Address10 i) Acc State
             else AssignFromPointer WhereWord (int_of_i16 (OverflowCorrected Acc)) State)"

definition exec_AD :: "insn \<Rightarrow> yaagc \<Rightarrow> yaagc" where
  "exec_AD i State =
     (let (Acc, State) =
        (if Address12 i = RegA then (AddSP16 (Accumulator i) (Accumulator i), State)
         else if Address12 i < REG16
         then (AddSP16 (Accumulator i) (reg16 State (Address12 i)), State)
         else
           case FindMemoryWord State (Address12 i) of
             (WhereWord, State) \<Rightarrow>
               (AddSP16 (Accumulator i) (SignExtend (deref State WhereWord)),
                AssignFromPointer WhereWord (int_of_i16 (deref State WhereWord)) State))
      in put_reg RegA Acc State)"

definition exec_SU :: "insn \<Rightarrow> yaagc \<Rightarrow> yaagc" where
  "exec_SU i State =
     (let (Acc, State) =
        (if Address10 i = RegA then (SignExtend AGC_M0, State)
         else if Address10 i < REG16
         then (AddSP16 (Accumulator i) (0xFFFF AND NOT (int_of_i16 (creg State (Address10 i)))), State)
         else
           case FindMemoryWord State (Address10 i) of
             (WhereWord, State) \<Rightarrow>
               (AddSP16 (Accumulator i) (SignExtend (NegateSP (deref State WhereWord))),
                AssignFromPointer WhereWord (int_of_i16 (deref State WhereWord)) State))
      in put_reg RegA Acc State)"

definition exec_MSU :: "insn \<Rightarrow> yaagc \<Rightarrow> yaagc" where
  "exec_MSU i State =
     (case FindMemoryWord State (Address10 i) of
        (WhereWord, State) \<Rightarrow>
          let (ui, uj) =
                (if Address10 i < REG16 then
                   (0xFFFF AND Accumulator i, 0xFFFF AND NOT (int_of_i16 (creg State (Address10 i))))
                 else
                   (0x7FFF AND int_of_i16 (OverflowCorrected (Accumulator i)),
                    0x7FFF AND NOT (int_of_i16 (deref State WhereWord))));
              diff = ui + uj + 1;
              diff = (if diff AND 0x4000 \<noteq> 0 then (diff OR 0x8000) - 1 else diff);
              State =
                (if Address10 i = RegQ then put_reg RegA (0xFFFF AND diff) State
                 else put_reg RegA (SignExtend (i16_of_int (0x7FFF AND diff))) State)
          in if 0x10 \<le> Address10 i \<and> Address10 i \<le> 0x13
             then AssignFromPointer WhereWord (int_of_i16 (deref State WhereWord)) State
             else State)"

text \<open>The operand of \<open>AUG\<close> and \<open>DIM\<close>, as 16 bits.\<close>

definition Operand16Of :: "nat \<Rightarrow> loc \<Rightarrow> yaagc \<Rightarrow> cint" where
  "Operand16Of Address WhereWord State =
     (if Address < REG16 then reg16 State Address
      else SignExtend (deref State WhereWord) AND 0xFFFF)"

definition exec_AUG :: "insn \<Rightarrow> yaagc \<Rightarrow> yaagc" where
  "exec_AUG i State =
     (case FindMemoryWord State (Address10 i) of
        (WhereWord, State) \<Rightarrow>
          let Operand16 = Operand16Of (Address10 i) WhereWord State;
              Increment = (if 0 = 0x8000 AND Operand16 then AGC_P1 else SignExtend AGC_M1);
              Value = AddSP16 (0xFFFF AND Increment) (0xFFFF AND Operand16)
          in if Address10 i < REG16 then put_reg (Address10 i) Value State
             else
               let State = AssignFromPointer WhereWord (int_of_i16 (OverflowCorrected Value)) State
               in RaiseInterruptRequests (Address10 i) Value State)"

definition exec_DIM :: "insn \<Rightarrow> yaagc \<Rightarrow> yaagc" where
  "exec_DIM i State =
     (case FindMemoryWord State (Address10 i) of
        (WhereWord, State) \<Rightarrow>
          let Operand16 = Operand16Of (Address10 i) WhereWord State
          in if Operand16 = AGC_P0 \<or> Operand16 = SignExtend AGC_M0 then State
             else
               let Increment = (if 0 = 0x8000 AND Operand16 then SignExtend AGC_M1 else AGC_P1);
                   Value = AddSP16 (0xFFFF AND Increment) (0xFFFF AND Operand16)
               in if Address10 i < REG16 then put_reg (Address10 i) Value State
                  else AssignFromPointer WhereWord (int_of_i16 (OverflowCorrected Value)) State)"

section \<open>Loads\<close>

definition exec_CA :: "insn \<Rightarrow> yaagc \<Rightarrow> yaagc" where
  "exec_CA i State =
     (if Address12 i = RegA then State
      else if Address12 i < REG16 then set_creg RegA (creg State (Address12 i)) State
      else
        case FindMemoryWord State (Address12 i) of
          (WhereWord, State) \<Rightarrow>
            let State = put_reg RegA (SignExtend (deref State WhereWord)) State
            in AssignFromPointer WhereWord (int_of_i16 (deref State WhereWord)) State)"

definition exec_CS :: "insn \<Rightarrow> yaagc \<Rightarrow> yaagc" where
  "exec_CS i State =
     (if Address12 i = RegA then put_reg RegA (NOT (Accumulator i)) State
      else if Address12 i < REG16 then set_creg RegA (NOT (creg State (Address12 i))) State
      else
        case FindMemoryWord State (Address12 i) of
          (WhereWord, State) \<Rightarrow>
            let State = put_reg RegA (SignExtend (NegateSP (deref State WhereWord))) State
            in AssignFromPointer WhereWord (int_of_i16 (deref State WhereWord)) State)"

definition exec_MASK :: "insn \<Rightarrow> yaagc \<Rightarrow> yaagc" where
  "exec_MASK i State =
     (if Address12 i < REG16
      then put_reg RegA (Accumulator i AND int_of_i16 (creg State (Address12 i))) State
      else
        let State = set_creg RegA (OverflowCorrected (Accumulator i)) State
        in case FindMemoryWord State (Address12 i) of
             (WhereWord, State) \<Rightarrow>
               put_reg RegA (SignExtend (creg State RegA AND deref State WhereWord)) State)"

text \<open>The two loads of double precision words: \<open>f\<close> is the identity for \<open>DCA\<close> and
  the complement for \<open>DCS\<close>.  An editing register is edited again.\<close>

definition ReEdit :: "nat \<Rightarrow> loc \<Rightarrow> loc \<Rightarrow> yaagc \<Rightarrow> yaagc" where
  "ReEdit Address WhereWord Below State =
     (let State = (if 0x10 \<le> Address \<and> Address \<le> 0x13
            then AssignFromPointer WhereWord (int_of_i16 (deref State WhereWord)) State else State)
      in if 0x10 + 1 \<le> Address \<and> Address \<le> 0x13 + 1
         then AssignFromPointer Below (int_of_i16 (deref State Below)) State else State)"

definition LoadDouble :: "(cint \<Rightarrow> cint) \<Rightarrow> nat \<Rightarrow> yaagc \<Rightarrow> yaagc option" where
  "LoadDouble f Address State =
     (case FindMemoryWord State Address of
        (WhereWord, State) \<Rightarrow>
          let State = put_reg RegL
                (if Address < REG16 then f (int_of_i16 (creg State Address))
                 else f (SignExtend (deref State WhereWord))) State;
              State = put_reg RegL (Correct16 (int_of_i16 (creg State RegL))) State;
              Below = (if Address < REG16 + 1 then
                         if Address = 0 then None else Some (ErasableLoc (Address - 1))
                       else pred_loc WhereWord)
          in case Below of
               None \<Rightarrow> None
             | Some Below \<Rightarrow>
                 let State = put_reg RegA
                       (if Address < REG16 + 1 then f (int_of_i16 (creg State (Address - 1)))
                        else f (SignExtend (deref State Below))) State
                 in Some (ReEdit Address WhereWord Below State))"

definition exec_DCA :: "insn \<Rightarrow> yaagc \<Rightarrow> yaagc option" where
  "exec_DCA i State =
     (if Address12 i = RegL
      then Some (put_reg RegL (Correct16 (int_of_i16 (creg State RegL))) State)
      else LoadDouble (\<lambda>v. v) (Address12 i) State)"

definition exec_DCS :: "insn \<Rightarrow> yaagc \<Rightarrow> yaagc option" where
  "exec_DCS i State =
     (if Address12 i = RegL then
        let State = put_reg RegA (NOT (Accumulator i)) State;
            State = set_creg RegL (NOT (creg State RegL)) State
        in Some (put_reg RegL (Correct16 (int_of_i16 (creg State RegL))) State)
      else LoadDouble (\<lambda>v. NOT v) (Address12 i) State)"

section \<open>Exchanges and stores\<close>

text \<open>\<open>LXCH\<close> and \<open>QXCH\<close>.  Below \<open>REG16\<close> there are only \<open>A\<close>,
  \<open>L\<close> and \<open>Q\<close>, so the tests of the C code for an editing register and for
  \<open>Z\<close> in that branch never hold; the first, which would use an unset pointer, is left
  out.\<close>

definition exec_LXCH :: "insn \<Rightarrow> yaagc \<Rightarrow> yaagc" where
  "exec_LXCH i State =
     (if Address10 i = RegL then State
      else if Address10 i = RegZERO then set_creg RegL AGC_P0 State
      else if Address10 i < REG16 then
        let Operand16 = creg State RegL;
            State = set_creg RegL (creg State (Address10 i)) State;
            State = set_creg (Address10 i) Operand16 State
        in if Address10 i = RegZ then set_NextZ (int_of_i16 (creg State RegZ)) State else State
      else
        case FindMemoryWord State (Address10 i) of
          (WhereWord, State) \<Rightarrow>
            let Operand16 = deref State WhereWord;
                State = AssignFromPointer WhereWord
                  (int_of_i16 (OverflowCorrected (reg16 State RegL))) State
            in put_reg RegL (SignExtend Operand16) State)"

definition exec_QXCH :: "insn \<Rightarrow> yaagc \<Rightarrow> yaagc" where
  "exec_QXCH i State =
     (if Address10 i = RegQ then State
      else if Address10 i = RegZERO then set_creg RegQ AGC_P0 State
      else if Address10 i < REG16 then
        let Operand16 = creg State RegQ;
            State = set_creg RegQ (creg State (Address10 i)) State;
            State = set_creg (Address10 i) Operand16 State
        in if Address10 i = RegZ then set_NextZ (int_of_i16 (creg State RegZ)) State else State
      else
        case FindMemoryWord State (Address10 i) of
          (WhereWord, State) \<Rightarrow>
            let Operand16 = OverflowCorrected (int_of_i16 (creg State RegQ));
                State = put_reg RegQ (SignExtend (deref State WhereWord)) State
            in AssignFromPointer WhereWord (int_of_i16 Operand16) State)"

definition exec_XCH :: "insn \<Rightarrow> yaagc \<Rightarrow> yaagc" where
  "exec_XCH i State =
     (if Address10 i = RegA then State
      else if Address10 i < REG16 then
        let State = set_creg RegA (creg State (Address10 i)) State;
            State = put_reg (Address10 i) (Accumulator i) State
        in if Address10 i = RegZ then set_NextZ (int_of_i16 (creg State RegZ)) State else State
      else
        case FindMemoryWord State (Address10 i) of
          (WhereWord, State) \<Rightarrow>
            let State = put_reg RegA (SignExtend (deref State WhereWord)) State
            in AssignFromPointer WhereWord
                 (int_of_i16 (OverflowCorrected (Accumulator i))) State)"

text \<open>The upper word of \<open>DXCH\<close> goes to \<open>L\<close>, the lower to \<open>A\<close>; the
  \<open>Z\<close> register is the lower word at address 6.\<close>

definition exec_DXCH :: "insn \<Rightarrow> yaagc \<Rightarrow> yaagc option" where
  "exec_DXCH i State =
     (if Address10 i = RegL
      then Some (put_reg RegL (Correct16 (int_of_i16 (creg State RegL))) State)
      else
        case FindMemoryWord State (Address10 i) of
          (WhereWord, State) \<Rightarrow>
            let State =
                  (if Address10 i < REG16 then
                     let Operand16 = creg State (Address10 i);
                         State = set_creg (Address10 i) (creg State RegL) State;
                         State = set_creg RegL Operand16 State
                     in if Address10 i = RegZ then set_NextZ (int_of_i16 (creg State RegZ)) State
                        else State
                   else
                     let Operand16 = i16_of_int (SignExtend (deref State WhereWord));
                         State = AssignFromPointer WhereWord
                           (int_of_i16 (OverflowCorrected (int_of_i16 (creg State RegL)))) State
                     in set_creg RegL Operand16 State);
                State = put_reg RegL (Correct16 (int_of_i16 (creg State RegL))) State
            in if Address10 i < REG16 + 1 then
                 if Address10 i = 0 then None
                 else
                   let Operand16 = creg State (Address10 i - 1);
                       State = set_creg (Address10 i - 1) (creg State RegA) State;
                       State = set_creg RegA Operand16 State
                   in Some (if Address10 i = RegZ + 1
                            then set_NextZ (int_of_i16 (creg State RegZ)) State else State)
               else
                 case pred_loc WhereWord of
                   None \<Rightarrow> None
                 | Some Below \<Rightarrow>
                     let Operand16 = i16_of_int (SignExtend (deref State Below));
                         State = AssignFromPointer Below
                           (int_of_i16 (OverflowCorrected (int_of_i16 (creg State RegA)))) State
                     in Some (set_creg RegA Operand16 State))"

definition exec_TS :: "insn \<Rightarrow> yaagc \<Rightarrow> yaagc" where
  "exec_TS i State =
     (if Address10 i = RegA then
        if Overflow i then set_NextZ (NextZ State + 1) State else State
      else if Address10 i = RegZ then
        let State = set_NextZ (0x7FFF AND Accumulator i) State
        in if Overflow i then put_reg RegA (SignExtend (ValueOverflowed (Accumulator i))) State
           else State
      else
        case FindMemoryWord State (Address10 i) of
          (WhereWord, State) \<Rightarrow>
            let State =
                  (if Address10 i < REG16 then put_reg (Address10 i) (Accumulator i) State
                   else AssignFromPointer WhereWord
                          (int_of_i16 (OverflowCorrected (Accumulator i))) State)
            in if Overflow i then
                 set_NextZ (NextZ State + 1)
                   (put_reg RegA (SignExtend (ValueOverflowed (Accumulator i))) State)
               else State)"

section \<open>Channels\<close>

abbreviation IsLorQ :: "nat \<Rightarrow> bool" where "IsLorQ a \<equiv> a = RegL \<or> a = RegQ"

definition exec_READ :: "insn \<Rightarrow> yaagc \<Rightarrow> yaagc" where
  "exec_READ i State =
     (if IsLorQ (Address9 i) then set_creg RegA (creg State (Address9 i)) State
      else put_reg RegA (SignExtend (i16_of_int (ReadIO State (Address9 i)))) State)"

definition exec_WRITE :: "insn \<Rightarrow> yaagc \<Rightarrow> yaagc" where
  "exec_WRITE i State =
     (if IsLorQ (Address9 i) then put_reg (Address9 i) (Accumulator i) State
      else CpuWriteIO (Address9 i) (int_of_i16 (OverflowCorrected (Accumulator i))) State)"

text \<open>\<open>RAND\<close>, \<open>ROR\<close> and \<open>RXOR\<close> combine accumulator and channel;
  \<open>WAND\<close> and \<open>WOR\<close> also write the result back.\<close>

definition exec_RAND :: "insn \<Rightarrow> yaagc \<Rightarrow> yaagc" where
  "exec_RAND i State =
     (if IsLorQ (Address9 i)
      then put_reg RegA (Accumulator i AND int_of_i16 (creg State (Address9 i))) State
      else
        let Operand16 = OverflowCorrected (Accumulator i) AND i16_of_int (ReadIO State (Address9 i))
        in put_reg RegA (SignExtend Operand16) State)"

definition exec_WAND :: "insn \<Rightarrow> yaagc \<Rightarrow> yaagc" where
  "exec_WAND i State =
     (if IsLorQ (Address9 i) then
        let Value = i16_of_int (Accumulator i AND int_of_i16 (creg State (Address9 i)))
        in set_creg RegA Value (set_creg (Address9 i) Value State)
      else
        let Operand16 = OverflowCorrected (Accumulator i) AND i16_of_int (ReadIO State (Address9 i));
            State = CpuWriteIO (Address9 i) (int_of_i16 Operand16) State
        in put_reg RegA (SignExtend Operand16) State)"

definition exec_ROR :: "insn \<Rightarrow> yaagc \<Rightarrow> yaagc" where
  "exec_ROR i State =
     (if IsLorQ (Address9 i)
      then put_reg RegA (Accumulator i OR int_of_i16 (creg State (Address9 i))) State
      else
        let Operand16 = OverflowCorrected (Accumulator i) OR i16_of_int (ReadIO State (Address9 i))
        in put_reg RegA (SignExtend Operand16) State)"

definition exec_WOR :: "insn \<Rightarrow> yaagc \<Rightarrow> yaagc" where
  "exec_WOR i State =
     (if IsLorQ (Address9 i) then
        let Value = i16_of_int (Accumulator i OR int_of_i16 (creg State (Address9 i)))
        in set_creg RegA Value (set_creg (Address9 i) Value State)
      else
        let Operand16 = OverflowCorrected (Accumulator i) OR i16_of_int (ReadIO State (Address9 i));
            State = CpuWriteIO (Address9 i) (int_of_i16 Operand16) State
        in put_reg RegA (SignExtend Operand16) State)"

definition exec_RXOR :: "insn \<Rightarrow> yaagc \<Rightarrow> yaagc" where
  "exec_RXOR i State =
     (if IsLorQ (Address9 i)
      then put_reg RegA (Accumulator i XOR int_of_i16 (creg State (Address9 i))) State
      else
        let Operand16 = OverflowCorrected (Accumulator i) XOR i16_of_int (ReadIO State (Address9 i))
        in put_reg RegA (SignExtend Operand16) State)"

end
