(* ===== verification/AGC_Timers.thy ===== *)
theory AGC_Timers
  imports AGC_IO
begin

text \<open>
  The scaler of \<open>src/yaAGC/agc_engine.c\<close> (lines 2006-2314): every 1/3200 second the
  clock dividers advance and drive the hardware alarms, standby, the counters
  \<open>TIME1\<close> to \<open>TIME6\<close>, the hand controller traps, the radar cycle, and the hardware
  restart (GOJAM).  The body of the loop is split at its comments.  \<open>DskyChannel163\<close> is
  an unsigned \<open>int\<close>; \<open>ExtraDelay\<close> and \<open>RadarGateCounter\<close> are bit fields.
\<close>

unbundle bit_operations_syntax

abbreviation (input) SCALER_OVERFLOW :: cint where "SCALER_OVERFLOW \<equiv> 80"
abbreviation (input) SCALER_DIVIDER :: "'a::len word" where "SCALER_DIVIDER \<equiv> 3"
abbreviation (input) ChanSCALER2 :: nat where "ChanSCALER2 \<equiv> 3"
abbreviation (input) ChanSCALER1 :: nat where "ChanSCALER1 \<equiv> 4"

section \<open>The clock dividers\<close>

definition TickScaler :: "yaagc \<Rightarrow> yaagc" where
  "TickScaler State =
     (let State = State\<lparr>ScalerCounter := ScalerCounter State - SCALER_OVERFLOW\<rparr>;
          State = set_chan ChanSCALER1 (InputChannel State ChanSCALER1 + 1) State
      in if InputChannel State ChanSCALER1 = 0x4000 then
           set_chan ChanSCALER2 ((InputChannel State ChanSCALER2 + 1) AND 0x3FFF)
             (set_chan ChanSCALER1 0 State)
         else State)"

section \<open>Alarms\<close>

text \<open>The first result tells whether an alarm was triggered.\<close>

definition EnterOrLeaveStandby :: "yaagc \<Rightarrow> bool \<times> yaagc" where
  "EnterOrLeaveStandby State =
     (let State = (if \<not> Standby State then State\<lparr>NightWatchman := True\<rparr> else State)
      in if SbyPressed State \<and> (InputChannel State 0xB AND 0x400 \<noteq> 0 \<or> Standby State) then
           if \<not> Standby State then
             let State = State\<lparr>Standby := True, SbyStillPressed := True,
                   DskyChannel163 := DskyChannel163 State OR (DSKY_STBY OR DSKY_EL_OFF)\<rparr>
             in (True, ChannelOutput 0x73 (DskyChannel163 State) State)
           else if \<not> SbyStillPressed State then
             let State = State\<lparr>Standby := False,
                   DskyChannel163 := DskyChannel163 State AND NOT (DSKY_STBY OR DSKY_EL_OFF)\<rparr>
             in (False, ChannelOutput 0x73 (DskyChannel163 State) State)
           else (False, State)
         else (False, State))"

definition CheckNightWatchman :: "yaagc \<Rightarrow> bool \<times> yaagc" where
  "CheckNightWatchman State =
     (let State = (if 0 = InputChannel State 0x1A AND 0x2000
                   then State\<lparr>SbyPressed := True\<rparr> else State)
      in if \<not> Standby State \<and> NightWatchman State then
           (True, (set_chan 0x3F (InputChannel State 0x3F OR CH77_NIGHT_WATCHMAN) State)
                    \<lparr>NightWatchmanTripped := True\<rparr>)
         else (False, State\<lparr>NightWatchmanTripped := False\<rparr>))"

definition UpdateWarningFilter :: "yaagc \<Rightarrow> yaagc" where
  "UpdateWarningFilter State =
     (if 0x100 = 0x1FF AND InputChannel State ChanSCALER1 \<and>
         (GeneratedWarning State \<or> InputChannel State 0xB AND 0x200 \<noteq> 0) then
        let State = State\<lparr>GeneratedWarning := False,
              WarningFilter := WarningFilter State + WARNING_FILTER_INCREMENT\<rparr>
        in if WARNING_FILTER_MAX < WarningFilter State
           then State\<lparr>WarningFilter := WARNING_FILTER_MAX\<rparr> else State
      else if WARNING_FILTER_DECREMENT \<le> WarningFilter State then
        State\<lparr>WarningFilter := WarningFilter State - WARNING_FILTER_DECREMENT\<rparr>
      else State\<lparr>WarningFilter := 0\<rparr>)"

definition SlowAlarms :: "yaagc \<Rightarrow> bool \<times> yaagc" where
  "SlowAlarms State =
     (if 0x800 = 0xFFF AND InputChannel State ChanSCALER1 then EnterOrLeaveStandby State
      else if 0 = 0xFFF AND InputChannel State ChanSCALER1 then CheckNightWatchman State
      else if 0 = 7 AND InputChannel State ChanSCALER1 then (False, UpdateWarningFilter State)
      else (False, State))"

definition CheckRuptLock :: "yaagc \<Rightarrow> bool \<times> yaagc" where
  "CheckRuptLock State =
     (if 0x100 = 0x1FF AND InputChannel State ChanSCALER1 then
        (False, State\<lparr>RuptLock := True, NoRupt := True\<rparr>)
      else if (RuptLock State \<or> NoRupt State) \<and>
              0xC0 = 0x1FF AND InputChannel State ChanSCALER1 then
        (True, set_chan 0x3F (InputChannel State 0x3F OR CH77_RUPT_LOCK) State)
      else (False, State))"

definition CheckTCTrap :: "yaagc \<Rightarrow> bool \<times> yaagc" where
  "CheckTCTrap State =
     (if 0x10 = 0x1F AND InputChannel State ChanSCALER1 then
        (False, State\<lparr>TCTrap := True, NoTC := True\<rparr>)
      else if (TCTrap State \<or> NoTC State) \<and> 0 = 0x1F AND InputChannel State ChanSCALER1 then
        (True, set_chan 0x3F (InputChannel State 0x3F OR CH77_TC_TRAP) State)
      else (False, State))"

section \<open>Counters and traps\<close>

text \<open>\<open>CounterPINC (&c(Reg))\<close>: the overflow and the state with the counter updated.\<close>

definition PINC :: "nat \<Rightarrow> yaagc \<Rightarrow> bool \<times> yaagc" where
  "PINC Reg State =
     (case CounterPINC (creg State Reg) of (Overflow, i) \<Rightarrow> (Overflow \<noteq> 0, set_creg Reg i State))"

definition DelayOne :: "yaagc \<Rightarrow> yaagc" where
  "DelayOne State = State\<lparr>ExtraDelay := ExtraDelay State + 1\<rparr>"

definition UpdateTime1And3 :: "yaagc \<Rightarrow> yaagc" where
  "UpdateTime1And3 State =
     (if 0x10 = 0x1F AND InputChannel State ChanSCALER1 then
        let State = DelayOne State;
            (Overflow, State) = PINC RegTIME1 State;
            State = (if Overflow then snd (PINC RegTIME2 (DelayOne State)) else State);
            State = DelayOne State;
            (Overflow, State) = PINC RegTIME3 State
        in if Overflow then request 3 State else State
      else State)"

definition UpdateTime5 :: "yaagc \<Rightarrow> yaagc" where
  "UpdateTime5 State =
     (if 0 = 0x1F AND InputChannel State ChanSCALER1 then
        let State = DelayOne State;
            (Overflow, State) = PINC RegTIME5 State;
            State = (if Overflow then request 2 State else State)
        in if InputChannel State 0xB AND 0x8 \<noteq> 0
           then State\<lparr>RadarGateCounter := RadarGateCounter State + 1\<rparr> else State
      else State)"

definition UpdateTime4 :: "yaagc \<Rightarrow> yaagc" where
  "UpdateTime4 State =
     (if 8 = 0x1F AND InputChannel State ChanSCALER1 then
        let State = DelayOne State;
            (Overflow, State) = PINC RegTIME4 State
        in if Overflow then request 4 State else State
      else State)"

definition UpdateTime6 :: "yaagc \<Rightarrow> yaagc" where
  "UpdateTime6 State =
     (if 0x4000 AND InputChannel State 0xB \<noteq> 0 \<and> InputChannel State ChanSCALER1 AND 1 = 1 then
        let State = DelayOne State
        in case CounterDINC State 0 (creg State RegTIME6) of
             (Zout, i, State) \<Rightarrow>
               let State = set_creg RegTIME6 i State
               in if Zout \<noteq> 0 then
                    let State = request 1 State
                    in CpuWriteIO 0xB (int_of_i16 (InputChannel State 0xB) AND 0x3FFF) State
                  else State
      else State)"

definition CheckTraps :: "yaagc \<Rightarrow> yaagc" where
  "CheckTraps State =
     (let State = (if Trap31A State \<and> InputChannel State 0x19 AND 0x3F \<noteq> 0x3F
                   then request 10 (State\<lparr>Trap31A := False\<rparr>) else State);
          State = (if Trap31B State \<and> InputChannel State 0x19 AND 0xFC0 \<noteq> 0xFC0
                   then request 10 (State\<lparr>Trap31B := False\<rparr>) else State)
      in if Trap32 State \<and> InputChannel State 0x1A AND 0x3FF \<noteq> 0x3FF
         then request 10 (State\<lparr>Trap32 := False\<rparr>) else State)"

text \<open>\<open>RequestRadarData\<close> is an empty stub of the transport.\<close>

definition CheckRadar :: "yaagc \<Rightarrow> yaagc" where
  "CheckRadar State =
     (if RadarGateCounter State = 9 \<and> 0x1E = 0x1F AND InputChannel State ChanSCALER1 then
        request 9 (set_chan 0xB (InputChannel State 0xB AND NOT 8)
          (State\<lparr>RadarGateCounter := 0\<rparr>))
      else State)"

section \<open>Hardware restart\<close>

definition GOJAM :: "yaagc \<Rightarrow> yaagc" where
  "GOJAM State =
     (let State = State\<lparr>ExtraDelay := ExtraDelay State + 2\<rparr>;
          State = set_creg RegQ (creg State RegZ) State;
          State = set_creg RegZ 0x800 State;
          State = State\<lparr>InIsr := False, AllowInterrupt := True, ParityFail := False,
                    Trap31A := False, Trap31B := False, Trap32 := False,
                    InterruptRequests := (\<lambda>i. if 1 \<le> i \<and> i \<le> 10 then 0
                                              else InterruptRequests State i)\<rparr>;
          State = fold (\<lambda>Channel. CpuWriteIO Channel 0) [0x5, 0x6, 0x8, 0x9, 0xA, 0xB, 0xC] State;
          State = set_chan 0x1B (InputChannel State 0x1B OR 0x400) State;
          State = fold (\<lambda>Channel. CpuWriteIO Channel 0) [0x1C, 0x1D] State;
          State = State\<lparr>DownruptTimeValid := False, IndexValue := AGC_P0, ExtraCode := False,
                    SubstituteInstruction := False, PendFlag := False, PendDelay := 0,
                    TookBZF := False, TookBZMF := False\<rparr>
      in if \<not> Standby State then State\<lparr>RestartLight := True, GeneratedWarning := True\<rparr>
         else State)"

definition HandleAlarms :: "bool \<Rightarrow> yaagc \<Rightarrow> yaagc" where
  "HandleAlarms TriggeredAlarm State =
     (if TriggeredAlarm \<or> ParityFail State then
        let State = (if \<not> InhibitAlarms State then GOJAM State else State)
        in ChannelOutput 0x3F (int_of_i16 (InputChannel State 0x3F)) State
      else State)"

section \<open>The loop\<close>

definition ScalerBody :: "yaagc \<Rightarrow> yaagc" where
  "ScalerBody State =
     (let State = TickScaler State;
          (TriggeredAlarm, State) = SlowAlarms State;
          (TriggeredAlarm, State) =
            (if \<not> Standby State then
               let (Rupt, State) = CheckRuptLock State;
                   (TC, State) = CheckTCTrap State;
                   State = UpdateTime1And3 State;
                   State = UpdateTime5 State;
                   State = UpdateTime4 State;
                   State = UpdateTime6 State;
                   State = CheckTraps State;
                   State = CheckRadar State
               in (TriggeredAlarm \<or> Rupt \<or> TC, State)
             else (TriggeredAlarm, State))
      in HandleAlarms TriggeredAlarm State)"

text \<open>Only the clock dividers touch the scaler counter.\<close>

lemma CounterDINC_ScalerCounter [simp]:
  "ScalerCounter (snd (snd (CounterDINC State n i))) = ScalerCounter State"
  by (simp add: CounterDINC_def Let_def)

lemma stage_ScalerCounter [simp]:
  "ScalerCounter (snd (SlowAlarms State)) = ScalerCounter State"
  "ScalerCounter (snd (CheckRuptLock State)) = ScalerCounter State"
  "ScalerCounter (snd (CheckTCTrap State)) = ScalerCounter State"
  "ScalerCounter (snd (PINC r State)) = ScalerCounter State"
  "ScalerCounter (DelayOne State) = ScalerCounter State"
  "ScalerCounter (CheckTraps State) = ScalerCounter State"
  "ScalerCounter (CheckRadar State) = ScalerCounter State"
  by (simp_all add: SlowAlarms_def EnterOrLeaveStandby_def CheckNightWatchman_def
      UpdateWarningFilter_def CheckRuptLock_def CheckTCTrap_def PINC_def DelayOne_def
      CheckTraps_def CheckRadar_def Let_def split: prod.splits)

lemma timers_ScalerCounter [simp]:
  "ScalerCounter (UpdateTime1And3 State) = ScalerCounter State"
  "ScalerCounter (UpdateTime5 State) = ScalerCounter State"
  "ScalerCounter (UpdateTime4 State) = ScalerCounter State"
  "ScalerCounter (UpdateTime6 State) = ScalerCounter State"
  by (simp_all add: UpdateTime1And3_def UpdateTime5_def UpdateTime4_def UpdateTime6_def
      Let_def split_beta)

lemma HandleAlarms_ScalerCounter [simp]:
  "ScalerCounter (GOJAM State) = ScalerCounter State"
  "ScalerCounter (HandleAlarms a State) = ScalerCounter State"
  by (simp_all add: HandleAlarms_def GOJAM_def Let_def)

lemma ScalerBody_ScalerCounter [simp]:
  "ScalerCounter (ScalerBody State) = ScalerCounter State - 80"
proof -
  have "ScalerCounter (TickScaler State) = ScalerCounter State - 80"
    by (simp add: TickScaler_def Let_def)
  then show ?thesis
    by (simp add: ScalerBody_def Let_def split_beta)
qed

lemma scaler_decreases:
  assumes "80 \<le>s (c :: cint)"
  shows "nat (sint (c - 80)) < nat (sint c)"
proof -
  have "80 \<le> sint c" using assms by (simp add: word_sle_eq)
  moreover from this have "sint (c - 80) = sint c - 80"
    using sint_word_of_int_small [of "sint c - 80"] sint_cint_bounds [of c] by simp
  ultimately show ?thesis by simp
qed

text \<open>An iteration that leaves a delay pending makes the engine return (\<open>True\<close>).\<close>

function ScalerLoop :: "yaagc \<Rightarrow> bool \<times> yaagc" where
  "ScalerLoop State =
     (if SCALER_OVERFLOW \<le>s ScalerCounter State then
        let State = ScalerBody State
        in if ExtraDelay State \<noteq> 0
           then (True, State\<lparr>ExtraDelay := ExtraDelay State - 1\<rparr>)
           else ScalerLoop State
      else (False, State))"
  by pat_completeness auto

termination ScalerLoop
  using scaler_decreases by (relation "measure (\<lambda>State. nat (sint (ScalerCounter State)))") auto

declare ScalerLoop.simps [simp del]

section \<open>Properties\<close>

lemma CpuWriteIO_zero_frame:
  "RestartLight (CpuWriteIO n 0 State) = RestartLight State"
  "Trap31A (CpuWriteIO n 0 State) = Trap31A State"
  "Trap31B (CpuWriteIO n 0 State) = Trap31B State"
  "Trap32 (CpuWriteIO n 0 State) = Trap32 State"
  by (simp_all add: CpuWriteIO_def Let_def)

text \<open>The hardware restart: execution goes on at octal 4000 with the old program counter in
  \<open>Q\<close> and the rest of the memory as it was; no interrupt is pending or in progress and
  interrupts are allowed; a half-done instruction, index or extracode is dropped; the output
  channels 5, 6, 10 to 14, 34 and 35 are cleared and no other channel but the restart bit of
  channel 33 changes; the restart light and the warning are raised unless in standby.\<close>

theorem GOJAM_restart:
  "let State' = GOJAM State
   in Erasable State' = (Erasable State)(RegQ := creg State RegZ, RegZ := 0x800) \<and>
      InputChannel State' = (\<lambda>n. if n \<in> {0x5, 0x6, 0x8, 0x9, 0xA, 0xB, 0xC, 0x1C, 0x1D} then 0
        else if n = 0x1B then InputChannel State n OR 0x400 else InputChannel State n) \<and>
      list_all (\<lambda>n. InterruptRequests State' n = 0) [1..<11] \<and>
      \<not> InIsr State' \<and> AllowInterrupt State' \<and> \<not> ParityFail State' \<and>
      \<not> Trap31A State' \<and> \<not> Trap31B State' \<and> \<not> Trap32 State' \<and> \<not> DownruptTimeValid State' \<and>
      IndexValue State' = 0 \<and> \<not> ExtraCode State' \<and> \<not> SubstituteInstruction State' \<and>
      \<not> PendFlag State' \<and> PendDelay State' = 0 \<and> \<not> TookBZF State' \<and> \<not> TookBZMF State' \<and>
      ExtraDelay State' = ExtraDelay State + 2 \<and>
      RestartLight State' = (if Standby State then RestartLight State else True) \<and>
      GeneratedWarning State' = (if Standby State then GeneratedWarning State else True)"
  unfolding Let_def
  by (simp add: GOJAM_def Let_def InputChannel_CpuWriteIO WrittenChannel_def
      Erasable_CpuWriteIO_zero CpuWriteIO_zero_frame) (auto simp: fun_eq_iff list_all_iff)

text \<open>The words \<open>TIME2\<close> and \<open>TIME1\<close> are the clock of the computer, in units of
  10 ms.\<close>

definition clock_value :: "yaagc \<Rightarrow> int" where
  "clock_value State = sp_val (creg State RegTIME2) * 16384 + sp_val (creg State RegTIME1)"

text \<open>each tick of the 10 ms phase adds one to the double precision clock in \<open>TIME2\<close>,
  \<open>TIME1\<close> as long as the clock runs forward, counts \<open>TIME3\<close>, and requests the
  interrupt T3RUPT exactly when \<open>TIME3\<close> overflows.\<close>

theorem clock_tick:
  assumes "uint (creg State RegTIME1) < 32768" "uint (creg State RegTIME2) < 32768"
    "uint (creg State RegTIME3) < 32768"
    and "0x1F AND InputChannel State ChanSCALER1 = 0x10"
    and "sp_val (creg State RegTIME2) < 16383"
  shows "let State' = UpdateTime1And3 State
    in clock_value State' = clock_value State + 1 \<and>
       sp_val (creg State' RegTIME3) =
         (if sp_val (creg State RegTIME3) = 16383 then 0 else sp_val (creg State RegTIME3) + 1) \<and>
       InterruptRequests State' = (if sp_val (creg State RegTIME3) = 16383
         then (InterruptRequests State)(3 := 1) else InterruptRequests State)"
  using assms(4,5) CounterPINC_value [OF assms(1)] CounterPINC_value [OF assms(2)]
    CounterPINC_value [OF assms(3)]
  by (simp add: UpdateTime1And3_def PINC_def DelayOne_def Let_def split_beta clock_value_def)

theorem clock_tick_witness:
  "let State = power_on\<lparr>Erasable := (\<lambda>_. 0)(21 := 0x3FFF), InputChannel := (\<lambda>_. 0)(4 := 0x10)\<rparr>
   in clock_value State = 16383 \<and> clock_value (UpdateTime1And3 State) = 16384"
proof -
  let ?S = "power_on\<lparr>Erasable := (\<lambda>_. 0)(21 := 0x3FFF), InputChannel := (\<lambda>_. 0)(4 := 0x10)\<rparr>"
  have "sp_val 0x3FFF = 16383" by (simp add: sp_val_def mask_bits)
  then have "clock_value ?S = 16383" by (simp add: clock_value_def sp_val_zero)
  then show ?thesis
    using clock_tick [of ?S] by (simp add: sp_val_zero Let_def)
qed

section \<open>Stolen cycles\<close>

text \<open>The number of cycles that the counters of one tick take, and the phase that decides
  which counters are counted; the phases exclude each other.\<close>

lemma stage_phase:
  "InputChannel (snd (SlowAlarms State)) 4 = InputChannel State 4"
  "InputChannel (snd (CheckRuptLock State)) 4 = InputChannel State 4"
  "InputChannel (snd (CheckTCTrap State)) 4 = InputChannel State 4"
  "InputChannel (UpdateTime1And3 State) = InputChannel State"
  "InputChannel (UpdateTime5 State) = InputChannel State"
  "InputChannel (UpdateTime4 State) = InputChannel State"
  by (simp_all add: SlowAlarms_def EnterOrLeaveStandby_def CheckNightWatchman_def
      UpdateWarningFilter_def CheckRuptLock_def CheckTCTrap_def UpdateTime1And3_def UpdateTime5_def
      UpdateTime4_def PINC_def DelayOne_def InputChannel_ChannelOutput Let_def split_beta)

lemma stage_ExtraDelay:
  "ExtraDelay (TickScaler State) = ExtraDelay State"
  "ExtraDelay (snd (SlowAlarms State)) = ExtraDelay State"
  "ExtraDelay (snd (CheckRuptLock State)) = ExtraDelay State"
  "ExtraDelay (snd (CheckTCTrap State)) = ExtraDelay State"
  "ExtraDelay (CheckTraps State) = ExtraDelay State"
  "ExtraDelay (CheckRadar State) = ExtraDelay State"
  by (simp_all add: TickScaler_def SlowAlarms_def EnterOrLeaveStandby_def CheckNightWatchman_def
      UpdateWarningFilter_def CheckRuptLock_def CheckTCTrap_def CheckTraps_def CheckRadar_def
      Let_def)

lemma counter_ExtraDelay:
  "ExtraDelay (UpdateTime1And3 State) = ExtraDelay State +
     (if 0x10 = 0x1F AND InputChannel State 4
      then if fst (CounterPINC (creg State RegTIME1)) \<noteq> 0 then 3 else 2 else 0)"
  "ExtraDelay (UpdateTime5 State) = ExtraDelay State +
     (if 0 = 0x1F AND InputChannel State 4 then 1 else 0)"
  "ExtraDelay (UpdateTime4 State) = ExtraDelay State +
     (if 8 = 0x1F AND InputChannel State 4 then 1 else 0)"
  "ExtraDelay (UpdateTime6 State) = ExtraDelay State +
     (if bit (InputChannel State 0xB) 14 \<and> InputChannel State 4 AND 1 = 1 then 1 else 0)"
proof -
  have d: "ExtraDelay (snd (snd (CounterDINC S n i))) = ExtraDelay S" for S n i
    by (simp add: CounterDINC_def Let_def)
  show "ExtraDelay (UpdateTime6 State) = ExtraDelay State +
     (if bit (InputChannel State 0xB) 14 \<and> InputChannel State 4 AND 1 = 1 then 1 else 0)"
    by (simp add: UpdateTime6_def DelayOne_def split_beta Let_def d)
qed (simp_all add: UpdateTime1And3_def UpdateTime5_def UpdateTime4_def PINC_def DelayOne_def
    Let_def split_beta)

text \<open>The scaler is a binary counter: a mask of low bits reads it modulo a power of two.\<close>

lemma mask_AND_mod:
  "v = mask n AND w \<longleftrightarrow> uint v = uint w mod 2 ^ n" for v w :: i16
proof -
  have "mask n AND w = take_bit n w"
    by (simp only: and.commute [of "mask n" w] take_bit_eq_mask)
  moreover have "uint (take_bit n w) = uint w mod 2 ^ n"
    by (simp only: unsigned_take_bit_eq) (simp add: take_bit_eq_mod)
  ultimately show ?thesis
    by (simp only: word_uint_eq_iff)
qed

lemma phase_mod:
  fixes w :: i16
  shows "v = 0x1F AND w \<longleftrightarrow> uint v = uint w mod 0x20"
    and "v = 0x1FF AND w \<longleftrightarrow> uint v = uint w mod 0x200"
    and "v = 0xFFF AND w \<longleftrightarrow> uint v = uint w mod 0x1000"
    and "w AND 1 = 1 \<longleftrightarrow> odd (uint w)"
proof -
  show "w AND 1 = 1 \<longleftrightarrow> odd (uint w)"
    by (simp only: and_one_eq word_uint_eq_iff uint_mod odd_iff_mod_2_eq_one) simp
qed (use mask_AND_mod [of v 5 w] mask_AND_mod [of v 9 w] mask_AND_mod [of v 12 w]
      in \<open>simp_all only: low_masks [symmetric], simp_all\<close>)

lemma TickScaler_phase:
  "uint (InputChannel (TickScaler State) 4) mod 0x1000 = (uint (InputChannel State 4) + 1) mod 0x1000"
proof -
  have "uint (w + 1) mod 0x1000 = (uint w + 1) mod 0x1000" for w :: i16
    by (simp add: uint_word_ariths mod_mod_cancel)
  moreover have "w + 1 = 0x4000 \<Longrightarrow> uint (w + 1) mod 0x1000 = 0" for w :: i16
    by simp
  ultimately show ?thesis
    by (simp add: TickScaler_def Let_def)
qed

text \<open>The cycles that the next tick steals, as the hardware counts them.  The phase of the
  scaler selects the timers that are counted, each for one cycle: \<open>TIME1\<close> and \<open>TIME3\<close>
  together, with \<open>TIME2\<close> when \<open>TIME1\<close> overflows, then \<open>TIME4\<close>, \<open>TIME5\<close>,
  and \<open>TIME6\<close> in every other phase when it is enabled.  No timer counts in standby.  An
  alarm that is not inhibited costs two cycles for the restart.\<close>

definition cycles_taken :: "yaagc \<Rightarrow> nat" where
  "cycles_taken State =
     (let phase = (uint (InputChannel State 4) + 1) mod 0x1000;
          pressed = (phase = 0x800 \<and> SbyPressed State \<and>
            (bit (InputChannel State 0xB) 10 \<or> Standby State));
          standby = (if pressed then \<not> Standby State \<or> SbyStillPressed State else Standby State);
          alarm = (ParityFail State \<or>
            pressed \<and> \<not> Standby State \<or>
            phase = 0 \<and> \<not> Standby State \<and> NightWatchman State \<or>
            \<not> standby \<and> (phase mod 0x200 = 0xC0 \<and> (RuptLock State \<or> NoRupt State) \<or>
                         phase mod 0x20 = 0 \<and> (TCTrap State \<or> NoTC State)));
          timers =
            (if standby then 0
             else if phase mod 0x20 = 0x10 then (if creg State RegTIME1 = 0x3FFF then 3 else 2)
             else if phase mod 0x20 \<in> {0, 8} then 1
             else if odd phase \<and> bit (InputChannel State 0xB) 14 then 1 else 0)
      in timers + (if alarm \<and> \<not> InhibitAlarms State then 2 else 0))"

lemma cycles_taken_le: "cycles_taken State \<le> 5"
  by (simp add: cycles_taken_def Let_def)

lemma SlowAlarms_standby:
  "Standby (snd (SlowAlarms State)) =
     (if uint (InputChannel State 4) mod 0x1000 = 0x800 \<and> SbyPressed State \<and>
         (bit (InputChannel State 0xB) 10 \<or> Standby State)
      then \<not> Standby State \<or> SbyStillPressed State else Standby State)"
  "fst (SlowAlarms State) \<longleftrightarrow> \<not> Standby State \<and>
     (uint (InputChannel State 4) mod 0x1000 = 0x800 \<and> SbyPressed State \<and>
        bit (InputChannel State 0xB) 10 \<or>
      uint (InputChannel State 4) mod 0x1000 = 0 \<and> NightWatchman State)"
  by (auto simp: SlowAlarms_def EnterOrLeaveStandby_def CheckNightWatchman_def
      UpdateWarningFilter_def phase_mod Let_def)

lemma alarm_fields:
  "InputChannel (snd (SlowAlarms State)) 0xB = InputChannel State 0xB"
  "RuptLock (snd (SlowAlarms State)) = RuptLock State" "NoRupt (snd (SlowAlarms State)) = NoRupt State"
  "TCTrap (snd (SlowAlarms State)) = TCTrap State" "NoTC (snd (SlowAlarms State)) = NoTC State"
  "ParityFail (snd (SlowAlarms State)) = ParityFail State"
  "InhibitAlarms (snd (SlowAlarms State)) = InhibitAlarms State"
  by (simp_all add: SlowAlarms_def EnterOrLeaveStandby_def CheckNightWatchman_def
      UpdateWarningFilter_def InputChannel_ChannelOutput Let_def)

lemma alarm_TIME1:
  "creg (snd (SlowAlarms State)) RegTIME1 = creg State RegTIME1"
  by (simp add: SlowAlarms_def EnterOrLeaveStandby_def CheckNightWatchman_def
      UpdateWarningFilter_def Erasable_ChannelOutput Let_def)

lemma alarm_checks:
  "fst (CheckRuptLock State) \<longleftrightarrow> uint (InputChannel State 4) mod 0x200 = 0xC0 \<and>
     (RuptLock State \<or> NoRupt State)"
  "fst (CheckTCTrap State) \<longleftrightarrow> uint (InputChannel State 4) mod 0x20 = 0 \<and> (TCTrap State \<or> NoTC State)"
  "TCTrap (snd (CheckRuptLock State)) = TCTrap State" "NoTC (snd (CheckRuptLock State)) = NoTC State"
  "InputChannel (snd (CheckRuptLock State)) 0xB = InputChannel State 0xB"
  "InputChannel (snd (CheckTCTrap State)) 0xB = InputChannel State 0xB"
  "Erasable (snd (CheckRuptLock State)) = Erasable State"
  "Erasable (snd (CheckTCTrap State)) = Erasable State"
  by (auto simp: CheckRuptLock_def CheckTCTrap_def phase_mod)

lemma counter_fields:
  "ParityFail (snd (CheckRuptLock State)) = ParityFail State"
  "ParityFail (snd (CheckTCTrap State)) = ParityFail State"
  "ParityFail (UpdateTime1And3 State) = ParityFail State"
  "ParityFail (UpdateTime5 State) = ParityFail State"
  "ParityFail (UpdateTime4 State) = ParityFail State"
  "ParityFail (UpdateTime6 State) = ParityFail State"
  "ParityFail (CheckTraps State) = ParityFail State"
  "ParityFail (CheckRadar State) = ParityFail State"
  "InhibitAlarms (snd (CheckRuptLock State)) = InhibitAlarms State"
  "InhibitAlarms (snd (CheckTCTrap State)) = InhibitAlarms State"
  "InhibitAlarms (UpdateTime1And3 State) = InhibitAlarms State"
  "InhibitAlarms (UpdateTime5 State) = InhibitAlarms State"
  "InhibitAlarms (UpdateTime4 State) = InhibitAlarms State"
  "InhibitAlarms (UpdateTime6 State) = InhibitAlarms State"
  "InhibitAlarms (CheckTraps State) = InhibitAlarms State"
  "InhibitAlarms (CheckRadar State) = InhibitAlarms State"
  by (simp_all add: CheckRuptLock_def CheckTCTrap_def UpdateTime1And3_def UpdateTime5_def
      UpdateTime4_def UpdateTime6_def CounterDINC_def PINC_def DelayOne_def CheckTraps_def
      CheckRadar_def Let_def split_beta)

text \<open>The counters of one tick.\<close>

lemma timers_ExtraDelay:
  defines "timers \<equiv> \<lambda>State. UpdateTime6 (UpdateTime4 (UpdateTime5 (UpdateTime1And3
    (snd (CheckTCTrap (snd (CheckRuptLock State)))))))"
  shows "ExtraDelay (timers State) = ExtraDelay State +
    (let phase = uint (InputChannel State 4)
     in if phase mod 0x20 = 0x10 then (if creg State RegTIME1 = 0x3FFF then 3 else 2)
        else if phase mod 0x20 \<in> {0, 8} then 1
        else if odd phase \<and> bit (InputChannel State 0xB) 14 then 1 else 0)"
proof -
  have "fst (CounterPINC w) \<noteq> 0 \<longleftrightarrow> w = 0x3FFF" for w
    by (simp add: CounterPINC_def Let_def)
  moreover have "odd p \<Longrightarrow> p mod 0x20 \<noteq> 0x10 \<and> p mod 0x20 \<noteq> 8 \<and> p mod 0x20 \<noteq> 0" for p :: int
    by presburger
  ultimately show ?thesis
    by (auto simp: timers_def counter_ExtraDelay stage_phase stage_ExtraDelay alarm_checks phase_mod
        Let_def)
qed

lemma HandleAlarms_ExtraDelay:
  "ExtraDelay (HandleAlarms a State) =
     ExtraDelay State + (if (a \<or> ParityFail State) \<and> \<not> InhibitAlarms State then 2 else 0)"
  by (simp add: HandleAlarms_def GOJAM_def Let_def)

lemma tick_fields:
  "InputChannel (TickScaler State) 0xB = InputChannel State 0xB"
  "Erasable (TickScaler State) = Erasable State"
  "Standby (TickScaler State) = Standby State" "SbyPressed (TickScaler State) = SbyPressed State"
  "SbyStillPressed (TickScaler State) = SbyStillPressed State"
  "NightWatchman (TickScaler State) = NightWatchman State"
  "RuptLock (TickScaler State) = RuptLock State" "NoRupt (TickScaler State) = NoRupt State"
  "TCTrap (TickScaler State) = TCTrap State" "NoTC (TickScaler State) = NoTC State"
  "ParityFail (TickScaler State) = ParityFail State"
  "InhibitAlarms (TickScaler State) = InhibitAlarms State"
  by (simp_all add: TickScaler_def Let_def)

text \<open>The 3-bit field counts the cycles of the tick without wrapping.\<close>

lemma ScalerBody_cycles:
  assumes "ExtraDelay State = 0"
  shows "unat (ExtraDelay (ScalerBody State)) = cycles_taken State"
proof -
  define S1 where "S1 = snd (SlowAlarms (TickScaler State))"
  define S2 where "S2 = UpdateTime6 (UpdateTime4 (UpdateTime5 (UpdateTime1And3
    (snd (CheckTCTrap (snd (CheckRuptLock S1)))))))"
  define a where "a = fst (SlowAlarms (TickScaler State))"
  define b where "b = (a \<or> fst (CheckRuptLock S1) \<or> fst (CheckTCTrap (snd (CheckRuptLock S1))))"
  define p where "p = (uint (InputChannel State 4) + 1) mod 0x1000"
  define q where "q = uint (InputChannel S1 4)"
  have q: "q = uint (InputChannel (TickScaler State) 4)"
    by (simp add: q_def S1_def stage_phase)
  have p: "q mod 0x1000 = p"
    by (simp only: q TickScaler_phase p_def)
  then have m: "q mod 0x20 = p mod 0x20" "q mod 0x200 = p mod 0x200" "odd q = odd p"
    by (simp_all add: mod_mod_cancel flip: p) presburger
  have body: "ScalerBody State =
      (if Standby S1 then HandleAlarms a S1 else HandleAlarms b (CheckRadar (CheckTraps S2)))"
    by (simp add: ScalerBody_def Let_def split_beta S1_def S2_def a_def b_def)
  define pressed where "pressed = (p = 0x800 \<and> SbyPressed State \<and>
    (bit (InputChannel State 0xB) 10 \<or> Standby State))"
  define timers :: nat where "timers =
    (if p mod 0x20 = 0x10 then (if creg State RegTIME1 = 0x3FFF then 3 else 2)
     else if p mod 0x20 \<in> {0, 8} then 1
     else if odd p \<and> bit (InputChannel State 0xB) 14 then 1 else 0)"
  have standby: "Standby S1 = (if pressed then \<not> Standby State \<or> SbyStillPressed State else Standby State)"
    by (simp only: S1_def SlowAlarms_standby q [symmetric] p tick_fields pressed_def)
  have a: "a \<longleftrightarrow> pressed \<and> \<not> Standby State \<or> p = 0 \<and> \<not> Standby State \<and> NightWatchman State"
    unfolding a_def SlowAlarms_standby q [symmetric] p tick_fields pressed_def by blast
  have b: "b \<longleftrightarrow> a \<or> (p mod 0x200 = 0xC0 \<and> (RuptLock State \<or> NoRupt State) \<or>
      p mod 0x20 = 0 \<and> (TCTrap State \<or> NoTC State))"
    unfolding b_def alarm_checks stage_phase q_def [symmetric] m
    by (simp add: S1_def alarm_fields tick_fields)
  have spec: "cycles_taken State = (if Standby S1 then 0 else timers) +
      (if (ParityFail State \<or> (if Standby S1 then a else b)) \<and> \<not> InhibitAlarms State then 2 else 0)"
    unfolding cycles_taken_def Let_def p_def [symmetric] pressed_def [symmetric] standby [symmetric]
      timers_def [symmetric] a b by simp
  have S1: "ExtraDelay S1 = 0" "ParityFail S1 = ParityFail State"
    "InhibitAlarms S1 = InhibitAlarms State"
    using assms by (simp_all add: S1_def stage_ExtraDelay alarm_fields tick_fields)
  have "ExtraDelay S2 = (if p mod 0x20 = 0x10 then (if creg State RegTIME1 = 0x3FFF then 3 else 2)
        else if p mod 0x20 \<in> {0, 8} then 1
        else if odd p \<and> bit (InputChannel State 0xB) 14 then 1 else 0)"
    unfolding S2_def timers_ExtraDelay Let_def q_def [symmetric] m S1
    by (simp add: S1_def alarm_fields alarm_TIME1 tick_fields)
  then have "ExtraDelay S2 = of_nat timers" by (simp add: timers_def)
  then have S: "ExtraDelay (CheckRadar (CheckTraps S2)) = of_nat timers"
    "ParityFail (CheckRadar (CheckTraps S2)) = ParityFail State"
    "InhibitAlarms (CheckRadar (CheckTraps S2)) = InhibitAlarms State"
    by (simp_all add: stage_ExtraDelay S2_def counter_fields S1)
  have "timers \<in> {0, 1, 2, 3}" by (simp add: timers_def)
  then have small: "unat (of_nat timers :: 3 word) = timers" "unat (of_nat timers + 2 :: 3 word) = timers + 2"
    by auto
  show ?thesis
    unfolding spec body
    by (cases "Standby S1") (simp_all add: HandleAlarms_ExtraDelay S S1 small disj_commute)
qed

text \<open>C38: a run of the scaler loop is a run of ticks.  It goes on as long as a tick is due and
  steals no cycle, and stops after the first tick that steals cycles, so that the engine gives
  them up one by one: the stolen cycles of that tick, at most five, are counted exactly, the first
  one is given up at once and the others are pending in the 3-bit field \<open>ExtraDelay\<close>, while
  ticks still due wait in the scaler counter.  Without a stolen cycle all due ticks are done.\<close>

theorem ScalerLoop_stolen_cycles:
  assumes "ExtraDelay State = 0"
  shows "let (stop, State') = ScalerLoop State; tick = (\<lambda>k. (ScalerBody ^^ k) State)
    in \<exists>n. (\<forall>k < n. 80 \<le> sint (ScalerCounter (tick k)) \<and> cycles_taken (tick k) = 0) \<and>
      (if stop then
         80 \<le> sint (ScalerCounter (tick n)) \<and> 0 < cycles_taken (tick n) \<and>
         cycles_taken (tick n) \<le> 5 \<and> unat (ExtraDelay State') = cycles_taken (tick n) - 1 \<and>
         State' = (tick (Suc n))\<lparr>ExtraDelay := ExtraDelay State'\<rparr>
       else sint (ScalerCounter (tick n)) < 80 \<and> State' = tick n)"
proof -
  define run where "run State n = (let (stop, State') = ScalerLoop State; tick = (\<lambda>k. (ScalerBody ^^ k) State)
    in (\<forall>k < n. 80 \<le> sint (ScalerCounter (tick k)) \<and> cycles_taken (tick k) = 0) \<and>
      (if stop then
         80 \<le> sint (ScalerCounter (tick n)) \<and> 0 < cycles_taken (tick n) \<and>
         cycles_taken (tick n) \<le> 5 \<and> unat (ExtraDelay State') = cycles_taken (tick n) - 1 \<and>
         State' = (tick (Suc n))\<lparr>ExtraDelay := ExtraDelay State'\<rparr>
       else sint (ScalerCounter (tick n)) < 80 \<and> State' = tick n))" for State n
  have "\<exists>n. run State n"
    using assms
  proof (induction State rule: ScalerLoop.induct)
    case (1 State)
    have u: "unat (ExtraDelay (ScalerBody State)) = cycles_taken State"
      using 1(2) by (rule ScalerBody_cycles)
    consider "\<not> 80 \<le>s ScalerCounter State"
      | "80 \<le>s ScalerCounter State" "ExtraDelay (ScalerBody State) \<noteq> 0"
      | "80 \<le>s ScalerCounter State" "ExtraDelay (ScalerBody State) = 0" by blast
    then show ?case
    proof cases
      case 1
      then have "run State 0"
        by (subst run_def, subst ScalerLoop.simps) (simp add: word_sle_eq)
      then show ?thesis ..
    next
      case 2
      then have "0 < cycles_taken State"
        unfolding u [symmetric] by (simp add: unat_gt_0)
      moreover have "unat (ExtraDelay (ScalerBody State) - 1) = cycles_taken State - 1"
        using 2 u by (subst unat_minus_one) auto
      ultimately have "run State 0"
        using 2 by (subst run_def, subst ScalerLoop.simps)
          (simp add: word_sle_eq Let_def cycles_taken_le)
      then show ?thesis ..
    next
      case 3
      then obtain n where n: "run (ScalerBody State) n"
        using 1(1) by auto
      have loop: "ScalerLoop State = ScalerLoop (ScalerBody State)"
        using 3 by (subst ScalerLoop.simps) simp
      have c: "cycles_taken State = 0"
        using u 3(2) by simp
      have "run State (Suc n)"
        using n 3(1) c unfolding run_def loop
        by (auto simp: Let_def word_sle_eq funpow_Suc_right All_less_Suc2
            simp del: funpow.simps(2) split: prod.splits)
      then show ?thesis ..
    qed
  qed
  then show ?thesis
    by (simp only: run_def Let_def split_beta)
qed

theorem ScalerLoop_stolen_cycles_witness:
  "let State = power_on\<lparr>ScalerCounter := 80, InputChannel := (\<lambda>_. 0)(4 := 15)\<rparr>
   in fst (ScalerLoop State) \<and> unat (ExtraDelay (snd (ScalerLoop State))) = 1 \<and>
      snd (ScalerLoop State) = (ScalerBody State)\<lparr>ExtraDelay := 1\<rparr>"
proof -
  define S where "S = power_on\<lparr>ScalerCounter := 80, InputChannel := (\<lambda>_. 0)(4 := 15)\<rparr>"
  define L where "L = ScalerLoop S"
  have c: "cycles_taken S = 2"
    by (simp add: S_def cycles_taken_def Let_def power_on_def)
  have e: "ExtraDelay S = 0" by (simp add: S_def power_on_def)
  obtain n where n: "\<forall>k < n. 80 \<le> sint (ScalerCounter ((ScalerBody ^^ k) S)) \<and>
      cycles_taken ((ScalerBody ^^ k) S) = 0"
    "if fst L then 80 \<le> sint (ScalerCounter ((ScalerBody ^^ n) S)) \<and>
         0 < cycles_taken ((ScalerBody ^^ n) S) \<and> cycles_taken ((ScalerBody ^^ n) S) \<le> 5 \<and>
         unat (ExtraDelay (snd L)) = cycles_taken ((ScalerBody ^^ n) S) - 1 \<and>
         snd L = ((ScalerBody ^^ Suc n) S)\<lparr>ExtraDelay := ExtraDelay (snd L)\<rparr>
     else sint (ScalerCounter ((ScalerBody ^^ n) S)) < 80 \<and> snd L = (ScalerBody ^^ n) S"
    using ScalerLoop_stolen_cycles [OF e] by (auto simp only: Let_def split_beta L_def)
  have "n = 0" using n(1) c by (cases n) force+
  then have stop: "fst L" "unat (ExtraDelay (snd L)) = 1"
    "snd L = (ScalerBody S)\<lparr>ExtraDelay := ExtraDelay (snd L)\<rparr>"
    using n(2) c by (simp_all add: S_def split: if_splits)
  then have "ExtraDelay (snd L) = 1"
    by (metis unsigned_1 unsigned_word_eqI)
  then show ?thesis
    using stop by (simp add: Let_def L_def S_def)
qed

end
