(* ===== verification/AGC_Peripherals.thy ===== *)
theory AGC_Peripherals
  imports AGC_IO
begin

text \<open>
  The hardware around the processor that \<open>src/yaAGC/agc_engine.c\<close> simulates between
  instructions: the hardware-driven lamps of the DSKY (\<open>UpdateDSKY\<close>), the pulse drives of
  the gyros, of the platform's coarse alignment (\<open>BurstOutput\<close>) and of the optics.  The
  gyro drive is the burst version, the one compiled without \<open>GYRO_TIMING_SIMULATED\<close>.
\<close>

unbundle bit_operations_syntax

section \<open>Coarse alignment\<close>

text \<open>The saved counts are the function's static variables; a burst has at most
  \<open>192 / COARSE_SMOOTH = 24\<close> pulses.\<close>

definition SavedCount :: "nat \<Rightarrow> yaagc \<Rightarrow> cint" where
  "SavedCount CounterRegister State =
     (if CounterRegister = RegCDUXCMD then CountCDUX State
      else if CounterRegister = RegCDUYCMD then CountCDUY State
      else CountCDUZ State)"

definition SaveCount :: "nat \<Rightarrow> cint \<Rightarrow> yaagc \<Rightarrow> yaagc" where
  "SaveCount CounterRegister Value State =
     (if CounterRegister = RegCDUXCMD then State\<lparr>CountCDUX := Value\<rparr>
      else if CounterRegister = RegCDUYCMD then State\<lparr>CountCDUY := Value\<rparr>
      else State\<lparr>CountCDUZ := Value\<rparr>)"

definition BurstOutput :: "cint \<Rightarrow> nat \<Rightarrow> nat \<Rightarrow> yaagc \<Rightarrow> cint \<times> yaagc" where
  "BurstOutput DriveBitMask CounterRegister Channel State =
     (if CounterRegister \<notin> {RegCDUXCMD, RegCDUYCMD, RegCDUZCMD} then (0, State)
      else
        let DriveCountSaved = SavedCount CounterRegister State;
            DriveBit = int_of_i16 (InputChannel State 12) AND DriveBitMask;
            (DriveCount, State) =
              (if DriveBit \<noteq> 0
               then (int_of_i16 (creg State CounterRegister), set_creg CounterRegister 0 State)
               else (0, State));
            DriveCountSaved =
              (if 0x4000 AND DriveCount \<noteq> 0 then DriveCountSaved - (DriveCount XOR 0x7FFF)
               else DriveCountSaved + DriveCount);
            (DriveCountSaved, Direction) =
              (if DriveCountSaved <s 0 then (- DriveCountSaved, 0x4000) else (DriveCountSaved, 0));
            Delta = (if 24 \<le>s DriveCountSaved then 24 else DriveCountSaved);
            (DriveCountSaved, State) =
              (if 0 <s Delta
               then (DriveCountSaved - Delta, ChannelOutput Channel (Direction OR Delta) State)
               else (DriveCountSaved, State));
            DriveCountSaved = (if Direction \<noteq> 0 then - DriveCountSaved else DriveCountSaved)
        in (DriveCountSaved, SaveCount CounterRegister DriveCountSaved State))"

abbreviation (input) IMUCDU_BURST_CYCLES :: u64 where "IMUCDU_BURST_CYCLES \<equiv> 6400"

definition DriveImu :: "yaagc \<Rightarrow> yaagc" where
  "DriveImu State =
     (let i = int_of_i16 (InputChannel State 12) AND 0x7000;
          State = (if ImuChannel14 State = 0 \<and> i \<noteq> 0
                   then State\<lparr>ImuCduCount := CycleCounter State - IMUCDU_BURST_CYCLES\<rparr>
                   else State)
      in if i \<noteq> 0 \<and> IMUCDU_BURST_CYCLES \<le> CycleCounter State - ImuCduCount State then
           let State = State\<lparr>ImuCduCount := ImuCduCount State + IMUCDU_BURST_CYCLES\<rparr>;
               (x, State) = BurstOutput 0x4000 RegCDUXCMD 0x7C State;
               (y, State) = BurstOutput 0x2000 RegCDUYCMD 0x7D State;
               (z, State) = BurstOutput 0x1000 RegCDUZCMD 0x7E State
           in State\<lparr>ImuChannel14 := x OR y OR z\<rparr>
         else State)"

section \<open>Gyros\<close>

abbreviation (input) GYRO_OVERFLOW :: u32 where "GYRO_OVERFLOW \<equiv> 160"
abbreviation (input) GYRO_DIVIDER :: u32 where "GYRO_DIVIDER \<equiv> 6"
abbreviation (input) GYRO_BURST :: u32 where "GYRO_BURST \<equiv> 800"
abbreviation (input) GYRO_BURST2 :: u32 where "GYRO_BURST2 \<equiv> 1024"

text \<open>The pulses of a pending count, sent out at once; \<open>j\<close> is the signed copy of the
  count.\<close>

definition GyroChunk :: "u32 \<Rightarrow> u32 \<Rightarrow> u32" where
  "GyroChunk Limit Count = (if Limit <s Count then Limit else Count)"

function FlushGyro :: "yaagc \<Rightarrow> yaagc" where
  "FlushGyro State =
     (if GyroCount State = 0 then State
      else
        let j = GyroChunk 0x7FF (GyroCount State);
            State = ChannelOutput 0x7F (OldChannel14 State OR j) State
        in FlushGyro (State\<lparr>GyroCount := GyroCount State - j\<rparr>))"
  by pat_completeness auto

lemma GyroChunk_less:
  assumes "c \<noteq> 0" "0 < sint l"
  shows "unat (c - GyroChunk l c) < unat c"
proof -
  have "GyroChunk l c \<noteq> 0"
    using assms by (auto simp: GyroChunk_def)
  moreover have "GyroChunk l c \<le> c"
    using assms by (auto simp: GyroChunk_def word_sless_alt word_le_def uint_of_nonneg)
  ultimately show ?thesis
    using assms by (simp add: unat_sub) (metis diff_less unat_gt_0 word_gt_0)
qed

termination FlushGyro
  by (relation "measure (\<lambda>State. unat (GyroCount State))") (auto simp: GyroChunk_less)

declare FlushGyro.simps [simp del]

function BurstGyro :: "yaagc \<Rightarrow> yaagc" where
  "BurstGyro State =
     (if GYRO_BURST * GYRO_OVERFLOW \<le> GyroTimer State then
        let State = State\<lparr>GyroTimer := GyroTimer State - GYRO_BURST * GYRO_OVERFLOW\<rparr>
        in BurstGyro
             (if GyroCount State \<noteq> 0 then
                let j = GyroChunk GYRO_BURST2 (GyroCount State);
                    State = ChannelOutput 0x7F (OldChannel14 State OR j) State
                in State\<lparr>GyroCount := GyroCount State - j\<rparr>
              else State)
      else State)"
  by pat_completeness auto

lemma timer_less:
  assumes "n \<le> (t :: u32)" "n \<noteq> 0"
  shows "unat (t - n) < unat t"
  using assms by (simp add: unat_sub) (metis diff_less order.strict_trans2 unat_gt_0 word_gt_0
      word_le_nat_alt)

termination BurstGyro
  by (relation "measure (\<lambda>State. unat (GyroTimer State))") (auto simp: timer_less Let_def)

declare BurstGyro.simps [simp del]

definition DriveGyro :: "yaagc \<Rightarrow> yaagc" where
  "DriveGyro State =
     (let State =
        (if InputChannel State 12 AND 0x200 \<noteq> 0 \<and> creg State RegGYROCTR \<noteq> 0 then
           let State = FlushGyro State;
               State = State\<lparr>GyroCount := int_of_i16 (creg State RegGYROCTR)\<rparr>;
               State = set_creg RegGYROCTR 0 State
           in State\<lparr>OldChannel14 := shl 6 (int_of_i16 (InputChannel State 12) AND 0x1E0),
                GyroTimer := GYRO_OVERFLOW * GYRO_BURST - GYRO_DIVIDER\<rparr>
         else State)
      in BurstGyro (State\<lparr>GyroTimer := GyroTimer State + GYRO_DIVIDER\<rparr>))"

section \<open>Optics\<close>

definition DriveOptics :: "yaagc \<Rightarrow> yaagc" where
  "DriveOptics State =
     (let State =
        (if creg State RegOPTX \<noteq> 0 \<and> InputChannel State 12 AND 0x400 \<noteq> 0 then
           set_creg RegOPTX 0 (ChannelOutput 0x7A (int_of_i16 (creg State RegOPTX)) State)
         else State)
      in if creg State RegOPTY \<noteq> 0 \<and> InputChannel State 12 AND 0x800 \<noteq> 0 then
           set_creg RegOPTY 0 (ChannelOutput 0x79 (int_of_i16 (creg State RegOPTY)) State)
         else State)"

section \<open>Lamps\<close>

text \<open>The loop over the flash timer: the timer keeps the remainder, the counter cycles.\<close>

function FlashLoop :: "u32 \<Rightarrow> u32 \<Rightarrow> u32 \<times> u32" where
  "FlashLoop Timer Flash =
     (if DSKY_OVERFLOW \<le> Timer
      then FlashLoop (Timer - DSKY_OVERFLOW) ((Flash + 1) mod DSKY_FLASH_PERIOD)
      else (Timer, Flash))"
  by pat_completeness auto

termination FlashLoop
  by (relation "measure (\<lambda>(Timer, Flash). unat Timer)") (auto simp: timer_less)

declare FlashLoop.simps [simp del]

text \<open>The steady part of the lamps.\<close>

definition LampBits :: "yaagc \<Rightarrow> u32 \<Rightarrow> u32" where
  "LampBits State D =
     (let D = D AND NOT (DSKY_KEY_REL OR DSKY_VN_FLASH OR DSKY_OPER_ERR OR DSKY_RESTART
            OR DSKY_STBY OR DSKY_AGC_WARN OR DSKY_TEMP);
          D = (if InputChannel State 0xB AND 0x200 \<noteq> 0 then D OR (DSKY_RESTART OR DSKY_STBY) else D);
          D = (if Standby State then D OR DSKY_STBY else D);
          D = (if RestartLight State then D OR DSKY_RESTART else D);
          D = (if InputChannel State 0x9 AND 0x8 \<noteq> 0 \<or> InputChannel State 0x18 AND 0x4000 \<noteq> 0
               then D OR DSKY_TEMP else D);
          D = (if int_of_i16 (InputChannel State 0x9) AND DSKY_KEY_REL \<noteq> 0
               then D OR DSKY_KEY_REL else D)
      in if int_of_i16 (InputChannel State 0x9) AND DSKY_OPER_ERR \<noteq> 0
         then D OR DSKY_OPER_ERR else D)"

definition FlashLamps :: "yaagc \<Rightarrow> u32 \<Rightarrow> u32" where
  "FlashLamps State D =
     (if \<not> Standby State \<and> DskyFlash State = 0 then
        let D = (if int_of_i16 (InputChannel State 0x9) AND DSKY_VN_FLASH \<noteq> 0
                 then D OR DSKY_VN_FLASH else D)
        in D AND NOT DSKY_KEY_REL AND NOT DSKY_OPER_ERR
      else D)"

definition UpdateDSKY :: "yaagc \<Rightarrow> yaagc" where
  "UpdateDSKY State =
     (let LastChannel163 = DskyChannel163 State;
          State = State\<lparr>DskyChannel163 := LampBits State (DskyChannel163 State)\<rparr>;
          State =
            (if WARNING_FILTER_THRESHOLD < WarningFilter State then
               set_chan 0x1B (InputChannel State 0x1B AND 0x5FFF)
                 (State\<lparr>DskyChannel163 := DskyChannel163 State OR DSKY_AGC_WARN\<rparr>)
             else State);
          (Timer, Flash) = FlashLoop (DskyTimer State) (DskyFlash State);
          State = State\<lparr>DskyTimer := Timer, DskyFlash := Flash\<rparr>;
          State = State\<lparr>DskyChannel163 := FlashLamps State (DskyChannel163 State)\<rparr>
      in if DskyChannel163 State \<noteq> LastChannel163
         then ChannelOutput 0x73 (DskyChannel163 State) State
         else State)"

section \<open>Properties\<close>

text \<open>A train of at most 2047 pulses in one packet: magnitude, and bit 14 for the negative
  direction.\<close>

definition encode_pulses :: "int \<Rightarrow> cint" where
  "encode_pulses d = (if d < 0 then 0x4000 OR word_of_int (- d) else word_of_int d)"

lemma SavedCount_SaveCount [simp]:
  "r \<in> {40, 41, 42} \<Longrightarrow> SavedCount r (SaveCount r v State) = v"
  by (auto simp: SavedCount_def SaveCount_def)

lemma SavedCount_frame [simp]:
  "SavedCount r (ChannelOutput n v State) = SavedCount r State"
  "SavedCount r (set_creg k w State) = SavedCount r State"
  by (simp_all add: SavedCount_def)

text \<open>The commanded count, read as a C integer.\<close>

lemma sint_count:
  assumes "uint (w :: i16) < 32768"
  shows "(if 0x4000 AND int_of_i16 w \<noteq> 0 then - sint (int_of_i16 w XOR 0x7FFF) else sint (int_of_i16 w))
      = sp_val w"
    and "\<bar>sint (int_of_i16 w XOR 0x7FFF)\<bar> \<le> 32767" and "\<bar>sint (int_of_i16 w)\<bar> \<le> 32767"
proof -
  have u: "uint (int_of_i16 w) = uint w"
    using assms uint_of_nonneg [of "int_of_i16 w"] sint_up_scast [of w, where 'b = 32]
    by (simp add: is_up sint_i16_small)
  have b: "\<not> bit w 15" using bit_top_iff [of w 15] assms by simp
  have "int_of_i16 w XOR 0x7FFF = 0x7FFF AND NOT (int_of_i16 w)"
    using b by (intro cint_eqI) (auto simp: bit_xor_iff bit_and_iff bit_not_iff mask_bits lt_steps(3))
  then have x: "uint (int_of_i16 w XOR 0x7FFF) = 32767 - uint w"
    using assms by (simp add: u)
  have s: "sint (int_of_i16 w XOR 0x7FFF) = 32767 - uint w" "sint (int_of_i16 w) = uint w"
    by (subst sint_small; use assms x u uint_ge_0 [of w] in linarith)+
  show "\<bar>sint (int_of_i16 w XOR 0x7FFF)\<bar> \<le> 32767" "\<bar>sint (int_of_i16 w)\<bar> \<le> 32767"
    unfolding s using assms uint_ge_0 [of w] by linarith+
  have "bit w 14 \<longleftrightarrow> 16384 \<le> uint w"
    using bit_top_iff [of w 14] assms by simp
  then show "(if 0x4000 AND int_of_i16 w \<noteq> 0 then - sint (int_of_i16 w XOR 0x7FFF)
      else sint (int_of_i16 w)) = sp_val w"
    using assms s by (simp add: sp_val_eq)
qed

lemma if_pair: "(if b then (x, y) else (x', y')) = (if b then x else x', if b then y else y')"
  by simp

text \<open>The count after a burst, by its value.\<close>

lemma burst_count:
  fixes c :: cint
  assumes "\<bar>sint c\<bar> < 1073741824"
  defines "m \<equiv> if c <s 0 then - c else c"
  defines "D \<equiv> if 24 \<le>s m then 24 else m"
  defines "d \<equiv> max (- 24) (min 24 (sint c))"
  shows "0 <s D \<longleftrightarrow> d \<noteq> 0"
    and "d \<noteq> 0 \<Longrightarrow> (if c <s 0 then 0x4000 else 0) OR D = encode_pulses d"
    and "sint (if c <s 0 then - (m - D) else m - D) = sint c - d"
    and "\<not> 0 <s D \<Longrightarrow> sint (if c <s 0 then - m else m) = sint c - d"
proof -
  have m: "sint m = \<bar>sint c\<bar>"
    using assms(1) sint_uminus [of c] by (auto simp: m_def sless_0_iff)
  have D: "sint D = \<bar>d\<bar>"
    using m by (auto simp: D_def d_def word_sle_eq)
  have Dw: "D = word_of_int \<bar>d\<bar>"
    by (simp flip: D)
  show "0 <s D \<longleftrightarrow> d \<noteq> 0"
    using D by (auto simp: word_sless_alt)
  show "(if c <s 0 then 0x4000 else 0) OR D = encode_pulses d" if "d \<noteq> 0"
    using that Dw by (auto simp: encode_pulses_def sless_0_iff d_def split: if_splits)
  have mD: "sint (m - D) = \<bar>sint c\<bar> - \<bar>d\<bar>"
    using m D assms(1) by (subst sint_minus_small) (auto simp: d_def)
  show "sint (if c <s 0 then - (m - D) else m - D) = sint c - d"
    using mD assms(1) sint_uminus [of "m - D"] by (auto simp: sless_0_iff d_def)
  show "\<not> 0 <s D \<Longrightarrow> sint (if c <s 0 then - m else m) = sint c - d"
    using m D sint_uminus [of m] assms(1) by (auto simp: word_sless_alt d_def)
qed

text \<open>A burst for one axis of the platform conserves the commanded pulses: the new command
  (if the axis is driven) is added to the saved count, at most 24 pulses of the sum leave as one
  packet with their direction, the rest stays saved, and the command register is cleared.\<close>

theorem BurstOutput_conserves:
  assumes r: "r \<in> {RegCDUXCMD, RegCDUYCMD, RegCDUZCMD}" and w: "uint (creg State r) < 32768"
    and saved: "\<bar>sint (SavedCount r State)\<bar> < 1000000000"
  shows "let driven = int_of_i16 (InputChannel State 12) AND bits \<noteq> 0;
      total = sint (SavedCount r State) + (if driven then sp_val (creg State r) else 0);
      sent = max (- 24) (min 24 total);
      (left, State') = BurstOutput bits r n State;
      S = (if driven then set_creg r 0 State else State)
    in sint left = total - sent \<and>
       State' = SaveCount r left (if sent = 0 then S else ChannelOutput n (encode_pulses sent) S)"
proof -
  define driven where "driven = (int_of_i16 (InputChannel State 12) AND bits \<noteq> 0)"
  define S where "S = (if driven then set_creg r 0 State else State)"
  define k where "k = (if driven then int_of_i16 (creg State r) else 0)"
  define c where "c = (if 0x4000 AND k \<noteq> 0 then SavedCount r State - (k XOR 0x7FFF)
    else SavedCount r State + k)"
  define total where "total = sint (SavedCount r State) + (if driven then sp_val (creg State r) else 0)"
  have spb: "\<bar>sp_val (creg State r)\<bar> \<le> 16383"
    using sp_val_bounds [of "creg State r"] by auto
  have c: "sint c = total"
  proof (cases driven)
    case True
    note cnt = sint_count [OF w]
    show ?thesis
    proof (cases "0x4000 AND k = 0")
      case True
      then show ?thesis
        using cnt saved \<open>driven\<close> by (simp add: c_def k_def total_def sint_plus_small)
    next
      case False
      then show ?thesis
        using cnt saved \<open>driven\<close> by (simp add: c_def k_def total_def sint_minus_small)
    qed
  qed (simp add: c_def k_def total_def)
  then have cb: "\<bar>sint c\<bar> < 1073741824"
    using spb saved by (auto simp: total_def split: if_splits)
  define m where "m = (if c <s 0 then - c else c)"
  define D where "D = (if 24 \<le>s m then 24 else m)"
  define left where "left = (if c <s 0 then - (if 0 <s D then m - D else m)
    else if 0 <s D then m - D else m)"
  note burst = burst_count [OF cb, folded m_def, folded D_def, unfolded c]
  have dir: "((if c <s 0 then 0x4000 else 0) \<noteq> (0 :: cint)) = (c <s 0)" by simp
  have out: "BurstOutput bits r n State = (left, SaveCount r left
      (if 0 <s D then ChannelOutput n ((if c <s 0 then 0x4000 else 0) OR D) S else S))"
    unfolding BurstOutput_def Let_def if_pair prod.case driven_def [symmetric] k_def [symmetric]
      S_def [symmetric] c_def [symmetric] m_def [symmetric] D_def [symmetric] dir left_def [symmetric]
    using r by (simp only: simp_thms if_False)
  have "sint left = total - max (- 24) (min 24 total)"
  proof (cases "0 <s D")
    case True
    then show ?thesis using burst(3) by (simp only: left_def if_True)
  next
    case False
    then show ?thesis using burst(4) [OF False] False by (simp only: left_def if_False)
  qed
  moreover have "(if 0 <s D then ChannelOutput n ((if c <s 0 then 0x4000 else 0) OR D) S else S) =
      (if max (- 24) (min 24 total) = 0 then S
       else ChannelOutput n (encode_pulses (max (- 24) (min 24 total))) S)"
  proof (cases "0 <s D")
    case True
    then have ne: "max (- 24) (min 24 total) \<noteq> 0" using burst(1) by blast
    show ?thesis by (simp only: True ne burst(2) [OF ne] if_True if_False)
  next
    case False
    then have eq: "max (- 24) (min 24 total) = 0" using burst(1) by blast
    show ?thesis by (simp only: False eq refl if_True if_False)
  qed
  ultimately show ?thesis
    unfolding Let_def out prod.case driven_def [symmetric] total_def [symmetric] S_def [symmetric]
    by simp
qed

theorem BurstOutput_conserves_witness:
  "let State = power_on\<lparr>Erasable := (\<lambda>_. 0)(40 := 100), InputChannel := (\<lambda>_. 0)(12 := 0x4000)\<rparr>
   in sint (fst (BurstOutput 0x4000 40 0x7C State)) = 76"
proof -
  let ?S = "power_on\<lparr>Erasable := (\<lambda>_. 0)(40 := 100), InputChannel := (\<lambda>_. 0)(12 := 0x4000)\<rparr>"
  have "sp_val 100 = 100" by (simp add: sp_val_def mask_bits)
  moreover have "SavedCount 40 ?S = 0" by (simp add: SavedCount_def power_on_def)
  ultimately show ?thesis
    using BurstOutput_conserves [of 40 ?S "0x4000" "0x7C"] by (simp add: split_beta Let_def)
qed

text \<open>The lamps flash with a period of 4 steps of 81920 timer units.\<close>

lemma FlashLoop_steps:
  "unat f < 4 \<Longrightarrow> unat (fst (FlashLoop t f)) = unat t mod 81920 \<and>
     unat (snd (FlashLoop t f)) = (unat f + unat t div 81920) mod 4"
proof (induction t f rule: FlashLoop.induct)
  case (1 t f)
  show ?case
  proof (cases "81920 \<le> t")
    case True
    then have t: "81920 \<le> unat t" "unat (t - 81920) = unat t - 81920"
      by (simp_all add: word_le_nat_alt unat_sub)
    have f: "unat ((f + 1) mod 4) = (unat f + 1) mod 4"
      using 1(2) by (simp add: unat_mod unat_plus_if_size word_size)
    have "unat ((f + 1) mod 4) < 4" by (simp add: f)
    note IH = 1(1) [OF True this]
    have "FlashLoop t f = FlashLoop (t - 81920) ((f + 1) mod 4)"
      using True by (subst FlashLoop.simps) simp
    moreover have "((unat f + 1) mod 4 + (unat t - 81920) div 81920) mod 4 =
        (unat f + unat t div 81920) mod 4"
      using t(1) le_div_geq [of 81920 "unat t"] by (simp add: mod_simps)
    moreover have "(unat t - 81920) mod 81920 = unat t mod 81920"
      using t(1) le_mod_geq [of 81920 "unat t"] by simp
    ultimately show ?thesis
      using IH by (simp add: t(2) f)
  next
    case False
    then have "unat t < 81920" by (simp add: word_le_nat_alt not_le)
    then show ?thesis
      using False 1(2) by (subst FlashLoop.simps, subst FlashLoop.simps) simp
  qed
qed

text \<open>The steady lamps and the flashing ones, bit by bit.\<close>

lemma bit_channel:
  "bit (int_of_i16 w) n \<longleftrightarrow> bit w n" if "n < 16" for w :: i16
  using that by (simp add: bit_simps)

lemma LampBits_bits:
  "\<not> bit (LampBits State D) 0"
  "bit (LampBits State D) 3 \<longleftrightarrow> bit (InputChannel State 0x9) 3 \<or> bit (InputChannel State 0x18) 14"
  "bit (LampBits State D) 4 \<longleftrightarrow> bit (InputChannel State 0x9) 4"
  "\<not> bit (LampBits State D) 5"
  "bit (LampBits State D) 6 \<longleftrightarrow> bit (InputChannel State 0x9) 6"
  "bit (LampBits State D) 7 \<longleftrightarrow> RestartLight State \<or> bit (InputChannel State 0xB) 9"
  "bit (LampBits State D) 8 \<longleftrightarrow> Standby State \<or> bit (InputChannel State 0xB) 9"
  by (auto simp: LampBits_def Let_def bit_simps mask_bits bit_channel)

lemma lamps_mask:
  "bit (0x1F9 :: u32) n \<longleftrightarrow> n = 0 \<or> n = 3 \<or> n = 4 \<or> n = 5 \<or> n = 6 \<or> n = 7 \<or> n = 8"
proof -
  have "(0x1F9 :: u32) = 1 OR 8 OR 0x10 OR 0x20 OR 0x40 OR 0x80 OR 0x100" by simp
  then show ?thesis
    by (simp only: bit_or_iff mask_bits bit_1_iff) auto
qed

lemma lamp_bits_rest:
  "LampBits State D AND NOT 0x1F9 = D AND NOT 0x1F9"
  "(D OR DSKY_AGC_WARN) AND NOT 0x1F9 = D AND NOT 0x1F9"
  "FlashLamps State D AND NOT 0x1F9 = D AND NOT 0x1F9"
  by (rule bit_word_eqI, simp only: LampBits_def FlashLamps_def Let_def if_distrib [of "\<lambda>w. bit w _"]
      bit_or_iff bit_and_iff bit_not_iff mask_bits lamps_mask bit_1_iff; auto)+

text \<open>In the dark quarter of the flash period the verb and noun lamps are switched on and
  the two flashing lamps off.\<close>

lemma FlashLamps_bits:
  defines "dark \<equiv> \<lambda>State. \<not> Standby State \<and> DskyFlash State = 0"
  shows "bit (FlashLamps State D) 0 \<longleftrightarrow> bit D 0" "bit (FlashLamps State D) 3 \<longleftrightarrow> bit D 3"
    "bit (FlashLamps State D) 4 \<longleftrightarrow> bit D 4 \<and> \<not> dark State"
    "bit (FlashLamps State D) 5 \<longleftrightarrow> bit D 5 \<or> bit (InputChannel State 0x9) 5 \<and> dark State"
    "bit (FlashLamps State D) 6 \<longleftrightarrow> bit D 6 \<and> \<not> dark State"
    "bit (FlashLamps State D) 7 \<longleftrightarrow> bit D 7" "bit (FlashLamps State D) 8 \<longleftrightarrow> bit D 8"
  by (auto simp: FlashLamps_def Let_def bit_simps mask_bits bit_channel dark_def)

text \<open>C39: the lamps of the DSKY, lamp by lamp.  The flash timer is divided down to a counter
  modulo 4, and outside standby the quarter of the period with the counter at 0 is dark.  AGC
  WARNING (bit 0) is lit when the warning filter is over its threshold, TEMP (bit 3) by bit 4 of
  channel 11 or bit 15 of channel 30, KEY REL (bit 4) and OPR ERR (bit 6) by bits 5 and 7 of
  channel 11 in the light part of the period, the blanking of verb and noun (bit 5) by bit 6 of
  channel 11 in the dark part, RESTART (bit 7) by the restart flip-flop, STBY (bit 8) in standby,
  and both of them by the lamp test, bit 10 of channel 13; the other bits stay.  A warning also
  clears bit 14 of channel 33.  A packet with the lamps, if they fit its 15 bits, is put into
  the queue to the host exactly when one of them changes.  (Channel numbers in octal, channel bits counted from 1.)\<close>

theorem UpdateDSKY_lamps:
  assumes "unat (DskyFlash State) < 4" "ChannelIsSetUp State"
  shows "let State' = UpdateDSKY State; D = DskyChannel163 State'; chan = InputChannel State;
      flash = (unat (DskyFlash State) + unat (DskyTimer State) div 81920) mod 4;
      dark = (\<not> Standby State \<and> flash = 0)
    in unat (DskyTimer State') = unat (DskyTimer State) mod 81920 \<and>
    unat (DskyFlash State') = flash \<and>
    (bit D 0 \<longleftrightarrow> 20000 < WarningFilter State) \<and>
    (bit D 3 \<longleftrightarrow> bit (chan 0x9) 3 \<or> bit (chan 0x18) 14) \<and>
    (bit D 4 \<longleftrightarrow> bit (chan 0x9) 4 \<and> \<not> dark) \<and>
    (bit D 5 \<longleftrightarrow> bit (chan 0x9) 5 \<and> dark) \<and>
    (bit D 6 \<longleftrightarrow> bit (chan 0x9) 6 \<and> \<not> dark) \<and>
    (bit D 7 \<longleftrightarrow> RestartLight State \<or> bit (chan 0xB) 9) \<and>
    (bit D 8 \<longleftrightarrow> Standby State \<or> bit (chan 0xB) 9) \<and>
    D AND NOT 0x1F9 = DskyChannel163 State AND NOT 0x1F9 \<and>
    InputChannel State' = (if 20000 < WarningFilter State
      then chan(0x1B := chan 0x1B AND 0x5FFF) else chan) \<and>
    ringbuffer_out State' =
      (if D = DskyChannel163 State then ringbuffer_out State
       else case FormIoPacket 0x73 D of None \<Rightarrow> ringbuffer_out State
            | Some p \<Rightarrow> rb_put (ringbuffer_out State) p)"
proof -
  define R where "R = State\<lparr>DskyChannel163 := LampBits State (DskyChannel163 State)\<rparr>"
  define S where "S = (if WARNING_FILTER_THRESHOLD < WarningFilter R then
      set_chan 0x1B (InputChannel R 0x1B AND 0x5FFF)
        (R\<lparr>DskyChannel163 := DskyChannel163 R OR DSKY_AGC_WARN\<rparr>) else R)"
  define T' where "T' = S\<lparr>DskyTimer := fst (FlashLoop (DskyTimer S) (DskyFlash S)),
      DskyFlash := snd (FlashLoop (DskyTimer S) (DskyFlash S))\<rparr>"
  define D where "D = FlashLamps T' (DskyChannel163 T')"
  define T where "T = T'\<lparr>DskyChannel163 := D\<rparr>"
  have DT: "DskyChannel163 T = D" by (simp add: T_def)
  have "UpdateDSKY State = (if DskyChannel163 T \<noteq> DskyChannel163 State
      then ChannelOutput 0x73 (DskyChannel163 T) T else T)"
    by (simp only: UpdateDSKY_def Let_def split_beta R_def S_def T'_def T_def D_def)
  then have out: "UpdateDSKY State = (if D \<noteq> DskyChannel163 State then ChannelOutput 0x73 D T else T)"
    by (simp only: DT)
  note loop = FlashLoop_steps [OF assms(1), of "DskyTimer State"]
  have S: "DskyChannel163 S = LampBits State (DskyChannel163 State) OR
      (if 20000 < WarningFilter State then DSKY_AGC_WARN else 0)"
    "DskyTimer S = DskyTimer State" "DskyFlash S = DskyFlash State" "ChannelIsSetUp S"
    "ringbuffer_out S = ringbuffer_out State" "Standby S = Standby State"
    "InputChannel S = (if 20000 < WarningFilter State
      then (InputChannel State)(0x1B := InputChannel State 0x1B AND 0x5FFF) else InputChannel State)"
    using assms(2) by (simp_all add: S_def R_def)
  then have T: "DskyTimer T = fst (FlashLoop (DskyTimer State) (DskyFlash State))"
    "DskyFlash T = snd (FlashLoop (DskyTimer State) (DskyFlash State))" "ChannelIsSetUp T"
    "ringbuffer_out T = ringbuffer_out State" "Standby T = Standby State"
    "InputChannel T = (if 20000 < WarningFilter State
      then (InputChannel State)(0x1B := InputChannel State 0x1B AND 0x5FFF) else InputChannel State)"
    by (simp_all add: T_def T'_def)
  have dark: "DskyFlash T = 0 \<longleftrightarrow>
      (unat (DskyFlash State) + unat (DskyTimer State) div 81920) mod 4 = 0"
    using loop by (simp only: T unat_eq_0 [symmetric])
  have "FlashLamps T' (DskyChannel163 T') = FlashLamps T (DskyChannel163 S)"
    by (simp add: T_def T'_def FlashLamps_def)
  then have D: "D = FlashLamps T (LampBits State (DskyChannel163 State) OR
      (if 20000 < WarningFilter State then DSKY_AGC_WARN else 0))"
    by (simp only: D_def S)
  have lamps: "bit D 0 \<longleftrightarrow> 20000 < WarningFilter State"
    "bit D 3 \<longleftrightarrow> bit (InputChannel State 0x9) 3 \<or> bit (InputChannel State 0x18) 14"
    "bit D 4 \<longleftrightarrow> bit (InputChannel State 0x9) 4 \<and> \<not> (\<not> Standby State \<and> DskyFlash T = 0)"
    "bit D 5 \<longleftrightarrow> bit (InputChannel State 0x9) 5 \<and> (\<not> Standby State \<and> DskyFlash T = 0)"
    "bit D 6 \<longleftrightarrow> bit (InputChannel State 0x9) 6 \<and> \<not> (\<not> Standby State \<and> DskyFlash T = 0)"
    "bit D 7 \<longleftrightarrow> RestartLight State \<or> bit (InputChannel State 0xB) 9"
    "bit D 8 \<longleftrightarrow> Standby State \<or> bit (InputChannel State 0xB) 9"
    by (simp_all add: D FlashLamps_bits LampBits_bits bit_or_iff T)
  have rest: "D AND NOT 0x1F9 = DskyChannel163 State AND NOT 0x1F9"
    by (cases "20000 < WarningFilter State") (simp_all only: D lamp_bits_rest if_True if_False or.right_neutral)
  have sent: "ringbuffer_out (ChannelOutput 0x73 D T) = (case FormIoPacket 0x73 D of
      None \<Rightarrow> ringbuffer_out State | Some p \<Rightarrow> rb_put (ringbuffer_out State) p)"
    using T(3,4) by (simp add: ChannelOutput_def rb_put_def split: option.split)
  have same: "DskyChannel163 (UpdateDSKY State) = D" "DskyTimer (UpdateDSKY State) = DskyTimer T"
    "DskyFlash (UpdateDSKY State) = DskyFlash T" "InputChannel (UpdateDSKY State) = InputChannel T"
    by (simp_all add: out InputChannel_ChannelOutput DT)
  have ring: "ringbuffer_out (UpdateDSKY State) = (if D = DskyChannel163 State then ringbuffer_out State
       else case FormIoPacket 0x73 D of None \<Rightarrow> ringbuffer_out State
            | Some p \<Rightarrow> rb_put (ringbuffer_out State) p)"
    by (simp only: out) (simp add: sent T)
  show ?thesis
    unfolding Let_def same ring lamps rest
    using loop by (simp add: T dark [unfolded T])
qed

theorem UpdateDSKY_lamps_witness:
  "let State = (ChannelSetup power_on)\<lparr>DskyTimer := 327680, RestartLight := True,
         InputChannel := (\<lambda>_. 0)(0x9 := 0x70)\<rparr>;
       State' = UpdateDSKY State
   in unat (DskyFlash State') = 0 \<and> \<not> bit (DskyChannel163 State') 4 \<and>
      bit (DskyChannel163 State') 5 \<and> \<not> bit (DskyChannel163 State') 6 \<and>
      bit (DskyChannel163 State') 7"
proof -
  let ?S = "(ChannelSetup power_on)\<lparr>DskyTimer := 327680, RestartLight := True,
         InputChannel := (\<lambda>_. 0)(0x9 := 0x70)\<rparr>"
  have "unat (DskyFlash ?S) < 4" "ChannelIsSetUp ?S" "DskyFlash ?S = 0" "\<not> Standby ?S"
    by (simp_all add: power_on_def ChannelSetup_def)
  then show ?thesis
    using UpdateDSKY_lamps [of ?S] by (simp add: Let_def)
qed

end
