(* ===== verification/AGC_CduFifo.thy ===== *)
theory AGC_CduFifo
  imports AGC_IO Queues
begin

text \<open>
  The queues that pace the counts of the inertial platform (\<open>PushCduFifo\<close> and
  \<open>ServiceCduFifo\<close> of \<open>src/yaAGC/agc_engine.c\<close>).  An entry of a queue holds a run of equal pulses: the
  kind in the two upper bits, the length of the run in the other 30.
\<close>

unbundle bit_operations_syntax

section \<open>The queues\<close>

abbreviation (input) MAX_CDU_FIFO_ENTRIES :: cint where "MAX_CDU_FIFO_ENTRIES \<equiv> 128"
abbreviation (input) NUM_CDU_FIFOS :: nat where "NUM_CDU_FIFOS \<equiv> 3"
abbreviation (input) FIRST_CDU :: nat where "FIRST_CDU \<equiv> 26"

text \<open>Adding a pulse of a given kind to a queue, at the time \<open>Now\<close>.\<close>

definition PushEntry :: "u64 \<Rightarrow> u64 \<Rightarrow> cint \<Rightarrow> cdu_fifo \<Rightarrow> cdu_fifo" where
  "PushEntry Now Interval Base CduFifo =
     (if Size CduFifo = 0 then
        CduFifo\<lparr>Ptr := 0, Size := 1, Counts := (Counts CduFifo)(0 := Base + 1),
          NextUpdate := Now + Interval, IntervalType := 1\<rparr>
      else
        let Next = Ptr CduFifo + Size CduFifo - 1;
            Next = (if MAX_CDU_FIFO_ENTRIES \<le>s Next then Next - MAX_CDU_FIFO_ENTRIES else Next)
        in if Counts CduFifo (unat Next) AND 0xC0000000 \<noteq> Base then
             if MAX_CDU_FIFO_ENTRIES \<le>s Size CduFifo then CduFifo
             else
               let Next = Next + 1;
                   Next = (if MAX_CDU_FIFO_ENTRIES \<le>s Next then Next - MAX_CDU_FIFO_ENTRIES else Next)
               in CduFifo\<lparr>Size := Size CduFifo + 1,
                    Counts := (Counts CduFifo)(unat Next := Base + 1)\<rparr>
           else CduFifo\<lparr>Counts :=
                  (Counts CduFifo)(unat Next := Counts CduFifo (unat Next) + 1)\<rparr>)"

definition PushCduFifo :: "nat \<Rightarrow> cint \<Rightarrow> yaagc \<Rightarrow> yaagc" where
  "PushCduFifo Counter IncType State =
     (if Counter < FIRST_CDU \<or> FIRST_CDU + NUM_CDU_FIFOS \<le> Counter then State
      else
        let push = (\<lambda>Interval Base. State\<lparr>CduFifos := (CduFifos State)(Counter - FIRST_CDU :=
              PushEntry (CycleCounter State) Interval Base (CduFifos State (Counter - FIRST_CDU)))\<rparr>)
        in if IncType = 1 then push 213 0x00000000
           else if IncType = 3 then push 213 0x40000000
           else if IncType = 0x11 then push 13 0x80000000
           else if IncType = 0x13 then push 13 0xC0000000
           else State)"

text \<open>Taking a pulse off a queue, and the time of the next one: the third interval of each
  group of three is one cycle longer.\<close>

definition PopEntry :: "u64 \<Rightarrow> cdu_fifo \<Rightarrow> cdu_fifo" where
  "PopEntry Now CduFifo =
     (let Count = Counts CduFifo (unat (Ptr CduFifo));
          HighRate = Count AND 0x80000000;
          Count = Count - 1;
          CduFifo =
            (if 0 \<noteq> Count AND NOT 0xC0000000 then
               CduFifo\<lparr>Counts := (Counts CduFifo)(unat (Ptr CduFifo) := Count)\<rparr>
             else
               let P = Ptr CduFifo + 1
               in CduFifo\<lparr>Size := Size CduFifo - 1,
                    Ptr := (if MAX_CDU_FIFO_ENTRIES \<le>s P then 0 else P)\<rparr>);
          CduFifo =
            (if NextUpdate CduFifo = 0 then CduFifo\<lparr>NextUpdate := Now\<rparr> else CduFifo)
      in if IntervalType CduFifo <s 2 then
           CduFifo\<lparr>NextUpdate := NextUpdate CduFifo + (if HighRate \<noteq> 0 then 13 else 213),
             IntervalType := IntervalType CduFifo + 1\<rparr>
         else
           CduFifo\<lparr>NextUpdate := NextUpdate CduFifo + (if HighRate \<noteq> 0 then 14 else 214),
             IntervalType := 0\<rparr>)"

definition ServiceCduFifo :: "yaagc \<Rightarrow> cint \<times> yaagc" where
  "ServiceCduFifo State =
     (let k = unat (CduChecker State);
          CduFifo = CduFifos State k;
          (RetVal, State) =
            (if 0 <s Size CduFifo \<and> NextUpdate CduFifo \<le> CycleCounter State then
               let Ch = k + FIRST_CDU;
                   Count = Counts CduFifo (unat (Ptr CduFifo));
                   State =
                     (if Count AND 0x40000000 \<noteq> 0
                      then set_creg Ch (snd (CounterMCDU (creg State Ch))) State
                      else set_creg Ch (snd (CounterPCDU (creg State Ch))) State)
               in (1, State\<lparr>CduFifos := (CduFifos State)(k :=
                        PopEntry (CycleCounter State) CduFifo)\<rparr>)
             else (0, State));
          Checker = CduChecker State + 1
      in (RetVal, State\<lparr>CduChecker := (if 3 \<le>s Checker then 0 else Checker)\<rparr>))"

section \<open>The queues of pulses\<close>

text \<open>The entries of a queue, oldest first, and the pulses they stand for; a pulse is its kind,
  the two upper bits of an entry.\<close>

definition fifo_entries :: "cdu_fifo \<Rightarrow> cint list" where
  "fifo_entries f = map (\<lambda>k. Counts f ((unat (Ptr f) + k) mod 128)) [0..<unat (Size f)]"

abbreviation run :: "cint \<Rightarrow> cint" where "run c \<equiv> c AND 0x3FFFFFFF"
abbreviation kind :: "cint \<Rightarrow> cint" where "kind c \<equiv> c AND 0xC0000000"

definition fifo_pulses :: "cdu_fifo \<Rightarrow> cint list" where
  "fifo_pulses f = concat (map (\<lambda>c. replicate (unat (run c)) (kind c)) (fifo_entries f))"

definition fifo_bounds :: "cdu_fifo \<Rightarrow> bool" where
  "fifo_bounds f \<longleftrightarrow> unat (Ptr f) < 128 \<and> unat (Size f) \<le> 128 \<and> unat (IntervalType f) \<le> 2"

definition fifo_ok :: "cdu_fifo \<Rightarrow> bool" where
  "fifo_ok f \<longleftrightarrow> fifo_bounds f \<and> (\<forall>c \<in> set (fifo_entries f). run c \<noteq> 0)"

lemma length_fifo_entries [simp]: "length (fifo_entries f) = unat (Size f)"
  by (simp add: fifo_entries_def)

lemma sle_128: "unat (x :: cint) < 1024 \<Longrightarrow> 128 \<le>s x \<longleftrightarrow> 128 \<le> unat x"
proof -
  assume "unat x < 1024"
  then have "uint x < 1024" by (metis of_nat_less_iff of_nat_numeral of_nat_unat)
  then have "128 \<le>s x \<longleftrightarrow> 128 \<le> uint x" by (simp add: word_sle_eq sint_small)
  also have "\<dots> \<longleftrightarrow> 128 \<le> unat x" using of_nat_le_iff [of 128 "unat x", where 'a = int] by simp
  finally show ?thesis .
qed

lemma sless_positive: "unat (x :: cint) < 1024 \<Longrightarrow> 0 <s x \<longleftrightarrow> x \<noteq> 0"
proof -
  assume "unat x < 1024"
  then have "uint x < 1024" by (metis of_nat_less_iff of_nat_numeral of_nat_unat)
  then have "0 <s x \<longleftrightarrow> 0 < uint x" by (simp add: word_sless_alt sint_small)
  also have "\<dots> \<longleftrightarrow> uint x \<noteq> 0" using uint_ge_0 [of x] by linarith
  also have "\<dots> \<longleftrightarrow> x \<noteq> 0" by (simp add: uint_0_iff)
  finally show ?thesis .
qed

text \<open>The wrapped index \<open>Next\<close> is the index modulo the size of the array.\<close>

lemma unat_wrapped:
  assumes "unat (n :: cint) < 256"
  shows "unat (if 128 \<le>s n then n - 128 else n) = unat n mod 128"
proof (cases "128 \<le> unat n")
  case True
  then have "128 \<le> n" by (simp add: word_le_nat_alt)
  then show ?thesis
    using assms True by (simp add: sle_128 unat_sub le_mod_geq)
qed (use assms in \<open>simp add: sle_128\<close>)

lemma unat_last_index:
  assumes "unat (p :: cint) < 128" "unat (s :: cint) \<le> 128" "s \<noteq> 0"
  shows "unat (p + s - 1) = unat p + unat s - 1"
proof -
  have s: "0 < unat s" using assms(3) by (simp add: unat_gt_0)
  have ps: "unat (p + s) = unat p + unat s"
    using assms(1,2) by (simp add: unat_plus_if_size word_size)
  moreover have "1 \<le> p + s" using s ps by (simp add: word_le_nat_alt)
  ultimately show ?thesis by (simp add: unat_sub)
qed

lemma fifo_entries_nth:
  "k < unat (Size f) \<Longrightarrow> fifo_entries f ! k = Counts f ((unat (Ptr f) + k) mod 128)"
  by (simp add: fifo_entries_def)

text \<open>\<open>PushEntry\<close> on the list of entries.\<close>

lemma PushEntry_entries:
  assumes b: "fifo_bounds f"
  shows "fifo_bounds (PushEntry t i p f) \<and>
    fifo_entries (PushEntry t i p f) =
      (if Size f = 0 then [p + 1]
       else if kind (last (fifo_entries f)) \<noteq> p then
         (if unat (Size f) < 128 then fifo_entries f @ [p + 1] else fifo_entries f)
       else butlast (fifo_entries f) @ [last (fifo_entries f) + 1]) \<and>
    (Size f \<noteq> 0 \<and> kind (last (fifo_entries f)) \<noteq> p \<and> 128 \<le> unat (Size f) \<longrightarrow>
      PushEntry t i p f = f)"
proof (cases "Size f = 0")
  case True
  then show ?thesis
    by (simp add: PushEntry_def fifo_bounds_def fifo_entries_def)
next
  case ne: False
  let ?P = "unat (Ptr f)" and ?S = "unat (Size f)"
  have P: "?P < 128" "?S \<le> 128" "unat (IntervalType f) \<le> 2" and S: "0 < ?S"
    using b ne by (simp_all add: fifo_bounds_def unat_gt_0)
  define n where "n = Ptr f + Size f - 1"
  define n1 where "n1 = (if 128 \<le>s n then n - 128 else n)"
  define n2 where "n2 = (if 128 \<le>s n1 + 1 then n1 + 1 - 128 else n1 + 1)"
  have un: "unat n = ?P + ?S - 1"
    unfolding n_def by (rule unat_last_index [OF P(1,2) ne])
  have un1: "unat n1 = (?P + ?S - 1) mod 128"
    unfolding n1_def using unat_wrapped [of n] un P by simp
  have "unat (n1 + 1) = unat n1 + 1"
    using un1 by (simp add: unat_plus_if_size word_size)
  then have un2: "unat n2 = (?P + ?S) mod 128"
    unfolding n2_def using unat_wrapped [of "n1 + 1"] un1 S by (simp add: mod_simps)
  have ne_list: "fifo_entries f \<noteq> []"
    using S by (metis length_fifo_entries list.size(3) less_irrefl)
  have last: "last (fifo_entries f) = Counts f (unat n1)"
    using S un1 fifo_entries_nth [of "?S - 1" f] by (simp add: last_conv_nth [OF ne_list])
  show ?thesis
  proof (cases "kind (Counts f (unat n1)) = p")
    case True
    have eq: "PushEntry t i p f = f\<lparr>Counts := (Counts f)(unat n1 := Counts f (unat n1) + 1)\<rparr>"
      using ne True by (simp add: PushEntry_def Let_def flip: n_def n1_def)
    have "fifo_entries (PushEntry t i p f) = (fifo_entries f)[?S - 1 := Counts f (unat n1) + 1]"
    proof (rule nth_equalityI)
      fix k assume k: "k < length (fifo_entries (PushEntry t i p f))"
      have "(?P + k) mod 128 = unat n1 \<longleftrightarrow> k = ?S - 1"
        using k P S un1 by (auto simp: eq mod_if split: if_splits)
      then show "fifo_entries (PushEntry t i p f) ! k =
          (fifo_entries f)[?S - 1 := Counts f (unat n1) + 1] ! k"
        using k by (auto simp: eq fifo_entries_nth nth_list_update)
    qed (simp add: eq)
    also have "\<dots> = butlast (fifo_entries f) @ [last (fifo_entries f) + 1]"
      using list_update_last [OF ne_list] by (simp add: last)
    finally show ?thesis
      using ne True b by (simp add: last eq fifo_bounds_def)
  next
    case False
    show ?thesis
    proof (cases "?S < 128")
      case True
      have sz: "unat (Size f + 1) = ?S + 1"
        using True by (simp add: unat_plus_if_size word_size)
      have eq: "PushEntry t i p f = f\<lparr>Size := Size f + 1, Counts := (Counts f)(unat n2 := p + 1)\<rparr>"
        using ne False True P by (simp add: PushEntry_def Let_def sle_128 flip: n_def n1_def n2_def)
      have "(?P + k) mod 128 \<noteq> unat n2" if "k < ?S" for k
        using that P un2 True by (auto simp: mod_if split: if_splits)
      then have "fifo_entries (PushEntry t i p f) = fifo_entries f @ [p + 1]"
        by (simp add: eq fifo_entries_def sz un2)
      moreover have "fifo_bounds (PushEntry t i p f)"
        using True P by (simp add: eq fifo_bounds_def sz)
      ultimately show ?thesis
        using ne False True last by simp
    next
      case full: False
      then have "PushEntry t i p f = f"
        using ne False P by (simp add: PushEntry_def Let_def sle_128 flip: n_def n1_def)
      then show ?thesis
        using ne False full b by (simp add: last)
    qed
  qed
qed

text \<open>Counting a run up and down.\<close>

lemma uint_run: "uint (run c) = uint c mod 1073741824"
  using uint_and_low_mask(2) [of c 30] by (simp only: low_masks) simp

lemma kind_eqI:
  assumes "uint c div 1073741824 = uint d div 1073741824"
  shows "kind c = kind d"
proof (rule bit_word_eqI)
  have "bit v 31 \<longleftrightarrow> odd (uint v div 1073741824 div 2)" for v :: cint
    by (simp add: bit_iff_uint_div div_mult2_eq [symmetric] zdiv_zmult2_eq [symmetric])
  then have 31: "bit c 31 = bit d 31" using assms by simp
  have 30: "bit c 30 = bit d 30"
    using assms by (simp add: bit_iff_uint_div)
  fix n
  have "(0xC0000000 :: int) = 2 ^ 30 OR 2 ^ 31" by simp
  then have "bit (0xC0000000 :: int) n \<longleftrightarrow> n = 30 \<or> n = 31"
    by (simp only: bit_or_iff bit_exp_iff possible_bit_int simp_thms)
  then show "bit (kind c) n = bit (kind d) n"
    using 30 31 by (auto simp: bit_and_iff)
qed

lemma run_pred:
  assumes "run c \<noteq> 0"
  shows "unat (run (c - 1)) = unat (run c) - 1" and "kind (c - 1) = kind c"
proof -
  let ?m = "uint c mod 1073741824"
  have m: "?m \<noteq> 0"
    using assms uint_run [of c] by (metis uint_0_iff)
  moreover have "0 \<le> ?m" by simp
  ultimately have m1: "1 \<le> ?m" by linarith
  have c: "uint c = 1073741824 * (uint c div 1073741824) + ?m" by simp
  moreover have "0 \<le> uint c div 1073741824" by (simp add: pos_imp_zdiv_nonneg_iff)
  ultimately have "1 \<le> uint c" using m1 by linarith
  then have u: "uint (c - 1) = uint c - 1" by (simp add: uint_sub_if')
  have split: "uint c - 1 = 1073741824 * (uint c div 1073741824) + (?m - 1)"
    using c by simp
  have b: "0 \<le> ?m - 1" "?m - 1 < 1073741824"
    using m1 pos_mod_bound [of 1073741824 "uint c"] by auto
  have "(uint c - 1) mod 1073741824 = ?m - 1"
    unfolding split using b by (simp only: mod_mult_self4 mod_pos_pos_trivial)
  then have "uint (run (c - 1)) = uint (run c) - 1"
    by (simp add: uint_run u)
  then show "unat (run (c - 1)) = unat (run c) - 1"
    using m1 uint_run [of c] by (simp add: unat_eq_nat_uint nat_diff_distrib' del: nat_uint_eq)
  have "(uint c - 1) div 1073741824 = uint c div 1073741824"
    unfolding split using b by (simp only: div_mult_self4 div_pos_pos_trivial add_0_right)
  then show "kind (c - 1) = kind c"
    by (intro kind_eqI) (simp only: u)
qed

lemma run_succ:
  assumes "run c \<noteq> 0x3FFFFFFF"
  shows "unat (run (c + 1)) = unat (run c) + 1" and "kind (c + 1) = kind c"
proof -
  let ?m = "uint c mod 1073741824"
  have m: "?m \<noteq> 1073741823"
    using assms uint_run [of c] by (auto simp: word_uint_eq_iff)
  have mb: "?m < 1073741824" "0 \<le> ?m" by simp_all
  have c: "uint c = 1073741824 * (uint c div 1073741824) + ?m" by simp
  have "uint c div 1073741824 < 4"
    using uint_cint_lt [of c] by (intro int_div_less) linarith+
  then have "uint c + 1 < 4294967296"
    using c m mb by linarith
  then have u: "uint (c + 1) = uint c + 1" by (simp add: uint_plus_if')
  have split: "uint c + 1 = 1073741824 * (uint c div 1073741824) + (?m + 1)"
    using c by simp
  have b: "0 \<le> ?m + 1" "?m + 1 < 1073741824"
    using m mb by linarith+
  have "(uint c + 1) mod 1073741824 = ?m + 1"
    unfolding split using b by (simp only: mod_mult_self4 mod_pos_pos_trivial)
  then have "uint (run (c + 1)) = uint (run c) + 1"
    by (simp add: uint_run u)
  then show "unat (run (c + 1)) = unat (run c) + 1"
    by (simp add: unat_eq_nat_uint nat_add_distrib del: nat_uint_eq)
  have "(uint c + 1) div 1073741824 = uint c div 1073741824"
    unfolding split using b by (simp only: div_mult_self4 div_pos_pos_trivial add_0_right)
  then show "kind (c + 1) = kind c"
    by (intro kind_eqI) (simp only: u)
qed

lemma and_not_kind: "c AND - 3221225473 = run c"
proof -
  have "(- 3221225473 :: cint) = 0x3FFFFFFF" by simp
  then show ?thesis by (rule arg_cong)
qed

text \<open>\<open>PopEntry\<close> on the list of entries, and the pace it sets.\<close>

lemma PopEntry_entries:
  assumes b: "fifo_bounds f" and ne: "Size f \<noteq> 0"
  shows "fifo_bounds (PopEntry t f) \<and>
    fifo_entries (PopEntry t f) =
      (let c = hd (fifo_entries f) - 1
       in if run c \<noteq> 0 then c # tl (fifo_entries f) else tl (fifo_entries f))"
proof -
  let ?P = "unat (Ptr f)" and ?S = "unat (Size f)"
  have P: "?P < 128" "?S \<le> 128" "unat (IntervalType f) \<le> 2" and S: "0 < ?S"
    using b ne by (simp_all add: fifo_bounds_def unat_gt_0)
  let ?c = "Counts f ?P - 1"
  have upt: "[0..<?S] = 0 # map Suc [0..<?S - 1]"
    using S by (simp add: map_Suc_upt upt_conv_Cons)
  have ent: "fifo_entries f = Counts f ?P # map (\<lambda>k. Counts f ((?P + Suc k) mod 128)) [0..<?S - 1]"
    using P by (simp add: fifo_entries_def upt comp_def del: upt_Suc)
  define g where "g = (if run ?c \<noteq> 0 then f\<lparr>Counts := (Counts f)(?P := ?c)\<rparr>
    else f\<lparr>Size := Size f - 1, Ptr := (if 128 \<le>s Ptr f + 1 then 0 else Ptr f + 1)\<rparr>)"
  have pop: "Size (PopEntry t f) = Size g" "Ptr (PopEntry t f) = Ptr g"
    "Counts (PopEntry t f) = Counts g"
    by (simp_all add: PopEntry_def g_def Let_def and_not_kind)
  have g_int: "IntervalType g = IntervalType f" by (simp add: g_def)
  have int: "unat (IntervalType (PopEntry t f)) \<le> 2"
  proof -
    have "unat (IntervalType f + 1) = unat (IntervalType f) + 1"
      using P by (simp add: unat_plus_if_size word_size)
    moreover have "IntervalType f <s 2 \<Longrightarrow> unat (IntervalType f) \<le> 1"
    proof -
      assume "IntervalType f <s 2"
      moreover have "uint (IntervalType f) < 2147483648"
        using P(3) of_nat_le_iff [of "unat (IntervalType f)" 2, where 'a = int] by simp
      ultimately have "uint (IntervalType f) < int 2"
        by (simp add: word_sless_alt sint_small)
      then have "unat (IntervalType f) < 2" by (rule unat_ltI)
      then show ?thesis by simp
    qed
    ultimately show ?thesis
      using P by (simp add: PopEntry_def Let_def)
  qed
  have sz: "unat (Size f - 1) = ?S - 1"
    using S by (simp add: unat_sub word_le_nat_alt)
  have "unat (Ptr f + 1) = ?P + 1"
    using P by (simp add: unat_plus_if_size word_size)
  then have pt: "unat (if 128 \<le>s Ptr f + 1 then 0 else Ptr f + 1) = (?P + 1) mod 128"
    using P by (auto simp: sle_128 mod_if)
  have "fifo_entries (PopEntry t f) = fifo_entries g"
    by (simp add: fifo_entries_def pop)
  also have "\<dots> = (if run ?c \<noteq> 0 then ?c # tl (fifo_entries f) else tl (fifo_entries f))"
  proof (cases "run ?c = 0")
    case True
    have gs: "unat (Ptr g) = (?P + 1) mod 128" "unat (Size g) = ?S - 1" "Counts g = Counts f"
      using True pt sz by (simp_all add: g_def)
    have "fifo_entries g = map (\<lambda>k. Counts f ((?P + Suc k) mod 128)) [0..<?S - 1]"
      by (simp add: fifo_entries_def [of g] gs mod_simps)
    also have "\<dots> = tl (fifo_entries f)"
      by (simp only: ent list.sel)
    finally show ?thesis using True by simp
  next
    case False
    have gs: "Ptr g = Ptr f" "Size g = Size f" "Counts g = (Counts f)(?P := ?c)"
      using False by (simp_all add: g_def)
    have "(?P + Suc k) mod 128 \<noteq> ?P" if "k < ?S - 1" for k
      using that P by (auto simp: mod_if split: if_splits)
    then have "fifo_entries g = ?c # map (\<lambda>k. Counts f ((?P + Suc k) mod 128)) [0..<?S - 1]"
      using gs P by (simp add: fifo_entries_def [of g] upt comp_def del: upt_Suc)
    also have "\<dots> = ?c # tl (fifo_entries f)"
      by (simp only: ent list.sel)
    finally show ?thesis using False by simp
  qed
  moreover have "fifo_bounds (PopEntry t f)"
    unfolding fifo_bounds_def using int P sz pt by (auto simp: pop g_def)
  ultimately show ?thesis
    by (simp add: ent)
qed

text \<open>The operations as a queue of pulses: \<open>PushCduFifo\<close> adds a pulse of a kind,
  \<open>ServiceCduFifo\<close> takes the oldest.\<close>

definition push_pulse :: "u64 \<Rightarrow> cdu_fifo \<Rightarrow> cint \<Rightarrow> cdu_fifo" where
  "push_pulse t f p = PushEntry t (if bit p 31 then 13 else 213) p f"

definition pop_pulse :: "u64 \<Rightarrow> cdu_fifo \<Rightarrow> cint option \<times> cdu_fifo" where
  "pop_pulse t f =
     (if 0 <s Size f then (Some (kind (Counts f (unat (Ptr f)))), PopEntry t f) else (None, f))"

text \<open>A pulse fits when it is a kind and the run it would extend is not at its limit; a queue
  whose 128 runs are used up takes no pulse that starts another run.\<close>

definition pulse_fits :: "cdu_fifo \<Rightarrow> cint \<Rightarrow> bool" where
  "pulse_fits f p \<longleftrightarrow> run p = 0 \<and> (Size f \<noteq> 0 \<longrightarrow> run (last (fifo_entries f)) \<noteq> 0x3FFFFFFF)"

definition accepts_pulse :: "cdu_fifo \<Rightarrow> cint \<Rightarrow> bool" where
  "accepts_pulse f p \<longleftrightarrow>
     Size f = 0 \<or> kind (last (fifo_entries f)) = p \<or> unat (Size f) < 128"

definition expand :: "cint \<Rightarrow> cint list" where
  "expand c = replicate (unat (run c)) (kind c)"

lemma fifo_pulses_expand: "fifo_pulses f = concat (map expand (fifo_entries f))"
  by (simp add: fifo_pulses_def expand_def [abs_def])

lemma kind_of_kind: "run p = 0 \<Longrightarrow> kind p = p"
proof -
  assume p: "run p = 0"
  have "p = run p OR kind p"
  proof (rule bit_word_eqI)
    fix n assume n: "n < LENGTH(32)"
    have "(0xC0000000 :: int) = 2 ^ 30 OR 2 ^ 31" by simp
    then have "bit (0xC0000000 :: int) n \<longleftrightarrow> n = 30 \<or> n = 31"
      by (simp only: bit_or_iff bit_exp_iff possible_bit_int simp_thms)
    then show "bit p n = bit (run p OR kind p) n"
      using n by (auto simp: bit_or_iff bit_and_iff mask_bits)
  qed
  then show ?thesis using p by simp
qed

lemma expand_single: "run p = 0 \<Longrightarrow> expand (p + 1) = [p]"
  using run_succ [of p] kind_of_kind [of p] by (simp add: expand_def)

lemma expand_succ: "run c \<noteq> 0x3FFFFFFF \<Longrightarrow> expand (c + 1) = expand c @ [kind c]"
  using run_succ [of c] by (simp add: expand_def replicate_append_same)

lemma expand_pred: "run c \<noteq> 0 \<Longrightarrow> expand c = kind c # expand (c - 1)"
proof -
  assume c: "run c \<noteq> 0"
  then have "unat (run c) = Suc (unat (run (c - 1)))"
    using run_pred(1) [OF c] by (simp add: unat_gt_0)
  then show ?thesis
    using run_pred(2) [OF c] by (simp add: expand_def)
qed

lemma expand_Nil_iff: "expand c = [] \<longleftrightarrow> run c = 0"
  by (simp add: expand_def unat_eq_0)

interpretation cf: fifo_queue fifo_ok fifo_pulses pulse_fits accepts_pulse "push_pulse t" "pop_pulse t"
  for t :: u64
proof
  fix f p ps
  assume ok: "fifo_ok f"
  then have b: "fifo_bounds f" and runs: "\<forall>c \<in> set (fifo_entries f). run c \<noteq> 0"
    by (simp_all add: fifo_ok_def)
  have nil: "fifo_entries f = [] \<longleftrightarrow> Size f = 0"
    by (metis length_0_conv length_fifo_entries unat_eq_0)
  note push = PushEntry_entries [OF b, of t "if bit p 31 then 13 else 213" p, folded push_pulse_def]
  {
    assume fit: "pulse_fits f p" and acc: "accepts_pulse f p"
    from fit have p: "run p = 0" by (simp add: pulse_fits_def)
    then have p1: "run (p + 1) \<noteq> 0" using run_succ(1) [of p] by auto
    show "fifo_ok (push_pulse t f p) \<and> fifo_pulses (push_pulse t f p) = fifo_pulses f @ [p]"
    proof (cases "Size f = 0")
      case True
      then show ?thesis
        using push p1 expand_single [OF p] nil by (simp add: fifo_ok_def fifo_pulses_expand)
    next
      case ne: False
      let ?l = "last (fifo_entries f)"
      have ents: "fifo_entries f = butlast (fifo_entries f) @ [?l]"
        using ne nil by simp
      show ?thesis
      proof (cases "kind ?l = p")
        case True
        have l: "run ?l \<noteq> 0x3FFFFFFF" using fit ne by (simp add: pulse_fits_def)
        then have "run (?l + 1) \<noteq> 0" using run_succ(1) [of ?l] by auto
        moreover have "concat (map expand (fifo_entries f)) =
            concat (map expand (butlast (fifo_entries f))) @ expand ?l"
          by (subst ents) simp
        ultimately show ?thesis
          using push True ne runs expand_succ [OF l]
          by (auto simp: fifo_ok_def fifo_pulses_expand dest: in_set_butlastD)
      next
        case False
        then have "unat (Size f) < 128" using acc ne by (simp add: accepts_pulse_def)
        then show ?thesis
          using push False ne runs p1 expand_single [OF p]
          by (auto simp: fifo_ok_def fifo_pulses_expand)
      qed
    qed
  }
  {
    assume "pulse_fits f p" and "\<not> accepts_pulse f p"
    then show "push_pulse t f p = f"
      using push by (simp add: accepts_pulse_def not_less)
  }
  have pos: "0 <s Size f \<longleftrightarrow> Size f \<noteq> 0"
    using b by (intro sless_positive) (simp add: fifo_bounds_def)
  have empty: "fifo_pulses f = [] \<longleftrightarrow> Size f = 0"
    using runs nil by (auto simp: fifo_pulses_expand expand_Nil_iff)
  show "fifo_pulses f = [] \<Longrightarrow> pop_pulse t f = (None, f)"
    using empty pos by (simp add: pop_pulse_def)
  {
    assume q: "fifo_pulses f = p # ps"
    then have ne: "Size f \<noteq> 0" using empty by auto
    then obtain c cs where cs: "fifo_entries f = c # cs" using nil by (cases "fifo_entries f") auto
    have c: "Counts f (unat (Ptr f)) = c"
      using fifo_entries_nth [of 0 f] ne cs b by (simp add: fifo_bounds_def unat_gt_0)
    have rc: "run c \<noteq> 0" using runs cs by simp
    have "fifo_pulses f = kind c # expand (c - 1) @ concat (map expand cs)"
      using expand_pred [OF rc] by (simp add: fifo_pulses_expand cs)
    then show "fst (pop_pulse t f) = Some p \<and> fifo_ok (snd (pop_pulse t f)) \<and>
        fifo_pulses (snd (pop_pulse t f)) = ps"
      using q PopEntry_entries [OF b ne, of t] ne pos runs expand_Nil_iff [of "c - 1"]
      by (auto simp: pop_pulse_def c cs fifo_ok_def fifo_pulses_expand Let_def)
  }
qed


section \<open>Properties\<close>

text \<open>The pulse that an increment type stands for.\<close>

definition pulse_of :: "cint \<Rightarrow> cint" where
  "pulse_of IncType =
     (if IncType = 1 then 0 else if IncType = 3 then 0x40000000
      else if IncType = 0x11 then 0x80000000 else 0xC0000000)"

lemma bit31_pulse [simp]:
  "\<not> bit (0x40000000 :: cint) 31" "bit (0x80000000 :: cint) 31" "bit (0xC0000000 :: cint) 31"
proof -
  have "(0x40000000 :: cint) = 2 ^ 30" "(0x80000000 :: cint) = 2 ^ 31"
    "(0xC0000000 :: cint) = 2 ^ 30 OR 2 ^ 31" by simp_all
  then show "\<not> bit (0x40000000 :: cint) 31" "bit (0x80000000 :: cint) 31"
    "bit (0xC0000000 :: cint) 31"
    by (simp_all only: bit_exp_iff bit_or_iff possible_bit_word) simp_all
qed

lemma PushCduFifo_push_pulse:
  assumes "k < 3" "t \<in> {1, 3, 0x11, 0x13}"
  shows "PushCduFifo (26 + k) t State =
    State\<lparr>CduFifos := (CduFifos State)(k :=
      push_pulse (CycleCounter State) (CduFifos State k) (pulse_of t))\<rparr>"
  using assms by (auto simp: PushCduFifo_def push_pulse_def pulse_of_def Let_def)

text \<open>C36: a count for one of the platform's angle counters joins the end of that counter's
  queue of pulses; only when all 128 runs are in use and the pulse would start another one is it
  dropped, and then nothing changes.  The queues of the other counters are left alone.\<close>

theorem PushCduFifo_enqueues:
  assumes "k < 3" "t \<in> {1, 3, 0x11, 0x13}" "fifo_ok (CduFifos State k)"
    and "pulse_fits (CduFifos State k) (pulse_of t)"
  shows "let f = CduFifos State k; State' = PushCduFifo (26 + k) t State
    in fifo_pulses (CduFifos State' k) =
         (if accepts_pulse f (pulse_of t) then fifo_pulses f @ [pulse_of t] else fifo_pulses f) \<and>
       fifo_ok (CduFifos State' k) \<and>
       State' = State\<lparr>CduFifos := (CduFifos State)(k := CduFifos State' k)\<rparr>"
  using assms(3,4) cf.put_contents [OF assms(3,4)] cf.put_inv [OF assms(3,4)]
  by (simp add: PushCduFifo_push_pulse [OF assms(1,2)] Let_def)

theorem PushCduFifo_enqueues_witness:
  "let State' = PushCduFifo 27 3 power_on
   in fifo_pulses (CduFifos State' 1) = [0x40000000] \<and> fifo_ok (CduFifos State' 1)"
proof -
  have e: "fifo_entries (CduFifos power_on k) = []" for k
    by (simp add: fifo_entries_def power_on_def)
  have "fifo_ok (CduFifos power_on k)" "pulse_fits (CduFifos power_on k) (pulse_of 3)"
    "accepts_pulse (CduFifos power_on k) (pulse_of 3)" for k
    by (simp_all add: fifo_ok_def e)
      (simp_all add: fifo_bounds_def pulse_fits_def accepts_pulse_def pulse_of_def power_on_def)
  moreover have "fifo_pulses (CduFifos power_on k) = []" for k
    by (simp add: fifo_pulses_def e)
  ultimately show ?thesis
    using PushCduFifo_enqueues [of 1 3 power_on] by (simp add: pulse_of_def Let_def)
qed


lemma bit_tests_kind:
  "c AND 0x40000000 = 0 \<longleftrightarrow> \<not> bit (c :: cint) 30"
  "c AND 0x80000000 = 0 \<longleftrightarrow> \<not> bit (c :: cint) 31"
  "bit (kind c) 30 = bit c 30" "bit (kind c) 31 = bit c 31"
proof -
  have "(0x40000000 :: cint) = 2 ^ 30" "(0x80000000 :: cint) = 2 ^ 31" by simp_all
  then show "c AND 0x40000000 = 0 \<longleftrightarrow> \<not> bit c 30" "c AND 0x80000000 = 0 \<longleftrightarrow> \<not> bit c 31"
    by (simp_all only: and_exp_eq_0_iff)
  have "(0xC0000000 :: cint) = 2 ^ 30 OR 2 ^ 31" by simp
  then show "bit (kind c) 30 = bit c 30" "bit (kind c) 31 = bit c 31"
    by (simp_all only: bit_and_iff bit_or_iff bit_exp_iff possible_bit_word) simp_all
qed

lemma CduChecker_ServiceCduFifo:
  "CduChecker (snd (ServiceCduFifo State)) =
     (if 3 \<le>s CduChecker State + 1 then 0 else CduChecker State + 1)"
  by (simp add: ServiceCduFifo_def Let_def)

lemma PopEntry_pace:
  assumes "fifo_bounds f"
  shows "NextUpdate (PopEntry t f) = (if NextUpdate f = 0 then t else NextUpdate f) +
      (if bit (Counts f (unat (Ptr f))) 31 then 13 else 213) +
      (if unat (IntervalType f) < 2 then 0 else 1) \<and>
    unat (IntervalType (PopEntry t f)) = (unat (IntervalType f) + 1) mod 3"
proof -
  have I: "unat (IntervalType f) \<le> 2" using assms by (simp add: fifo_bounds_def)
  then have "uint (IntervalType f) < 2147483648"
    using of_nat_le_iff [of "unat (IntervalType f)" 2, where 'a = int] by simp
  then have "IntervalType f <s 2 \<longleftrightarrow> uint (IntervalType f) < 2"
    by (simp add: word_sless_alt sint_small)
  also have "\<dots> \<longleftrightarrow> unat (IntervalType f) < 2"
    using of_nat_less_iff [of "unat (IntervalType f)" 2, where 'a = int] by simp
  finally have lt: "IntervalType f <s 2 \<longleftrightarrow> unat (IntervalType f) < 2" .
  have "unat (IntervalType f + 1) = unat (IntervalType f) + 1"
    using I by (simp add: unat_plus_if_size word_size)
  then show ?thesis
    using I by (auto simp: PopEntry_def Let_def lt bit_tests_kind mod_if)
qed

text \<open>C37: a service of the queues looks at one of them.  When that queue has a pulse and its
  time has come, the oldest pulse leaves the queue and moves the angle counter by one, down for
  the negative kinds and up for the others, modulo \<open>2^15\<close>; the next pulse is due 13 or 213
  cycles later and one more every third time, so that three pulses take 40 or 640 cycles;
  otherwise nothing happens.  The queues take turns.\<close>

theorem ServiceCduFifo_dequeues:
  assumes k: "k = unat (CduChecker State)" "k < 3" and ok: "fifo_ok (CduFifos State k)"
    and w: "uint (creg State (26 + k)) < 32768"
  shows "let f = CduFifos State k; q = fifo_pulses f;
      r = fst (ServiceCduFifo State); State' = snd (ServiceCduFifo State); f' = CduFifos State' k
    in unat (CduChecker State') = (k + 1) mod 3 \<and>
       (if q \<noteq> [] \<and> NextUpdate f \<le> CycleCounter State
        then r = 1 \<and> fifo_ok f' \<and> fifo_pulses f' = tl q \<and>
          uint (creg State' (26 + k)) =
            (uint (creg State (26 + k)) + (if bit (hd q) 30 then - 1 else 1)) mod 32768 \<and>
          NextUpdate f' = (if NextUpdate f = 0 then CycleCounter State else NextUpdate f) +
            (if bit (hd q) 31 then 13 else 213) + (if unat (IntervalType f) < 2 then 0 else 1) \<and>
          unat (IntervalType f') = (unat (IntervalType f) + 1) mod 3
        else r = 0 \<and> CduFifos State' = CduFifos State \<and> Erasable State' = Erasable State)"
proof -
  let ?f = "CduFifos State k" and ?t = "CycleCounter State"
  let ?q = "fifo_pulses ?f" and ?c = "Counts ?f (unat (Ptr ?f))"
  have b: "fifo_bounds ?f" using ok by (simp add: fifo_ok_def)
  have pop: "pop_pulse ?t ?f = (if 0 <s Size ?f then (Some (kind ?c), PopEntry ?t ?f) else (None, ?f))"
    by (simp add: pop_pulse_def)
  have q: "?q \<noteq> [] \<longleftrightarrow> 0 <s Size ?f"
    using cf.get_None_iff [OF ok, of ?t] pop by (auto split: if_splits)
  have hd: "?q \<noteq> [] \<Longrightarrow> hd ?q = kind ?c"
    using cf.get_result [OF ok, of ?t] pop q by (cases ?q) auto
  have rest: "?q \<noteq> [] \<Longrightarrow> fifo_ok (PopEntry ?t ?f) \<and> fifo_pulses (PopEntry ?t ?f) = tl ?q"
    using cf.get_inv [OF ok, of ?t] cf.get_contents [OF ok, of ?t] pop q by auto
  have u: "unat (CduChecker State + 1) = k + 1"
    using k by (simp add: unat_plus_if_size word_size)
  have "int (unat (CduChecker State + 1)) = int (k + 1)"
    by (simp only: u)
  then have "uint (CduChecker State + 1) = int k + 1"
    by (simp only: of_nat_unat of_nat_add of_nat_1)
  then have wrap: "3 \<le>s CduChecker State + 1 \<longleftrightarrow> 3 \<le> k + 1"
    using k(2) by (simp add: word_sle_eq sint_small)
  have "(if 3 \<le> k + 1 then 0 else k + 1) = (k + 1) mod 3"
    using k(2) by (auto simp: mod_if)
  then have turn: "unat (CduChecker (snd (ServiceCduFifo State))) = (k + 1) mod 3"
    unfolding CduChecker_ServiceCduFifo wrap using u by (simp only: if_distrib [of unat] unat_0)
  show ?thesis
  proof (cases "?q \<noteq> [] \<and> NextUpdate ?f \<le> ?t")
    case True
    then have "fst (ServiceCduFifo State) = 1"
      "CduFifos (snd (ServiceCduFifo State)) k = PopEntry ?t ?f"
      "creg (snd (ServiceCduFifo State)) (26 + k) =
        (if bit ?c 30 then snd (CounterMCDU (creg State (26 + k)))
         else snd (CounterPCDU (creg State (26 + k))))"
      using q by (simp_all add: ServiceCduFifo_def Let_def k(1) [symmetric] bit_tests_kind add.commute)
    then show ?thesis
      using True turn hd rest PopEntry_pace [OF b, of ?t] cdu.up [OF w] cdu.down [OF w]
      by (simp add: Let_def bit_tests_kind)
  next
    case False
    then have "fst (ServiceCduFifo State) = 0" "CduFifos (snd (ServiceCduFifo State)) = CduFifos State"
      "Erasable (snd (ServiceCduFifo State)) = Erasable State"
      using q by (auto simp: ServiceCduFifo_def Let_def k(1) [symmetric])
    then show ?thesis
      using False turn by (simp only: Let_def if_False simp_thms)
  qed
qed

theorem ServiceCduFifo_dequeues_witness:
  "let State = (PushCduFifo 26 3 power_on)\<lparr>CycleCounter := 300\<rparr>;
      State' = snd (ServiceCduFifo State)
   in fifo_pulses (CduFifos State 0) = [0x40000000] \<and> fifo_pulses (CduFifos State' 0) = [] \<and>
      uint (creg State' 26) = 32767"
proof -
  define S where "S = (PushCduFifo 26 3 power_on)\<lparr>CycleCounter := 300\<rparr>"
  have f: "CduFifos S 0 = \<lparr>Ptr = 0, Size = 1, IntervalType = 1, NextUpdate = 213,
      Counts = (\<lambda>_. 0)(0 := 0x40000001)\<rparr>" and s: "CduChecker S = 0" "creg S 26 = 0"
    "CycleCounter S = 300"
    by (simp_all add: S_def PushCduFifo_def PushEntry_def power_on_def)
  have e: "fifo_entries (CduFifos S 0) = [0x40000001]"
    unfolding f by (simp add: fifo_entries_def)
  have p: "fifo_pulses (CduFifos S 0) = [0x40000000]"
    by (simp add: fifo_pulses_def e)
  have "fifo_ok (CduFifos S 0)"
    by (simp add: fifo_ok_def e) (simp add: fifo_bounds_def f)
  then show ?thesis
    using ServiceCduFifo_dequeues [of 0 S] s p bit_tests_kind [of "0x40000000"]
    by (simp add: S_def [symmetric] Let_def f)
qed

end
