(* ===== verification/AGC_Input.thy ===== *)
theory AGC_Input
  imports AGC_CduFifo
begin

text \<open>
  Unprogrammed counter increments (\<open>UnprogrammedIncrement\<close> of
  \<open>src/yaAGC/agc_engine.c\<close>) and the input half of the ring-buffer transport
  (\<open>ChannelInput\<close> of \<open>src/yaAGC/ringbuffer_api.c\<close>).  The loop over the waiting
  packets always returns, and handles them in the order in which they were queued.
\<close>

unbundle bit_operations_syntax

section \<open>Unprogrammed increments\<close>

definition UnprogrammedIncrement :: "nat \<Rightarrow> cint \<Rightarrow> yaagc \<Rightarrow> yaagc" where
  "UnprogrammedIncrement Counter IncType State =
     (let Counter = Counter AND 0x7F;
          Ch = creg State Counter;
          Cdu = FIRST_CDU \<le> Counter \<and> Counter < FIRST_CDU + NUM_CDU_FIFOS
      in if IncType = 0 then set_creg Counter (snd (CounterPINC Ch)) State
         else if IncType = 1 \<or> IncType = 0x11 then
           if Cdu then PushCduFifo Counter IncType State
           else set_creg Counter (snd (CounterPCDU Ch)) State
         else if IncType = 2 then set_creg Counter (snd (CounterMINC Ch)) State
         else if IncType = 3 \<or> IncType = 0x13 then
           if Cdu then PushCduFifo Counter IncType State
           else set_creg Counter (snd (CounterMCDU Ch)) State
         else if IncType = 4 then
           (case CounterDINC State Counter Ch of (_, i, State) \<Rightarrow> set_creg Counter i State)
         else if IncType = 5 then set_creg Counter (snd (CounterSHINC Ch)) State
         else if IncType = 6 then set_creg Counter (snd (CounterSHANC Ch)) State
         else State)"

section \<open>Input packets\<close>

text \<open>One packet: \<open>None\<close> goes on with the next, \<open>Some r\<close> returns \<open>r\<close>.\<close>

definition InputPacket :: "packet \<Rightarrow> yaagc \<Rightarrow> cint option \<times> yaagc" where
  "InputPacket Packet State =
     (case ParseIoPacket Packet of
        None \<Rightarrow> (None, State)
      | Some (Channel, Value, uBit) \<Rightarrow>
          let Value = Value AND 0x7FFF;
              Ch = unat Channel
          in if uBit \<noteq> 0 then
               (None, State\<lparr>ChannelMasks := (ChannelMasks State)(Ch := Value)\<rparr>)
             else if Channel AND 0x80 \<noteq> 0 then
               (Some 1, UnprogrammedIncrement Ch Value State)
             else
               let Value = Value AND ChannelMasks State Ch;
                   Value = Value OR (ReadIO State Ch AND NOT (ChannelMasks State Ch));
                   State = WriteIO Ch Value State
               in (None,
                   if Ch = 0xD then request 5 State
                   else if Ch = 0x7B then
                     request 7 (set_creg RegINLINK (i16_of_int (Value AND 0x7FFF)) State)
                   else if Ch = 0x76 then
                     ChannelOutput Ch Value (State\<lparr>LastRhcPitch := Value\<rparr>)
                   else if Ch = 0x77 then
                     ChannelOutput Ch Value (State\<lparr>LastRhcYaw := Value\<rparr>)
                   else if Ch = 0x78 then
                     ChannelOutput Ch Value (State\<lparr>LastRhcRoll := Value\<rparr>)
                   else State))"

text \<open>The loop runs until the queue is empty or a counter packet was handled; not returning
  would be \<open>None\<close>.\<close>

partial_function (option) InputLoop :: "yaagc \<Rightarrow> (cint \<times> yaagc) option" where
  "InputLoop State =
     (case ringbuffer_get (ringbuffer_in State) of
        (None, buf) \<Rightarrow> Some (0, State\<lparr>ringbuffer_in := buf\<rparr>)
      | (Some Packet, buf) \<Rightarrow>
          (case InputPacket Packet (State\<lparr>ringbuffer_in := buf\<rparr>) of
             (Some r, State) \<Rightarrow> Some (r, State)
           | (None, State) \<Rightarrow> InputLoop State))"

definition ChannelInput :: "yaagc \<Rightarrow> (cint \<times> yaagc) option" where
  "ChannelInput State =
     InputLoop (if \<not> ChannelIsSetUp State then ChannelSetup State else State)"

section \<open>The input loop\<close>

text \<open>What \<open>InputLoop\<close> does, on the list of waiting packets: the packets are handled in
  order, up to and including the first one for a counter.\<close>

fun ProcessPackets :: "packet list \<Rightarrow> yaagc \<Rightarrow> cint \<times> packet list \<times> yaagc" where
  "ProcessPackets [] State = (0, [], State)"
| "ProcessPackets (p # ps) State =
     (case InputPacket p State of
        (Some r, State) \<Rightarrow> (r, ps, State)
      | (None, State) \<Rightarrow> ProcessPackets ps State)"

text \<open>Handling a packet neither reads nor changes the input queue, once it is set up.\<close>

lemma ChannelOutput_in:
  "ChannelIsSetUp State \<Longrightarrow>
     ChannelOutput n v (State\<lparr>ringbuffer_in := b\<rparr>) = (ChannelOutput n v State)\<lparr>ringbuffer_in := b\<rparr>"
  "ChannelIsSetUp (ChannelOutput n v State)"
  "ChannelIsSetUp State \<Longrightarrow> ringbuffer_in (ChannelOutput n v State) = ringbuffer_in State"
  by (simp_all add: ChannelOutput_def Let_def ChannelSetup_def split: option.split)

lemma WriteIO_in:
  "WriteIO n v (State\<lparr>ringbuffer_in := b\<rparr>) = (WriteIO n v State)\<lparr>ringbuffer_in := b\<rparr>"
  by (simp add: WriteIO_def Let_def)

lemma CounterDINC_in:
  "ChannelIsSetUp State \<Longrightarrow>
     CounterDINC (State\<lparr>ringbuffer_in := b\<rparr>) n i =
       (case CounterDINC State n i of (z, i, State) \<Rightarrow> (z, i, State\<lparr>ringbuffer_in := b\<rparr>))"
  "ChannelIsSetUp State \<Longrightarrow> ChannelIsSetUp (snd (snd (CounterDINC State n i)))"
  "ChannelIsSetUp State \<Longrightarrow> ringbuffer_in (snd (snd (CounterDINC State n i))) = ringbuffer_in State"
  by (simp_all add: CounterDINC_def Let_def ChannelOutput_in)

lemma update_in:
  "State\<lparr>ringbuffer_in := b, Erasable := e\<rparr> = State\<lparr>Erasable := e, ringbuffer_in := b\<rparr>"
  "State\<lparr>ringbuffer_in := b, CduFifos := f\<rparr> = State\<lparr>CduFifos := f, ringbuffer_in := b\<rparr>"
  "State\<lparr>ringbuffer_in := b, InterruptRequests := r\<rparr> = State\<lparr>InterruptRequests := r, ringbuffer_in := b\<rparr>"
  "State\<lparr>ringbuffer_in := b, ChannelMasks := m\<rparr> = State\<lparr>ChannelMasks := m, ringbuffer_in := b\<rparr>"
  "State\<lparr>ringbuffer_in := b, LastRhcPitch := v\<rparr> = State\<lparr>LastRhcPitch := v, ringbuffer_in := b\<rparr>"
  "State\<lparr>ringbuffer_in := b, LastRhcYaw := v\<rparr> = State\<lparr>LastRhcYaw := v, ringbuffer_in := b\<rparr>"
  "State\<lparr>ringbuffer_in := b, LastRhcRoll := v\<rparr> = State\<lparr>LastRhcRoll := v, ringbuffer_in := b\<rparr>"
  by simp_all

lemma PushCduFifo_in:
  "PushCduFifo c t (State\<lparr>ringbuffer_in := b\<rparr>) = (PushCduFifo c t State)\<lparr>ringbuffer_in := b\<rparr>"
  "ChannelIsSetUp (PushCduFifo c t State) = ChannelIsSetUp State"
  "ringbuffer_in (PushCduFifo c t State) = ringbuffer_in State"
  by (simp_all add: PushCduFifo_def update_in)

lemma UnprogrammedIncrement_in:
  assumes "ChannelIsSetUp State"
  shows "UnprogrammedIncrement c t (State\<lparr>ringbuffer_in := b\<rparr>) =
      (UnprogrammedIncrement c t State)\<lparr>ringbuffer_in := b\<rparr>"
    and "ChannelIsSetUp (UnprogrammedIncrement c t State)"
    and "ringbuffer_in (UnprogrammedIncrement c t State) = ringbuffer_in State"
proof -
  obtain k where k: "k = c AND 0x7F" by simp
  obtain cdu where cdu: "(FIRST_CDU \<le> k \<and> k < FIRST_CDU + NUM_CDU_FIFOS) = cdu" by simp
  note unfold = UnprogrammedIncrement_def Let_def k [symmetric] cdu
  note dinc = CounterDINC_in(2,3) [OF assms, of k "creg State k"]
  show "UnprogrammedIncrement c t (State\<lparr>ringbuffer_in := b\<rparr>) =
      (UnprogrammedIncrement c t State)\<lparr>ringbuffer_in := b\<rparr>"
    unfolding unfold 
    by (simp only: PushCduFifo_in CounterDINC_in(1) [OF assms] split_beta fst_conv snd_conv
        if_distrib [of "\<lambda>S. S\<lparr>ringbuffer_in := b\<rparr>"]) (simp add: update_in)
  show "ChannelIsSetUp (UnprogrammedIncrement c t State)"
    unfolding unfold using dinc assms by (simp add: PushCduFifo_in split_beta)
  show "ringbuffer_in (UnprogrammedIncrement c t State) = ringbuffer_in State"
    unfolding unfold using dinc by (simp add: PushCduFifo_in split_beta)
qed

lemma InputPacket_in:
  assumes "ChannelIsSetUp State"
  shows "InputPacket p (State\<lparr>ringbuffer_in := b\<rparr>) =
      (fst (InputPacket p State), (snd (InputPacket p State))\<lparr>ringbuffer_in := b\<rparr>)"
    and "ChannelIsSetUp (snd (InputPacket p State))"
    and "ringbuffer_in (snd (InputPacket p State)) = ringbuffer_in State"
  using assms
  by (cases "ParseIoPacket p"; simp add: InputPacket_def Let_def UnprogrammedIncrement_in
      WriteIO_in ChannelOutput_in update_in ReadIO_def split_beta)+

lemma ProcessPackets_in:
  "ChannelIsSetUp State \<Longrightarrow>
     ProcessPackets ps (State\<lparr>ringbuffer_in := b\<rparr>) =
       (case ProcessPackets ps State of (r, rest, State) \<Rightarrow> (r, rest, State\<lparr>ringbuffer_in := b\<rparr>))"
proof (induction ps arbitrary: State)
  case (Cons p ps)
  obtain o' S' where io: "InputPacket p State = (o', S')" by fastforce
  then show ?case
    using InputPacket_in [OF Cons.prems, of p] Cons.IH [of S']
    by (auto split: option.split prod.split)
qed simp

lemma InputLoop_process:
  assumes "ChannelIsSetUp State" "rb_ok (ringbuffer_in State)"
    and "ProcessPackets (rb_contents (ringbuffer_in State)) State = (r, rest, State')"
  shows "\<exists>b. InputLoop State = Some (r, State'\<lparr>ringbuffer_in := b\<rparr>) \<and> rb_ok b \<and> rb_contents b = rest"
  using assms
proof (induction "rb_contents (ringbuffer_in State)" arbitrary: State State')
  case Nil
  have "InputLoop State = Some (0, State)"
    using rb.get_empty [OF Nil.prems(2)] Nil.hyps by (subst InputLoop.simps) simp
  moreover have "r = 0" "rest = []" "State' = State"
    using Nil.prems(3) by (simp_all flip: Nil.hyps)
  ultimately show ?case
    using Nil.prems(2) Nil.hyps by (intro exI [of _ "ringbuffer_in State"]) simp
next
  case (Cons p ps)
  obtain b where b: "ringbuffer_get (ringbuffer_in State) = (Some p, b)" "rb_ok b" "rb_contents b = ps"
    using rb.get_first [OF Cons.prems(2) Cons.hyps(2) [symmetric]]
    by (cases "ringbuffer_get (ringbuffer_in State)") auto
  note pkt = InputPacket_in [OF Cons.prems(1), of p]
  obtain o' S' where io: "InputPacket p State = (o', S')" by fastforce
  have loop: "InputLoop State = (case (o', S'\<lparr>ringbuffer_in := b\<rparr>) of
      (Some r, State) \<Rightarrow> Some (r, State) | (None, State) \<Rightarrow> InputLoop State)"
    by (subst InputLoop.simps) (simp add: b pkt(1) io)
  have steps: "(case o' of Some x \<Rightarrow> (x, ps, S') | None \<Rightarrow> ProcessPackets ps S') = (r, rest, State')"
    using Cons.prems(3) by (simp add: Cons.hyps(2) [symmetric] io split: option.splits)
  show ?case
  proof (cases o')
    case (Some x)
    then show ?thesis
      using steps b by (auto simp: loop)
  next
    case None
    have "ChannelIsSetUp S'" using pkt(2) io by simp
    then show ?thesis
      using Cons.hyps(1) [of "S'\<lparr>ringbuffer_in := b\<rparr>" "State'\<lparr>ringbuffer_in := b\<rparr>"] b None steps
      by (simp add: loop ProcessPackets_in)
  qed
qed

section \<open>Properties\<close>



end
