(* ===== verification/AGC_Engine.thy ===== *)
theory AGC_Engine
  imports AGC_Instructions AGC_Timers AGC_Peripherals AGC_Input
begin

text \<open>
  The function \<open>agc_engine\<close> of \<open>src/yaAGC/agc_engine.c\<close>: one machine cycle.  The
  bookkeeping before the instruction, instruction fetch, interrupts, the timing of instructions
  that take several cycles, the \<open>switch\<close> and the end of the cycle (\<open>AllDone\<close>) are
  one definition each.  The result is the new state; \<open>None\<close> is a run that leaves the arrays
  or that does not return.  \<open>CoverageCounts\<close> is 0, \<open>ChannelRoutine\<close>,
  \<open>BacktraceAdd\<close> and \<open>ShiftToDeda\<close> are empty in this configuration.
\<close>

unbundle bit_operations_syntax

section \<open>Before the instruction\<close>

definition Prologue :: "yaagc \<Rightarrow> yaagc" where
  "Prologue State =
     (let State =
        (if DownruptTimeValid State \<and> DownruptTime State \<le> CycleCounter State
         then (request 8 State)\<lparr>DownruptTimeValid := False\<rparr> else State);
          State = (if CycleCounter State = 0 then State\<lparr>RestartLight := True\<rparr> else State);
          State = State\<lparr>CycleCounter := CycleCounter State + 1\<rparr>;
          State = (if DedaMonitor State \<and> DedaWhen State \<le> CycleCounter State
                   then State\<lparr>DedaWhen := CycleCounter State + 42666\<rparr> else State);
          State = State\<lparr>ScalerCounter := ScalerCounter State + SCALER_DIVIDER,
                    DskyTimer := DskyTimer State + SCALER_DIVIDER\<rparr>;
          State = State\<lparr>ChannelRoutineCount := (ChannelRoutineCount State + 1) AND 0x1FFF\<rparr>
      in UpdateDSKY State)"

text \<open>The waits of instructions and counters: \<open>True\<close> ends the cycle.\<close>

definition TakeDelay :: "yaagc \<Rightarrow> bool \<times> yaagc" where
  "TakeDelay State =
     (if ExtraDelay State \<noteq> 0 then (True, State\<lparr>ExtraDelay := ExtraDelay State - 1\<rparr>)
      else if PendFlag State \<and> PendDelay State > 0
      then (True, State\<lparr>PendDelay := PendDelay State - 1\<rparr>)
      else
        case ServiceCduFifo State of
          (RetVal, State) \<Rightarrow> if RetVal \<noteq> 0 then (True, State) else (False, State))"

definition ReleasePro :: "yaagc \<Rightarrow> yaagc" where
  "ReleasePro State =
     (if InputChannel State 0x1A AND 0x2000 \<noteq> 0
      then State\<lparr>SbyPressed := False, SbyStillPressed := False\<rparr> else State)"

section \<open>Instruction fetch\<close>

definition FetchInstruction :: "yaagc \<Rightarrow> u16 \<times> nat \<times> yaagc" where
  "FetchInstruction State =
     (let ProgramCounter = unat (creg State RegZ) AND 0xFFF;
          (WhereWord, State) = FindMemoryWord State ProgramCounter;
          Word = (if SubstituteInstruction State then creg State RegBRUPT
                  else OverflowCorrected
                    (AddSP16 (SignExtend (IndexValue State)) (SignExtend (deref State WhereWord))))
      in (Word AND 0x7FFF, ProgramCounter, State))"

definition Decode :: "u16 \<Rightarrow> yaagc \<Rightarrow> insn" where
  "Decode Word State =
     \<lparr>Instruction = Word,
      ExtendedOpcode = unat (shr 9 Word) OR (if ExtraCode State then 0x40 else 0),
      Address12 = unat Word AND 0xFFF,
      Address10 = unat Word AND 0x3FF,
      Address9 = unat Word AND 0x1FF,
      Accumulator = reg16 State RegA,
      Overflow = ValueOverflowed (reg16 State RegA) \<noteq> AGC_P0,
      CurrentEB = creg State RegEB,
      CurrentFB = creg State RegFB,
      CurrentBB = creg State RegBB\<rparr>"

section \<open>Interrupts\<close>

definition InterruptAllowed :: "insn \<Rightarrow> yaagc \<Rightarrow> bool" where
  "InterruptAllowed i State \<longleftrightarrow>
     DebuggerInterruptMasks State 0 \<and> \<not> InIsr State \<and> AllowInterrupt State \<and>
       \<not> ExtraCode State \<and> \<not> PendFlag State \<and> \<not> Overflow i \<and>
       Instruction i \<noteq> 3 \<and> Instruction i \<noteq> 4 \<and> Instruction i \<noteq> 6
     \<or> ExtendedOpcode i = 0x47"

definition PendingInterrupt :: "yaagc \<Rightarrow> nat option" where
  "PendingInterrupt State =
     List.find (\<lambda>i. InterruptRequests State i \<noteq> 0 \<and> DebuggerInterruptMasks State i)
       [1, 2, 3, 4, 5, 6, 7, 8, 9, 10]"

definition SelectInterrupt :: "insn \<Rightarrow> yaagc \<Rightarrow> bool \<times> yaagc" where
  "SelectInterrupt i State =
     (case PendingInterrupt State of
        Some k \<Rightarrow>
          (True, set_NextZ (0x800 + 4 * of_nat k)
             (State\<lparr>InterruptRequests := (InterruptRequests State)(k := 0, 0 := of_nat k)\<rparr>))
      | None \<Rightarrow>
          if ExtendedOpcode i = 0x47 then (True, set_NextZ 0 State) else (False, State))"

text \<open>\<open>Some\<close> is a taken interrupt; the program counter and instruction are saved.\<close>

definition TakeInterrupt :: "insn \<Rightarrow> nat \<Rightarrow> yaagc \<Rightarrow> yaagc option" where
  "TakeInterrupt i ProgramCounter State =
     (if InterruptAllowed i State then
        case SelectInterrupt i State of
          (False, State) \<Rightarrow> None
        | (True, State) \<Rightarrow>
            let State = set_creg RegZRUPT (of_nat (ProgramCounter + 1)) State;
                State = set_creg RegBRUPT (Instruction i) State
            in Some (State\<lparr>ExtraCode := False, IndexValue := AGC_P0,
                 SubstituteInstruction := False, InIsr := True,
                 ExtraDelay := ExtraDelay State + 1\<rparr>)
      else None)"

section \<open>Timing\<close>

definition InstructionTiming :: "nat list" where
  "InstructionTiming =
     [0, 0, 0, 0,  1, 0, 0, 0,  2, 1, 1, 1,  1, 1, 1, 1,
      1, 1, 1, 1,  1, 2, 1, 1,  1, 1, 1, 1,  1, 1, 1, 1]"

definition ExtracodeTiming :: "nat list" where
  "ExtracodeTiming =
     [1, 1, 1, 1,  5, 0, 0, 0,  1, 1, 1, 1,  2, 2, 2, 2,
      2, 2, 2, 2,  1, 1, 1, 1,  1, 0, 0, 0,  2, 2, 2, 2]"

text \<open>\<open>True\<close>: the instruction waits for its last cycle.\<close>

definition StartTiming :: "insn \<Rightarrow> yaagc \<Rightarrow> bool \<times> yaagc" where
  "StartTiming i State =
     (if \<not> PendFlag State then
        let k = unat (shr 10 (Instruction i AND NOT 0x3FF));
            n = (if ExtraCode State then ExtracodeTiming ! k else InstructionTiming ! k)
        in if n \<noteq> 0
           then (True, State\<lparr>PendFlag := True, PendDelay := of_nat (n - 1)\<rparr>)
           else (False, State)
      else (False, State\<lparr>PendFlag := False\<rparr>))"

section \<open>The switch\<close>

text \<open>An instruction that sets no mark, and one that may leave the arrays.\<close>

abbreviation quiet :: "(yaagc \<Rightarrow> yaagc) \<Rightarrow> marks \<times> yaagc \<Rightarrow> (marks \<times> yaagc) option" where
  "quiet f ms \<equiv> Some (fst ms, f (snd ms))"

abbreviation partial :: "(yaagc \<Rightarrow> yaagc option) \<Rightarrow> marks \<times> yaagc \<Rightarrow> (marks \<times> yaagc) option" where
  "partial f ms \<equiv> map_option (Pair (fst ms)) (f (snd ms))"

definition mark_transient :: "marks \<times> yaagc \<Rightarrow> marks \<times> yaagc" where
  "mark_transient ms = ((fst ms)\<lparr>TCTransient := True\<rparr>, snd ms)"

definition Execute :: "insn \<Rightarrow> marks \<times> yaagc \<Rightarrow> (marks \<times> yaagc) option" where
  "Execute i ms =
     (let op = ExtendedOpcode i
      in if op \<le> 0x07 then Some (exec_TC i ms)
         else if op \<le> 0x09 then quiet (exec_CCS i) ms
         else if op \<le> 0x0F then Some (exec_TCF i ms)
         else if op \<le> 0x11 then partial (exec_DAS i) ms
         else if op \<le> 0x13 then quiet (exec_LXCH i) ms
         else if op \<le> 0x15 then quiet (exec_INCR i) ms
         else if op \<le> 0x17 then quiet (exec_ADS i) ms
         else if op \<le> 0x1F then quiet (exec_CA i) ms
         else if op \<le> 0x27 then quiet (exec_CS i) (mark_transient ms)
         else if op \<le> 0x29 then quiet (exec_INDEX i) ms
         else if op \<le> 0x2B then partial (exec_DXCH i) (mark_transient ms)
         else if op \<le> 0x2D then quiet (exec_TS i) (mark_transient ms)
         else if op \<le> 0x2F then quiet (exec_XCH i) (mark_transient ms)
         else if op \<le> 0x37 then quiet (exec_AD i) ms
         else if op \<le> 0x3F then quiet (exec_MASK i) ms
         else if op = 0x40 then quiet (exec_READ i) ms
         else if op = 0x41 then quiet (exec_WRITE i) ms
         else if op = 0x42 then quiet (exec_RAND i) ms
         else if op = 0x43 then quiet (exec_WAND i) ms
         else if op = 0x44 then quiet (exec_ROR i) ms
         else if op = 0x45 then quiet (exec_WOR i) ms
         else if op = 0x46 then quiet (exec_RXOR i) ms
         else if op = 0x47 then Some ms
         else if op \<le> 0x49 then quiet (exec_DV (Address10 i) (Accumulator i)) ms
         else if op \<le> 0x4F then Some (exec_BZF i ms)
         else if op \<le> 0x51 then quiet (exec_MSU i) ms
         else if op \<le> 0x53 then quiet (exec_QXCH i) ms
         else if op \<le> 0x55 then quiet (exec_AUG i) ms
         else if op \<le> 0x57 then quiet (exec_DIM i) ms
         else if op \<le> 0x5F then partial (exec_DCA i) ms
         else if op \<le> 0x67 then partial (exec_DCS i) ms
         else if op \<le> 0x6F then Some (exec_INDEX_extra i ms)
         else if op \<le> 0x71 then quiet (exec_SU i) ms
         else if op \<le> 0x77 then Some (exec_BZMF i ms)
         else if op \<le> 0x7F then quiet (exec_MP (Address12 i) (Accumulator i)) ms
         else Some ms)"

section \<open>The end of the cycle\<close>

definition MirrorBanks :: "insn \<Rightarrow> yaagc \<Rightarrow> yaagc" where
  "MirrorBanks i State =
     (let State =
        (if CurrentBB i \<noteq> creg State RegBB then
           set_creg RegEB (shl 8 (creg State RegBB AND 7))
             (set_creg RegFB (creg State RegBB AND 0x7C00) State)
         else if CurrentEB i \<noteq> creg State RegEB \<or> CurrentFB i \<noteq> creg State RegFB then
           set_creg RegBB ((creg State RegFB AND 0x7C00) OR shr 8 (creg State RegEB AND 0x700)) State
         else State);
          State = set_creg RegEB (creg State RegEB AND 0x700) State;
          State = set_creg RegFB (creg State RegFB AND 0x7C00) State
      in set_creg RegBB (creg State RegBB AND 0x7C07) State)"

definition AllDone :: "insn \<Rightarrow> marks \<times> yaagc \<Rightarrow> yaagc" where
  "AllDone i = (\<lambda>(m, State).
     if \<not> PendFlag State then
       let State = set_creg RegZERO AGC_P0 State;
           State = State\<lparr>OutputChannel7 := OutputChannel7 State AND 0x70\<rparr>;
           State = set_chan 7 (OutputChannel7 State) State;
           State = put_reg RegZ (NextZ State) State;
           State = (if \<not> SubstituteInstruction State
                    then set_creg RegZ (creg State RegZ AND 0xFFF) State else State);
           State = (if \<not> KeepExtraCode m then State\<lparr>ExtraCode := False\<rparr> else State);
           State = MirrorBanks i State;
           State = put_reg RegL (Correct16 (int_of_i16 (creg State RegL))) State;
           State = (if InIsr State then State\<lparr>NoRupt := False\<rparr> else State\<lparr>RuptLock := False\<rparr>);
           State = (if ExecutedTC m \<or> TCTransient m then State\<lparr>NoTC := False\<rparr> else State);
           State = (if \<not> ExecutedTC m then State\<lparr>TCTrap := False\<rparr> else State)
       in State\<lparr>TookBZF := JustTookBZF m, TookBZMF := JustTookBZMF m\<rparr>
     else State)"

section \<open>One cycle\<close>

text \<open>What happens between fetch and \<open>switch\<close>: index and substitution are used up, and
  \<open>Z\<close> moves on.\<close>

definition StepProgramCounter :: "yaagc \<Rightarrow> yaagc" where
  "StepProgramCounter State =
     (let State = State\<lparr>IndexValue := AGC_P0, SubstituteInstruction := False,
            NextZ := 1 + int_of_i16 (creg State RegZ)\<rparr>
      in put_reg RegZ (NextZ State) State)"

definition InitialMarks :: "insn \<Rightarrow> yaagc \<Rightarrow> marks" where
  "InitialMarks i State =
     (if TookBZF State \<and> \<not> (ExtendedOpcode i = 0 \<and> Address12 i = 6)
      then no_marks\<lparr>TCTransient := True\<rparr> else no_marks)"

definition RunInstruction :: "yaagc \<Rightarrow> yaagc option" where
  "RunInstruction State =
     (case FetchInstruction State of
        (Word, ProgramCounter, State') \<Rightarrow>
          let i = Decode Word State'
          in case TakeInterrupt i ProgramCounter State' of
               Some State'' \<Rightarrow> Some (AllDone i (no_marks, State''))
             | None \<Rightarrow>
                 (case StartTiming i State' of
                    (True, State'') \<Rightarrow> Some State''
                  | (False, State'') \<Rightarrow>
                      let State'' = StepProgramCounter State''
                      in map_option (AllDone i) (Execute i (InitialMarks i State'', State''))))"

definition agc_engine :: "yaagc \<Rightarrow> yaagc option" where
  "agc_engine State =
     (case ChannelInput (Prologue State) of
        None \<Rightarrow> None
      | Some (RetVal, State) \<Rightarrow>
          if RetVal \<noteq> 0 \<or> DebugDsky State then Some State
          else case TakeDelay State of
            (True, State) \<Rightarrow> Some State
          | (False, State) \<Rightarrow>
              (case ScalerLoop (ReleasePro State) of
                 (True, State) \<Rightarrow> Some State
               | (False, State) \<Rightarrow>
                   if Standby State then Some State
                   else RunInstruction (DriveOptics (DriveImu (DriveGyro State)))))"

end
