(* ===== verification/AGC_Programs.thy ===== *)
theory AGC_Programs
  imports AGC_Instructions
begin

text \<open>
  What the instructions of the emulator do, in terms of the numbers that the registers and the
  memory hold: the four-way branch of \<open>CCS\<close>, double precision addition, the exchanges.
  A register of 16 bits has the value \<open>acc_val\<close>, a word of memory \<open>sp_val\<close>.
\<close>

unbundle bit_operations_syntax

section \<open>Memory as the instructions see it\<close>

lemma FindMemoryWord_same:
  assumes "FindMemoryWord State a = (p, T)"
  shows "Erasable T = Erasable State" "deref T q = deref State q" "NextZ T = NextZ State"
    "FindMemoryWord State a = (fst (FindMemoryWord State a), T)"
  using FindMemoryWord_frame [of State a] deref_FindMemoryWord [of State a q]
  by (simp_all add: assms)

lemma uint_reg16: "uint (int_of_u16 w) < 65536"
proof -
  have "uint w mod 4294967296 = uint w"
    using uint_i16_lt [of w] uint_ge_0 [of w] by (intro mod_pos_pos_trivial) linarith+
  then show ?thesis
    using uint_i16_lt [of w] by (simp add: unsigned_ucast_eq take_bit_eq_mod)
qed

lemma deref_set_creg:
  "deref (set_creg r v State) p = (if p = ErasableLoc r then v else deref State p)"
  by (simp add: deref_def split: loc.split)

lemma plain_cellD: "plain_cell p \<Longrightarrow> \<exists>i. p = ErasableLoc i \<and> REG16 \<le> i \<and> i < 2048"
  by (auto simp: plain_cell_def split: loc.splits)

lemma deref_AssignFromPointer_plain:
  "plain_cell p \<Longrightarrow> deref (AssignFromPointer p v State) q = (if q = p then stored_at p v else deref State q)"
  using plain_cellD [of p] by (auto simp: deref_AssignFromPointer)

lemma creg_AssignFromPointer_plain:
  "plain_cell p \<Longrightarrow> r < REG16 \<Longrightarrow> creg (AssignFromPointer p v State) r = creg State r"
  using plain_cellD [of p] by (auto simp: Erasable_AssignFromPointer)

lemma uint_int_of_i16: "uint w < 32768 \<Longrightarrow> uint (int_of_i16 w) = uint w"
  using uint_of_nonneg [of "int_of_i16 w"] sint_up_scast [of w, where 'b = 32]
  by (simp add: is_up sint_i16_small)

lemma stored_word:
  assumes "plain_cell p" "uint w < 32768"
  shows "stored_at p (int_of_i16 w) = w"
proof -
  have "int_of_i16 (stored_at p (int_of_i16 w)) = int_of_i16 w"
    using cell.norm_fits [OF assms(1), of "int_of_i16 w"] assms(2) by (simp add: uint_int_of_i16)
  then show ?thesis
    by (metis i16_of_int_of_i16)
qed

section \<open>Branching on a value\<close>

text \<open>The operand of \<open>CCS\<close> and its value: a register counts with its overflow.\<close>

definition ccs_value :: "nat \<Rightarrow> yaagc \<Rightarrow> int" where
  "ccs_value K State =
     (if K < REG16 then acc_val (reg16 State K) else sp_val (operand K State))"

lemma acc_val_zero_iff:
  assumes "uint v < 65536"
  shows "acc_val v = 0 \<longleftrightarrow> v = 0 \<or> v = 0xFFFF"
  using assms by (auto simp: acc_val_eq word_uint_eq_iff)

lemma int_of_u16_of_int: "uint v < 65536 \<Longrightarrow> int_of_u16 (i16_of_int v) = v"
  using uint_lt_iff_bits [of v 16] by (intro bit_word_eqI) (auto simp: not_le)

lemma acc_val_small: "uint v < 32768 \<Longrightarrow> acc_val v = uint v"
  by (simp add: acc_val_eq)

lemma branch_value:
  assumes "uint w < 32768"
  shows "w = 0x7FFF \<longleftrightarrow> sp_val w = 0 \<and> w \<noteq> 0" "w = 0 \<Longrightarrow> sp_val w = 0"
    "bit w 14 \<longleftrightarrow> sp_val w < 0 \<or> w = 0x7FFF"
  using assms bit_top_iff [of w 14] by (auto simp: sp_val_eq word_uint_eq_iff)

lemma OverflowCorrected_cases:
  assumes v: "uint v < 65536" and "ValueOverflowed v = AGC_P0"
  shows "sp_val (OverflowCorrected v) = acc_val v" "OverflowCorrected v = 0 \<longleftrightarrow> v = 0"
proof -
  have x: "\<bar>acc_val v\<bar> \<le> 16383"
    using assms(2) by (auto simp: ValueOverflowed_acc_val [OF v] split: if_splits)
  then show "sp_val (OverflowCorrected v) = acc_val v"
    using sp_val_OverflowCorrected [OF v] by auto
  then have "OverflowCorrected v = 0 \<Longrightarrow> v = 0 \<or> v = 0xFFFF"
    using acc_val_zero_iff [OF v] by (simp add: sp_val_zero)
  moreover have "OverflowCorrected 0xFFFF \<noteq> 0" "OverflowCorrected 0 = 0"
    by (simp_all add: OverflowCorrected_def shift_defs)
  ultimately show "OverflowCorrected v = 0 \<longleftrightarrow> v = 0" by auto
qed

lemma put_value_A:
  assumes "uint v = max 0 (\<bar>x\<bar> - 1)" "\<bar>x\<bar> \<le> 32767"
  shows "acc_val (int_of_u16 (i16_of_int v)) = max 0 (\<bar>x\<bar> - 1)"
  using assms int_of_u16_of_int [of v] acc_val_small [of v] by simp

lemma branch_cases:
  fixes n :: cint
  assumes "uint w < 32768"
  shows "(if w = AGC_P0 then n + 1 else if w = AGC_M0 then n + 3
      else if 0 \<noteq> w AND 0x4000 then n + 2 else n) =
    n + (if 0 < sp_val w then 0 else if sp_val w < 0 then 2 else if w = 0 then 1 else 3)"
proof -
  have "0 \<noteq> w AND 0x4000 \<longleftrightarrow> bit w 14"
    using bit_tests(11) [of w] by auto
  then show ?thesis
    using branch_value [OF assms] by auto
qed

text \<open>C26: \<open>CCS\<close> leaves the diminished absolute value of its operand in \<open>A\<close> and
  continues with the next instruction for a positive operand, skipping one for plus zero, two for
  a negative operand and three for minus zero.\<close>

theorem CCS_branches:
  assumes "Address10 i = K" "K < REG16 \<or> fst (FindMemoryWord State K) \<notin> ErasableLoc ` {0..5}"
  shows "let x = ccs_value K State; State' = exec_CCS i State;
      zero = (if K < REG16 then creg State K else 0x7FFF AND operand K State) = 0
    in acc_val (reg16 State' RegA) = max 0 (\<bar>x\<bar> - 1) \<and>
       NextZ State' = NextZ State + (if 0 < x then 0 else if x < 0 then 2 else if zero then 1 else 3)"
proof (cases "K < REG16")
  case True
  define v where "v = reg16 State K"
  have v: "uint v < 65536" unfolding v_def by (rule uint_reg16)
  define x where "x = acc_val v"
  have xb: "\<bar>x\<bar> \<le> 32767" using v by (auto simp: x_def acc_val_eq)
  have z: "creg State K = 0 \<longleftrightarrow> v = 0"
    unfolding v_def by (metis i16_of_int_of_u16 unsigned_0)
  note A = put_value_A [OF uint_odabs [OF v, folded x_def] xb]
  note w = uint_OverflowCorrected_lt [of v]
  have ov: "ValueOverflowed v = AGC_P1 \<longleftrightarrow> 16383 < x" "ValueOverflowed v = AGC_M1 \<longleftrightarrow> x < - 16383"
    "ValueOverflowed v = AGC_P0 \<longleftrightarrow> \<bar>x\<bar> \<le> 16383"
    by (auto simp: ValueOverflowed_acc_val [OF v] x_def)
  let ?n = "NextZ State"
  have nz: "NextZ (exec_CCS i State) =
      (if ValueOverflowed v = AGC_P1 then ?n else if ValueOverflowed v = AGC_M1 then ?n + 2
       else if OverflowCorrected v = AGC_P0 then ?n + 1 else if OverflowCorrected v = AGC_M0 then ?n + 3
       else if 0 \<noteq> OverflowCorrected v AND 0x4000 then ?n + 2 else ?n)"
    using assms(1) True by (simp add: exec_CCS_def v_def Let_def)
  have "NextZ (exec_CCS i State) = ?n + (if 0 < x then 0 else if x < 0 then 2 else if v = 0 then 1 else 3)"
  proof (cases "\<bar>x\<bar> \<le> 16383")
    case True
    then have p0: "ValueOverflowed v = AGC_P0" using ov(3) by blast
    show ?thesis
      unfolding nz branch_cases [OF w]
      unfolding OverflowCorrected_cases [OF v p0] x_def [symmetric] using True ov by simp
  next
    case False
    then show ?thesis unfolding nz using ov by auto
  qed
  moreover have "creg (exec_CCS i State) RegA = i16_of_int (odabs v)"
    using assms(1) True by (simp add: exec_CCS_def v_def Let_def)
  ultimately show ?thesis
    using A z True by (simp add: ccs_value_def v_def [symmetric] x_def Let_def)
next
  case False
  obtain p T where F: "FindMemoryWord State K = (p, T)" by fastforce
  note same = FindMemoryWord_same [OF F]
  define w where "w = 0x7FFF AND operand K State"
  have w: "uint w < 32768"
    unfolding w_def using mod_bounds [of 32768 "uint (operand K State)"] by simp
  have op: "deref T p AND 0x7FFF = w" "sp_val (operand K State) = sp_val w"
    using False by (simp add: w_def operand_def F same(2) and.commute) (simp add: w_def)
  have p: "p \<noteq> ErasableLoc RegZ" "p \<noteq> ErasableLoc RegA"
    using assms(2) False by (auto simp: F)
  let ?T = "AssignFromPointer p (int_of_i16 w) (set_creg RegA (dabs w) T)" and ?n = "NextZ State"
  have "NextZ ?T = ?n" "creg ?T RegA = dabs w"
    using p same(3) by (auto simp: NextZ_AssignFromPointer Erasable_AssignFromPointer split: loc.split)
  moreover have "NextZ (exec_CCS i State) = (if w = AGC_P0 then NextZ ?T + 1
      else if w = AGC_M0 then NextZ ?T + 3 else if 0 \<noteq> w AND 0x4000 then NextZ ?T + 2 else NextZ ?T)"
    "Erasable (exec_CCS i State) = Erasable ?T"
    using assms(1) False by (simp_all add: exec_CCS_def F op Let_def)
  ultimately have "creg (exec_CCS i State) RegA = dabs w"
      "NextZ (exec_CCS i State) = ?n +
        (if 0 < sp_val w then 0 else if sp_val w < 0 then 2 else if w = 0 then 1 else 3)"
    using branch_cases [OF w, of ?n] by (simp_all only:)
  moreover have "acc_val (int_of_u16 (dabs w)) = max 0 (\<bar>sp_val w\<bar> - 1)"
    using put_value_A [of "int_of_u16 (dabs w)" "sp_val w"] uint_dabs [OF w] sp_val_bounds [of w]
    by (simp add: unsigned_ucast_eq take_bit_eq_mod)
  ultimately show ?thesis
    using False op(2) by (simp add: ccs_value_def Let_def w_def [symmetric])
qed

definition insn_at :: "nat \<Rightarrow> yaagc \<Rightarrow> insn" where
  "insn_at K State =
     \<lparr>Instruction = 0, ExtendedOpcode = 0, Address12 = K, Address10 = K, Address9 = K,
      Accumulator = reg16 State RegA, Overflow = False, CurrentEB = 0, CurrentFB = 0, CurrentBB = 0\<rparr>"

theorem CCS_branches_witness:
  "let State = power_on\<lparr>Erasable := (\<lambda>_. 0)(48 := 0x7FF0)\<rparr>; State' = exec_CCS (insn_at 48 State) State
   in acc_val (reg16 State' RegA) = 14 \<and> NextZ State' = 2"
proof -
  let ?S = "power_on\<lparr>Erasable := (\<lambda>_. 0)(48 := 0x7FF0)\<rparr>"
  have F: "FindMemoryWord S 48 = (ErasableLoc 48, S)" for S
    by (simp add: FindMemoryWord_def)
  have "ccs_value 48 ?S = - 15"
    by (simp add: ccs_value_def operand_def F deref_def sp_val_def mask_bits)
  moreover have "NextZ ?S = 0" by (simp add: power_on_def)
  ultimately show ?thesis
    using CCS_branches [of "insn_at 48 ?S" 48 ?S] by (simp add: insn_at_def F Let_def image_iff)
qed

section \<open>Double precision addition\<close>

lemma carry_test:
  assumes "uint v < 65536"
  shows "0xC000 AND v = 0x4000 \<longleftrightarrow> 16383 < acc_val v" "0xC000 AND v = 0x8000 \<longleftrightarrow> acc_val v < - 16383"
proof -
  have "0xC000 AND v = (if bit v 14 then 0x4000 else 0) OR (if bit v 15 then 0x8000 else 0)"
    by (rule bit_word_eqI) (auto simp: bit_and_iff bit_or_iff mask_bits)
  then have "0xC000 AND v = 0x4000 \<longleftrightarrow> ValueOverflowed v = AGC_P1"
    "0xC000 AND v = 0x8000 \<longleftrightarrow> ValueOverflowed v = AGC_M1"
    by (auto simp: ValueOverflowed_bits)
  then show "0xC000 AND v = 0x4000 \<longleftrightarrow> 16383 < acc_val v" "0xC000 AND v = 0x8000 \<longleftrightarrow> acc_val v < - 16383"
    by (auto simp: ValueOverflowed_acc_val [OF assms])
qed

lemma acc_val_units: "acc_val AGC_P1 = 1" "acc_val (SignExtend AGC_M1) = - 1"
  "acc_val AGC_P0 = 0" "sp_val AGC_M1 = - 1"
  by (simp_all only: acc_val_SignExtend) (simp_all add: acc_val_def sp_val_def mask_bits)

text \<open>The words of a sum and the carry between them.\<close>

lemma CarryInto_value:
  assumes "uint l < 65536" "uint m < 65536" "\<bar>acc_val m\<bar> \<le> 32766"
  shows "acc_val (CarryInto l m) * 16384 + sp_val (OverflowCorrected l) = acc_val m * 16384 + acc_val l"
    and "uint (CarryInto l m) < 65536"
proof -
  have u: "uint (SignExtend AGC_M1) < 65536" "uint (AGC_P1 :: cint) < 65536"
    by (rule uint_SignExtend_lt) simp
  have c: "acc_val (CarryInto l m) = acc_val m +
      (if 16383 < acc_val l then 1 else if acc_val l < - 16383 then - 1 else 0)"
    using assms(3) acc_val_AddSP16 [OF assms(2) u(1)] acc_val_AddSP16 [OF assms(2) u(2)]
    by (simp add: CarryInto_def carry_test [OF assms(1)] acc_val_units)
  then show "acc_val (CarryInto l m) * 16384 + sp_val (OverflowCorrected l) = acc_val m * 16384 + acc_val l"
    using sp_val_OverflowCorrected [OF assms(1)] by auto
  show "uint (CarryInto l m) < 65536"
    using AddSP16_lt [OF assms(2) u(1)] AddSP16_lt [OF assms(2) u(2)] assms(2)
    by (simp add: CarryInto_def)
qed

text \<open>The new accumulator holds the carry out of the upper word.\<close>

lemma carry_out:
  assumes "uint m < 65536" "\<bar>acc_val m\<bar> \<le> 32767"
  shows "acc_val (int_of_u16 (i16_of_int (if 0xC000 AND m = 0x8000 then SignExtend AGC_M1
      else if 0xC000 AND m = 0x4000 then AGC_P1 else AGC_P0))) * 16384 + sp_val (OverflowCorrected m) =
    acc_val m"
proof -
  have u: "uint (SignExtend AGC_M1) < 65536" by (rule uint_SignExtend_lt)
  show ?thesis
    using sp_val_OverflowCorrected [OF assms(1)]
    by (auto simp: carry_test [OF assms(1)] int_of_u16_of_int [OF u] acc_val_units)
qed

lemma DAS_result:
  assumes K: "Address10 i = K" "REG16 < K" and p: "fst (FindMemoryWord State K) = p" "plain_cell p"
    and q: "pred_loc p = Some q" "plain_cell q"
  defines "l \<equiv> AddSP16 (reg16 State RegL) (SignExtend (deref State p))"
  defines "m \<equiv> CarryInto l (AddSP16 (Accumulator i) (SignExtend (deref State q)))"
  shows "\<exists>State'. exec_DAS i State = Some State' \<and> deref State' p = OverflowCorrected l \<and>
    deref State' q = OverflowCorrected m \<and> creg State' RegL = 0 \<and>
    creg State' RegA = i16_of_int (if 0xC000 AND m = 0x8000 then SignExtend AGC_M1
      else if 0xC000 AND m = 0x4000 then AGC_P1 else AGC_P0)"
proof -
  obtain T where F: "FindMemoryWord State K = (p, T)" using p(1) by (cases "FindMemoryWord State K") auto
  note same = FindMemoryWord_same [OF F]
  have pq: "p \<noteq> q"
    using q(1) by (auto simp: pred_loc_def split: loc.splits if_splits)
  have ra: "deref (set_creg r v S) p = deref S p" "deref (set_creg r v S) q = deref S q" if "r < REG16" for r v S
    using that plain_cellD [OF p(2)] plain_cellD [OF q(2)] by (auto simp: deref_set_creg)
  note plain = deref_AssignFromPointer_plain [OF p(2)] deref_AssignFromPointer_plain [OF q(2)]
    creg_AssignFromPointer_plain [OF p(2)] creg_AssignFromPointer_plain [OF q(2)]
    stored_word [OF p(2) uint_OverflowCorrected_lt] stored_word [OF q(2) uint_OverflowCorrected_lt]
  show ?thesis
    unfolding l_def m_def
    using K q(1) pq by (simp add: exec_DAS_def F same(1,2) ra plain Let_def)
qed

text \<open>C27: \<open>DAS\<close> adds the double precision number in \<open>A\<close>, \<open>L\<close> to the one in
  the memory exactly: the new memory words hold the sum and \<open>A\<close> the carry out of it (plus
  one, minus one or zero), while \<open>L\<close> is cleared.\<close>

theorem DAS_sum:
  assumes "Address10 i = K" "REG16 < K" "fst (FindMemoryWord State K) = p" "plain_cell p"
    "pred_loc p = Some q" "plain_cell q"
    and A: "Accumulator i = reg16 State RegA" "\<bar>acc_val (reg16 State RegA)\<bar> \<le> 16383"
    and L: "\<bar>acc_val (reg16 State RegL)\<bar> \<le> 16383"
  shows "case exec_DAS i State of None \<Rightarrow> False | Some State' \<Rightarrow>
    acc_val (reg16 State' RegA) * 2 ^ 28 + dp_val (deref State' q) (deref State' p) =
      acc_val (reg16 State RegA) * 2 ^ 14 + acc_val (reg16 State RegL) +
      dp_val (deref State q) (deref State p) \<and>
    creg State' RegL = 0"
proof -
  define l where "l = AddSP16 (reg16 State RegL) (SignExtend (deref State p))"
  define m0 where "m0 = AddSP16 (Accumulator i) (SignExtend (deref State q))"
  note S = uint_SignExtend_lt uint_reg16 sp_val_bounds [of "deref State p"] sp_val_bounds [of "deref State q"]
  have l: "uint l < 65536" "acc_val l = acc_val (reg16 State RegL) + sp_val (deref State p)"
    using L S unfolding l_def by (auto intro!: AddSP16_lt simp: acc_val_AddSP16)
  have m0: "uint m0 < 65536" "acc_val m0 = acc_val (reg16 State RegA) + sp_val (deref State q)"
    using A S unfolding m0_def by (auto intro!: AddSP16_lt simp: acc_val_AddSP16)
  then have "\<bar>acc_val m0\<bar> \<le> 32766" using A S by auto
  note carry = CarryInto_value [OF l(1) m0(1) this]
  have "\<bar>acc_val (CarryInto l m0)\<bar> \<le> 32767"
    using carry(2) by (auto simp: acc_val_eq)
  note out = carry_out [OF carry(2) this]
  obtain State' where "exec_DAS i State = Some State'" "deref State' p = OverflowCorrected l"
    "deref State' q = OverflowCorrected (CarryInto l m0)" "creg State' RegL = 0"
    "creg State' RegA = i16_of_int (if 0xC000 AND CarryInto l m0 = 0x8000 then SignExtend AGC_M1
      else if 0xC000 AND CarryInto l m0 = 0x4000 then AGC_P1 else AGC_P0)"
    using DAS_result [OF assms(1-6)] unfolding l_def m0_def by blast
  then show ?thesis
    using carry(1) out l(2) m0(2) by (simp add: dp_val_def algebra_simps del: unsigned_ucast_eq)
qed

theorem DAS_sum_witness:
  "let State = power_on\<lparr>Erasable := (\<lambda>_. 0)(0 := 0x2000, 1 := 0x3FFF, 48 := 0x2001, 49 := 2)\<rparr>
   in case exec_DAS (insn_at 49 State) State of None \<Rightarrow> False | Some State' \<Rightarrow>
     acc_val (reg16 State' RegA) * 2 ^ 28 + dp_val (deref State' (ErasableLoc 48)) (deref State' (ErasableLoc 49))
       = 0x4001 * 2 ^ 14 + 0x4001"
proof -
  let ?S = "power_on\<lparr>Erasable := (\<lambda>_. 0)(0 := 0x2000, 1 := 0x3FFF, 48 := 0x2001, 49 := 2)\<rparr>"
  have F: "FindMemoryWord S 49 = (ErasableLoc 49, S)" for S
    by (simp add: FindMemoryWord_def)
  have v: "acc_val 0x2000 = 0x2000" "acc_val 0x3FFF = 0x3FFF" "sp_val 0x2001 = 0x2001" "sp_val 2 = 2"
    by (simp_all add: acc_val_def sp_val_def mask_bits)
  show ?thesis
    using DAS_sum [of "insn_at 49 ?S" 49 ?S "ErasableLoc 49" "ErasableLoc 48"] v
    by (simp add: insn_at_def F plain_cell_def pred_loc_def deref_def dp_val_def split: option.splits)
qed

section \<open>Exchanges\<close>

lemma OverflowCorrected_int_of_i16: "OverflowCorrected (int_of_i16 w) = OverflowCorrected (int_of_u16 w)"
  by (rule i16_eqI) (auto simp: OverflowCorrected_def bit_and_iff bit_or_iff bit_sar bit_shr mask_bits)

definition corrected :: "int \<Rightarrow> int" where
  "corrected x = (if 16383 < x then x - 16384 else if x < - 16383 then x + 16384 else x)"

text \<open>\<open>XCH\<close>, \<open>LXCH\<close> and \<open>QXCH\<close> exchange a register with a memory cell: the
  register gets the value of the cell and the cell the overflow-corrected value of the register;
  no other cell changes.\<close>

theorem exchanges:
  assumes K: "Address10 i = K" "REG16 \<le> K" and p: "fst (FindMemoryWord State K) = p" "plain_cell p"
    and A: "Accumulator i = reg16 State RegA"
    and r: "(r, f) \<in> {(RegA, exec_XCH), (RegL, exec_LXCH), (RegQ, exec_QXCH)}"
  shows "let State' = f i State in
    acc_val (reg16 State' r) = sp_val (deref State p) \<and>
    sp_val (deref State' p) = corrected (acc_val (reg16 State r)) \<and>
    (if p = ErasableLoc n \<or> n = r then True else creg State' n = creg State n)"
proof -
  obtain T where F: "FindMemoryWord State K = (p, T)" using p(1) by (cases "FindMemoryWord State K") auto
  note same = FindMemoryWord_same [OF F]
  obtain j where j: "p = ErasableLoc j" "REG16 \<le> j" "j < 2048" using plain_cellD [OF p(2)] by blast
  have K7: "K \<noteq> RegZERO"
    using p by (auto simp: FindMemoryWord_loc plain_cell_def)
  note plain = deref_AssignFromPointer_plain [OF p(2)] creg_AssignFromPointer_plain [OF p(2)]
    stored_word [OF p(2) uint_OverflowCorrected_lt]
  have ra: "deref (set_creg r v S) p = deref S p" if "r < REG16" for r v S
    using that j by (auto simp: deref_set_creg)
  have v: "sp_val (OverflowCorrected (reg16 State k)) = corrected (acc_val (reg16 State k))" for k
    using sp_val_OverflowCorrected [OF uint_reg16] by (simp add: corrected_def)
  have w: "acc_val (int_of_u16 (i16_of_int (SignExtend x))) = sp_val x" for x
    by (simp add: int_of_u16_of_int [OF uint_SignExtend_lt] del: unsigned_ucast_eq)
  have e: "Erasable (AssignFromPointer p x S) n = (if n = j then stored j x else Erasable S n)" for x S
    using j by (simp add: Erasable_AssignFromPointer)
  have pn: "p = ErasableLoc n \<longleftrightarrow> n = j" using j by auto
  from r consider "r = RegA" "f = exec_XCH" | "r = RegL" "f = exec_LXCH" | "r = RegQ" "f = exec_QXCH"
    by blast
  then show ?thesis
  proof cases
    case 1
    then show ?thesis
      using K K7 A j(2) by (simp add: exec_XCH_def F same(1,2) plain ra v w e pn Let_def)
  next
    case 2
    then show ?thesis
      using K K7 j(2) by (simp add: exec_LXCH_def F same(1,2) plain ra v w e pn Let_def)
  next
    case 3
    then show ?thesis
      using K K7 j(2) by (simp add: exec_QXCH_def F same(1,2) plain ra v w e pn OverflowCorrected_int_of_i16 Let_def)
  qed
qed

theorem exchanges_witness:
  "let State = power_on\<lparr>Erasable := (\<lambda>_. 0)(1 := 0x4003, 48 := 0x7FF0)\<rparr>;
      State' = exec_LXCH (insn_at 48 State) State
   in acc_val (reg16 State' RegL) = - 15 \<and> sp_val (deref State' (ErasableLoc 48)) = 3"
proof -
  let ?S = "power_on\<lparr>Erasable := (\<lambda>_. 0)(1 := 0x4003, 48 := 0x7FF0)\<rparr>"
  have F: "FindMemoryWord S 48 = (ErasableLoc 48, S)" for S
    by (simp add: FindMemoryWord_def)
  have v: "sp_val 0x7FF0 = - 15" "acc_val 0x4003 = 16387"
    by (simp_all add: acc_val_def sp_val_def mask_bits)
  have u: "(int_of_u16 0x4003) = 0x4003" by simp
  show ?thesis
    using exchanges [of "insn_at 48 ?S" 48 ?S "ErasableLoc 48" RegL exec_LXCH 5] v
    by (simp add: insn_at_def F plain_cell_def deref_def corrected_def Let_def)
qed

end
