(* ===== verification/AGC_Cycle.thy ===== *)
theory AGC_Cycle
  imports AGC_Engine AGC_Programs
begin

text \<open>
  What one call of \<open>agc_engine\<close> guarantees: priority and effect of an interrupt, the return
  from it, the length of the instructions, the bank registers at the end of an instruction, and
  when the cycle returns at all.
\<close>

unbundle bit_operations_syntax

section \<open>Interrupts\<close>

abbreviation pending :: "yaagc \<Rightarrow> nat \<Rightarrow> bool" where
  "pending State k \<equiv> InterruptRequests State k \<noteq> 0 \<and> DebuggerInterruptMasks State k"

lemma find_upt_Some:
  "List.find P [m..<n] = Some k \<longleftrightarrow> k \<in> {m..<n} \<and> P k \<and> (\<forall>j \<in> {m..<k}. \<not> P j)"
proof (induction "n - m" arbitrary: m)
  case (Suc d)
  then have upt: "[m..<n] = m # [Suc m..<n]" by (simp add: upt_conv_Cons)
  have "{m..<k} = (if m < k then insert m {Suc m..<k} else {})"
    by auto
  then show ?case
    using Suc.hyps(1) [of "Suc m"] Suc.hyps(2) by (auto simp: upt)
qed auto

lemma PendingInterrupt_Some:
  "PendingInterrupt State = Some k \<longleftrightarrow> k \<in> {1..10} \<and> pending State k \<and> (\<forall>j \<in> {1..<k}. \<not> pending State j)"
proof -
  have *: "[1, 2, 3, 4, 5, 6, 7, 8, 9, 10] = [1..<11]" by (simp add: upt_rec)
  have "{1..<11} = {1..10 :: nat}" by auto
  then show ?thesis
    unfolding PendingInterrupt_def * find_upt_Some by simp
qed

lemma PendingInterrupt_None:
  "PendingInterrupt State = None \<longleftrightarrow> (\<forall>k \<in> {1..10}. \<not> pending State k)"
proof -
  have *: "[1, 2, 3, 4, 5, 6, 7, 8, 9, 10] = [1..<11]" by (simp add: upt_rec)
  have "{1..<11} = {1..10 :: nat}" by auto
  then show ?thesis
    unfolding PendingInterrupt_def * find_None_iff by auto
qed

text \<open>C10: an interrupt is taken exactly when interrupts are possible and one is pending and not
  masked (or the instruction is EDRUPT): the lowest-numbered one wins, only its request is
  cleared, execution goes to its vector, the address and instruction interrupted are saved in
  \<open>ZRUPT\<close> and \<open>BRUPT\<close>, and further interrupts are locked out.\<close>

theorem TakeInterrupt_priority:
  "case TakeInterrupt i pc State of
     None \<Rightarrow> InterruptAllowed i State \<longrightarrow>
       (\<forall>k \<in> {1..10}. \<not> pending State k) \<and> ExtendedOpcode i \<noteq> 0x47
   | Some State' \<Rightarrow>
       InterruptAllowed i State \<and> InIsr State' \<and> \<not> InterruptAllowed (i\<lparr>ExtendedOpcode := 0\<rparr>) State' \<and>
       creg State' RegZRUPT = of_nat (pc + 1) \<and> creg State' RegBRUPT = Instruction i \<and>
       \<not> ExtraCode State' \<and> IndexValue State' = 0 \<and> \<not> SubstituteInstruction State' \<and>
       ExtraDelay State' = ExtraDelay State + 1 \<and>
       (if \<exists>k \<in> {1..10}. pending State k
        then \<exists>k \<in> {1..10}. pending State k \<and> (\<forall>j \<in> {1..<k}. \<not> pending State j) \<and>
          NextZ State' = 0x800 + 4 * of_nat k \<and>
          InterruptRequests State' = (InterruptRequests State)(k := 0, 0 := of_nat k)
        else NextZ State' = 0 \<and> InterruptRequests State' = InterruptRequests State)"
proof (cases "InterruptAllowed i State")
  case True
  show ?thesis
  proof (cases "PendingInterrupt State")
    case None
    then have "\<forall>k \<in> {1..10}. \<not> pending State k"
      unfolding PendingInterrupt_None .
    then show ?thesis
      using True by (simp add: TakeInterrupt_def SelectInterrupt_def None
          InterruptAllowed_def [of "i\<lparr>ExtendedOpcode := 0\<rparr>"]) blast
  next
    case (Some k)
    then have k: "k \<in> {1..10}" "pending State k" "\<forall>j \<in> {1..<k}. \<not> pending State j"
      unfolding PendingInterrupt_Some by blast+
    then have "\<exists>k \<in> {1..10}. pending State k" by blast
    then show ?thesis
      using True Some k by (auto simp: TakeInterrupt_def SelectInterrupt_def
          InterruptAllowed_def [of "i\<lparr>ExtendedOpcode := 0\<rparr>"])
  qed
qed (simp add: TakeInterrupt_def)

theorem TakeInterrupt_priority_witness:
  "let State = power_on\<lparr>InterruptRequests := (\<lambda>_. 0)(3 := 1, 7 := 1), AllowInterrupt := True\<rparr>
   in case TakeInterrupt (insn_at 5 State) 0x900 State of None \<Rightarrow> False
      | Some State' \<Rightarrow> InIsr State' \<and> creg State' RegZRUPT = of_nat (0x900 + 1)"
proof -
  define S where "S = power_on\<lparr>InterruptRequests := (\<lambda>_. 0)(3 := 1, 7 := 1), AllowInterrupt := True\<rparr>"
  have i: "InterruptAllowed (insn_at 5 S) S" and p: "pending S 3"
    by (simp_all add: InterruptAllowed_def insn_at_def power_on_def S_def)
  note prio = TakeInterrupt_priority [where i = "insn_at 5 S" and pc = "0x900" and State = S]
  have "case TakeInterrupt (insn_at 5 S) 0x900 S of None \<Rightarrow> False
      | Some State' \<Rightarrow> InIsr State' \<and> creg State' RegZRUPT = of_nat (0x900 + 1)"
  proof (cases "TakeInterrupt (insn_at 5 S) 0x900 S")
    case None
    then have "\<forall>k \<in> {1..10}. \<not> pending S k"
      using prio i unfolding None option.case by blast
    then have "\<not> pending S 3" by (rule bspec) simp
    then show ?thesis using p by blast
  next
    case (Some State')
    then show ?thesis using prio unfolding Some option.case by blast
  qed
  then show ?thesis by (simp only: S_def Let_def)
qed

section \<open>Return from an interrupt\<close>

lemma MirrorBanks_frame [simp]:
  "r \<notin> {RegEB, RegFB, RegBB} \<Longrightarrow> creg (MirrorBanks i State) r = creg State r"
  "SubstituteInstruction (MirrorBanks i State) = SubstituteInstruction State"
  "InIsr (MirrorBanks i State) = InIsr State"
  "InputChannel (MirrorBanks i State) = InputChannel State"
  "ExtraCode (MirrorBanks i State) = ExtraCode State"
  by (simp_all add: MirrorBanks_def Let_def)

text \<open>Conditional updates as updates with conditional values.\<close>

lemma conditional_updates:
  "(if b then State\<lparr>Erasable := e\<rparr> else State) = State\<lparr>Erasable := if b then e else Erasable State\<rparr>"
  "(if b then State\<lparr>ExtraCode := x\<rparr> else State) = State\<lparr>ExtraCode := if b then x else ExtraCode State\<rparr>"
  "(if b then State\<lparr>NoTC := x\<rparr> else State) = State\<lparr>NoTC := if b then x else NoTC State\<rparr>"
  "(if b then State\<lparr>TCTrap := x\<rparr> else State) = State\<lparr>TCTrap := if b then x else TCTrap State\<rparr>"
  "(if b then State\<lparr>NoRupt := x\<rparr> else State\<lparr>RuptLock := y\<rparr>) =
     State\<lparr>NoRupt := if b then x else NoRupt State, RuptLock := if b then RuptLock State else y\<rparr>"
  by simp_all

lemma AllDone_rest:
  assumes "\<not> PendFlag State"
  shows "creg (AllDone i (m, State)) RegZ =
      (if SubstituteInstruction State then i16_of_int (NextZ State) else i16_of_int (NextZ State) AND 0xFFF)"
    and "SubstituteInstruction (AllDone i (m, State)) = SubstituteInstruction State"
    and "InIsr (AllDone i (m, State)) = InIsr State"
    and "7 < r \<Longrightarrow> creg (AllDone i (m, State)) r = creg State r"
  using assms by (simp_all add: AllDone_def Let_def conditional_updates)

lemma unat_and_mask: "unat (v AND mask n :: 'a::len word) = unat v mod 2 ^ n"
  by (metis take_bit_eq_mask take_bit_eq_mod unsigned_take_bit_eq)

text \<open>The instruction fetched next, with its address.\<close>

abbreviation fetched :: "yaagc \<Rightarrow> u16 \<times> nat" where
  "fetched State \<equiv> (case FetchInstruction State of (w, pc, _) \<Rightarrow> (w, pc))"

lemma fetched_substituted:
  assumes "SubstituteInstruction State"
  shows "fetched State = (creg State RegBRUPT AND 0x7FFF, unat (creg State RegZ) mod 4096)"
  using assms FindMemoryWord_frame [of State "unat (creg State RegZ) AND 0xFFF"]
  by (simp add: FetchInstruction_def split_beta Let_def)

lemma sint_of_nat_i16:
  assumes "n < 32768"
  shows "sint (int_of_i16 (of_nat n)) = int n"
proof -
  have "uint (of_nat n :: i16) = int n"
    using assms by (simp add: unsigned_of_nat take_bit_eq_mod)
  then show ?thesis
    using sint_up_scast [of "of_nat n :: i16", where 'b = 32] assms by (simp add: is_up sint_i16_small)
qed

lemma int_of_i16_of_nat:
  assumes "pc < 4096"
  shows "int_of_i16 (of_nat (pc + 1)) - 1 = of_nat pc"
proof -
  have s: "sint (int_of_i16 (of_nat (pc + 1))) = int (pc + 1)"
    using assms by (intro sint_of_nat_i16) simp
  have "sint (int_of_i16 (of_nat (pc + 1)) - 1) = sint (int_of_i16 (of_nat (pc + 1))) - sint (1 :: cint)"
    by (rule sint_minus_small; unfold s; use assms in simp)
  moreover have "sint (of_nat pc :: cint) = int pc"
    using assms sint_word_of_int_small [of "int pc"] by simp
  ultimately show ?thesis
    unfolding s by (intro signed_word_eqI [where ?'a = int]) simp
qed

text \<open>C11: \<open>RESUME\<close> undoes an interrupt: if an interrupt was taken at an address with an
  instruction, and the interrupt program kept \<open>ZRUPT\<close> and \<open>BRUPT\<close> as it found them,
  then after its \<open>RESUME\<close> that instruction is fetched again at that address, and no
  interrupt is in progress any more.\<close>

theorem RESUME_returns:
  assumes "TakeInterrupt i pc State = Some Entered" "pc < 4096"
    and "creg Isr RegZRUPT = creg Entered RegZRUPT" "creg Isr RegBRUPT = creg Entered RegBRUPT"
    and "\<not> PendFlag Isr"
  shows "fetched (AllDone i' (m, exec_RESUME Isr)) = (Instruction i AND 0x7FFF, pc) \<and>
    \<not> InIsr (AllDone i' (m, exec_RESUME Isr))"
proof -
  have saved: "creg Isr RegZRUPT = of_nat (pc + 1)" "creg Isr RegBRUPT = Instruction i"
    using assms(1,3,4) TakeInterrupt_priority [where i = i and pc = pc and State = State] by simp_all
  let ?S = "AllDone i' (m, exec_RESUME Isr)"
  have "i16_of_int (of_nat pc) = of_nat pc"
    using assms(2) by (simp add: word_unat_eq_iff unsigned_ucast_eq unsigned_of_nat take_bit_eq_mod)
  then have z: "creg ?S RegZ = of_nat pc"
    using AllDone_rest(1) [of "exec_RESUME Isr" i' m] assms(5)
    unfolding exec_RESUME_def saved(1) int_of_i16_of_nat [OF assms(2)] by simp
  have "SubstituteInstruction ?S" "creg ?S RegBRUPT = Instruction i" "\<not> InIsr ?S"
    using AllDone_rest(2,3) [of "exec_RESUME Isr" i' m]
      AllDone_rest(4) [of "exec_RESUME Isr" RegBRUPT i' m] assms(5) saved(2)
    by (simp_all add: exec_RESUME_def)
  moreover have "unat (of_nat pc :: i16) mod 4096 = pc"
    using assms(2) by (simp add: unat_of_nat)
  ultimately show ?thesis
    using fetched_substituted [of ?S] z by simp
qed

theorem RESUME_returns_witness:
  "let State = power_on\<lparr>InterruptRequests := (\<lambda>_. 0)(3 := 1), AllowInterrupt := True\<rparr>;
      i = (insn_at 5 State)\<lparr>Instruction := 0x3005\<rparr>
   in case TakeInterrupt i 0x900 State of None \<Rightarrow> False
      | Some Isr \<Rightarrow> fetched (AllDone i (no_marks, exec_RESUME Isr)) = (0x3005, 0x900)"
proof -
  define S where "S = power_on\<lparr>InterruptRequests := (\<lambda>_. 0)(3 := 1), AllowInterrupt := True\<rparr>"
  define i where "i = (insn_at 5 S)\<lparr>Instruction := 0x3005\<rparr>"
  have a: "InterruptAllowed i S" and p: "PendingInterrupt S = Some 3"
    by (simp_all add: InterruptAllowed_def insn_at_def power_on_def S_def i_def PendingInterrupt_def)
  then obtain Isr where Isr: "TakeInterrupt i 0x900 S = Some Isr" "\<not> PendFlag Isr"
    by (simp add: TakeInterrupt_def SelectInterrupt_def Let_def) (simp add: S_def power_on_def)
  have "Instruction i = 0x3005" by (simp add: i_def)
  then have "fetched (AllDone i (no_marks, exec_RESUME Isr)) = (0x3005, 0x900)"
    using RESUME_returns [OF Isr(1) _ refl refl Isr(2), of i no_marks] by simp
  then show ?thesis
    unfolding Let_def S_def [symmetric] i_def [symmetric] Isr(1) option.case .
qed

section \<open>Length of the instructions\<close>

lemma InstructionTiming_bound: "k < 32 \<Longrightarrow> InstructionTiming ! k \<le> 5 \<and> ExtracodeTiming ! k \<le> 5"
proof -
  have "list_all (\<lambda>n. n \<le> 5) InstructionTiming" "list_all (\<lambda>n. n \<le> 5) ExtracodeTiming"
    "length InstructionTiming = 32" "length ExtracodeTiming = 32"
    by (simp_all add: InstructionTiming_def ExtracodeTiming_def)
  then show "k < 32 \<Longrightarrow> ?thesis" by (simp add: list_all_length)
qed

text \<open>The table entry of an instruction.\<close>

definition extra_cycles :: "insn \<Rightarrow> yaagc \<Rightarrow> nat" where
  "extra_cycles i State =
     (if ExtraCode State then ExtracodeTiming else InstructionTiming) ! (unat (Instruction i) div 1024)"

lemma TakeDelay_waiting:
  "ExtraDelay State = 0 \<Longrightarrow> PendFlag State \<Longrightarrow> PendDelay State \<noteq> 0 \<Longrightarrow>
     TakeDelay State = (True, State\<lparr>PendDelay := PendDelay State - 1\<rparr>)"
  by (simp add: TakeDelay_def word_gt_0)

lemma delay_left:
  assumes "j < unat (d :: 3 word)"
  shows "d - of_nat j \<noteq> 0"
proof -
  have "unat d < 8"
    using unsigned_less [of d, where 'a = nat] by simp
  then have "unat (of_nat j :: 3 word) = j"
    using assms by (simp add: unat_of_nat)
  then show ?thesis
    using assms by auto
qed

lemma waits:
  assumes "ExtraDelay State = 0" "PendFlag State" "j \<le> unat (PendDelay State)"
  shows "((snd \<circ> TakeDelay) ^^ j) State = State\<lparr>PendDelay := PendDelay State - of_nat j\<rparr>"
  using assms(3)
proof (induction j)
  case (Suc j)
  then show ?case
    using Suc delay_left [of j "PendDelay State"] TakeDelay_waiting [of "State\<lparr>PendDelay := PendDelay State - of_nat j\<rparr>"] assms(1,2)
    by (simp add: algebra_simps)
qed simp

text \<open>an instruction takes exactly the cycles of the timing tables: with an entry of zero it
  executes in the cycle that fetches it; with an entry \<open>n\<close> that cycle only starts it, the
  following \<open>n - 1\<close> cycles only wait, and the next one executes it, leaving no delay
  pending.\<close>

theorem instruction_length:
  assumes "ExtraDelay State = 0" "\<not> PendFlag State" "unat (Instruction i) < 32768"
  shows "let n = extra_cycles i State; State' = snd (StartTiming i State);
      wait = snd \<circ> TakeDelay
    in (if n = 0 then StartTiming i State = (False, State)
        else fst (StartTiming i State) \<and> (\<forall>j < n - 1. fst (TakeDelay ((wait ^^ j) State'))) \<and>
          StartTiming i ((wait ^^ (n - 1)) State') = (False, State\<lparr>PendDelay := 0\<rparr>))"

proof -
  define n where "n = extra_cycles i State"
  have "shr 10 (Instruction i AND NOT 0x3FF) = shr 10 (Instruction i)"
    by (rule i16_eqI) (auto simp: bit_shr bit_and_iff bit_not_iff mask_bits dest: bit_imp_le_length)
  then have k: "unat (shr 10 (Instruction i AND NOT 0x3FF)) = unat (Instruction i) div 1024"
    by (simp add: shr_def drop_bit_eq_div unat_div)
  have "unat (Instruction i) div 1024 < 32" using assms(3) by (simp add: less_mult_imp_div_less)
  then have n5: "n \<le> 5"
    using InstructionTiming_bound by (simp add: n_def extra_cycles_def)
  have start: "StartTiming i State = (if n \<noteq> 0
      then (True, State\<lparr>PendFlag := True, PendDelay := of_nat (n - 1)\<rparr>) else (False, State))"
    unfolding StartTiming_def Let_def k n_def extra_cycles_def using assms(2) by simp
  show ?thesis
  proof (cases "n = 0")
    case False
    define S where "S = State\<lparr>PendFlag := True, PendDelay := of_nat (n - 1)\<rparr>"
    have S: "ExtraDelay S = 0" "PendFlag S" "PendDelay S = of_nat (n - 1)" "unat (PendDelay S) = n - 1"
      using assms(1) n5 by (simp_all add: S_def unat_of_nat)
    note w = waits [OF S(1,2), unfolded S(4)]
    have "fst (TakeDelay (((snd \<circ> TakeDelay) ^^ j) S))" if "j < n - 1" for j
      using w [of j] that TakeDelay_waiting [of "S\<lparr>PendDelay := PendDelay S - of_nat j\<rparr>"] S
        delay_left [of j "PendDelay S"] by simp
    moreover have "StartTiming i (((snd \<circ> TakeDelay) ^^ (n - 1)) S) = (False, State\<lparr>PendDelay := 0\<rparr>)"
      using w [of "n - 1"] S assms(2) by (simp add: StartTiming_def S_def)
    ultimately show ?thesis
      using False start by (simp add: Let_def n_def S_def)
  qed (use start in \<open>simp add: n_def\<close>)
qed

theorem instruction_length_witness:
  "let i = (insn_at 5 power_on)\<lparr>Instruction := 0x5005\<rparr>; State' = snd (StartTiming i power_on)
   in extra_cycles i power_on = 1 \<and> fst (StartTiming i power_on) \<and> fst (StartTiming i State') = False"
proof -
  let ?i = "(insn_at 5 power_on)\<lparr>Instruction := 0x5005\<rparr>"
  have "extra_cycles ?i power_on = 1"
    by (simp add: extra_cycles_def InstructionTiming_def power_on_def)
  moreover have "ExtraDelay power_on = 0" "\<not> PendFlag power_on" by (simp_all add: power_on_def)
  ultimately show ?thesis
    using instruction_length [of power_on ?i] by (simp add: Let_def)
qed

section \<open>Registers at the end of an instruction\<close>

text \<open>The bank registers in their normal form: \<open>BB\<close> shows both bank numbers.\<close>

definition banks_ok :: "i16 \<Rightarrow> i16 \<Rightarrow> i16 \<Rightarrow> bool" where
  "banks_ok eb fb bb \<longleftrightarrow> eb AND 0x700 = eb \<and> fb AND 0x7C00 = fb \<and> bb = fb OR shr 8 eb"

lemma MirrorBanks_ok:
  assumes "banks_ok (CurrentEB i) (CurrentFB i) (CurrentBB i)"
  shows "banks_ok (creg (MirrorBanks i State) RegEB) (creg (MirrorBanks i State) RegFB)
    (creg (MirrorBanks i State) RegBB)"
proof -
  let ?e = "creg State RegEB" and ?f = "creg State RegFB" and ?b = "creg State RegBB"
  have 1: "banks_ok (shl 8 (b AND 7) AND 0x700) ((b AND 0x7C00) AND 0x7C00) (b AND 0x7C07)" for b
    unfolding banks_ok_def
    by (intro conjI i16_eqI) (auto simp: bit_and_iff bit_or_iff bit_shl bit_shr mask_bits)
  have 2: "banks_ok (e AND 0x700) (f AND 0x7C00) (((f AND 0x7C00) OR shr 8 (e AND 0x700)) AND 0x7C07)" for e f
    unfolding banks_ok_def
    by (intro conjI i16_eqI) (auto simp: bit_and_iff bit_or_iff bit_shl bit_shr mask_bits)
  have 3: "banks_ok (?e AND 0x700) (?f AND 0x7C00) (?b AND 0x7C07)"
    if "CurrentBB i = ?b" "CurrentEB i = ?e" "CurrentFB i = ?f"
    using 2 [of ?e ?f] assms that by (simp add: banks_ok_def)
  show ?thesis
    using 1 [of ?b] 2 [of ?e ?f] 3 by (simp add: MirrorBanks_def Let_def)
qed

text \<open>whatever an instruction did to the registers, at the end of the cycle the bank
  registers agree (\<open>BB\<close> holds the fixed bank and, shifted, the erasable bank; unused bits
  are zero) if they did when the instruction was fetched, \<open>ZERO\<close> is zero, \<open>L\<close> is
  corrected for overflow and its value is that of 15 bits, \<open>Z\<close> is the 12-bit address of the
  next instruction (16 bits on the way to a resumed one), and channel 7 shows the superbank.\<close>

theorem AllDone_registers:
  assumes "\<not> PendFlag State" "banks_ok (CurrentEB i) (CurrentFB i) (CurrentBB i)"
  shows "let State' = AllDone i (m, State) in
    banks_ok (creg State' RegEB) (creg State' RegFB) (creg State' RegBB) \<and>
    creg State' RegZERO = 0 \<and>
    acc_val (reg16 State' RegL) = corrected (acc_val (reg16 State RegL)) \<and>
    creg State' RegZ =
      (if SubstituteInstruction State then i16_of_int (NextZ State) else i16_of_int (NextZ State) AND 0xFFF) \<and>
    InputChannel State' = (InputChannel State)(7 := OutputChannel7 State AND 0x70) \<and>
    (ExtraCode State' \<longleftrightarrow> ExtraCode State \<and> KeepExtraCode m)"
proof -
  define S where "S = (let State = set_creg RegZERO AGC_P0 State;
      State = State\<lparr>OutputChannel7 := OutputChannel7 State AND 0x70\<rparr>;
      State = set_chan 7 (OutputChannel7 State) State;
      State = put_reg RegZ (NextZ State) State;
      State = (if \<not> SubstituteInstruction State
               then set_creg RegZ (creg State RegZ AND 0xFFF) State else State)
    in if \<not> KeepExtraCode m then State\<lparr>ExtraCode := False\<rparr> else State)"
  have S: "creg S RegL = creg State RegL"
    by (simp add: S_def Let_def)
  define M where "M = MirrorBanks i S"
  have E: "Erasable (AllDone i (m, State)) =
      (Erasable M)(RegL := i16_of_int (Correct16 (int_of_i16 (creg M RegL))))"
    using assms(1) unfolding M_def S_def by (simp add: AllDone_def Let_def conditional_updates)
  have "acc_val (reg16 (AllDone i (m, State)) RegL) = corrected (acc_val (reg16 State RegL))"
    using S sp_val_OverflowCorrected [OF uint_reg16, of "creg State RegL"]
    by (simp add: E M_def corrected_def OverflowCorrected_int_of_i16
        int_of_u16_of_int [OF uint_SignExtend_lt] del: unsigned_ucast_eq)
  moreover have "creg (AllDone i (m, State)) RegZERO = 0"
    using assms(1) by (simp add: AllDone_def Let_def conditional_updates)
  moreover have "InputChannel (AllDone i (m, State)) = (InputChannel State)(7 := OutputChannel7 State AND 0x70)"
    "ExtraCode (AllDone i (m, State)) \<longleftrightarrow> ExtraCode State \<and> KeepExtraCode m"
    using assms(1) by (simp_all add: AllDone_def Let_def conditional_updates)
  ultimately show ?thesis
    using AllDone_rest(1) [OF assms(1), of i m] MirrorBanks_ok [OF assms(2), of S]
    by (simp add: E M_def Let_def)
qed

theorem AllDone_registers_witness:
  "let State = power_on\<lparr>Erasable := (\<lambda>_. 0)(1 := 0x4003, 6 := 0x7C05)\<rparr>;
      State' = AllDone (insn_at 5 State) (no_marks, State)
   in acc_val (reg16 State' RegL) = 3 \<and> creg State' RegBB = creg State' RegFB OR shr 8 (creg State' RegEB)"
proof -
  let ?S = "power_on\<lparr>Erasable := (\<lambda>_. 0)(1 := 0x4003, 6 := 0x7C05)\<rparr>"
  have v: "acc_val 0x4003 = 16387" by (simp add: acc_val_def mask_bits)
  have b: "banks_ok (CurrentEB (insn_at 5 ?S)) (CurrentFB (insn_at 5 ?S)) (CurrentBB (insn_at 5 ?S))"
    by (simp add: insn_at_def banks_ok_def shr_def)
  have p: "\<not> PendFlag ?S" by (simp add: power_on_def)
  show ?thesis
    using AllDone_registers [OF p b, of no_marks] v by (simp add: Let_def banks_ok_def corrected_def)
qed

section \<open>When a cycle returns\<close>

text \<open>The double precision instructions read the word below their address, which for the first
  word of an array lies outside of it.\<close>

definition first_word :: "nat \<Rightarrow> yaagc \<Rightarrow> bool" where
  "first_word K State \<longleftrightarrow> K = 0 \<or> K = 0x300 \<and> ErasableBank State = 0 \<or> K = 0x400 \<and> FixedBank State = 0"

definition leaves_array :: "insn \<Rightarrow> yaagc \<Rightarrow> bool" where
  "leaves_array i State \<longleftrightarrow>
     ExtendedOpcode i \<in> {0x10, 0x11, 0x2A, 0x2B} \<and> first_word (Address10 i) State \<or>
     ExtendedOpcode i \<in> {0x58..0x67} \<and> first_word (Address12 i) State"

lemma pred_loc_None:
  assumes "K < 4096" "REG16 < K"
  shows "pred_loc (fst (FindMemoryWord State K)) = None \<longleftrightarrow> first_word K State"
  using assms by (auto simp: FindMemoryWord_loc pred_loc_def first_word_def Let_def)

lemma DAS_None:
  assumes "Address10 i < 1024"
  shows "exec_DAS i State = None \<longleftrightarrow> first_word (Address10 i) State"
proof -
  obtain p T where F: "FindMemoryWord State (Address10 i) = (p, T)" by fastforce
  show ?thesis
    using assms pred_loc_None [of "Address10 i" State]
    by (auto simp: exec_DAS_def F Let_def first_word_def split: option.split)
qed

lemma DXCH_None:
  assumes "Address10 i < 1024"
  shows "exec_DXCH i State = None \<longleftrightarrow> first_word (Address10 i) State"
proof -
  obtain p T where F: "FindMemoryWord State (Address10 i) = (p, T)" by fastforce
  show ?thesis
    using assms pred_loc_None [of "Address10 i" State]
    by (auto simp: exec_DXCH_def F Let_def first_word_def split: option.split)
qed

lemma LoadDouble_None:
  assumes "K < 4096"
  shows "LoadDouble f K State = None \<longleftrightarrow> first_word K State"
proof -
  obtain p T where F: "FindMemoryWord State K = (p, T)" by fastforce
  show ?thesis
    using assms pred_loc_None [of K State]
    by (auto simp: LoadDouble_def F Let_def first_word_def split: option.split)
qed

lemma Execute_None:
  assumes "Address10 i < 1024" "Address12 i < 4096"
  shows "Execute i (m, State) = None \<longleftrightarrow> leaves_array i State"
proof -
  define op where "op = ExtendedOpcode i"
  note none = DAS_None [OF assms(1), of State] DXCH_None [OF assms(1), of State]
    LoadDouble_None [OF assms(2), of _ State]
  have one: "Address12 i = RegL \<Longrightarrow> \<not> first_word (Address12 i) State"
    by (simp add: first_word_def)
  have dc: "exec_DCA i State = None \<longleftrightarrow> first_word (Address12 i) State"
    "exec_DCS i State = None \<longleftrightarrow> first_word (Address12 i) State"
    using one none(3) by (auto simp: exec_DCA_def exec_DCS_def Let_def)
  consider "op = 0x10 \<or> op = 0x11" | "op = 0x2A \<or> op = 0x2B" | "0x58 \<le> op \<and> op \<le> 0x5F"
    | "0x60 \<le> op \<and> op \<le> 0x67" | "op \<notin> {0x10, 0x11, 0x2A, 0x2B} \<union> {0x58..0x67}"
    by force
  then show ?thesis
  proof cases
    case 1
    then show ?thesis
      by (elim disjE) (simp_all add: Execute_def leaves_array_def op_def [symmetric] none)
  next
    case 2
    then show ?thesis
      by (elim disjE) (simp_all add: Execute_def leaves_array_def op_def [symmetric] none mark_transient_def)
  next
    case 3
    then show ?thesis
      by (simp add: Execute_def leaves_array_def op_def [symmetric] dc)
  next
    case 4
    then show ?thesis
      by (simp add: Execute_def leaves_array_def op_def [symmetric] dc)
  next
    case 5
    then consider "op \<le> 0x0F" | "0x12 \<le> op \<and> op \<le> 0x29" | "0x2C \<le> op \<and> op \<le> 0x57" | "0x68 \<le> op"
      by force
    then have "Execute i (m, State) \<noteq> None"
      by cases (simp_all add: Execute_def op_def [symmetric])
    then show ?thesis
      using 5 by (auto simp: leaves_array_def op_def [symmetric])
  qed
qed

lemma RunInstruction_None:
  assumes "RunInstruction State = None"
  shows "leaves_array (case FetchInstruction State of (w, _, State') \<Rightarrow> Decode w State') State"
proof -
  obtain w pc S where f: "FetchInstruction State = (w, pc, S)" by (cases "FetchInstruction State")
  let ?i = "Decode w S"
  have S: "Erasable S = Erasable State" "OutputChannel7 S = OutputChannel7 State"
    using f FindMemoryWord_frame [of State "unat (creg State RegZ) AND 0xFFF"]
    by (auto simp: FetchInstruction_def Let_def split_beta)
  obtain b T where t: "StartTiming ?i S = (b, T)" by fastforce
  have T: "Erasable T = Erasable S" "OutputChannel7 T = OutputChannel7 S"
    using t by (auto simp: StartTiming_def Let_def split: if_splits)
  have "\<not> b" "Execute ?i (InitialMarks ?i (StepProgramCounter T), StepProgramCounter T) = None"
    using assms by (auto simp: RunInstruction_def f t Let_def split: option.splits bool.splits)
  moreover have "Address10 ?i < 1024" "Address12 ?i < 4096"
    by (simp_all add: Decode_def)
  ultimately have "leaves_array ?i (StepProgramCounter T)"
    using Execute_None by blast
  moreover have "ErasableBank (StepProgramCounter T) = ErasableBank State"
    "FixedBank (StepProgramCounter T) = FixedBank State"
    by (simp_all add: ErasableBank_def FixedBank_def StepProgramCounter_def S T Let_def)
  ultimately show ?thesis
    by (simp add: f leaves_array_def first_word_def)
qed

lemma rb_ok_in_ChannelOutput:
  "rb_ok (ringbuffer_in State) \<Longrightarrow> rb_ok (ringbuffer_in (ChannelOutput n v State))"
  by (simp add: ChannelOutput_def ChannelSetup_def Let_def split: option.split)

lemma rb_ok_in_Prologue:
  assumes "rb_ok (ringbuffer_in State)"
  shows "rb_ok (ringbuffer_in (Prologue State))"
proof -
  have "rb_ok (ringbuffer_in (UpdateDSKY S))" if "rb_ok (ringbuffer_in S)" for S
    using that by (simp add: UpdateDSKY_def Let_def split_beta rb_ok_in_ChannelOutput)
  then show ?thesis
    using assms by (simp add: Prologue_def Let_def)
qed

lemma ChannelInput_Some:
  assumes "rb_ok (ringbuffer_in State)"
  obtains r State' where "ChannelInput State = Some (r, State')"
proof -
  let ?S = "if \<not> ChannelIsSetUp State then ChannelSetup State else State"
  have "ChannelIsSetUp ?S" "rb_ok (ringbuffer_in ?S)"
    using assms by (simp_all add: ChannelSetup_def)
  from InputLoop_process [OF this] show ?thesis
    using that by (cases "ProcessPackets (rb_contents (ringbuffer_in ?S)) ?S")
      (fastforce simp: ChannelInput_def)
qed

text \<open>The state in which a cycle comes to fetch an instruction, if it does.\<close>

definition fetch_state :: "yaagc \<Rightarrow> yaagc option" where
  "fetch_state State =
     (case ChannelInput (Prologue State) of
        None \<Rightarrow> None
      | Some (RetVal, State) \<Rightarrow>
          if RetVal \<noteq> 0 \<or> DebugDsky State then None
          else case TakeDelay State of
            (True, State) \<Rightarrow> None
          | (False, State) \<Rightarrow>
              (case ScalerLoop (ReleasePro State) of
                 (True, State) \<Rightarrow> None
               | (False, State) \<Rightarrow>
                   if Standby State then None else Some (DriveOptics (DriveImu (DriveGyro State)))))"

text \<open>C5: a machine cycle always returns, unless the instruction it fetches is one of the four
  double precision instructions (\<open>DAS\<close>, \<open>DXCH\<close>, \<open>DCA\<close>, \<open>DCS\<close>) with the first
  word of erasable or fixed memory as operand: there the emulator would access the word before its
  array.\<close>

theorem agc_engine_returns:
  assumes "rb_ok (ringbuffer_in State)"
  shows "case agc_engine State of Some State' \<Rightarrow> True
    | None \<Rightarrow> (case fetch_state State of None \<Rightarrow> False
        | Some T \<Rightarrow> leaves_array (case FetchInstruction T of (w, _, T') \<Rightarrow> Decode w T') T)"
proof (cases "agc_engine State")
  case None
  obtain r S where in': "ChannelInput (Prologue State) = Some (r, S)"
    using ChannelInput_Some [OF rb_ok_in_Prologue [OF assms]] .
  obtain b T where d: "TakeDelay S = (b, T)" by fastforce
  obtain c U where l: "ScalerLoop (ReleasePro T) = (c, U)" by fastforce
  let ?U = "DriveOptics (DriveImu (DriveGyro U))"
  have "fetch_state State = Some ?U" "RunInstruction ?U = None"
    using None by (auto simp: agc_engine_def fetch_state_def in' d l split: if_splits bool.splits)
  then show ?thesis
    using None RunInstruction_None [of ?U] by simp
qed simp

theorem agc_engine_returns_witness:
  "rb_ok (ringbuffer_in power_on) \<and>
   (case agc_engine power_on of Some State' \<Rightarrow> True
    | None \<Rightarrow> (case fetch_state power_on of None \<Rightarrow> False
        | Some T \<Rightarrow> leaves_array (case FetchInstruction T of (w, _, T') \<Rightarrow> Decode w T') T))"
proof -
  have "rb_ok (ringbuffer_in power_on)" by (simp add: rb_ok_def power_on_def)
  then show ?thesis
    using agc_engine_returns [of power_on] by blast
qed

end
