(* ===== verification/AGC_Init.thy ===== *)
theory AGC_Init
  imports AGC_State
begin

text \<open>
  Initialisation, from \<open>src/yaAGC/agc_engine_init.c\<close>: loading a rope image
  (\<open>agc_load_binfile\<close>), resetting the machine or loading a core dump
  (\<open>agc_engine_init\<close>) and writing one (\<open>MakeCoreDump\<close>); and \<open>set_fixed\<close> of
  \<open>src/yaAGC/wasm.c\<close>.  A file that can be opened is the list of its bytes.  A core dump is
  the list of the numbers it holds: \<open>fprintf\<close> writes and \<open>fscanf\<close> reads octal
  numbers, one per line.
\<close>

unbundle bit_operations_syntax

section \<open>Rope images\<close>

text \<open>A rope image holds the banks in the order 2, 3, 0, 1, 4, 5, ..., 35.\<close>

definition NextBank :: "nat \<Rightarrow> nat" where
  "NextBank Bank =
     (if Bank = 2 then 3 else if Bank = 3 then 0 else if Bank = 0 then 1
      else if Bank = 1 then 4 else Bank + 1)"

text \<open>One word of \<open>agc_load_binfile\<close>: the state of its loop is the bank, the offset and
  the machine.\<close>

definition LoadWord :: "u16 \<Rightarrow> nat \<times> nat \<times> yaagc \<Rightarrow> nat \<times> nat \<times> yaagc" where
  "LoadWord RawValue = (\<lambda>(Bank, j, State).
     (let Parity = RawValue AND 1;
          k = Bank * 1024 + j;
          State = State\<lparr>Fixed := (Fixed State)(k := shr 1 RawValue),
            Parities := (Parities State)(k div 32 :=
              Parities State (k div 32) OR shl (j mod 32) (ucast Parity))\<rparr>;
          State = (if Parity \<noteq> 0 then State\<lparr>CheckParity := True\<rparr> else State);
          j = j + 1
      in if j = 1024 then (NextBank Bank, 0, State) else (Bank, j, State)))"

text \<open>The loop; a bank number above 35 ends it with result 2.\<close>

fun LoadWords :: "u16 list \<Rightarrow> nat \<times> nat \<times> yaagc \<Rightarrow> int \<times> yaagc" where
  "LoadWords [] s = (0, snd (snd s))"
| "LoadWords (w # ws) s = (if 35 < fst s then (2, snd (snd s)) else LoadWords ws (LoadWord w s))"

fun RawValues :: "u8 list \<Rightarrow> u16 list" where
  "RawValues (a # b # bs) = (ucast a * 256 + ucast b) # RawValues bs"
| "RawValues _ = []"

definition agc_load_binfile :: "u8 list option \<Rightarrow> yaagc \<Rightarrow> int \<times> yaagc" where
  "agc_load_binfile RomImage State =
     (case RomImage of
        None \<Rightarrow> (1, State)
      | Some bytes \<Rightarrow>
          let n = length bytes
          in if n mod 2 \<noteq> 0 then (3, State)
             else if 36 * 1024 < n div 2 then (2, State)
             else LoadWords (RawValues bytes)
                    (2, 0, State\<lparr>CheckParity := False, Parities := (\<lambda>_. 0)\<rparr>))"

text \<open>\<open>set_fixed\<close> reads \<open>rom_data\<close> through the bank count \<open>i\<close>; a loop that does
  not end would be \<open>None\<close>.\<close>

partial_function (option) SetFixedLoop ::
    "(nat \<Rightarrow> u8) \<Rightarrow> nat \<Rightarrow> nat \<Rightarrow> nat \<Rightarrow> yaagc \<Rightarrow> yaagc option" where
  "SetFixedLoop rom_data bank i j State =
     (if bank \<le> 35 then
        let index = 2 * (i * 1024 + j);
            State = State\<lparr>Fixed := (Fixed State)(bank * 1024 + j :=
              i16_of_int (sar 1 (ucast (rom_data index) * 256 + ucast (rom_data (index + 1)))))\<rparr>
        in if j + 1 = 1024 then SetFixedLoop rom_data (NextBank bank) (i + 1) 0 State
           else SetFixedLoop rom_data bank i (j + 1) State
      else Some State)"

definition set_fixed :: "(nat \<Rightarrow> u8) \<Rightarrow> yaagc \<Rightarrow> yaagc option" where
  "set_fixed rom_data State = SetFixedLoop rom_data 2 0 0 State"

section \<open>Core dumps\<close>

text \<open>The numbers of a dump, in the order they are written; a negative \<open>int16_t\<close> is
  printed as the \<open>unsigned\<close> it is promoted to.\<close>

abbreviation oct16 :: "i16 \<Rightarrow> nat" where "oct16 v \<equiv> unat (int_of_i16 v)"

definition MakeCoreDump :: "yaagc \<Rightarrow> nat list" where
  "MakeCoreDump State =
     map (\<lambda>i. oct16 (InputChannel State i)) [0..<512] @
     map (\<lambda>i. oct16 (Erasable State i)) [0..<2048] @
     [unat (CycleCounter State), of_bool (ExtraCode State), of_bool (AllowInterrupt State),
      of_bool (PendFlag State), unat (PendDelay State), unat (ExtraDelay State),
      oct16 (OutputChannel7 State)] @
     map (\<lambda>i. oct16 (OutputChannel10 State i)) [0..<16] @
     [oct16 (IndexValue State)] @
     map (\<lambda>i. unat (scast (InterruptRequests State i) :: cint)) [0..<11] @
     [of_bool (InIsr State), of_bool (SubstituteInstruction State),
      of_bool (DownruptTimeValid State), unat (DownruptTime State), unat (Downlink State)]"

text \<open>What each number read sets: \<open>%o\<close> reads an \<open>int\<close>, stored into the field's
  width.\<close>

type_synonym setter = "nat \<Rightarrow> yaagc \<Rightarrow> yaagc"

definition set_int16 :: "nat \<Rightarrow> i16" where
  "set_int16 n = i16_of_int (of_nat n)"

definition LoadChannels :: "bool \<Rightarrow> setter list" where
  "LoadChannels AllOrErasable =
     map (\<lambda>i n State. if AllOrErasable then set_chan i (set_int16 n) State else State) [0..<512]"

definition LoadErasable :: "bool \<Rightarrow> setter list" where
  "LoadErasable AllOrErasable =
     map (\<lambda>i n State. if AllOrErasable \<or> 8 \<le> i then set_creg i (set_int16 n) State else State)
       [0..<2048]"

text \<open>The request that is set after the eleven requests were read goes with the last of
  them.\<close>

definition LoadCpu :: "setter list" where
  "LoadCpu =
     [\<lambda>n State. State\<lparr>CycleCounter := scast (of_nat n :: cint)\<rparr>,
      \<lambda>n State. State\<lparr>ExtraCode := odd n\<rparr>,
      \<lambda>n State. State\<lparr>AllowInterrupt := odd n\<rparr>,
      \<lambda>n State. State\<lparr>PendFlag := odd n\<rparr>,
      \<lambda>n State. State\<lparr>PendDelay := of_nat n\<rparr>,
      \<lambda>n State. State\<lparr>ExtraDelay := of_nat n\<rparr>,
      \<lambda>n State. State\<lparr>OutputChannel7 := set_int16 n\<rparr>] @
     map (\<lambda>i n State. State\<lparr>OutputChannel10 := (OutputChannel10 State)(i := set_int16 n)\<rparr>) [0..<16] @
     [\<lambda>n State. State\<lparr>IndexValue := set_int16 n\<rparr>] @
     map (\<lambda>i n State. State\<lparr>InterruptRequests := (InterruptRequests State)(i := of_nat n)\<rparr>) [0..<10] @
     [\<lambda>n State. request 8
        (State\<lparr>InterruptRequests := (InterruptRequests State)(10 := of_nat n)\<rparr>),
      \<lambda>n State. State\<lparr>InIsr := odd n\<rparr>,
      \<lambda>n State. State\<lparr>SubstituteInstruction := odd n\<rparr>,
      \<lambda>n State. State\<lparr>DownruptTimeValid := odd n\<rparr>,
      \<lambda>n State. State\<lparr>DownruptTime := of_nat n\<rparr>,
      \<lambda>n State. State\<lparr>Downlink := of_nat n\<rparr>]"

text \<open>Reading stops at the end of the numbers with result 5, leaving what was set so far.\<close>

fun LoadFields :: "setter list \<Rightarrow> nat list \<Rightarrow> yaagc \<Rightarrow> int \<times> yaagc" where
  "LoadFields [] _ State = (0, State)"
| "LoadFields (f # fs) [] State = (5, State)"
| "LoadFields (f # fs) (n # ns) State = LoadFields fs ns (f n State)"

definition LoadCoreDump :: "bool \<Rightarrow> nat list \<Rightarrow> yaagc \<Rightarrow> int \<times> yaagc" where
  "LoadCoreDump AllOrErasable =
     LoadFields (LoadChannels AllOrErasable @ LoadErasable AllOrErasable @
       (if AllOrErasable then LoadCpu else []))"

section \<open>Reset\<close>

definition ResetState :: "yaagc \<Rightarrow> yaagc" where
  "ResetState State =
     State\<lparr>InputChannel := (\<lambda>i.
         if i = 24 then 0x3FFF else if i = 25 then 0x7FFF else if i = 26 then 0x7FFF
         else if i = 27 then 0x7FFF else if i < 512 then 0 else InputChannel State i),
       Erasable := (\<lambda>i. if i = RegZ then 0x800 else if i < 2048 then 0 else Erasable State i),
       CycleCounter := 0, ExtraCode := False, AllowInterrupt := True,
       PendFlag := False, PendDelay := 0, ExtraDelay := 0,
       OutputChannel7 := 0,
       OutputChannel10 := (\<lambda>j. if j < 16 then 0 else OutputChannel10 State j),
       IndexValue := 0,
       InterruptRequests := (\<lambda>j. if j < 11 then 0 else InterruptRequests State j),
       InIsr := False, SubstituteInstruction := False,
       DownruptTimeValid := True, DownruptTime := 0, Downlink := 0,
       NightWatchman := False, NightWatchmanTripped := False, RuptLock := False,
       NoRupt := False, TCTrap := False, NoTC := False, ParityFail := False,
       WarningFilter := 0, GeneratedWarning := False,
       RestartLight := False, Standby := False, SbyPressed := False, SbyStillPressed := False,
       NextZ := 0, ScalerCounter := 0, ChannelRoutineCount := 0,
       DskyTimer := 0, DskyFlash := 0, DskyChannel163 := 0,
       TookBZF := False, TookBZMF := False,
       Trap31A := False, Trap31B := False, Trap32 := False, RadarGateCounter := 0\<rparr>"

definition Sunburst37 :: "yaagc \<Rightarrow> yaagc" where
  "Sunburst37 State =
     State\<lparr>Erasable := (Erasable State)
       (0x37 := 0x7FFF, 0x6F := 0x7FFF, 0xFD := 0xB85, 0xFE := 0x803)\<rparr>"

text \<open>The names of the two files are \<open>None\<close> for the null pointer; \<open>Some None\<close> is
  a file that cannot be opened.\<close>

definition agc_engine_init ::
    "u8 list option option \<Rightarrow> nat list option option \<Rightarrow> bool \<Rightarrow> yaagc \<Rightarrow> int \<times> yaagc" where
  "agc_engine_init RomImage CoreDump AllOrErasable State =
     (let (RetVal, State) =
        (case RomImage of None \<Rightarrow> (0, State) | Some f \<Rightarrow> agc_load_binfile f State)
      in if 0 < RetVal then (RetVal, State)
         else
           let State = ResetState State;
               State = (if initializeSunburst37 State then Sunburst37 State else State)
           in case CoreDump of
                None \<Rightarrow> (RetVal, State)
              | Some None \<Rightarrow> (if AllOrErasable then 6 else 0, State)
              | Some (Some numbers) \<Rightarrow> LoadCoreDump AllOrErasable numbers State)"

end
