(* ===== verification/AGC_Images.thy ===== *)
theory AGC_Images
  imports AGC_Init
begin

text \<open>
  What the loaders guarantee: where the words of a rope image come to lie, that the two loaders
  (\<open>agc_load_binfile\<close> and the \<open>set_fixed\<close> of the WebAssembly interface) agree, and that
  a core dump restores the state it was made of.
\<close>

unbundle bit_operations_syntax

section \<open>The order of the banks\<close>

text \<open>The bank at a position of the image, and back.\<close>

definition bank_at :: "nat \<Rightarrow> nat" where
  "bank_at n = (if n = 0 then 2 else if n = 1 then 3 else if n = 2 then 0 else if n = 3 then 1 else n)"

lemma bank_at_bank_at: "bank_at (bank_at n) = n"
  by (simp add: bank_at_def)

lemma NextBank_bank_at: "NextBank (bank_at n) = bank_at (n + 1)"
  by (auto simp: NextBank_def bank_at_def)

lemma bank_at_le: "bank_at n \<le> 35 \<longleftrightarrow> n \<le> 35"
  by (auto simp: bank_at_def)

text \<open>The position of an address in the image, and back: the same permutation.\<close>

definition rope_pos :: "nat \<Rightarrow> nat" where
  "rope_pos a = bank_at (a div 1024) * 1024 + a mod 1024"

lemma rope_pos_rope_pos [simp]: "rope_pos (rope_pos a) = a"
  by (simp add: rope_pos_def bank_at_bank_at)

lemma rope_pos_eq_iff: "rope_pos a = k \<longleftrightarrow> a = rope_pos k"
  by (metis rope_pos_rope_pos)

lemma rope_pos_Suc:
  "(if k mod 1024 + 1 = 1024 then (NextBank (bank_at (k div 1024)), 0)
    else (bank_at (k div 1024), k mod 1024 + 1)) = (bank_at ((k + 1) div 1024), (k + 1) mod 1024)"
  by (simp add: NextBank_bank_at div_Suc mod_Suc)

section \<open>The loader of rope files\<close>

text \<open>The state with the words and parity bits of an image in place.\<close>

definition loaded :: "nat \<Rightarrow> u16 list \<Rightarrow> yaagc \<Rightarrow> yaagc \<Rightarrow> bool" where
  "loaded k ws State State' \<longleftrightarrow>
     (\<forall>a. Fixed State' a = (if k \<le> rope_pos a \<and> rope_pos a < k + length ws
        then shr 1 (ws ! (rope_pos a - k)) else Fixed State a)) \<and>
     (\<forall>a. bit (Parities State' (a div 32)) (a mod 32) \<longleftrightarrow> bit (Parities State (a div 32)) (a mod 32) \<or>
        (k \<le> rope_pos a \<and> rope_pos a < k + length ws) \<and> bit (ws ! (rope_pos a - k)) 0) \<and>
     (CheckParity State' \<longleftrightarrow> CheckParity State \<or> (\<exists>w \<in> set ws. bit w 0)) \<and>
     State' = State\<lparr>Fixed := Fixed State', Parities := Parities State', CheckParity := CheckParity State'\<rparr>"

lemma and_1_iff: "w AND 1 = (if bit (w :: i16) 0 then 1 else 0)"
  by (rule bit_word_eqI) (auto simp: bit_and_iff bit_1_iff intro: gr0I)

lemma LoadWord_eq:
  "LoadWord w (B, j, State) =
     (case if j + 1 = 1024 then (NextBank B, 0) else (B, j + 1) of (B', j') \<Rightarrow>
        (B', j', State\<lparr>Fixed := (Fixed State)(B * 1024 + j := shr 1 w),
           Parities := (Parities State)((B * 1024 + j) div 32 :=
             Parities State ((B * 1024 + j) div 32) OR shl (j mod 32) (ucast (w AND 1))),
           CheckParity := CheckParity State \<or> bit w 0\<rparr>))"
  by (simp add: LoadWord_def Let_def and_1_iff)

lemma LoadWord_loaded:
  assumes "LoadWord w (bank_at (k div 1024), k mod 1024, State) = (b, j, State')"
  shows "b = bank_at ((k + 1) div 1024) \<and> j = (k + 1) mod 1024 \<and> loaded k [w] State State'"
proof -
  define a where "a = rope_pos k"
  have a: "bank_at (k div 1024) * 1024 + k mod 1024 = a" by (simp add: a_def rope_pos_def)
  have "(bank_at (k div 1024) * 1024 + x) mod 32 = x mod 32" for x
    using mod_mult_self3 [of "bank_at (k div 1024) * 32" 32 x] by (simp add: mult.commute)
  then have am: "k mod 1024 mod 32 = a mod 32" by (simp flip: a)
  have pos: "k \<le> rope_pos c \<and> rope_pos c < k + length [w] \<longleftrightarrow> c = a" for c
    using rope_pos_eq_iff [of c k] by (auto simp: a_def)
  have nth: "c = a \<Longrightarrow> [w] ! (rope_pos c - k) = w" for c
    by (simp add: a_def)
  define P where "P = (Parities State)(a div 32 := Parities State (a div 32) OR
      shl (a mod 32) (ucast (w AND 1)))"
  define S where "S = State\<lparr>Fixed := (Fixed State)(a := shr 1 w), Parities := P,
      CheckParity := CheckParity State \<or> bit w 0\<rparr>"
  have step: "LoadWord w (bank_at (k div 1024), k mod 1024, State) =
      (bank_at ((k + 1) div 1024), (k + 1) mod 1024, S)"
    by (simp only: LoadWord_eq rope_pos_Suc a am prod.case S_def P_def)
  have par: "bit (P (c div 32)) (c mod 32) \<longleftrightarrow> bit (Parities State (c div 32)) (c mod 32) \<or> c = a \<and> bit w 0" for c
  proof -
    have "c = a \<longleftrightarrow> c div 32 = a div 32 \<and> c mod 32 = a mod 32"
      by (metis div_mult_mod_eq)
    then show ?thesis
      by (auto simp: P_def and_1_iff bit_or_iff bit_shl bit_1_iff)
  qed
  have "loaded k [w] State S"
    unfolding loaded_def pos
  proof (intro conjI allI)
    fix c
    show "Fixed S c = (if c = a then shr 1 ([w] ! (rope_pos c - k)) else Fixed State c)"
      by (simp add: S_def nth)
    have "Parities S = P" by (simp add: S_def)
    then show "bit (Parities S (c div 32)) (c mod 32) \<longleftrightarrow>
        bit (Parities State (c div 32)) (c mod 32) \<or> c = a \<and> bit ([w] ! (rope_pos c - k)) 0"
      using par [of c] nth [of c] by metis
  qed (simp_all add: S_def)
  then show ?thesis
    using assms step by simp
qed

lemma loaded_Cons:
  assumes "loaded k [w] State S" "loaded (k + 1) ws S State'"
  shows "loaded k (w # ws) State State'"
proof -
  have r: "k \<le> n \<and> n < k + length (w # ws) \<longleftrightarrow> n = k \<or> k + 1 \<le> n \<and> n < k + 1 + length ws" for n
    by auto
  have n: "k + 1 \<le> n \<Longrightarrow> (w # ws) ! (n - k) = ws ! (n - (k + 1))" for n
    by (simp add: nth_Cons')
  have one: "k \<le> n \<and> n < k + length [w] \<longleftrightarrow> n = k" for n
    by auto
  have e1: "State' = S\<lparr>Fixed := Fixed State', Parities := Parities State', CheckParity := CheckParity State'\<rparr>"
    and e2: "S = State\<lparr>Fixed := Fixed S, Parities := Parities S, CheckParity := CheckParity S\<rparr>"
    using assms unfolding loaded_def by blast+
  have "S\<lparr>Fixed := f, Parities := p, CheckParity := c\<rparr> = State\<lparr>Fixed := f, Parities := p, CheckParity := c\<rparr>" for f p c
    by (subst e2) simp
  with e1 have e: "State' = State\<lparr>Fixed := Fixed State', Parities := Parities State', CheckParity := CheckParity State'\<rparr>"
    by simp
  have 1: "Fixed S a = (if rope_pos a = k then shr 1 w else Fixed State a)"
    "bit (Parities S (a div 32)) (a mod 32) \<longleftrightarrow>
      bit (Parities State (a div 32)) (a mod 32) \<or> rope_pos a = k \<and> bit w 0"
    "CheckParity S \<longleftrightarrow> CheckParity State \<or> bit w 0" for a
    using assms(1) unfolding loaded_def one by auto
  have 2: "Fixed State' a = (if k + 1 \<le> rope_pos a \<and> rope_pos a < k + 1 + length ws
      then shr 1 (ws ! (rope_pos a - (k + 1))) else Fixed S a)"
    "bit (Parities State' (a div 32)) (a mod 32) \<longleftrightarrow> bit (Parities S (a div 32)) (a mod 32) \<or>
      (k + 1 \<le> rope_pos a \<and> rope_pos a < k + 1 + length ws) \<and> bit (ws ! (rope_pos a - (k + 1))) 0"
    "CheckParity State' \<longleftrightarrow> CheckParity S \<or> (\<exists>w \<in> set ws. bit w 0)" for a
    using assms(2) unfolding loaded_def by blast+
  show ?thesis
    unfolding loaded_def
  proof (intro conjI allI)
    fix a
    show "Fixed State' a = (if k \<le> rope_pos a \<and> rope_pos a < k + length (w # ws)
        then shr 1 ((w # ws) ! (rope_pos a - k)) else Fixed State a)"
      unfolding 2 1 by (cases "rope_pos a = k") (auto simp: n)
    show "bit (Parities State' (a div 32)) (a mod 32) \<longleftrightarrow> bit (Parities State (a div 32)) (a mod 32) \<or>
        (k \<le> rope_pos a \<and> rope_pos a < k + length (w # ws)) \<and> bit ((w # ws) ! (rope_pos a - k)) 0"
      unfolding 2 1 by (cases "rope_pos a = k") (auto simp: n)
    show "CheckParity State' \<longleftrightarrow> CheckParity State \<or> (\<exists>w \<in> set (w # ws). bit w 0)"
      unfolding 2 1 by simp
  qed (rule e)
qed

lemma LoadWords_loaded:
  "k + length ws \<le> 36 * 1024 \<Longrightarrow>
     LoadWords ws (bank_at (k div 1024), k mod 1024, State) = (0, State') \<Longrightarrow> loaded k ws State State'"
proof (induction ws arbitrary: k State)
  case Nil
  then have "State' = State" by simp
  then show ?case unfolding loaded_def by auto
next
  case (Cons w ws)
  obtain S where S: "LoadWord w (bank_at (k div 1024), k mod 1024, State) =
      (bank_at ((k + 1) div 1024), (k + 1) mod 1024, S)" "loaded k [w] State S"
    using LoadWord_loaded [of w k State] by (metis prod.exhaust)
  have "k div 1024 < 36" using Cons.prems(1) by (simp add: less_mult_imp_div_less)
  then have "\<not> 35 < bank_at (k div 1024)" using bank_at_le [of "k div 1024"] by simp
  then have "LoadWords ws (bank_at ((k + 1) div 1024), (k + 1) mod 1024, S) = (0, State')"
    using Cons.prems(2) S(1) by simp
  then have "loaded (k + 1) ws S State'"
    using Cons.IH [of "k + 1" S] Cons.prems(1) by simp
  then show ?case using S(2) loaded_Cons by blast
qed

lemma LoadWords_Some:
  "k + length ws \<le> 36 * 1024 \<Longrightarrow>
     fst (LoadWords ws (bank_at (k div 1024), k mod 1024, State)) = 0"
proof (induction ws arbitrary: k State)
  case (Cons w ws)
  obtain S where S: "LoadWord w (bank_at (k div 1024), k mod 1024, State) =
      (bank_at ((k + 1) div 1024), (k + 1) mod 1024, S)"
    using LoadWord_loaded [of w k State] by (metis prod.exhaust)
  have "k div 1024 < 36" using Cons.prems(1) by (simp add: less_mult_imp_div_less)
  then have "\<not> 35 < bank_at (k div 1024)" using bank_at_le [of "k div 1024"] by simp
  then show ?case
    using Cons.IH [of "k + 1" S] Cons.prems(1) S by simp
qed simp

lemma RawValues_nth:
  "even (length bytes) \<Longrightarrow> length (RawValues bytes) = length bytes div 2 \<and>
     (\<forall>n < length bytes div 2. RawValues bytes ! n = ucast (bytes ! (2 * n)) * 256 + ucast (bytes ! (2 * n + 1)))"
proof (induction bytes rule: RawValues.induct)
  case (1 a b bs)
  then show ?case
    by (auto simp: nth_Cons' less_Suc_eq_0_disj)
qed auto

lemma agc_load_binfile_loaded:
  "case RomImage of
     None \<Rightarrow> agc_load_binfile RomImage State = (1, State)
   | Some bytes \<Rightarrow>
       (if odd (length bytes) then agc_load_binfile RomImage State = (3, State)
        else if 2 * 36 * 1024 < length bytes then agc_load_binfile RomImage State = (2, State)
        else fst (agc_load_binfile RomImage State) = 0 \<and>
          loaded 0 (RawValues bytes) (State\<lparr>CheckParity := False, Parities := (\<lambda>_. 0)\<rparr>)
            (snd (agc_load_binfile RomImage State)))"
proof (cases RomImage)
  case (Some bytes)
  show ?thesis
  proof (cases "odd (length bytes) \<or> 2 * 36 * 1024 < length bytes")
    case True
    then show ?thesis
      by (auto simp: Some agc_load_binfile_def Let_def odd_iff_mod_2_eq_one)
  next
    case False
    then have len: "length (RawValues bytes) \<le> 36 * 1024"
      using RawValues_nth [of bytes] by auto
    let ?S = "State\<lparr>CheckParity := False, Parities := (\<lambda>_. 0)\<rparr>"
    have e: "agc_load_binfile RomImage State = LoadWords (RawValues bytes) (bank_at (0 div 1024), 0 mod 1024, ?S)"
      using False by (auto simp: Some agc_load_binfile_def Let_def bank_at_def even_iff_mod_2_eq_zero)
    have "fst (agc_load_binfile RomImage State) = 0"
      unfolding e using LoadWords_Some [of 0 "RawValues bytes" ?S] len by simp
    then obtain S' where r: "agc_load_binfile RomImage State = (0, S')"
      by (metis prod.collapse)
    then have "loaded 0 (RawValues bytes) ?S S'"
      using LoadWords_loaded [of 0 "RawValues bytes" ?S S'] len e by simp
    then show ?thesis
      using r False Some by simp
  qed
qed (simp add: agc_load_binfile_def)

text \<open>a rope image of at most 36 banks is loaded completely: the word at each position of the
  image lies at its address (the banks come in the order 2, 3, 0, 1, 4, 5 and so on), its low bit
  is the parity bit of that address, checking is enabled exactly when some word has a parity bit,
  and nothing else of the machine changes; a file that is missing, of odd length or too long is
  refused and changes nothing.\<close>

theorem agc_load_binfile_loads:
  "case RomImage of
     None \<Rightarrow> agc_load_binfile RomImage State = (1, State)
   | Some bytes \<Rightarrow>
       (if odd (length bytes) then agc_load_binfile RomImage State = (3, State)
        else if 2 * 36 * 1024 < length bytes then agc_load_binfile RomImage State = (2, State)
        else fst (agc_load_binfile RomImage State) = 0 \<and>
          loaded 0 (RawValues bytes) (State\<lparr>CheckParity := False, Parities := (\<lambda>_. 0)\<rparr>)
            (snd (agc_load_binfile RomImage State)))"
  by (rule agc_load_binfile_loaded)

lemma SetFixedLoop_loads:
  "k \<le> 36 * 1024 \<Longrightarrow>
     SetFixedLoop rom (bank_at (k div 1024)) (k div 1024) (k mod 1024) State =
       Some (State\<lparr>Fixed := (\<lambda>a. if k \<le> rope_pos a \<and> rope_pos a < 36 * 1024
         then i16_of_int (sar 1 (ucast (rom (2 * rope_pos a)) * 256 + ucast (rom (2 * rope_pos a + 1))))
         else Fixed State a)\<rparr>)"
proof (induction "36 * 1024 - k" arbitrary: k State)
  case 0
  then have k: "k = 36 * 1024" by simp
  have "(\<lambda>a. if 36864 \<le> rope_pos a \<and> rope_pos a < 36864 then f a else Fixed State a) = Fixed State"
    for f :: "nat \<Rightarrow> i16"
    by (rule ext) auto
  then show ?case
    unfolding k by (subst SetFixedLoop.simps) (simp add: bank_at_def)
next
  case (Suc d)
  then have k: "k < 36 * 1024" by simp
  let ?i = "k div 1024" and ?j = "k mod 1024"
  let ?w = "\<lambda>n. i16_of_int (sar 1 (ucast (rom (2 * n)) * 256 + ucast (rom (2 * n + 1))))"
  define S where "S = State\<lparr>Fixed := (Fixed State)(rope_pos k := ?w k)\<rparr>"
  have b: "bank_at ?i \<le> 35"
    using k bank_at_le [of ?i] by (simp add: less_mult_imp_div_less less_Suc_eq_le [symmetric])
  have a: "bank_at ?i * 1024 + ?j = rope_pos k" by (simp add: rope_pos_def)
  have n: "?i * 1024 + ?j = k" by simp
  have "SetFixedLoop rom (bank_at ?i) ?i ?j State =
      (if ?j + 1 = 1024 then SetFixedLoop rom (NextBank (bank_at ?i)) (?i + 1) 0 S
       else SetFixedLoop rom (bank_at ?i) ?i (?j + 1) S)"
    by (subst SetFixedLoop.simps) (simp only: b a n Let_def S_def if_True)
  also have "\<dots> = SetFixedLoop rom (bank_at ((k + 1) div 1024)) ((k + 1) div 1024) ((k + 1) mod 1024) S"
    by (simp add: NextBank_bank_at div_Suc mod_Suc)
  also have "\<dots> = Some (S\<lparr>Fixed := (\<lambda>a. if k + 1 \<le> rope_pos a \<and> rope_pos a < 36 * 1024
      then ?w (rope_pos a) else Fixed S a)\<rparr>)"
    using Suc.hyps(1) [of "k + 1" S] Suc.hyps(2) k by simp
  also have "(\<lambda>a. if k + 1 \<le> rope_pos a \<and> rope_pos a < 36 * 1024 then ?w (rope_pos a) else Fixed S a) =
      (\<lambda>a. if k \<le> rope_pos a \<and> rope_pos a < 36 * 1024 then ?w (rope_pos a) else Fixed State a)"
  proof
    fix a
    show "(if k + 1 \<le> rope_pos a \<and> rope_pos a < 36 * 1024 then ?w (rope_pos a) else Fixed S a) =
      (if k \<le> rope_pos a \<and> rope_pos a < 36 * 1024 then ?w (rope_pos a) else Fixed State a)"
      using k rope_pos_eq_iff [of a k] by (cases "rope_pos a = k") (auto simp: S_def)
  qed
  finally show ?case by (simp add: S_def)
qed

lemma rope_word:
  "i16_of_int (sar 1 (ucast a * 256 + ucast b)) = shr 1 (ucast (a :: u8) * 256 + ucast (b :: u8))"
proof -
  have c: "ucast a * 256 + ucast b = shl 8 (ucast a) OR (ucast b :: cint)"
  proof -
    have "shl 8 (ucast a) AND (ucast b :: cint) = 0"
      by (rule bit_word_eqI) (auto simp: bit_and_iff bit_shl bit_ucast_iff dest: bit_imp_le_length)
    then show ?thesis
      using disjunctive_add_eq_or [of "shl 8 (ucast a)" "ucast b :: cint"]
      by (simp add: shl_def push_bit_eq_mult)
  qed
  have i: "ucast a * 256 + ucast b = shl 8 (ucast a) OR (ucast b :: i16)"
  proof -
    have "shl 8 (ucast a) AND (ucast b :: i16) = 0"
      by (rule bit_word_eqI) (auto simp: bit_and_iff bit_shl bit_ucast_iff dest: bit_imp_le_length)
    then show ?thesis
      using disjunctive_add_eq_or [of "shl 8 (ucast a)" "ucast b :: i16"]
      by (simp add: shl_def push_bit_eq_mult)
  qed
  show ?thesis
    unfolding c i
    by (rule i16_eqI) (auto simp: bit_or_iff bit_shl bit_shr bit_sar bit_ucast_iff dest: bit_imp_le_length)
qed

text \<open>\<open>set_fixed\<close> returns, and for a full image of 36 banks it puts the same words into
  fixed memory as \<open>agc_load_binfile\<close>; apart from them it changes nothing.\<close>

theorem set_fixed_agrees:
  assumes "length bytes = 2 * 36 * 1024"
  shows "case set_fixed (\<lambda>n. bytes ! n) State of None \<Rightarrow> False
    | Some State' \<Rightarrow> Fixed State' = Fixed (snd (agc_load_binfile (Some bytes) State)) \<and>
        State' = State\<lparr>Fixed := Fixed State'\<rparr>"
proof -
  have "set_fixed (\<lambda>n. bytes ! n) State = Some (State\<lparr>Fixed := (\<lambda>a. if rope_pos a < 36 * 1024
      then shr 1 (ucast (bytes ! (2 * rope_pos a)) * 256 + ucast (bytes ! (2 * rope_pos a + 1)))
      else Fixed State a)\<rparr>)"
    using SetFixedLoop_loads [of 0 "\<lambda>n. bytes ! n" State, unfolded rope_word]
    by (simp add: set_fixed_def bank_at_def)
  moreover have "loaded 0 (RawValues bytes) (State\<lparr>CheckParity := False, Parities := (\<lambda>_. 0)\<rparr>)
      (snd (agc_load_binfile (Some bytes) State))"
    using assms agc_load_binfile_loaded [of "Some bytes" State] by simp
  ultimately show ?thesis
    using assms RawValues_nth [of bytes] by (auto simp: loaded_def fun_eq_iff)
qed

lemma set_fixed_agrees_witness:
  "length (replicate (2 * 36 * 1024) (0 :: u8)) = 2 * 36 * 1024 \<and>
   (case set_fixed (\<lambda>n. replicate (2 * 36 * 1024) 0 ! n) power_on of None \<Rightarrow> False
    | Some State' \<Rightarrow>
        Fixed State' = Fixed (snd (agc_load_binfile (Some (replicate (2 * 36 * 1024) 0)) power_on)) \<and>
        State' = power_on\<lparr>Fixed := Fixed State'\<rparr>)"
proof (rule conjI)
  show "length (replicate (2 * 36 * 1024) (0 :: u8)) = 2 * 36 * 1024"
    by (rule length_replicate)
  then show "case set_fixed (\<lambda>n. replicate (2 * 36 * 1024) 0 ! n) power_on of None \<Rightarrow> False
    | Some State' \<Rightarrow>
        Fixed State' = Fixed (snd (agc_load_binfile (Some (replicate (2 * 36 * 1024) 0)) power_on)) \<and>
        State' = power_on\<lparr>Fixed := Fixed State'\<rparr>"
    by (rule set_fixed_agrees)
qed

section \<open>Core dumps\<close>

text \<open>Fields read in order: a run of setters over the numbers written by a run of printers
  is a fold.\<close>

lemma LoadFields_map:
  "LoadFields (map f xs @ fs) (map g xs @ ns) State =
     LoadFields fs ns (fold (\<lambda>i. f i (g i)) xs State)"
  by (induction xs arbitrary: State) simp_all

lemma fold_channels:
  "fold (\<lambda>i State. set_chan i (h i) State) [0..<n] State =
     State\<lparr>InputChannel := (\<lambda>i. if i < n then h i else InputChannel State i)\<rparr>"
  by (induction n) (auto simp: fun_eq_iff less_Suc_eq intro!: arg_cong [where f = "\<lambda>c. InputChannel_update c State"])

lemma fold_erasable:
  "fold (\<lambda>i State. set_creg i (h i) State) [0..<n] State =
     State\<lparr>Erasable := (\<lambda>i. if i < n then h i else Erasable State i)\<rparr>"
  by (induction n) (auto simp: fun_eq_iff less_Suc_eq intro!: arg_cong [where f = "\<lambda>c. Erasable_update c State"])

lemma fold_channel10:
  "fold (\<lambda>i State. State\<lparr>OutputChannel10 := (OutputChannel10 State)(i := h i)\<rparr>) [0..<n] State =
     State\<lparr>OutputChannel10 := (\<lambda>i. if i < n then h i else OutputChannel10 State i)\<rparr>"
  by (induction n) (auto simp: fun_eq_iff less_Suc_eq intro!: arg_cong [where f = "\<lambda>c. OutputChannel10_update c State"])

lemma fold_requests:
  "fold (\<lambda>i State. State\<lparr>InterruptRequests := (InterruptRequests State)(i := h i)\<rparr>) [0..<n] State =
     State\<lparr>InterruptRequests := (\<lambda>i. if i < n then h i else InterruptRequests State i)\<rparr>"
  by (induction n) (auto simp: fun_eq_iff less_Suc_eq intro!: arg_cong [where f = "\<lambda>c. InterruptRequests_update c State"])

lemmas fold_fields = fold_channels fold_erasable fold_channel10 fold_requests

lemma set_int16_oct16 [simp]: "set_int16 (oct16 v) = v"
  by (simp add: set_int16_def)

lemma of_nat_request [simp]: "of_nat (unat (scast (r :: 8 word) :: cint)) = r"
  by (rule bit_word_eqI) (simp add: unsigned_of_nat bit_simps)

text \<open>What a core dump holds of the machine \<open>S\<close>, put into the machine \<open>S0\<close>;
  \<open>DOWNRUPT\<close> is always requested.\<close>

definition restored :: "yaagc \<Rightarrow> yaagc \<Rightarrow> yaagc" where
  "restored S S0 = S0
     \<lparr>InputChannel := (\<lambda>i. if i < 512 then InputChannel S i else InputChannel S0 i),
      Erasable := (\<lambda>i. if i < 2048 then Erasable S i else Erasable S0 i),
      CycleCounter := CycleCounter S, ExtraCode := ExtraCode S,
      AllowInterrupt := AllowInterrupt S, PendFlag := PendFlag S, PendDelay := PendDelay S,
      ExtraDelay := ExtraDelay S, OutputChannel7 := OutputChannel7 S,
      OutputChannel10 := (\<lambda>i. if i < 16 then OutputChannel10 S i else OutputChannel10 S0 i),
      IndexValue := IndexValue S,
      InterruptRequests := (\<lambda>i. if i = 8 then 1 else if i < 11 then InterruptRequests S i
        else InterruptRequests S0 i),
      InIsr := InIsr S, SubstituteInstruction := SubstituteInstruction S,
      DownruptTimeValid := DownruptTimeValid S, DownruptTime := DownruptTime S,
      Downlink := Downlink S\<rparr>"

lemma odd_of_bool: "odd (of_bool b :: nat) = b"
  by simp

lemma of_nat_unat_word: "of_nat (unat w) = (w :: 'a::len word)"
  by simp

lemma scast_counter:
  assumes "c < (2 ^ 31 :: u64)"
  shows "scast (of_nat (unat c) :: cint) = c"
proof (rule bit_word_eqI)
  fix n assume n: "n < LENGTH(64)"
  have hi: "\<not> bit c m" if "31 \<le> m" for m
  proof -
    have "unat c < 2 ^ 31"
      using assms by (simp add: word_less_nat_alt)
    also have "(2 :: nat) ^ 31 \<le> 2 ^ m"
      using that by (rule power_increasing) simp
    finally have "unat c div 2 ^ m = 0" by simp
    then have "\<not> bit (unat c) m" by (simp only: bit_iff_odd) simp
    then show ?thesis by (auto simp: bit_unsigned_iff dest: bit_imp_le_length)
  qed
  show "bit (scast (of_nat (unat c) :: cint) :: u64) n = bit c n"
    using n hi by (cases "n < 31") (auto simp: bit_simps min_def)
qed

text \<open>C40: a core dump restores the machine it was made from: when the machine has run for fewer
  than 2 to the power 31 cycles, loading the dump succeeds and gives every field that a dump holds
  its value in that machine, whatever machine it is loaded into (apart from the request for
  \<open>DOWNRUPT\<close>, which is always set), and changes no other field.\<close>

theorem CoreDump_restores:
  assumes "CycleCounter S < 2 ^ 31"
  shows "LoadCoreDump True (MakeCoreDump S) S0 = (0, restored S S0)"
proof -
  have ten: "[0..<11] = [0..<10] @ [10 :: nat]" by (simp add: upt_rec)
  show ?thesis
    unfolding LoadCoreDump_def MakeCoreDump_def LoadChannels_def LoadErasable_def LoadCpu_def ten
    by (simp only: if_True map_append append_assoc LoadFields_map simp_thms HOL.simp_thms list.map
        append.simps LoadFields.simps fold_fields set_int16_oct16 of_nat_request odd_of_bool
        scast_counter [OF assms] of_nat_unat_word)
      (auto simp: restored_def fun_eq_iff cong: if_cong
        intro!: arg_cong2 [where f = "\<lambda>r. InterruptRequests_update (\<lambda>_. r)"])
qed

lemma CoreDump_restores_witness:
  "let S = power_on\<lparr>CycleCounter := 85333, IndexValue := 7, InIsr := True\<rparr>
   in CycleCounter S < 2 ^ 31 \<and> LoadCoreDump True (MakeCoreDump S) power_on = (0, restored S power_on) \<and>
     restored S power_on = S\<lparr>InterruptRequests := (InterruptRequests S)(8 := 1)\<rparr>"
proof -
  let ?S = "power_on\<lparr>CycleCounter := 85333, IndexValue := 7, InIsr := True\<rparr>"
  have c: "CycleCounter ?S < 2 ^ 31" by simp
  have "restored ?S power_on = ?S\<lparr>InterruptRequests := (InterruptRequests ?S)(8 := 1)\<rparr>"
    by (simp add: restored_def power_on_def fun_eq_iff)
  then show ?thesis
    using c CoreDump_restores [OF c, of power_on] by (simp add: Let_def)
qed

end
