(* ===== verification/Wasm_API.thy ===== *)
theory Wasm_API
  imports AGC_Engine AGC_Init
begin

text \<open>
  The interface that the WebAssembly build offers its host, from \<open>src/yaAGC/wasm.c\<close>:
  \<open>cpu_reset\<close>, \<open>cpu_step\<close>, \<open>packet_write\<close> and \<open>packet_read\<close> (the rope loader
  \<open>set_fixed\<close> is with the initialisation), and the machine in its environment as a step
  relation over these calls.
\<close>

unbundle bit_operations_syntax

section \<open>The calls\<close>

definition cpu_reset :: "yaagc \<Rightarrow> yaagc" where
  "cpu_reset State = snd (agc_engine_init None None False State)"

fun CpuSteps :: "nat \<Rightarrow> yaagc \<Rightarrow> yaagc option" where
  "CpuSteps 0 State = Some State"
| "CpuSteps (Suc n) State =
     (case agc_engine State of None \<Rightarrow> None | Some State \<Rightarrow> CpuSteps n State)"

definition cpu_step :: "u32 \<Rightarrow> yaagc \<Rightarrow> yaagc option" where
  "cpu_step steps State = CpuSteps (unat steps) State"

definition packet_write :: "u16 \<Rightarrow> u16 \<Rightarrow> yaagc \<Rightarrow> cint \<times> yaagc" where
  "packet_write channel dat State =
     (case FormIoPacket (int_of_u16 channel) (int_of_u16 dat) of
        None \<Rightarrow> (- 1, State)
      | Some packet \<Rightarrow>
          case ringbuffer_put (ringbuffer_in State) packet of
            (n, buf) \<Rightarrow> (n, State\<lparr>ringbuffer_in := buf\<rparr>))"

text \<open>A packet that does not parse would leave \<open>port\<close> and \<open>val\<close> unset; the engine
  stores none.\<close>

definition packet_read :: "yaagc \<Rightarrow> u32 \<times> yaagc" where
  "packet_read State =
     (case ringbuffer_get (ringbuffer_out State) of
        (None, buf) \<Rightarrow> (0, State\<lparr>ringbuffer_out := buf\<rparr>)
      | (Some packet, buf) \<Rightarrow>
          (case ParseIoPacket packet of
             Some (port, val, _) \<Rightarrow> (shl 16 port + val, State\<lparr>ringbuffer_out := buf\<rparr>)
           | None \<Rightarrow> (0, State\<lparr>ringbuffer_out := buf\<rparr>)))"

section \<open>The machine in its environment\<close>

inductive host_step :: "yaagc \<Rightarrow> yaagc \<Rightarrow> bool" where
  host_reset: "host_step State (cpu_reset State)"
| host_rom: "set_fixed rom State = Some State' \<Longrightarrow> host_step State State'"
| host_cycle: "agc_engine State = Some State' \<Longrightarrow> host_step State State'"
| host_write: "host_step State (snd (packet_write channel dat State))"
| host_read: "host_step State (snd (packet_read State))"

inductive_cases host_stepE: "host_step State State'"

inductive reachable :: "yaagc \<Rightarrow> yaagc \<Rightarrow> bool" for Start where
  start: "reachable Start (cpu_reset Start)"
| step: "reachable Start State \<Longrightarrow> host_step State State' \<Longrightarrow> reachable Start State'"

end
