(* ===== verification/AGC_Invariant.thy ===== *)
theory AGC_Invariant
  imports AGC_Cycle AGC_Images Wasm_API
begin

text \<open>
  The invariant of the running machine: every word of memory and every channel holds a word of 15
  bits (apart from the 16-bit registers), and every index and count the emulator keeps is within
  its bounds.  It holds after a reset and is preserved by every call of the host, so it holds in
  every reachable state.
\<close>

unbundle bit_operations_syntax

section \<open>The invariant\<close>

text \<open>\<open>A\<close>, \<open>L\<close>, \<open>Q\<close> and \<open>Z\<close> have 16 bits, and so has \<open>ZRUPT\<close>, which
  saves \<open>Z\<close>; channel 4, the lower half of the scaler, is counted up before it is
  compared.\<close>

definition cell_ok :: "nat \<Rightarrow> i16 \<Rightarrow> bool" where
  "cell_ok r v \<longleftrightarrow> r \<in> {RegA, RegL, RegQ, RegZ, RegZRUPT} \<or> \<not> bit v 15"

definition cells_ok :: "(nat \<Rightarrow> i16) \<Rightarrow> bool" where
  "cells_ok e \<longleftrightarrow> (\<forall>r. cell_ok r (e r))"

definition channels_ok :: "(nat \<Rightarrow> i16) \<Rightarrow> bool" where
  "channels_ok c \<longleftrightarrow> (\<forall>n. n = ChanSCALER1 \<or> \<not> bit (c n) 15)"

definition words15 :: "(nat \<Rightarrow> i16) \<Rightarrow> bool" where
  "words15 f \<longleftrightarrow> (\<forall>a. \<not> bit (f a) 15)"

definition machine_ok :: "yaagc \<Rightarrow> bool" where
  "machine_ok State \<longleftrightarrow>
     cells_ok (Erasable State) \<and> channels_ok (InputChannel State) \<and>
     words15 (Fixed State) \<and> words15 (OutputChannel10 State) \<and>
     OutputChannel7 State AND 0x70 = OutputChannel7 State \<and>
     (\<forall>v \<in> {LastRhcPitch State, LastRhcYaw State, LastRhcRoll State}. \<not> bit v 15) \<and>
     rb_ok (ringbuffer_in State) \<and> rb_ok (ringbuffer_out State) \<and>
     (\<forall>k. fifo_bounds (CduFifos State k)) \<and> unat (CduChecker State) < 3 \<and>
     WarningFilter State \<le> WARNING_FILTER_MAX \<and> unat (DskyFlash State) < 4 \<and>
     Downlink State \<in> {0, 1, 2}"

text \<open>The fields it does not speak of.\<close>

lemma machine_ok_frame [simp]:
  "machine_ok (S\<lparr>CycleCounter := x0\<rparr>) = machine_ok S"
  "machine_ok (S\<lparr>Parities := x2\<rparr>) = machine_ok S"
  "machine_ok (S\<lparr>IndexValue := x4\<rparr>) = machine_ok S"
  "machine_ok (S\<lparr>InterruptRequests := x5\<rparr>) = machine_ok S"
  "machine_ok (S\<lparr>ExtraCode := x6\<rparr>) = machine_ok S"
  "machine_ok (S\<lparr>AllowInterrupt := x7\<rparr>) = machine_ok S"
  "machine_ok (S\<lparr>InIsr := x8\<rparr>) = machine_ok S"
  "machine_ok (S\<lparr>SubstituteInstruction := x9\<rparr>) = machine_ok S"
  "machine_ok (S\<lparr>PendFlag := x10\<rparr>) = machine_ok S"
  "machine_ok (S\<lparr>PendDelay := x11\<rparr>) = machine_ok S"
  "machine_ok (S\<lparr>ExtraDelay := x12\<rparr>) = machine_ok S"
  "machine_ok (S\<lparr>DownruptTimeValid := x13\<rparr>) = machine_ok S"
  "machine_ok (S\<lparr>NightWatchman := x14\<rparr>) = machine_ok S"
  "machine_ok (S\<lparr>NightWatchmanTripped := x15\<rparr>) = machine_ok S"
  "machine_ok (S\<lparr>RuptLock := x16\<rparr>) = machine_ok S"
  "machine_ok (S\<lparr>NoRupt := x17\<rparr>) = machine_ok S"
  "machine_ok (S\<lparr>TCTrap := x18\<rparr>) = machine_ok S"
  "machine_ok (S\<lparr>NoTC := x19\<rparr>) = machine_ok S"
  "machine_ok (S\<lparr>Standby := x20\<rparr>) = machine_ok S"
  "machine_ok (S\<lparr>SbyPressed := x21\<rparr>) = machine_ok S"
  "machine_ok (S\<lparr>SbyStillPressed := x22\<rparr>) = machine_ok S"
  "machine_ok (S\<lparr>ParityFail := x23\<rparr>) = machine_ok S"
  "machine_ok (S\<lparr>CheckParity := x24\<rparr>) = machine_ok S"
  "machine_ok (S\<lparr>RestartLight := x25\<rparr>) = machine_ok S"
  "machine_ok (S\<lparr>TookBZF := x26\<rparr>) = machine_ok S"
  "machine_ok (S\<lparr>TookBZMF := x27\<rparr>) = machine_ok S"
  "machine_ok (S\<lparr>GeneratedWarning := x28\<rparr>) = machine_ok S"
  "machine_ok (S\<lparr>Trap31A := x29\<rparr>) = machine_ok S"
  "machine_ok (S\<lparr>Trap31B := x30\<rparr>) = machine_ok S"
  "machine_ok (S\<lparr>Trap32 := x31\<rparr>) = machine_ok S"
  "machine_ok (S\<lparr>RadarGateCounter := x32\<rparr>) = machine_ok S"
  "machine_ok (S\<lparr>DownruptTime := x33\<rparr>) = machine_ok S"
  "machine_ok (S\<lparr>NextZ := x34\<rparr>) = machine_ok S"
  "machine_ok (S\<lparr>ScalerCounter := x35\<rparr>) = machine_ok S"
  "machine_ok (S\<lparr>ChannelRoutineCount := x36\<rparr>) = machine_ok S"
  "machine_ok (S\<lparr>DskyTimer := x37\<rparr>) = machine_ok S"
  "machine_ok (S\<lparr>DskyChannel163 := x38\<rparr>) = machine_ok S"
  "machine_ok (S\<lparr>CountCDUX := x39\<rparr>) = machine_ok S"
  "machine_ok (S\<lparr>CountCDUY := x40\<rparr>) = machine_ok S"
  "machine_ok (S\<lparr>CountCDUZ := x41\<rparr>) = machine_ok S"
  "machine_ok (S\<lparr>GyroCount := x42\<rparr>) = machine_ok S"
  "machine_ok (S\<lparr>OldChannel14 := x43\<rparr>) = machine_ok S"
  "machine_ok (S\<lparr>GyroTimer := x44\<rparr>) = machine_ok S"
  "machine_ok (S\<lparr>ImuCduCount := x45\<rparr>) = machine_ok S"
  "machine_ok (S\<lparr>ImuChannel14 := x46\<rparr>) = machine_ok S"
  "machine_ok (S\<lparr>ChannelMasks := x47\<rparr>) = machine_ok S"
  "machine_ok (S\<lparr>ChannelIsSetUp := x48\<rparr>) = machine_ok S"
  "machine_ok (S\<lparr>DebugDsky := x49\<rparr>) = machine_ok S"
  "machine_ok (S\<lparr>InhibitAlarms := x50\<rparr>) = machine_ok S"
  "machine_ok (S\<lparr>CmOrLm := x51\<rparr>) = machine_ok S"
  "machine_ok (S\<lparr>DedaMonitor := x52\<rparr>) = machine_ok S"
  "machine_ok (S\<lparr>DedaWhen := x53\<rparr>) = machine_ok S"
  "machine_ok (S\<lparr>DebuggerInterruptMasks := x54\<rparr>) = machine_ok S"
  "machine_ok (S\<lparr>initializeSunburst37 := x55\<rparr>) = machine_ok S"
  by (simp_all add: machine_ok_def)

text \<open>An assignment to one of the others.\<close>

lemma machine_ok_set [simp]:
  assumes "machine_ok State"
  shows "machine_ok (State\<lparr>Erasable := e\<rparr>) = cells_ok e"
    and "machine_ok (State\<lparr>InputChannel := c\<rparr>) = channels_ok c"
    and "machine_ok (State\<lparr>OutputChannel7 := o7\<rparr>) = (o7 AND 0x70 = o7)"
    and "machine_ok (State\<lparr>LastRhcPitch := v\<rparr>) = (\<not> bit v 15)"
    and "machine_ok (State\<lparr>LastRhcYaw := v\<rparr>) = (\<not> bit v 15)"
    and "machine_ok (State\<lparr>LastRhcRoll := v\<rparr>) = (\<not> bit v 15)"
    and "machine_ok (State\<lparr>ringbuffer_in := b\<rparr>) = rb_ok b"
    and "machine_ok (State\<lparr>ringbuffer_out := b\<rparr>) = rb_ok b"
    and "machine_ok (State\<lparr>CduFifos := q\<rparr>) = (\<forall>k. fifo_bounds (q k))"
    and "machine_ok (State\<lparr>CduChecker := k\<rparr>) = (unat k < 3)"
    and "machine_ok (State\<lparr>WarningFilter := w\<rparr>) = (w \<le> WARNING_FILTER_MAX)"
    and "machine_ok (State\<lparr>DskyFlash := d\<rparr>) = (unat d < 4)"
    and "machine_ok (State\<lparr>Downlink := l\<rparr>) = (l \<in> {0, 1, 2})"
    and "machine_ok (State\<lparr>Fixed := f\<rparr>) = words15 f"
    and "machine_ok (State\<lparr>OutputChannel10 := f\<rparr>) = words15 f"
  using assms by (simp_all add: machine_ok_def)

lemma machine_okD [simp]:
  assumes "machine_ok State"
  shows "cells_ok (Erasable State)" "channels_ok (InputChannel State)"
    and "OutputChannel7 State AND 0x70 = OutputChannel7 State"
    and "\<not> bit (LastRhcPitch State) 15" "\<not> bit (LastRhcYaw State) 15" "\<not> bit (LastRhcRoll State) 15"
    and "rb_ok (ringbuffer_in State)" "rb_ok (ringbuffer_out State)"
    and "fifo_bounds (CduFifos State k)" "unat (CduChecker State) < 3"
    and "WarningFilter State \<le> WARNING_FILTER_MAX" "unat (DskyFlash State) < 4"
    and "words15 (Fixed State)" "words15 (OutputChannel10 State)"
  using assms by (simp_all add: machine_ok_def)

lemma superbank_bit [simp]: "machine_ok State \<Longrightarrow> \<not> bit (OutputChannel7 State) 15"
proof
  assume "machine_ok State" "bit (OutputChannel7 State) 15"
  then have "bit (OutputChannel7 State AND 0x70) 15" by simp
  then show False by (simp add: bit_and_iff mask_bits)
qed

lemma cells_ok_upd [simp]: "cells_ok e \<Longrightarrow> cells_ok (e(r := v)) = cell_ok r v"
  by (auto simp: cells_ok_def)

lemma words15_upd [simp]: "words15 f \<Longrightarrow> words15 (f(a := v)) = (\<not> bit v 15)"
  by (auto simp: words15_def)

lemma channels_ok_upd [simp]:
  "channels_ok c \<Longrightarrow> channels_ok (c(n := v)) = (n = ChanSCALER1 \<or> \<not> bit v 15)"
  by (auto simp: channels_ok_def)

lemma cell_ok_bit [simp]:
  "cells_ok e \<Longrightarrow> cell_ok r (e r)"
  "r < REG16 \<Longrightarrow> cell_ok r v" "\<not> bit v 15 \<Longrightarrow> cell_ok r v"
  by (auto simp: cells_ok_def cell_ok_def less_Suc_eq numeral_3_eq_3)

lemma channel_bit [simp]: "channels_ok c \<Longrightarrow> n \<noteq> ChanSCALER1 \<Longrightarrow> \<not> bit (c n) 15"
  by (auto simp: channels_ok_def)

lemma cell_bit:
  "machine_ok State \<Longrightarrow> r \<notin> {RegA, RegL, RegQ, RegZ, RegZRUPT} \<Longrightarrow> \<not> bit (creg State r) 15"
  using machine_okD(1) [of State] unfolding cells_ok_def cell_ok_def by blast

section \<open>Rules for the constructs of the model\<close>

text \<open>A result that carries a state.\<close>

definition result_ok :: "'a \<times> yaagc \<Rightarrow> bool" where
  "result_ok p \<longleftrightarrow> machine_ok (snd p)"

named_theorems keeps \<open>rules that take a definition apart\<close>

lemma result_ok_Pair [simp]: "result_ok (a, State) = machine_ok State"
  by (simp add: result_ok_def)

lemma result_ok_snd [simp]: "result_ok p \<Longrightarrow> machine_ok (snd p)"
  by (simp add: result_ok_def)

lemma keeps_state [keeps]:
  "(\<And>State. machine_ok State \<Longrightarrow> machine_ok (f State)) \<Longrightarrow> machine_ok x \<Longrightarrow> machine_ok (Let x f)"
  "(\<And>State. machine_ok State \<Longrightarrow> result_ok (g State)) \<Longrightarrow> machine_ok x \<Longrightarrow> result_ok (Let x g)"
  by (simp_all add: Let_def)

lemma keeps_result [keeps]:
  "(\<And>a State. machine_ok State \<Longrightarrow> machine_ok (f a State)) \<Longrightarrow> result_ok p \<Longrightarrow>
     machine_ok (case p of (a, State) \<Rightarrow> f a State)"
  "(\<And>a State. machine_ok State \<Longrightarrow> result_ok (g a State)) \<Longrightarrow> result_ok p \<Longrightarrow>
     result_ok (case p of (a, State) \<Rightarrow> g a State)"
  "(\<And>a State. machine_ok State \<Longrightarrow> machine_ok (f a State)) \<Longrightarrow> result_ok p \<Longrightarrow>
     machine_ok (let (a, State) = p in f a State)"
  "(\<And>a State. machine_ok State \<Longrightarrow> result_ok (g a State)) \<Longrightarrow> result_ok p \<Longrightarrow>
     result_ok (let (a, State) = p in g a State)"
  by (auto simp: result_ok_def split: prod.split)

lemma keeps_if [keeps]:
  "(b \<Longrightarrow> machine_ok x) \<Longrightarrow> (\<not> b \<Longrightarrow> machine_ok y) \<Longrightarrow> machine_ok (if b then x else y)"
  "(b \<Longrightarrow> result_ok p) \<Longrightarrow> (\<not> b \<Longrightarrow> result_ok q) \<Longrightarrow> result_ok (if b then p else q)"
  by simp_all

lemma keeps_Pair [keeps]: "machine_ok State \<Longrightarrow> result_ok (a, State)"
  by simp

text \<open>A result that may be missing.\<close>

definition option_ok :: "yaagc option \<Rightarrow> bool" where
  "option_ok r \<longleftrightarrow> (case r of None \<Rightarrow> True | Some State \<Rightarrow> machine_ok State)"

lemma option_ok_simps [simp]: "option_ok None" "option_ok (Some State) = machine_ok State"
  by (simp_all add: option_ok_def)

lemma keeps_option [keeps]:
  "(\<And>State. machine_ok State \<Longrightarrow> option_ok (f State)) \<Longrightarrow> machine_ok x \<Longrightarrow> option_ok (Let x f)"
  "(\<And>a State. machine_ok State \<Longrightarrow> option_ok (g a State)) \<Longrightarrow> result_ok p \<Longrightarrow>
     option_ok (case p of (a, State) \<Rightarrow> g a State)"
  "(b \<Longrightarrow> option_ok r) \<Longrightarrow> (\<not> b \<Longrightarrow> option_ok s) \<Longrightarrow> option_ok (if b then r else s)"
  "machine_ok State \<Longrightarrow> option_ok (Some State)"
  by (auto simp: result_ok_def split: prod.split)

text \<open>A value in between that is no state; these are tried last.\<close>

lemma keeps_let:
  "(\<And>v. v = x \<Longrightarrow> machine_ok (f v)) \<Longrightarrow> machine_ok (Let x f)"
  "(\<And>v. v = x \<Longrightarrow> result_ok (g v)) \<Longrightarrow> result_ok (Let x g)"
  "(\<And>v. v = x \<Longrightarrow> option_ok (h v)) \<Longrightarrow> option_ok (Let x h)"
  "(\<And>a b. p = (a, b) \<Longrightarrow> machine_ok (k a b)) \<Longrightarrow> machine_ok (case p of (a, b) \<Rightarrow> k a b)"
  "(\<And>q. option_ok (m q)) \<Longrightarrow> option_ok (case loc of None \<Rightarrow> None | Some q \<Rightarrow> m q)"
  by (auto simp: Let_def split: prod.split option.split)

section \<open>Memory and channels\<close>

lemma ParityCheck_ok [simp]: "machine_ok State \<Longrightarrow> machine_ok (ParityCheck b a State)"
  by (simp add: ParityCheck_def Let_def bit_or_iff mask_bits)

lemma FindMemoryWord_ok [simp]: "machine_ok State \<Longrightarrow> result_ok (FindMemoryWord State a)"
  by (simp add: FindMemoryWord_def Let_def)

lemma Assign_ok [simp]: "machine_ok State \<Longrightarrow> machine_ok (Assign b a v State)"
  by (simp add: Assign_def Let_def bit_and_iff mask_bits)

lemma AssignFromPointer_ok [simp]: "machine_ok State \<Longrightarrow> machine_ok (AssignFromPointer p v State)"
  by (simp add: AssignFromPointer_def split: loc.split)

lemma WriteIO_ok [simp]: "machine_ok State \<Longrightarrow> machine_ok (WriteIO n v State)"
  by (simp add: WriteIO_def Let_def bit_and_iff bit_or_iff mask_bits)

lemma mod_4096_4: "(n + 4) mod 4096 mod 4 = (n mod 4 :: nat)"
  by (simp add: mod_mod_cancel)

lemma rb_ok_put [simp]: "rb_ok b \<Longrightarrow> rb_ok (snd (ringbuffer_put b p))"
  by (auto simp: rb_ok_def ringbuffer_put_def Let_def unat_advance mod_4096_4)

lemma rb_ok_init [simp]: "rb_ok (ringbuffer_init b)"
  by (simp add: rb_ok_def ringbuffer_init_def)

lemma rb_ok_get [simp]: "rb_ok b \<Longrightarrow> rb_ok (snd (ringbuffer_get b))"
  by (auto simp: rb_ok_def ringbuffer_get_def unat_advance mod_4096_4)

lemma ChannelSetup_ok [simp]: "machine_ok State \<Longrightarrow> machine_ok (ChannelSetup State)"
  by (simp add: ChannelSetup_def)

lemma superbank_bits: "i16_of_int (v AND 0x70) AND 0x70 = i16_of_int (v AND 0x70)"
  by (rule i16_eqI) (simp add: bit_and_iff mask_bits)

lemma set_superbank_ok:
  assumes "machine_ok State"
  shows "machine_ok (set_chan 7 (i16_of_int (v AND 0x70)) (State\<lparr>OutputChannel7 := i16_of_int (v AND 0x70)\<rparr>))"
proof -
  have "machine_ok (State\<lparr>OutputChannel7 := i16_of_int (v AND 0x70)\<rparr>)"
    unfolding machine_ok_set(3) [OF assms] by (rule superbank_bits)
  then show ?thesis
    using assms by (simp add: bit_and_iff mask_bits)
qed

lemma ChannelOutput_ok [simp]: "machine_ok State \<Longrightarrow> machine_ok (ChannelOutput n v State)"
  unfolding ChannelOutput_def
  apply (intro keeps)
      apply (rule set_superbank_ok, assumption)
     apply (simp_all split: option.split)
  done

lemma downlink_ok:
  assumes "machine_ok State"
  shows "machine_ok (let State = (if n = 0x1C then State\<lparr>Downlink := Downlink State OR 1\<rparr>
           else if n = 0x1D then State\<lparr>Downlink := Downlink State OR 2\<rparr> else State)
     in if Downlink State = 3
        then State\<lparr>DownruptTimeValid := True, DownruptTime := CycleCounter State + 1706, Downlink := 0\<rparr>
        else State)"
proof -
  have "Downlink State = 0 \<or> Downlink State = 1 \<or> Downlink State = 2"
    using assms unfolding machine_ok_def by blast
  then show ?thesis
    using assms by (auto simp: Let_def)
qed

lemma CpuWriteIO_ok [simp]:
  assumes "machine_ok State"
  shows "machine_ok (CpuWriteIO n v State)"
  unfolding CpuWriteIO_def
  apply (rule keeps_result(3), rule keeps_result(3), rule keeps_state(1), rule keeps_state(1), rule downlink_ok)
      apply assumption
     apply (rule ChannelOutput_ok, assumption)
    apply (rule WriteIO_ok, assumption)
   apply (intro keeps)
   apply (simp_all add: assms bit_and_iff bit_or_iff mask_bits)
  done

lemma CounterPINC_bit [simp]: "\<not> bit (snd (CounterPINC i)) 15"
  by (auto simp: CounterPINC_def Let_def bit_and_iff mask_bits)

lemma CounterMINC_bit [simp]: "\<not> bit (snd (CounterMINC i)) 15"
  by (auto simp: CounterMINC_def Let_def bit_and_iff mask_bits)

lemma CounterPCDU_bit [simp]: "\<not> bit (snd (CounterPCDU i)) 15"
  by (simp add: CounterPCDU_def bit_and_iff mask_bits)

lemma CounterMCDU_bit [simp]: "\<not> bit (snd (CounterMCDU i)) 15"
  by (simp add: CounterMCDU_def bit_and_iff mask_bits)

lemma CounterSHINC_bit [simp]: "\<not> bit (snd (CounterSHINC i)) 15"
  by (simp add: CounterSHINC_def bit_and_iff mask_bits)

lemma CounterSHANC_bit [simp]: "\<not> bit (snd (CounterSHANC i)) 15"
  by (simp add: CounterSHANC_def bit_and_iff mask_bits)

lemmas ok_bits = bit_and_iff bit_or_iff mask_bits

lemma CounterDINC_ok [simp]: "machine_ok State \<Longrightarrow> machine_ok (snd (snd (CounterDINC State n i)))"
  by (simp add: CounterDINC_def Let_def)

lemma CounterDINC_bit: "\<not> bit i 15 \<Longrightarrow> \<not> bit (fst (snd (CounterDINC State n i))) 15"
  by (simp add: CounterDINC_def Let_def ok_bits)

lemma RaiseInterruptRequests_ok [simp]:
  "machine_ok State \<Longrightarrow> machine_ok (RaiseInterruptRequests a v State)"
  by (simp add: RaiseInterruptRequests_def)

section \<open>Input\<close>

lemma PushCduFifo_ok [simp]: "machine_ok State \<Longrightarrow> machine_ok (PushCduFifo c t State)"
  using PushEntry_entries by (simp add: PushCduFifo_def Let_def)

lemma UnprogrammedIncrement_ok:
  assumes "machine_ok State"
  shows "machine_ok (UnprogrammedIncrement c t State)"
proof -
  have "cell_ok r (creg State r)" for r
    using assms by simp
  then have d: "cell_ok r (fst (snd (CounterDINC State n (creg State r))))" for n r
    using CounterDINC_bit [of "creg State r"] unfolding cell_ok_def by blast
  show ?thesis
    using assms d by (simp add: UnprogrammedIncrement_def Let_def split_beta)
qed

lemma InputPacket_ok:
  assumes "machine_ok State"
  shows "result_ok (InputPacket p State)"
proof (cases "ParseIoPacket p")
  case (Some x)
  obtain Channel Value uBit where x: "x = (Channel, Value, uBit)" by (cases x)
  let ?m = "ChannelMasks State (unat Channel)"
  let ?v = "((Value AND 0x7FFF) AND ?m) OR (ReadIO State (unat Channel) AND NOT ?m)"
  have v: "\<not> bit ?v 15" if "unat Channel \<in> {0x76, 0x77, 0x78}"
    using that assms by (auto simp: ReadIO_def bit_or_iff bit_and_iff mask_bits)
  show ?thesis
    unfolding InputPacket_def Some x option.case prod.case
    by (intro keeps | rule keeps_let |
        (insert assms v, simp add: UnprogrammedIncrement_ok ok_bits; fail))+
qed (simp add: InputPacket_def assms)

lemma ProcessPackets_ok:
  "machine_ok State \<Longrightarrow> machine_ok (snd (snd (ProcessPackets ps State)))"
proof (induction ps arbitrary: State)
  case (Cons p ps)
  then show ?case
    using InputPacket_ok [OF Cons.prems, of p]
    by (auto simp: result_ok_def split: prod.split option.split)
qed simp

lemma ChannelInput_ok:
  assumes "machine_ok State" "ChannelInput State = Some (r, State')"
  shows "machine_ok State'"
proof -
  let ?S = "if \<not> ChannelIsSetUp State then ChannelSetup State else State"
  have S: "ChannelIsSetUp ?S" "machine_ok ?S"
    using assms(1) by (simp_all add: ChannelSetup_def)
  obtain x rest T where P: "ProcessPackets (rb_contents (ringbuffer_in ?S)) ?S = (x, rest, T)"
    using prod_cases3 by blast
  have "machine_ok T"
    using ProcessPackets_ok [OF S(2), of "rb_contents (ringbuffer_in ?S)"] by (simp only: P snd_conv)
  then show ?thesis
    using InputLoop_process [OF S(1) machine_okD(7) [OF S(2)] P] assms(2)
    by (auto simp: ChannelInput_def)
qed

section \<open>Counters and peripherals\<close>

lemma next_checker:
  assumes "unat (c :: cint) < 3"
  shows "\<not> 3 \<le>s c + 1 \<Longrightarrow> unat (c + 1) < 3"
proof -
  have "c = 0 \<or> c = 1 \<or> c = 2" using assms by (auto simp: word_unat_eq_iff)
  then show "\<not> 3 \<le>s c + 1 \<Longrightarrow> unat (c + 1) < 3" by auto
qed

lemma ServiceCduFifo_ok:
  assumes "machine_ok State"
  shows "result_ok (ServiceCduFifo State)"
proof -
  let ?k = "unat (CduChecker State)"
  have "fifo_bounds (PopEntry (CycleCounter State) (CduFifos State ?k))" if "0 <s Size (CduFifos State ?k)"
    using PopEntry_entries [of "CduFifos State ?k"] that assms by auto
  then show ?thesis
    using assms next_checker [of "CduChecker State"] by (simp add: ServiceCduFifo_def Let_def)
qed

lemma BurstOutput_ok: "machine_ok State \<Longrightarrow> result_ok (BurstOutput m r c State)"
  unfolding BurstOutput_def SaveCount_def
  by (intro keeps) (simp_all add: Let_def split: prod.split)

lemma DriveImu_ok: "machine_ok State \<Longrightarrow> machine_ok (DriveImu State)"
  unfolding DriveImu_def
  by (rule keeps_let, intro keeps) (simp_all add: BurstOutput_ok)

lemma FlushGyro_ok: "machine_ok State \<Longrightarrow> machine_ok (FlushGyro State)"
  by (induction State rule: FlushGyro.induct) (subst FlushGyro.simps, simp add: Let_def)

lemma BurstGyro_ok: "machine_ok State \<Longrightarrow> machine_ok (BurstGyro State)"
  by (induction State rule: BurstGyro.induct) (subst BurstGyro.simps, simp add: Let_def)

lemma DriveGyro_ok: "machine_ok State \<Longrightarrow> machine_ok (DriveGyro State)"
  unfolding DriveGyro_def
  by (intro keeps) (simp_all add: FlushGyro_ok BurstGyro_ok)

lemma DriveOptics_ok: "machine_ok State \<Longrightarrow> machine_ok (DriveOptics State)"
  unfolding DriveOptics_def by (intro keeps) simp_all

lemma FlashLoop_ok: "unat f < 4 \<Longrightarrow> unat (snd (FlashLoop t f)) < 4"
  using FlashLoop_steps [of f t] by simp

lemma UpdateDSKY_ok: "machine_ok State \<Longrightarrow> machine_ok (UpdateDSKY State)"
  unfolding UpdateDSKY_def split_beta
  by (intro keeps | rule keeps_let | (simp add: ok_bits FlashLoop_ok; fail))+

section \<open>The scaler\<close>

lemma TickScaler_ok: "machine_ok State \<Longrightarrow> machine_ok (TickScaler State)"
  by (simp add: TickScaler_def Let_def ok_bits)

lemma UpdateWarningFilter_ok:
  assumes "machine_ok State"
  shows "machine_ok (UpdateWarningFilter State)"
proof -
  have "WarningFilter State - 15 \<le> 140000" if "15 \<le> WarningFilter State"
    using machine_okD(11) [OF assms] that by (simp add: word_le_nat_alt unat_sub)
  then show ?thesis
    using assms by (simp add: UpdateWarningFilter_def Let_def not_less)
qed

lemma SlowAlarms_ok: "machine_ok State \<Longrightarrow> result_ok (SlowAlarms State)"
  unfolding SlowAlarms_def EnterOrLeaveStandby_def CheckNightWatchman_def
  by (intro keeps | (simp add: ok_bits UpdateWarningFilter_ok; fail))+

lemma CheckRuptLock_ok: "machine_ok State \<Longrightarrow> result_ok (CheckRuptLock State)"
  by (simp add: CheckRuptLock_def ok_bits)

lemma CheckTCTrap_ok: "machine_ok State \<Longrightarrow> result_ok (CheckTCTrap State)"
  by (simp add: CheckTCTrap_def ok_bits)

lemma PINC_ok [simp]: "machine_ok State \<Longrightarrow> result_ok (PINC r State)"
  by (simp add: PINC_def split_beta)

lemma UpdateTimes_ok:
  assumes "machine_ok State"
  shows "machine_ok (UpdateTime1And3 State)" "machine_ok (UpdateTime5 State)"
    "machine_ok (UpdateTime4 State)" "machine_ok (UpdateTime6 State)"
proof -
  show "machine_ok (UpdateTime6 State)"
    unfolding UpdateTime6_def DelayOne_def split_beta using assms
    by (intro keeps | rule keeps_let | (simp add: CounterDINC_bit cell_bit; fail))+
  show "machine_ok (UpdateTime1And3 State)" "machine_ok (UpdateTime5 State)"
    "machine_ok (UpdateTime4 State)"
    unfolding UpdateTime1And3_def UpdateTime5_def UpdateTime4_def DelayOne_def
    by (intro keeps | (insert assms, simp; fail))+
qed

lemma CheckTraps_ok: "machine_ok State \<Longrightarrow> machine_ok (CheckTraps State)"
  unfolding CheckTraps_def by (intro keeps) simp_all

lemma CheckRadar_ok: "machine_ok State \<Longrightarrow> machine_ok (CheckRadar State)"
  by (simp add: CheckRadar_def ok_bits)

lemma fold_CpuWriteIO_ok: "machine_ok State \<Longrightarrow> machine_ok (fold (\<lambda>n. CpuWriteIO n v) ns State)"
  by (induction ns arbitrary: State) simp_all

lemma GOJAM_ok: "machine_ok State \<Longrightarrow> machine_ok (GOJAM State)"
  unfolding GOJAM_def by (intro keeps fold_CpuWriteIO_ok) (simp_all add: ok_bits)

lemma HandleAlarms_ok: "machine_ok State \<Longrightarrow> machine_ok (HandleAlarms a State)"
  unfolding HandleAlarms_def by (intro keeps) (simp_all add: GOJAM_ok)

lemma ScalerBody_ok: "machine_ok State \<Longrightarrow> machine_ok (ScalerBody State)"
  unfolding ScalerBody_def
  by (intro keeps HandleAlarms_ok CheckRadar_ok CheckTraps_ok UpdateTimes_ok CheckTCTrap_ok CheckRuptLock_ok
    SlowAlarms_ok TickScaler_ok)

lemma ScalerLoop_ok: "machine_ok State \<Longrightarrow> result_ok (ScalerLoop State)"
proof (induction State rule: ScalerLoop.induct)
  case (1 State)
  show ?case
    using 1 ScalerBody_ok [OF 1(2)] by (subst ScalerLoop.simps) (simp add: Let_def)
qed

section \<open>The instructions\<close>

lemma put_low_ok [simp]:
  "machine_ok State \<Longrightarrow> r < REG16 \<Longrightarrow> machine_ok (set_creg r v State)"
  by simp

lemma exec_TC_ok: "machine_ok State \<Longrightarrow> result_ok (exec_TC i (m, State))"
  unfolding exec_TC_def prod.case
  by (intro keeps | rule keeps_let | (simp; fail))+

lemma exec_CCS_ok: "machine_ok State \<Longrightarrow> machine_ok (exec_CCS i State)"
  unfolding exec_CCS_def
  by (intro keeps | rule keeps_let | (simp; fail))+

lemma exec_double_ok:
  assumes "machine_ok State"
  shows "option_ok (exec_DAS i State)" "option_ok (exec_DXCH i State)" "option_ok (exec_DCA i State)"
    "option_ok (exec_DCS i State)"
  unfolding exec_DAS_def exec_DXCH_def exec_DCA_def exec_DCS_def LoadDouble_def ReEdit_def
  by (intro keeps | rule keeps_let | (insert assms, simp; fail))+

lemma SetIndex_ok: "machine_ok State \<Longrightarrow> machine_ok (SetIndex a State)"
  unfolding SetIndex_def by (intro keeps) simp_all

lemma exec_INDEX_ok:
  assumes "machine_ok State"
  shows "machine_ok (exec_INDEX i State)" "result_ok (exec_INDEX_extra i (m, State))"
  unfolding exec_INDEX_def exec_INDEX_extra_def exec_RESUME_def
  using assms by (simp_all add: SetIndex_ok)

lemma exec_simple_ok:
  assumes "machine_ok State"
  shows "machine_ok (exec_INCR i State)" "machine_ok (exec_ADS i State)" "machine_ok (exec_MSU i State)"
    "machine_ok (exec_AUG i State)" "machine_ok (exec_DIM i State)" "machine_ok (exec_CA i State)"
    "machine_ok (exec_CS i State)" "machine_ok (exec_MASK i State)" "machine_ok (exec_LXCH i State)"
    "machine_ok (exec_QXCH i State)" "machine_ok (exec_XCH i State)" "machine_ok (exec_TS i State)"
    "machine_ok (exec_AD i State)" "machine_ok (exec_SU i State)"
  unfolding exec_INCR_def exec_ADS_def exec_AUG_def exec_DIM_def exec_CA_def exec_CS_def exec_MASK_def
    exec_LXCH_def exec_QXCH_def exec_XCH_def exec_TS_def exec_AD_def exec_SU_def exec_MSU_def
  by (intro keeps | rule keeps_let | (insert assms, simp; fail))+

lemma exec_channel_ok:
  assumes "machine_ok State"
  shows "machine_ok (exec_READ i State)" "machine_ok (exec_WRITE i State)" "machine_ok (exec_RAND i State)"
    "machine_ok (exec_WAND i State)" "machine_ok (exec_ROR i State)" "machine_ok (exec_WOR i State)"
    "machine_ok (exec_RXOR i State)"
  unfolding exec_READ_def exec_WRITE_def exec_RAND_def exec_WAND_def exec_ROR_def exec_WOR_def exec_RXOR_def
  by (intro keeps | rule keeps_let | (insert assms, auto; fail))+

lemma DVDivisor_ok: "machine_ok State \<Longrightarrow> result_ok (DVDivisor k x State)"
  unfolding DVDivisor_def by (intro keeps | rule keeps_let | (simp; fail))+

lemma SimulateDV_ok: "machine_ok State \<Longrightarrow> machine_ok (SimulateDV d State)"
  unfolding SimulateDV_def by (intro keeps | rule keeps_let | (simp; fail))+

lemma DVQuotient_ok: "machine_ok State \<Longrightarrow> machine_ok (DVQuotient n d State)"
  unfolding DVQuotient_def by (intro keeps | rule keeps_let | (simp; fail))+

lemma exec_DV_ok: "machine_ok State \<Longrightarrow> machine_ok (exec_DV k v State)"
  unfolding exec_DV_def
  by (intro keeps DVDivisor_ok SimulateDV_ok DVQuotient_ok | rule keeps_let | (simp; fail))+

lemma exec_MP_ok: "machine_ok State \<Longrightarrow> machine_ok (exec_MP k v State)"
  unfolding exec_MP_def by (intro keeps | rule keeps_let | (simp; fail))+

lemma exec_marks_ok:
  assumes "machine_ok State"
  shows "result_ok (exec_TCF i (m, State))" "result_ok (exec_BZF i (m, State))"
    "result_ok (exec_BZMF i (m, State))"
  using assms by (simp_all add: exec_TCF_def exec_BZF_def exec_BZMF_def)

lemmas exec_ok = exec_TC_ok exec_CCS_ok exec_double_ok exec_INDEX_ok exec_simple_ok exec_channel_ok
  exec_MP_ok exec_DV_ok exec_marks_ok

definition marked_ok :: "(marks \<times> yaagc) option \<Rightarrow> bool" where
  "marked_ok r \<longleftrightarrow> (case r of None \<Rightarrow> True | Some p \<Rightarrow> result_ok p)"

lemma marked_okI:
  "(b \<Longrightarrow> marked_ok r) \<Longrightarrow> (\<not> b \<Longrightarrow> marked_ok s) \<Longrightarrow> marked_ok (if b then r else s)"
  "machine_ok (f (snd ms)) \<Longrightarrow> marked_ok (quiet f ms)"
  "option_ok (g (snd ms)) \<Longrightarrow> marked_ok (partial g ms)"
  "result_ok p \<Longrightarrow> marked_ok (Some p)"
  by (auto simp: marked_ok_def option_ok_def split: option.splits)

lemma Execute_ok:
  assumes "machine_ok State"
  shows "marked_ok (Execute i (m, State))"
  unfolding Execute_def Let_def mark_transient_def
  by (intro marked_okI) (simp_all add: exec_ok assms)

section \<open>The cycle\<close>

lemma MirrorBanks_keeps: "machine_ok State \<Longrightarrow> machine_ok (MirrorBanks i State)"
  unfolding MirrorBanks_def
  by (intro keeps | (simp add: ok_bits bit_shl bit_shr; fail))+

lemma AllDone_ok:
  assumes "machine_ok State"
  shows "machine_ok (AllDone i (m, State))"
  unfolding AllDone_def prod.case
  by (intro keeps MirrorBanks_keeps | (insert assms, simp add: ok_bits cell_ok_def; fail))+

lemma Prologue_ok: "machine_ok State \<Longrightarrow> machine_ok (Prologue State)"
  unfolding Prologue_def by (intro keeps UpdateDSKY_ok | (simp; fail))+

lemma TakeDelay_ok: "machine_ok State \<Longrightarrow> result_ok (TakeDelay State)"
  unfolding TakeDelay_def by (intro keeps ServiceCduFifo_ok | (simp; fail))+

lemma ReleasePro_ok: "machine_ok State \<Longrightarrow> machine_ok (ReleasePro State)"
  by (simp add: ReleasePro_def)

lemma TakeInterrupt_ok:
  assumes "machine_ok State" "\<not> bit (Instruction i) 15"
  shows "option_ok (TakeInterrupt i pc State)"
proof -
  have "result_ok (SelectInterrupt i State)"
    using assms(1) by (simp add: SelectInterrupt_def split: option.split)
  then show ?thesis
    unfolding TakeInterrupt_def using assms(2)
    by (auto simp: Let_def result_ok_def cell_ok_def split: prod.split bool.split)
qed

lemma StartTiming_ok: "machine_ok State \<Longrightarrow> result_ok (StartTiming i State)"
  by (simp add: StartTiming_def Let_def)

lemma RunInstruction_ok:
  assumes "machine_ok State"
  shows "option_ok (RunInstruction State)"
proof -
  obtain w pc T where F: "FetchInstruction State = (w, pc, T)" using prod_cases3 by blast
  have "machine_ok (snd (snd (FetchInstruction State)))" "\<not> bit (fst (FetchInstruction State)) 15"
    using assms by (simp_all add: FetchInstruction_def Let_def split_beta ok_bits)
  then have T: "machine_ok T" "\<not> bit w 15"
    by (simp_all add: F)
  let ?i = "Decode w T"
  show ?thesis
  proof (cases "TakeInterrupt ?i pc T")
    case (Some U)
    then have "machine_ok U"
      using TakeInterrupt_ok [OF T(1), of ?i pc] T(2) by (simp add: Decode_def)
    then show ?thesis
      by (simp add: RunInstruction_def F Let_def Some AllDone_ok)
  next
    case None
    obtain b U where S: "StartTiming ?i T = (b, U)" by fastforce
    then have U: "machine_ok U" using StartTiming_ok [OF T(1), of ?i] by simp
    have V: "machine_ok (StepProgramCounter U)"
      using U by (simp add: StepProgramCounter_def Let_def cell_ok_def)
    show ?thesis
      using U Execute_ok [OF V, of ?i "InitialMarks ?i (StepProgramCounter U)"]
      by (auto simp: RunInstruction_def F Let_def None S option_ok_def marked_ok_def result_ok_def
          split: option.splits bool.splits intro!: AllDone_ok)
  qed
qed

lemma agc_engine_ok:
  assumes "machine_ok State"
  shows "option_ok (agc_engine State)"
proof (cases "ChannelInput (Prologue State)")
  case (Some x)
  obtain r S where x: "x = (r, S)" by fastforce
  have S: "machine_ok S"
    using ChannelInput_ok [OF Prologue_ok [OF assms]] Some x by simp
  obtain b T where d: "TakeDelay S = (b, T)" by fastforce
  have T: "machine_ok T" using TakeDelay_ok [OF S] by (simp add: d)
  obtain c U where l: "ScalerLoop (ReleasePro T) = (c, U)" by fastforce
  have U: "machine_ok U" using ScalerLoop_ok [OF ReleasePro_ok [OF T]] by (simp add: l)
  show ?thesis
    using S T U RunInstruction_ok [OF DriveOptics_ok [OF DriveImu_ok [OF DriveGyro_ok [OF U]]]]
    by (simp add: agc_engine_def Some x d l split: bool.split)
qed (simp add: agc_engine_def)

section \<open>The calls of the host\<close>

lemma ResetState_ok:
  assumes "machine_ok State"
  shows "machine_ok (ResetState State)"
proof -
  have "cells_ok (\<lambda>i. if i = RegZ then 0x800 else if i < 2048 then 0 else Erasable State i)"
    using cell_bit [OF assms] by (simp add: cells_ok_def cell_ok_def)
  moreover have "channels_ok (\<lambda>i. if i = 24 then 0x3FFF else if i = 25 then 0x7FFF
      else if i = 26 then 0x7FFF else if i = 27 then 0x7FFF else if i < 512 then 0 else InputChannel State i)"
    using machine_okD(2) [OF assms] by (simp add: channels_ok_def mask_bits)
  moreover have "words15 (\<lambda>j. if j < 16 then 0 else OutputChannel10 State j)"
    using machine_okD(14) [OF assms] by (simp add: words15_def)
  ultimately show ?thesis
    using assms by (simp add: ResetState_def)
qed

lemma cpu_reset_ok:
  assumes "machine_ok State"
  shows "machine_ok (cpu_reset State)"
proof -
  have "machine_ok (Sunburst37 S)" if "machine_ok S" for S
    using that by (simp add: Sunburst37_def)
  then show ?thesis
    using ResetState_ok [OF assms] by (simp add: cpu_reset_def agc_engine_init_def Let_def)
qed

lemma set_fixed_ok:
  assumes "machine_ok State" "set_fixed rom State = Some State'"
  shows "machine_ok State'"
proof -
  have low: "\<not> bit (shr 1 (w :: i16)) 15" for w
    by (simp add: bit_shr bit_simps)
  let ?f = "\<lambda>a. if rope_pos a < 36 * 1024
    then shr 1 (ucast (rom (2 * rope_pos a)) * 256 + ucast (rom (2 * rope_pos a + 1))) else Fixed State a"
  have "State' = State\<lparr>Fixed := ?f\<rparr>"
    using assms(2) SetFixedLoop_loads [of 0 rom State, unfolded rope_word]
    by (simp add: set_fixed_def bank_at_def)
  moreover have "words15 ?f"
    using machine_okD(13) [OF assms(1)] low by (simp add: words15_def)
  ultimately show ?thesis using assms(1) by simp
qed

lemma packet_write_ok: "machine_ok State \<Longrightarrow> machine_ok (snd (packet_write n v State))"
  by (simp add: packet_write_def split_beta split: option.split)

lemma packet_read_state:
  "snd (packet_read State) = State\<lparr>ringbuffer_out := snd (ringbuffer_get (ringbuffer_out State))\<rparr>"
  by (simp add: packet_read_def split_beta split: option.split)

lemma packet_read_ok: "machine_ok State \<Longrightarrow> machine_ok (snd (packet_read State))"
  by (simp add: packet_read_state)

lemma host_step_ok:
  assumes "host_step State State'" "machine_ok State"
  shows "machine_ok State'"
  using assms(1)
proof cases
  case host_cycle
  then show ?thesis
    using agc_engine_ok [OF assms(2)] by (simp add: option_ok_def)
next
  case host_rom
  then show ?thesis
    using set_fixed_ok [OF assms(2)] by blast
qed (simp_all add: assms(2) cpu_reset_ok packet_write_ok packet_read_ok)

lemma power_on_ok: "machine_ok power_on"
  by (simp add: machine_ok_def power_on_def cells_ok_def channels_ok_def cell_ok_def rb_ok_def
      fifo_bounds_def words15_def)

text \<open>C2: the invariant of the machine: in every state that calls of the host can reach from
  power-on, whatever the rope, the packets and the order of the calls, all words of fixed memory,
  all cells of erasable memory (apart from \<open>A\<close>, \<open>L\<close>, \<open>Q\<close>, \<open>Z\<close> and \<open>ZRUPT\<close>), all
  channels (apart from the lower scaler) and all rows of the display that channel 10 keeps are words
  of 15 bits, the indices of the ring buffers and of the queues of CDU pulses are within their
  arrays, and the warning filter, the flash counter and the telemetry handshake are within their
  ranges.\<close>

theorem reachable_machine_ok:
  assumes "reachable power_on State"
  shows "machine_ok State"
  using assms
proof induction
  case start
  then show ?case by (rule cpu_reset_ok [OF power_on_ok])
next
  case (step State State')
  then show ?case using host_step_ok by blast
qed

theorem reachable_machine_ok_witness:
  "let State = snd (packet_write 0xD 5 (cpu_reset power_on))
   in reachable power_on State \<and> machine_ok State \<and> rb_length (ringbuffer_in State) = 1"
proof -
  let ?S = "snd (packet_write 0xD 5 (cpu_reset power_on))"
  have r: "reachable power_on ?S"
    by (rule reachable.step [OF reachable.start host_write])
  have "rb_length (ringbuffer_in ?S) = 1"
    by (simp add: packet_write_def FormIoPacket_def ringbuffer_put_def cpu_reset_def agc_engine_init_def
        ResetState_def power_on_def rb_length_def Let_def shift_defs word_sless_alt)
  then show ?thesis
    using r reachable_machine_ok [OF r] by (simp add: Let_def)
qed

end
