(* ===== verification/AGS_State.thy ===== *)
theory AGS_State
  imports Packets
begin

text \<open>
  The state of yaAGS, the emulator of the abort electronics assembly of the lunar module:
  the structure \<open>ags_t\<close> of \<open>src/yaAGS/aea_engine.h\<close>, extended by the variables with static
  storage of \<open>aea_engine.h\<close>, \<open>aea_engine.c\<close> and \<open>SocketAPI_AGS.c\<close> to the record \<open>ags\<close>.
  A client is a peripheral behind a socket: whether it is connected, the bytes it has sent that
  \<open>recv\<close> has not returned yet (a non-blocking \<open>recv\<close> of one byte takes the first of them, or
  returns -1), and the packet that is being assembled.  \<open>Sent\<close> lists what was sent, with the
  number of the client.
\<close>

unbundle bit_operations_syntax

section \<open>Records\<close>

record ags_t =
  ProgramCounter :: cint
  Accumulator :: cint
  Quotient :: cint
  Index :: cint
  Overflow :: cint
  Halt :: cint
  CycleCounter :: u64
  Next20msSignal :: u64
  Memory :: "nat \<Rightarrow> cint"
  OutputPorts :: "nat \<Rightarrow> cint"
  InputPorts :: "nat \<Rightarrow> cint"

record client =
  Connected :: bool
  Incoming :: "u8 list"
  Size :: nat
  Packet :: "nat \<Rightarrow> u8"

record ags = ags_t +
  DebugModeAGS :: bool
  BacktracesAGS :: "nat \<Rightarrow> ags_t"
  NumBacktracesAGS :: cint
  LatestBacktraceAGS :: cint
  DedaBuffer :: "nat \<Rightarrow> cint"
  DedaBufferCount :: cint
  DedaBufferWanted :: cint
  DedaBufferReadout :: cint
  DedaBufferDefault :: cint
  Count :: cint
  SocketInterlace :: cint
  SocketInterlaceReload :: cint
  Clients :: "nat \<Rightarrow> client"
  Sent :: "(nat \<times> packet) list"

section \<open>The ports\<close>

abbreviation (input) IO_2001 :: nat where "IO_2001 \<equiv> 0"
abbreviation (input) IO_2002 :: nat where "IO_2002 \<equiv> 1"
abbreviation (input) IO_2004 :: nat where "IO_2004 \<equiv> 2"
abbreviation (input) IO_2010 :: nat where "IO_2010 \<equiv> 3"
abbreviation (input) IO_2020 :: nat where "IO_2020 \<equiv> 4"
abbreviation (input) IO_2040 :: nat where "IO_2040 \<equiv> 5"
abbreviation (input) IO_2200 :: nat where "IO_2200 \<equiv> 7"
abbreviation (input) IO_6001 :: nat where "IO_6001 \<equiv> 8"
abbreviation (input) IO_6002 :: nat where "IO_6002 \<equiv> 9"
abbreviation (input) IO_6004 :: nat where "IO_6004 \<equiv> 10"
abbreviation (input) IO_6010 :: nat where "IO_6010 \<equiv> 11"
abbreviation (input) IO_6020 :: nat where "IO_6020 \<equiv> 12"
abbreviation (input) IO_6100 :: nat where "IO_6100 \<equiv> 14"
abbreviation (input) IO_6200 :: nat where "IO_6200 \<equiv> 15"
abbreviation (input) IO_ODISCRETES :: nat where "IO_ODISCRETES \<equiv> 16"
abbreviation (input) NUM_IO :: nat where "NUM_IO \<equiv> 17"

abbreviation (input) MAX_AGS_BACKTRACES :: cint where "MAX_AGS_BACKTRACES \<equiv> 50"
abbreviation (input) MAX_CLIENTS :: nat where "MAX_CLIENTS \<equiv> 10"
abbreviation (input) AEA_PER_SECOND :: u64 where "AEA_PER_SECOND \<equiv> 1024000"

text \<open>An entry of memory and of the ports as the target of an assignment.\<close>

abbreviation set_mem :: "nat \<Rightarrow> cint \<Rightarrow> ags \<Rightarrow> ags" where
  "set_mem a v State \<equiv> State\<lparr>Memory := (Memory State)(a := v)\<rparr>"

abbreviation set_in :: "nat \<Rightarrow> cint \<Rightarrow> ags \<Rightarrow> ags" where
  "set_in k v State \<equiv> State\<lparr>InputPorts := (InputPorts State)(k := v)\<rparr>"

abbreviation set_out :: "nat \<Rightarrow> cint \<Rightarrow> ags \<Rightarrow> ags" where
  "set_out k v State \<equiv> State\<lparr>OutputPorts := (OutputPorts State)(k := v)\<rparr>"

section \<open>The static initial state\<close>

definition ags_zero :: ags_t where
  "ags_zero = \<lparr>ProgramCounter = 0, Accumulator = 0, Quotient = 0, Index = 0, Overflow = 0, Halt = 0,
     CycleCounter = 0, Next20msSignal = 0, Memory = (\<lambda>_. 0), OutputPorts = (\<lambda>_. 0),
     InputPorts = (\<lambda>_. 0)\<rparr>"

definition ags_start :: ags where
  "ags_start = ags_t.extend ags_zero
     \<lparr>DebugModeAGS = False, BacktracesAGS = (\<lambda>_. ags_zero), NumBacktracesAGS = 0,
      LatestBacktraceAGS = -1, DedaBuffer = (\<lambda>_. 0), DedaBufferCount = 0, DedaBufferWanted = 0,
      DedaBufferReadout = 0, DedaBufferDefault = 0, Count = 0, SocketInterlace = 0,
      SocketInterlaceReload = 50,
      Clients = (\<lambda>_. \<lparr>Connected = False, Incoming = [], Size = 0, Packet = (\<lambda>_. 0)\<rparr>),
      Sent = []\<rparr>"

section \<open>Backtraces\<close>

definition AddBacktraceAGS :: "ags \<Rightarrow> ags" where
  "AddBacktraceAGS State =
     (if \<not> DebugModeAGS State then State
      else
        let State = State\<lparr>LatestBacktraceAGS := LatestBacktraceAGS State + 1\<rparr>;
            State = (if MAX_AGS_BACKTRACES \<le>s LatestBacktraceAGS State
                     then State\<lparr>LatestBacktraceAGS := 0\<rparr> else State);
            State = (if NumBacktracesAGS State <s MAX_AGS_BACKTRACES
                     then State\<lparr>NumBacktracesAGS := NumBacktracesAGS State + 1\<rparr> else State)
        in State\<lparr>BacktracesAGS :=
             (BacktracesAGS State)(unat (LatestBacktraceAGS State) := ags_t.truncate State)\<rparr>)"

definition RestoreBacktrace :: "nat \<Rightarrow> ags \<Rightarrow> ags" where
  "RestoreBacktrace n State = ags_t.extend (BacktracesAGS State n) (ags_t.more State)"

definition RegressToBacktraceAGS :: "cint \<Rightarrow> ags \<Rightarrow> ags" where
  "RegressToBacktraceAGS BacktraceNumber State =
     (if BacktraceNumber <s 0 \<or> NumBacktracesAGS State \<le>s BacktraceNumber then State
      else
        let back = (\<lambda>n State.
              let State = State\<lparr>LatestBacktraceAGS := LatestBacktraceAGS State - n\<rparr>
              in if LatestBacktraceAGS State <s 0
                 then State\<lparr>LatestBacktraceAGS := LatestBacktraceAGS State + MAX_AGS_BACKTRACES\<rparr>
                 else State);
            State = back BacktraceNumber State;
            State = RestoreBacktrace (unat (LatestBacktraceAGS State)) State;
            State = State\<lparr>NumBacktracesAGS := NumBacktracesAGS State - (BacktraceNumber + 1)\<rparr>
        in back 1 State)"

end
