(* ===== verification/AGS_IO.thy ===== *)
theory AGS_IO
  imports AGS_State
begin

text \<open>
  Input and output of yaAGS: \<open>ChannelOutputAGS\<close> and \<open>ChannelInputAGS\<close> of
  \<open>src/yaAGS/SocketAPI_AGS.c\<close>, and \<open>Output\<close>, \<open>Input\<close> and \<open>FetchDedaShift\<close> of
  \<open>src/yaAGS/aea_engine.c\<close>.  The messages are left out, and so is the removal of a client whose
  socket fails: connections come and go between the calls of the engine.
\<close>

unbundle bit_operations_syntax

section \<open>Output\<close>

definition OneRawChannelOutputAGS :: "packet \<Rightarrow> nat \<Rightarrow> ags \<Rightarrow> ags" where
  "OneRawChannelOutputAGS p i State =
     (if Connected (Clients State i) then State\<lparr>Sent := Sent State @ [(i, p)]\<rparr> else State)"

definition OneChannelOutputAGS :: "nat \<Rightarrow> cint \<Rightarrow> cint \<Rightarrow> ags \<Rightarrow> ags" where
  "OneChannelOutputAGS i Type Data State =
     (case FormIoPacketAGS Type Data of
        None \<Rightarrow> State
      | Some p \<Rightarrow> OneRawChannelOutputAGS p i State)"

definition ChannelOutputAGS :: "cint \<Rightarrow> cint \<Rightarrow> ags \<Rightarrow> ags" where
  "ChannelOutputAGS Type Data State =
     (case FormIoPacketAGS Type Data of
        None \<Rightarrow> State
      | Some p \<Rightarrow> fold (OneRawChannelOutputAGS p) [0..<MAX_CLIENTS] State)"

text \<open>One register of the \<open>OUT\<close> instruction; the discretes it changes are collected.\<close>

definition OutputPort :: "cint \<Rightarrow> cint \<Rightarrow> cint \<Rightarrow> cint \<times> ags \<Rightarrow> cint \<times> ags" where
  "OutputPort AddressField Value Mask = (\<lambda>(NewDiscreteOutputs, State).
     if Mask AND AddressField = 0 then (NewDiscreteOutputs, State)
     else
       let Address = AddressField AND (0xF00 OR Mask);
           send = (\<lambda>Type k v. (NewDiscreteOutputs, ChannelOutputAGS Type v (set_out k v State)));
           set = (\<lambda>m. (NewDiscreteOutputs AND NOT m, State));
           reset = (\<lambda>m. (NewDiscreteOutputs OR m, State))
       in if Address = 0x401 then send 0x10 IO_2001 (Value AND 0x3FF00)
          else if Address = 0x402 then send 0x11 IO_2002 (Value AND 0x3FF00)
          else if Address = 0x404 then send 0x12 IO_2004 (Value AND 0x3FF00)
          else if Address = 0x408 then send 0x13 IO_2010 (Value AND 0x3FF00)
          else if Address = 0x410 then send 0x14 IO_2020 (Value AND 0x3FF00)
          else if Address = 0x420 then send 0x15 IO_2040 (Value AND 0x3FF00)
          else if Address = 0x480 then
            (NewDiscreteOutputs, set_out IO_2200 (shl 13 (Value AND 0xF)) State)
          else if Address = 0x508 then set 1
          else if Address = 0x510 then set 2
          else if Address = 0x520 then set 4
          else if Address = 0x540 then
            (NewDiscreteOutputs, State\<lparr>DedaBufferReadout := DedaBufferReadout State + 1\<rparr>)
          else if Address = 0x580 then
            (NewDiscreteOutputs, ChannelOutputAGS 0x17 (OutputPorts State IO_2200) State)
          else if Address = 0x608 then reset 1
          else if Address = 0x620 then reset 6
          else if Address = 0xC01 then send 0x18 IO_6001 (Value AND 0x3FF00)
          else if Address = 0xC02 then send 0x19 IO_6002 (Value AND 0x3FF00)
          else if Address = 0xC04 then send 0x1A IO_6004 (Value AND 0x3FF00)
          else if Address = 0xC08 then send 0x1B IO_6010 (Value AND 0x3FFF8)
          else if Address = 0xC10 then send 0x1C IO_6020 (Value AND 0x3FE00)
          else if Address = 0xC40 then
            let State = ChannelOutputAGS 0x1E Value (set_out IO_6100 Value State)
            in (NewDiscreteOutputs,
                set_in IO_2020 (InputPorts State IO_2020 AND NOT 0x10000) State)
          else if Address = 0xC80 then
            let State = set_out IO_6200 Value State;
                State = set_in IO_2020 (InputPorts State IO_2020 OR 0x10000) State
            in (NewDiscreteOutputs, ChannelOutputAGS 0x1F Value State)
          else if Address = 0xD01 then set 0x20
          else if Address = 0xD02 then set 0x40
          else if Address = 0xD04 then set 0x80
          else if Address = 0xD08 then set 0x100
          else if Address = 0xD10 then set 0x200
          else if Address = 0xD20 then set 0x400
          else if Address = 0xE01 then reset 0x20
          else if Address = 0xE02 then reset 0x40
          else if Address = 0xE04 then reset 0x80
          else if Address = 0xE08 then reset 0x100
          else if Address = 0xE10 then reset 0x200
          else if Address = 0xE20 then reset 0x400
          else (NewDiscreteOutputs, State))"

definition Output :: "cint \<Rightarrow> cint \<Rightarrow> ags \<Rightarrow> ags" where
  "Output AddressField Value State =
     (case fold (OutputPort AddressField Value) [1, 2, 4, 0x8, 0x10, 0x20, 0x40, 0x80]
             (OutputPorts State IO_ODISCRETES, State) of
        (NewDiscreteOutputs, State) \<Rightarrow>
          if NewDiscreteOutputs \<noteq> OutputPorts State IO_ODISCRETES
          then ChannelOutputAGS 0x20 NewDiscreteOutputs
                 (set_out IO_ODISCRETES NewDiscreteOutputs State)
          else State)"

section \<open>The DEDA shift register\<close>

text \<open>The buffered nibbles are handed out one by one; after the last of them, or without
  any, the buffer is reset and the last value is repeated.  A read outside the array of nine
  nibbles, which C does not define, is \<open>None\<close>.\<close>

definition ResetDedaBuffer :: "ags \<Rightarrow> ags" where
  "ResetDedaBuffer State =
     State\<lparr>DedaBufferReadout := 0, DedaBufferCount := 0, DedaBufferWanted := 0\<rparr>"

definition ReadDedaBuffer :: "cint \<Rightarrow> ags \<Rightarrow> cint option" where
  "ReadDedaBuffer i State = (if 0 \<le>s i \<and> i <s 9 then Some (DedaBuffer State (unat i)) else None)"

definition FetchDedaShift :: "ags \<Rightarrow> (cint \<times> ags) option" where
  "FetchDedaShift State =
     map_option (\<lambda>State. (DedaBufferDefault State, State))
       (if DedaBufferWanted State = 0 \<or> DedaBufferCount State <s DedaBufferWanted State \<or>
           DedaBufferWanted State \<le>s DedaBufferReadout State \<or> DedaBufferReadout State <s 0
        then Some (ResetDedaBuffer State)
        else
          case ReadDedaBuffer (DedaBufferReadout State) State of
            None \<Rightarrow> None
          | Some v \<Rightarrow>
              let State = State\<lparr>DedaBufferDefault := v\<rparr>;
                  State = (if DedaBufferReadout State + 1 = DedaBufferWanted State
                           then ResetDedaBuffer State else State)
              in Some
                (if DedaBufferWanted State = 3
                 then set_in IO_2040 (InputPorts State IO_2040 OR 0x400) State
                 else if DedaBufferWanted State = 9
                 then set_in IO_2040 (InputPorts State IO_2040 OR 0x800) State
                 else State))"

section \<open>Input\<close>

definition InputPort :: "nat \<Rightarrow> cint \<Rightarrow> nat \<Rightarrow> cint \<times> ags \<Rightarrow> (cint \<times> ags) option" where
  "InputPort BaseAddress AddressField i = (\<lambda>(Value, State).
     if AddressField AND shl i 1 = 0 then Some (Value, State)
     else
       case (if BaseAddress + i = IO_2200 then FetchDedaShift State
             else Some (InputPorts State (BaseAddress + i), State)) of
         None \<Rightarrow> None
       | Some (v, State) \<Rightarrow>
           let State =
             (if BaseAddress = IO_6001 then
                if shl i (1 :: cint) = 0x80
                then set_in IO_2020 (InputPorts State IO_2020 OR 0x10000) State
                else set_in (IO_6001 + i) 0 State
              else State)
           in Some (Value OR v, State))"

text \<open>The loop over the ports.\<close>

fun InputPortLoop :: "nat \<Rightarrow> cint \<Rightarrow> nat list \<Rightarrow> cint \<times> ags \<Rightarrow> (cint \<times> ags) option" where
  "InputPortLoop BaseAddress AddressField [] s = Some s"
| "InputPortLoop BaseAddress AddressField (i # is) s =
     (case InputPort BaseAddress AddressField i s of
        None \<Rightarrow> None
      | Some s \<Rightarrow> InputPortLoop BaseAddress AddressField is s)"

text \<open>The microseconds, the new accumulator (\<open>*Value\<close>) and the state.\<close>

definition Input :: "cint \<Rightarrow> ags \<Rightarrow> (cint \<times> ags) option" where
  "Input AddressField State =
     (let Base = AddressField AND 0xE00;
          MicrosecondsNeeded = (if Base = 0x400 \<and> AddressField AND 7 \<noteq> 0 then 67 else 16)
      in if Base \<noteq> 0x400 \<and> Base \<noteq> 0xC00 then Some (0, State)
         else
           map_option (\<lambda>(Value, State). (MicrosecondsNeeded, State\<lparr>Accumulator := Value\<rparr>))
             (InputPortLoop (if Base = 0x400 then IO_2001 else IO_6001) AddressField [0..<8]
                (0, State)))"

section \<open>Packets from the clients\<close>

definition SignExtendAGS :: "cint \<Rightarrow> cint" where
  "SignExtendAGS i = (if i AND 0x20000 \<noteq> 0 then i OR NOT 0x3FFFF else i)"

text \<open>A packet from client \<open>i\<close>.  When the ENTR or READ OUT key is pressed, the program is
  told only after the nine or three nibbles have been collected.\<close>

definition RequestDeda :: "nat \<Rightarrow> ags \<Rightarrow> ags" where
  "RequestDeda i State = OneChannelOutputAGS i 0x20 (OutputPorts State IO_ODISCRETES AND NOT 0x8) State"

definition DiscreteInput :: "cint \<Rightarrow> cint \<Rightarrow> ags \<Rightarrow> ags" where
  "DiscreteInput Type Data State =
     (let j = IO_2020 + unat (Type - 4);
          Mask = shl 9 (Data AND 0x1FF);
          State = set_in j (InputPorts State j AND NOT Mask) State
      in set_in j (InputPorts State j OR (Data AND Mask)) State)"

definition DedaKeys :: "nat \<Rightarrow> cint \<Rightarrow> ags \<Rightarrow> cint \<times> ags" where
  "DedaKeys i Data State =
     (if 4 = Data AND 0x804 then
        (Data OR 0x800, RequestDeda i (State\<lparr>DedaBufferCount := 0, DedaBufferWanted := 9\<rparr>))
      else if 2 = Data AND 0x402 then
        (Data OR 0x400, RequestDeda i (State\<lparr>DedaBufferCount := 0, DedaBufferWanted := 3\<rparr>))
      else (Data, State))"

definition DedaNibble :: "nat \<Rightarrow> cint \<Rightarrow> ags \<Rightarrow> ags" where
  "DedaNibble i Data State =
     (if DedaBufferWanted State \<noteq> 0 \<and> DedaBufferCount State <s DedaBufferWanted State then
        let State = State\<lparr>DedaBuffer :=
              (DedaBuffer State)(unat (DedaBufferCount State) := Data AND 0x1E000),
              DedaBufferCount := DedaBufferCount State + 1\<rparr>
        in if DedaBufferCount State <s DedaBufferWanted State then RequestDeda i State
           else
             let State = State\<lparr>DedaBufferReadout := -1\<rparr>
             in if DedaBufferWanted State = 3
                then set_in IO_2040 (InputPorts State IO_2040 AND NOT 0x400) State
                else set_in IO_2040 (InputPorts State IO_2040 AND NOT 0x800) State
      else State)"

definition InputPacketAGS :: "nat \<Rightarrow> cint \<Rightarrow> cint \<Rightarrow> ags \<Rightarrow> ags" where
  "InputPacketAGS i Type Data State =
     (if Type = 0 \<or> Type = 1 \<or> Type = 2 then
        let j = IO_2001 + unat Type
        in if Data = 0 then set_in j 0 State
           else set_in j ((InputPorts State j + SignExtendAGS Data * 4) AND 0x1FFFC) State
      else if Type = 5 then
        case DedaKeys i Data State of (Data, State) \<Rightarrow> DiscreteInput Type Data State
      else if Type = 4 then DiscreteInput Type Data State
      else if Type = 7 then DedaNibble i Data State
      else if Type = 0x9 \<or> Type = 0xA \<or> Type = 0xB then
        let j = IO_6002 + unat (Type - 0x9)
        in set_in j ((InputPorts State j + SignExtendAGS Data * 0x40) AND 0x1FFC0) State
      else if Type = 0xC \<or> Type = 0xD \<or> Type = 0xE then
        let j = IO_6020 + unat (Type - 0xC)
        in set_in j ((InputPorts State j + SignExtendAGS Data * 0x40) AND 0x1FFC0) State
      else if Type = 0xF then
        let State = set_in IO_6200 Data State
        in set_in IO_2020 (InputPorts State IO_2020 AND NOT 0x10000) State
      else State)"

text \<open>The bytes of a client: \<open>j\<close> is the position the next byte should have in a packet.\<close>

definition Signatures :: "u8 list" where "Signatures = [0x00, 0xC0, 0x80, 0x40]"

fun ReceiveBytes :: "u8 list \<Rightarrow> nat \<Rightarrow> nat \<Rightarrow> (nat \<Rightarrow> u8) \<Rightarrow> u8 list \<times> nat \<times> (nat \<Rightarrow> u8)" where
  "ReceiveBytes [] j n P = ([], n, P)"
| "ReceiveBytes (c # cs) j n P =
     (if 4 \<le> j then (c # cs, n, P)
      else if Signatures ! j \<noteq> c AND 0xC0 then
        if 0 \<noteq> c AND 0xC0 then ReceiveBytes cs 0 0 P
        else ReceiveBytes cs 1 1 (P(0 := c))
      else ReceiveBytes cs (j + 1) (n + 1) (P(n := c)))"

definition ReceiveClient :: "nat \<Rightarrow> ags \<Rightarrow> ags" where
  "ReceiveClient i State =
     (let c = Clients State i
      in if \<not> Connected c then State
         else
           case ReceiveBytes (Incoming c) (Size c) (Size c) (Packet c) of
             (rest, n, p) \<Rightarrow>
               let State = State\<lparr>Clients := (Clients State)(i :=
                     c\<lparr>Incoming := rest, Size := (if 4 \<le> n then 0 else n), Packet := p\<rparr>)\<rparr>
               in if 4 \<le> n then
                    case ParseIoPacketAGS (p 0, p 1, p 2, p 3) of
                      None \<Rightarrow> State
                    | Some (Type, Data) \<Rightarrow> InputPacketAGS i Type Data State
                  else State)"

definition ChannelInputAGS :: "ags \<Rightarrow> ags" where
  "ChannelInputAGS State =
     (if 0 <s SocketInterlace State
      then State\<lparr>SocketInterlace := SocketInterlace State - 1\<rparr>
      else fold ReceiveClient [0..<MAX_CLIENTS]
             (State\<lparr>SocketInterlace := SocketInterlaceReload State\<rparr>))"

end
