(* ===== verification/AGS_Engine.thy ===== *)
theory AGS_Engine
  imports AGS_IO
begin

text \<open>
  The processor of the abort electronics assembly: \<open>aea_engine\<close> of
  \<open>src/yaAGS/aea_engine.c\<close>, with one definition per group of \<open>case\<close> labels of its
  \<open>switch\<close>.  Of the variants of \<open>DVP\<close> the compiled one is modelled.  It divides with
  \<open>double\<close>; the operands are integers of at most 35 and 18 bits, so the correctly rounded
  quotient has the same \<open>floor\<close> as the exact one, and the exact one is what the model takes.
  A quotient that no \<open>int\<close> can hold, also that of a division by zero, is \<open>None\<close>: C does not
  define its conversion.  The
  debugger (\<open>DebuggerHookAGS\<close>) is not active, and accepting connections
  (\<open>ChannelRoutineGeneric\<close>, with an empty update function) belongs to the environment.
\<close>

unbundle bit_operations_syntax

section \<open>Memory\<close>

definition IndexMemory :: "ags \<Rightarrow> bool \<Rightarrow> cint \<Rightarrow> cint" where
  "IndexMemory State IndexBit AddressField =
     (if IndexBit then AddressField OR Index State else AddressField) AND 0xFFF"

definition FetchMemory :: "ags \<Rightarrow> bool \<Rightarrow> cint \<Rightarrow> cint" where
  "FetchMemory State IndexBit AddressField =
     Memory State (unat (IndexMemory State IndexBit AddressField))"

definition WriteMemory :: "bool \<Rightarrow> cint \<Rightarrow> cint \<Rightarrow> ags \<Rightarrow> ags" where
  "WriteMemory IndexBit AddressField Value State =
     set_mem (unat (IndexMemory State IndexBit AddressField)) (Value AND 0x3FFFF) State"

section \<open>The double precision accumulator\<close>

definition GetLongAccumulator :: "ags \<Rightarrow> u64" where
  "GetLongAccumulator State =
     (let lli = shl 17 (scast (Accumulator State)) OR scast (Quotient State AND 0x1FFFF)
      in if Accumulator State AND 0x20000 \<noteq> 0 then lli OR NOT 0x7FFFFFFFF else lli)"

definition PutLongAccumulator :: "u64 \<Rightarrow> ags \<Rightarrow> ags" where
  "PutLongAccumulator lli State =
     (let State = State\<lparr>Accumulator := ucast (sar 17 lli AND 0x3FFFF),
                    Quotient := ucast (lli AND 0x1FFFF)\<rparr>
      in if 0x20000 AND Accumulator State \<noteq> 0
         then State\<lparr>Quotient := Quotient State OR 0x20000\<rparr> else State)"

section \<open>Arithmetic\<close>

definition FloorToInt :: "int \<Rightarrow> int \<Rightarrow> cint option" where
  "FloorToInt n d =
     (let q = n div d
      in if d \<noteq> 0 \<and> - (2 ^ 31) \<le> q \<and> q < 2 ^ 31 then Some (word_of_int q) else None)"

definition ags_Divide :: "u64 \<Rightarrow> cint \<Rightarrow> cint \<Rightarrow> ags \<Rightarrow> ags option" where
  "ags_Divide lli i j State =
     (let State = (if \<bar>sint i\<bar> \<le> \<bar>sint j\<bar> then State\<lparr>Overflow := 1\<rparr> else State)
      in if i = -1 \<and> lli = - 0x10000 then
           Some (State\<lparr>Quotient := 0xFFFF, Accumulator := 0x10000\<rparr>)
         else
           case FloorToInt (sint lli) (sint i) of
             None \<Rightarrow> None
           | Some q \<Rightarrow>
               let State = State\<lparr>Quotient := q AND 0x3FFFF\<rparr>
               in if Quotient State = 0x1FFFF then Some (State\<lparr>Accumulator := 0x1FFFF\<rparr>)
                  else
                    (case FloorToInt (sint lli + sint i sdiv 2) (sint i) of
                       None \<Rightarrow> None
                     | Some a \<Rightarrow> Some (State\<lparr>Accumulator := a AND 0x3FFFF\<rparr>)))"

definition ags_DVP :: "cint \<Rightarrow> ags \<Rightarrow> ags option" where
  "ags_DVP ValueFromY State =
     (let lli = GetLongAccumulator State;
          i = SignExtendAGS ValueFromY;
          j = SignExtendAGS (Accumulator State)
      in if i = 0 then
           let State = State\<lparr>Overflow := 1\<rparr>
           in Some (if 0 \<le>s lli then State\<lparr>Accumulator := 0x1FFFF, Quotient := 0x1FFFF\<rparr>
                    else State\<lparr>Accumulator := 0x20000, Quotient := 0x20000\<rparr>)
         else if i = - j then
           let State = (if i <s 0 then State\<lparr>Overflow := 1\<rparr> else State)
           in Some (State\<lparr>Accumulator := 0x20000, Quotient := 0x20000\<rparr>)
         else ags_Divide lli i j State)"

definition ags_ADD :: "cint \<Rightarrow> ags \<Rightarrow> ags" where
  "ags_ADD ValueFromY State =
     (let i = SignExtendAGS (Accumulator State) + SignExtendAGS ValueFromY;
          State = (if 0x1FFFF <s i \<or> i <s - 0x20000 then State\<lparr>Overflow := 1\<rparr> else State)
      in State\<lparr>Accumulator := i AND 0x3FFFF\<rparr>)"

definition ags_SUB :: "cint \<Rightarrow> ags \<Rightarrow> ags" where
  "ags_SUB ValueFromY State =
     (let i = SignExtendAGS (Accumulator State) - SignExtendAGS ValueFromY;
          State = (if 0x1FFFF <s i \<or> i <s - 0x20000 then State\<lparr>Overflow := 1\<rparr> else State)
      in State\<lparr>Accumulator := i AND 0x3FFFF\<rparr>)"

definition ags_MPY :: "bool \<Rightarrow> cint \<Rightarrow> ags \<Rightarrow> ags" where
  "ags_MPY Round i State =
     (if i = 0x20000 then State\<lparr>Quotient := 0\<rparr>
      else
        let lli = scast (SignExtendAGS (Accumulator State)) * scast (SignExtendAGS i);
            State = PutLongAccumulator lli State
        in if Round \<and> Quotient State AND 0x10000 \<noteq> 0 then
             if Accumulator State \<noteq> 0x3FFFF
             then State\<lparr>Accumulator := Accumulator State + 1\<rparr>
             else State\<lparr>Accumulator := 0\<rparr>
           else State)"

section \<open>Shifts\<close>

definition ags_LLS :: "nat \<Rightarrow> ags \<Rightarrow> ags" where
  "ags_LLS i State =
     (let lli = GetLongAccumulator State;
          State =
            (if i \<noteq> 0 then
               let llk = 0x3FFFFFFFF AND NOT (shl (34 - i) 1 - 1);
                   llj = lli AND llk
               in if 0 = Accumulator State AND 0x20000 \<and> llj \<noteq> 0 \<or>
                     0 \<noteq> Accumulator State AND 0x20000 \<and> llj \<noteq> llk
                  then State\<lparr>Overflow := 1\<rparr> else State
             else State)
      in PutLongAccumulator (shl i lli) State)"

definition ags_LRS :: "nat \<Rightarrow> ags \<Rightarrow> ags" where
  "ags_LRS i State =
     (let lli = GetLongAccumulator State;
          llk = (if 0 \<noteq> Accumulator State AND 0x20000
                 then 0x3FFFFFFFF AND NOT (shl (34 - i) 1 - 1) else 0)
      in PutLongAccumulator (sar i lli OR llk) State)"

definition ags_ALS :: "nat \<Rightarrow> ags \<Rightarrow> ags" where
  "ags_ALS i State =
     (let State =
            (if i \<noteq> 0 then
               let k = (if 17 \<le> i then 0x1FFFF else 0x1FFFF AND NOT (sar i 0x20000 - 1));
                   j = Accumulator State AND k
               in if 0 = Accumulator State AND 0x20000 \<and> j \<noteq> 0 \<or>
                     0 \<noteq> Accumulator State AND 0x20000 \<and> j \<noteq> k
                  then State\<lparr>Overflow := 1\<rparr> else State
             else State)
      in State\<lparr>Accumulator := shl i (Accumulator State) AND 0x3FFFF\<rparr>)"

definition ags_ABS :: "ags \<Rightarrow> ags" where
  "ags_ABS State =
     (let i = SignExtendAGS (Accumulator State)
      in if i <s 0 \<and> - 0x20000 <s i then State\<lparr>Accumulator := - i\<rparr> else State)"

section \<open>The instructions\<close>

definition InstructionTimingAGS :: "cint list" where
  "InstructionTimingAGS =
     [ 0,  0, 73, 70, 13, 13, 13,  0,
      10, 10, 10, 70, 10, 10, 10, 70,
      10, 10, 10, 10, 13, 13, 13, 13,
      16, 16, 16, 13,  0, 16,  0,  0]"

text \<open>The local variables that the \<open>switch\<close> changes.\<close>

record outcome =
  NewProgramCounter :: cint
  NewValueForY :: cint
  MicrosecondsThisInstruction :: cint

type_synonym execution = "outcome \<times> ags"

abbreviation branch :: "cint \<Rightarrow> execution \<Rightarrow> execution" where
  "branch AddressField \<equiv> \<lambda>(r, State). (r\<lparr>NewProgramCounter := AddressField\<rparr>, AddBacktraceAGS State)"

definition ExecuteAGS :: "cint \<Rightarrow> cint \<Rightarrow> cint \<Rightarrow> execution \<Rightarrow> execution option" where
  "ExecuteAGS OpCode AddressField ValueFromY = (\<lambda>(r, State).
     let places = unat (0x1F AND AddressField);
         slow = r\<lparr>MicrosecondsThisInstruction :=
           MicrosecondsThisInstruction r + 3 * (0x1F AND AddressField)\<rparr>;
         clear = (\<lambda>op. if OpCode = op then r\<lparr>NewValueForY := 0\<rparr> else r)
     in if OpCode = 4 then map_option (Pair r) (ags_DVP ValueFromY State)
        else if OpCode = 0x8 then Some (r\<lparr>NewValueForY := Accumulator State\<rparr>, State)
        else if OpCode = 0xA then Some (r\<lparr>NewValueForY := Quotient State\<rparr>, State)
        else if OpCode = 0xC then Some (r, State\<lparr>Quotient := ValueFromY\<rparr>)
        else if OpCode = 0x10 \<or> OpCode = 0x18 then
          Some (clear 0x18, State\<lparr>Accumulator := ValueFromY\<rparr>)
        else if OpCode = 0x12 \<or> OpCode = 0x1A then Some (clear 0x1A, ags_ADD ValueFromY State)
        else if OpCode = 0x14 \<or> OpCode = 0x1C then Some (clear 0x1C, ags_SUB ValueFromY State)
        else if OpCode = 6 \<or> OpCode = 0x16 \<or> OpCode = 0x1E then
          Some (clear 0x1E, ags_MPY (OpCode \<noteq> 6) ValueFromY State)
        else if OpCode = 0x20 then Some (branch AddressField (r, State))
        else if OpCode = 0x22 then
          if Index State \<noteq> 0 then
            case branch AddressField (r, State) of
              (r, State) \<Rightarrow> Some (r, State\<lparr>Index := Index State - 1\<rparr>)
          else Some (r, State)
        else if OpCode = 0x24 then
          if Overflow State \<noteq> 0 then
            case branch AddressField (r, State) of (r, State) \<Rightarrow> Some (r, State\<lparr>Overflow := 0\<rparr>)
          else Some (r, State)
        else if OpCode = 0x26 then
          if Accumulator State AND 0x20000 \<noteq> 0 then Some (branch AddressField (r, State))
          else Some (r, State)
        else if OpCode = 0x28 then Some (r, State\<lparr>Index := AddressField AND 7\<rparr>)
        else if OpCode = 0x2A then Some (slow, ags_LLS places State)
        else if OpCode = 0x2C then Some (slow, ags_LRS places State)
        else if OpCode = 0x2E then Some (slow, ags_ALS places State)
        else if OpCode = 0x30 then
          Some (r, State\<lparr>Accumulator := 0x3FFFF AND - Accumulator State\<rparr>)
        else if OpCode = 0x32 then Some (r, ags_ABS State)
        else if OpCode = 0x34 then
          map_option (\<lambda>(m, State). (r\<lparr>MicrosecondsThisInstruction := m\<rparr>, State))
            (Input AddressField State)
        else if OpCode = 0x36 then Some (r, Output AddressField (Accumulator State) State)
        else if OpCode = 0x38 then
          case branch AddressField (r, State) of (r, State) \<Rightarrow> Some (r, State\<lparr>Halt := 1\<rparr>)
        else if OpCode = 0x3A then
          Some (r\<lparr>NewProgramCounter := AddressField\<rparr>,
            (AddBacktraceAGS State)\<lparr>Quotient := 0x21000 OR NewProgramCounter r\<rparr>)
        else Some (r, State))"

section \<open>One call of \<open>aea_engine\<close>\<close>

definition SpendTime :: "cint \<Rightarrow> ags \<Rightarrow> ags" where
  "SpendTime m State = State\<lparr>CycleCounter := CycleCounter State + scast m, Count := Count State + m\<rparr>"

definition RunInstructionAGS :: "ags \<Rightarrow> (cint \<times> ags) option" where
  "RunInstructionAGS State =
     (let i = Memory State (unat (ProgramCounter State));
          AddressField = i AND 0xFFF;
          IndexBit = (0 \<noteq> i AND 0x1000);
          OriginalAddress = IndexMemory State IndexBit AddressField;
          ValueFromY = Memory State (unat OriginalAddress);
          OpCode = sar 12 i AND 0x3E;
          r = \<lparr>NewProgramCounter = (ProgramCounter State + 1) AND 0xFFF, NewValueForY = ValueFromY,
               MicrosecondsThisInstruction = InstructionTimingAGS ! unat (sar 1 OpCode)\<rparr>
      in case ExecuteAGS OpCode AddressField ValueFromY (r, State) of
           None \<Rightarrow> None
         | Some (r, State) \<Rightarrow>
             let NewValue = NewValueForY r AND 0x3FFFF;
                 State = (if OriginalAddress <s 0x800
                          then set_mem (unat OriginalAddress) NewValue State else State);
                 State = State\<lparr>ProgramCounter := NewProgramCounter r AND 0xFFF\<rparr>
             in Some (MicrosecondsThisInstruction r, SpendTime (MicrosecondsThisInstruction r) State))"

definition Signal20ms :: "ags \<Rightarrow> bool \<times> ags" where
  "Signal20ms State =
     (if Next20msSignal State \<le> CycleCounter State then
        let State = State\<lparr>Next20msSignal := Next20msSignal State + AEA_PER_SECOND div 50\<rparr>
        in (False, if Halt State \<noteq> 0 then State\<lparr>Halt := 0\<rparr> else Output 0xD08 0 State)
      else (Halt State \<noteq> 0, State))"

definition aea_engine :: "ags \<Rightarrow> (cint \<times> ags) option" where
  "aea_engine State =
     (let State = (if 100000 \<le>s Count State then State\<lparr>Count := Count State - 100000\<rparr> else State)
      in case Signal20ms State of
           (True, State) \<Rightarrow> Some (10, SpendTime 10 State)
         | (False, State) \<Rightarrow> RunInstructionAGS (ChannelInputAGS State))"

end
