(* ===== verification/AGS_Arith.thy ===== *)
theory AGS_Arith
  imports AGS_Engine
begin

text \<open>
  What the arithmetic of the abort electronics assembly computes: a register or a word of memory
  holds an 18-bit two's complement number (\<open>ags_value\<close>), the accumulator and the quotient
  register together one of 35 bits (\<open>long_value\<close>).
\<close>

unbundle bit_operations_syntax

section \<open>Words of 18 bits\<close>

definition ags_value :: "cint \<Rightarrow> int" where
  "ags_value v = signed_take_bit 17 (uint v)"

abbreviation long_value :: "ags \<Rightarrow> int" where
  "long_value State \<equiv> sint (GetLongAccumulator State)"

abbreviation word18 :: "cint \<Rightarrow> bool" where
  "word18 v \<equiv> uint v < 0x40000"

lemma ags_masks:
  "(0x3FFFF :: 'a::len word) = mask 18" "(0x1FFFF :: 'a::len word) = mask 17"
  "(0x20000 :: 'a::len word) = 2 ^ 17" "(0x7FFFFFFFF :: 'a::len word) = mask 35"
  "(0x3FFFFFFFF :: 'a::len word) = mask 34"
  by (simp_all add: mask_eq_exp_minus_1)

lemma ags_masks_int:
  "(0x3FFFF :: int) = mask 18" "(0x20000 :: int) = 2 ^ 17"
  "(0x7FFFFFFFF :: int) = mask 35" "(0x3FFFFFFFF :: int) = mask 34"
  "(- 0x40000 :: int) = NOT (mask 18)" "(- 0x800000000 :: int) = NOT (mask 35)"
  by (simp_all add: mask_eq_exp_minus_1 not_int_def)

lemma bits_ags_masks_int [mask_bits]:
  "bit (0x3FFFF :: int) i \<longleftrightarrow> i < 18" "bit (0x20000 :: int) i \<longleftrightarrow> i = 17"
  "bit (0x7FFFFFFFF :: int) i \<longleftrightarrow> i < 35" "bit (0x3FFFFFFFF :: int) i \<longleftrightarrow> i < 34"
  "bit (- 0x40000 :: int) i \<longleftrightarrow> 18 \<le> i" "bit (- 0x800000000 :: int) i \<longleftrightarrow> 35 \<le> i"
  by (auto simp only: ags_masks_int bit_mask_iff bit_exp_iff bit_not_iff possible_bit_int simp_thms not_less)

lemma bits_ags_masks [mask_bits]:
  "bit (0x3FFFF :: 'a::len word) i \<longleftrightarrow> i < LENGTH('a) \<and> i < 18"
  "bit (0x20000 :: 'a::len word) i \<longleftrightarrow> i < LENGTH('a) \<and> i = 17"
  "bit (0x7FFFFFFFF :: 'a::len word) i \<longleftrightarrow> i < LENGTH('a) \<and> i < 35"
  "bit (0x3FFFFFFFF :: 'a::len word) i \<longleftrightarrow> i < LENGTH('a) \<and> i < 34"
  by (auto simp only: ags_masks bit_mask_iff bit_exp_iff possible_bit_word)

lemma sign_bit:
  "v AND 0x20000 = 0 \<longleftrightarrow> \<not> bit (v :: 'a::len word) 17" 
  "0x20000 AND v = 0 \<longleftrightarrow> \<not> bit (v :: 'a::len word) 17"
  by (simp_all only: ags_masks and_exp_eq_0_iff)

lemma word18_bits: "word18 v \<longleftrightarrow> (\<forall>n. 18 \<le> n \<longrightarrow> \<not> bit v n)"
  using uint_lt_iff_bits [of v 18] by simp

lemma word18_and [simp]: "word18 (v AND 0x3FFFF)" "word18 (0x3FFFF AND v)"
  by (simp_all only: word18_bits bit_and_iff bits_ags_masks) auto

lemma bit_SignExtendAGS:
  "n < 32 \<Longrightarrow> bit (SignExtendAGS v) n \<longleftrightarrow> (if 18 \<le> n then bit v 17 \<or> bit v n else bit v n)"
  by (auto simp: SignExtendAGS_def sign_bit bit_or_iff bit_not_iff mask_bits)

lemma ags_value_bounds: "- 131072 \<le> ags_value v" "ags_value v < 131072"
  using signed_take_bit_int_greater_eq_minus_exp [of 17 "uint v"]
    signed_take_bit_int_less_exp [of 17 "uint v"]
  by (simp_all add: ags_value_def)

lemma sint_SignExtendAGS:
  assumes "word18 v"
  shows "sint (SignExtendAGS v) = ags_value v"
proof (rule sint_eq_bitsI)
  have *: "\<not> bit v m" if "18 \<le> m" for m
    using assms that word18_bits by blast
  show "bit (SignExtendAGS v) n = bit (ags_value v) n" if "n < LENGTH(32)" for n
    using that * by (cases "18 \<le> n")
      (auto simp: ags_value_def bit_signed_take_bit_iff bit_uint_iff bit_SignExtendAGS)
qed (use ags_value_bounds [of v] in auto)

lemma ags_value_word18:
  "word18 v \<Longrightarrow> ags_value v = (if bit v 17 then uint v - 2 ^ 18 else uint v)"
  unfolding ags_value_def signed_take_bit_eq_take_bit_minus
  by (simp add: take_bit_int_eq_self bit_uint_iff)

lemma ags_value_negative: "ags_value v < 0 \<longleftrightarrow> bit v 17"
  by (simp add: ags_value_def bit_uint_iff)

lemma ags_value_and: "ags_value (v AND 0x3FFFF) = signed_take_bit 17 (sint v)"
  by (rule bit_eqI) (auto simp: ags_value_def bit_signed_take_bit_iff bit_uint_iff bit_and_iff
      mask_bits bit_sint_iff min_def)

section \<open>The double precision accumulator\<close>

definition DoubleWord :: "ags \<Rightarrow> int" where
  "DoubleWord State = 2 ^ 17 * ags_value (Accumulator State) + uint (Quotient State) mod 2 ^ 17"

lemma bit_GetLong:
  assumes "n < 64" "word18 (Accumulator State)"
  shows "bit (GetLongAccumulator State) n \<longleftrightarrow>
    (if n < 17 then bit (Quotient State) n else bit (Accumulator State) (min (n - 17) 17))"
proof -
  have "\<not> bit (Accumulator State) m" if "18 \<le> m" for m
    using assms(2) that word18_bits by blast
  then show ?thesis
    using assms(1)
    by (auto simp: GetLongAccumulator_def Let_def sign_bit bit_or_iff bit_not_iff bit_and_iff
        mask_bits bit_simps min_def)
qed

lemma long_value_concat:
  "DoubleWord State = concat_bit 17 (uint (Quotient State)) (ags_value (Accumulator State))"
  by (simp add: DoubleWord_def concat_bit_eq take_bit_eq_mod push_bit_eq_mult)

lemma DoubleWord_bounds: "- (2 ^ 34) \<le> DoubleWord State" "DoubleWord State < 2 ^ 34"
proof -
  have "0 \<le> uint (Quotient State) mod 131072" "uint (Quotient State) mod 131072 < 131072"
    by simp_all
  then show "- (2 ^ 34) \<le> DoubleWord State" "DoubleWord State < 2 ^ 34"
    using ags_value_bounds [of "Accumulator State"] by (simp_all add: DoubleWord_def)
qed

lemma long_value_eq:
  assumes "word18 (Accumulator State)"
  shows "long_value State = DoubleWord State"
proof (rule sint_eq_bitsI)
  fix n assume "n < LENGTH(64)"
  with assms show "bit (GetLongAccumulator State) n = bit (DoubleWord State) n"
    by (auto simp: long_value_concat bit_concat_bit_iff bit_GetLong
        bit_uint_iff ags_value_def bit_signed_take_bit_iff min_def)
qed (use DoubleWord_bounds [of State] in auto)

lemma word18_PutLong [simp]:
  "word18 (Accumulator (PutLongAccumulator lli State))"
  "word18 (Quotient (PutLongAccumulator lli State))"
  by (simp_all only: word18_bits) (auto simp: PutLongAccumulator_def Let_def sign_bit bit_simps mask_bits)

lemma PutLong_Accumulator:
  "ags_value (Accumulator (PutLongAccumulator lli State)) = signed_take_bit 17 (sint lli div 2 ^ 17)"
  unfolding drop_bit_eq_div [symmetric]
  by (rule bit_eqI) (auto simp: PutLongAccumulator_def Let_def ags_value_def bit_signed_take_bit_iff
      bit_uint_iff bit_simps mask_bits min_def bit_sint_iff)

lemma PutLong_Quotient:
  "uint (Quotient (PutLongAccumulator lli State)) mod 2 ^ 17 = sint lli mod 2 ^ 17"
  by (simp only: take_bit_eq_mod [symmetric], rule bit_eqI)
    (auto simp: PutLongAccumulator_def Let_def bit_take_bit_iff bit_uint_iff bit_simps mask_bits bit_sint_iff)

lemma PutLong_same_sign:
  "bit (Quotient (PutLongAccumulator lli State)) 17 =
   bit (Accumulator (PutLongAccumulator lli State)) 17"
  by (auto simp: PutLongAccumulator_def Let_def sign_bit bit_simps mask_bits)

lemma DoubleWord_PutLong:
  "DoubleWord (PutLongAccumulator lli State) = signed_take_bit 34 (sint lli)"
proof -
  have "DoubleWord (PutLongAccumulator lli State) =
      concat_bit 17 (sint lli) (signed_take_bit 17 (drop_bit 17 (sint lli)))"
    unfolding DoubleWord_def PutLong_Accumulator PutLong_Quotient
    by (simp add: concat_bit_eq take_bit_eq_mod push_bit_eq_mult drop_bit_eq_div)
  also have "\<dots> = signed_take_bit 34 (sint lli)"
  proof (rule bit_eqI)
    fix n
    show "bit (concat_bit 17 (sint lli) (signed_take_bit 17 (drop_bit 17 (sint lli)))) n =
        bit (signed_take_bit 34 (sint lli)) n"
      by (cases "n < 17")
        (auto simp: bit_concat_bit_iff bit_signed_take_bit_iff bit_drop_bit_eq min_def)
  qed
  finally show ?thesis .
qed

text \<open>A double precision number that fits is stored and read back.\<close>

lemma PutLong_GetLong:
  assumes "- (2 ^ 34) \<le> sint lli" "sint lli < 2 ^ 34"
  shows "GetLongAccumulator (PutLongAccumulator lli State) = lli"
proof -
  have "sint (GetLongAccumulator (PutLongAccumulator lli State)) = sint lli"
    using assms by (simp add: long_value_eq DoubleWord_PutLong signed_take_bit_int_eq_self)
  then show ?thesis by (rule signed_word_eqI)
qed

section \<open>Addition and subtraction\<close>

lemma range18: "0x1FFFF <s i \<or> i <s - 0x20000 \<longleftrightarrow> \<not> (- (2 ^ 17) \<le> sint i \<and> sint (i :: cint) < 2 ^ 17)"
  by (auto simp: word_sless_alt)

lemma ags_value_fits: "- (2 ^ 17) \<le> sint i \<Longrightarrow> sint i < 2 ^ 17 \<Longrightarrow> ags_value (i AND 0x3FFFF) = sint i"
  by (simp add: ags_value_and signed_take_bit_int_eq_self)

lemma sint_add_sub:
  assumes "word18 x" "word18 y"
  shows "sint (SignExtendAGS x + SignExtendAGS y) = ags_value x + ags_value y"
    and "sint (SignExtendAGS x - SignExtendAGS y) = ags_value x - ags_value y"
  using ags_value_bounds [of x] ags_value_bounds [of y] assms
  by (subst sint_plus_small sint_minus_small; simp add: sint_SignExtendAGS)+

section \<open>Multiplication\<close>

lemma sint_times_64:
  assumes "- (2 ^ 63) \<le> sint a * sint b" "sint a * sint b < 2 ^ 63"
  shows "sint (a * b :: u64) = sint a * sint b"
  proof -
  have "a * b = word_of_int (sint a * sint b)" by simp
  then show ?thesis
    using assms by (simp only: signed_of_int) (simp add: signed_take_bit_int_eq_self)
qed

lemma product_bounds:
  assumes "- 131072 \<le> a" "a < 131072" "- 131072 < b" "b < (131072 :: int)"
  shows "\<bar>a * b\<bar> \<le> 131072 * 131071"
proof -
  have "\<bar>a\<bar> * \<bar>b\<bar> \<le> 131072 * 131071"
    using assms by (intro mult_mono) auto
  then show ?thesis by (simp add: abs_mult)
qed

lemma ags_value_top: "word18 v \<Longrightarrow> ags_value v = (if 0x20000 \<le> uint v then uint v - 0x40000 else uint v)"
  using bit_top_iff [of v 17] by (simp add: ags_value_word18)

lemma ags_value_Suc:
  assumes "word18 v" "ags_value v < 0x1FFFF"
  shows "ags_value (if v \<noteq> 0x3FFFF then v + 1 else 0) = ags_value v + 1"
proof -
  have "uint v = 0x3FFFF \<longleftrightarrow> v = 0x3FFFF"
    by (simp add: word_uint_eq_iff)
  moreover have "uint (v + 1) = uint v + 1"
    using assms(1) by (simp add: uint_word_ariths)
  ultimately show ?thesis
    using assms by (auto simp: ags_value_top split: if_splits)
qed

lemma PutLong_fits:
  assumes "- (2 ^ 34) \<le> sint lli" "sint lli < 2 ^ 34"
  shows "ags_value (Accumulator (PutLongAccumulator lli State)) = sint lli div 2 ^ 17"
    and "DoubleWord (PutLongAccumulator lli State) = sint lli"
  using assms by (simp_all add: PutLong_Accumulator DoubleWord_PutLong signed_take_bit_int_eq_self)

lemma PutLong_Overflow [simp]: "Overflow (PutLongAccumulator lli State) = Overflow State"
  by (simp add: PutLongAccumulator_def Let_def)

lemma bit_low_half: "bit k n \<longleftrightarrow> 2 ^ n \<le> k mod 2 ^ Suc n" for k :: int
proof -
  let ?r = "k mod 2 ^ Suc n"
  have r: "0 \<le> ?r" "?r < 2 * 2 ^ n" by simp_all
  have "bit k n = bit (take_bit (Suc n) k) n"
    by (simp add: bit_take_bit_iff)
  also have "\<dots> \<longleftrightarrow> odd (?r div 2 ^ n)"
    by (simp add: take_bit_eq_mod bit_iff_odd)
  also have "\<dots> \<longleftrightarrow> 2 ^ n \<le> ?r"
  proof (cases "2 ^ n \<le> ?r")
    case True
    with r have "?r div 2 ^ n = (?r - 2 ^ n) div 2 ^ n + 1" by (simp add: div_pos_geq)
    also have "(?r - 2 ^ n) div 2 ^ n = 0" using True r by (intro div_pos_pos_trivial) auto
    finally have "?r div 2 ^ n = 1" by simp
    with True show ?thesis by simp
  next
    case False
    with r have "?r div 2 ^ n = 0" by (intro div_pos_pos_trivial) auto
    with False show ?thesis by simp
  qed
  finally show ?thesis .
qed

lemma quotient_less: "65536 \<le> p mod 2 ^ 17 \<Longrightarrow> p \<le> 131072 * 131071 \<Longrightarrow> p div 2 ^ 17 < (131071 :: int)"
  by simp presburger

lemma round_half:
  "(p + 65536) div 131072 = p div 131072 + (if 65536 \<le> p mod 131072 then 1 else (0 :: int))"
proof -
  let ?q = "p div 131072" and ?r = "p mod 131072"
  have "(p + 65536) div 131072 = (?r + 65536 + 131072 * ?q) div 131072"
    by (simp add: algebra_simps)
  also have "\<dots> = ?q + (?r + 65536) div 131072"
    by (rule div_mult_self2) simp
  also have "(?r + 65536) div 131072 = (if 65536 \<le> ?r then 1 else 0)"
    using pos_mod_bound [of 131072 p] pos_mod_sign [of 131072 p]
    by (auto simp: div_pos_geq div_pos_pos_trivial)
  finally show ?thesis .
qed

lemma MPY_product:
  assumes "word18 (Accumulator State)" "word18 y" "y \<noteq> 0x20000"
  defines "p \<equiv> ags_value (Accumulator State) * ags_value y"
  shows "DoubleWord (ags_MPY False y State) = p"
    and "ags_value (Accumulator (ags_MPY True y State)) = (p + 2 ^ 16) div 2 ^ 17"
proof -
  have "ags_value y \<noteq> - 131072"
    using assms(2,3) by (auto simp: ags_value_top word_uint_eq_iff)
  then have p: "\<bar>p\<bar> \<le> 131072 * 131071"
    unfolding p_def using ags_value_bounds [of "Accumulator State"] ags_value_bounds [of y]
    by (intro product_bounds) auto
  define lli :: u64 where
    "lli = scast (SignExtendAGS (Accumulator State)) * scast (SignExtendAGS y)"
  have lli: "sint lli = p"
    unfolding lli_def p_def using assms(1,2) p
    by (subst sint_times_64) (auto simp: sint_SignExtendAGS p_def)
  let ?S = "PutLongAccumulator lli State"
  have M: "ags_MPY r y State = 
    (if r \<and> bit (Quotient ?S) 16 then ?S\<lparr>Accumulator := if Accumulator ?S \<noteq> 0x3FFFF then Accumulator ?S + 1 else 0\<rparr> else ?S)" for r
    using assms(3) by (simp add: ags_MPY_def lli_def Let_def)
  have A: "ags_value (Accumulator ?S) = p div 2 ^ 17" and D: "DoubleWord ?S = p"
    using PutLong_fits [of lli State] p by (auto simp: lli)
  show "DoubleWord (ags_MPY False y State) = p" by (simp add: M D)
  have B: "bit (Quotient ?S) 16 \<longleftrightarrow> 2 ^ 16 \<le> p mod 2 ^ 17"
    using bit_low_half [of "uint (Quotient ?S)" 16] PutLong_Quotient [of lli State]
    by (simp add: lli bit_uint_iff)
  show "ags_value (Accumulator (ags_MPY True y State)) = (p + 2 ^ 16) div 2 ^ 17"
  proof (cases "2 ^ 16 \<le> p mod 2 ^ 17")
    case True
    then have "p div 2 ^ 17 < 0x1FFFF" using p by (intro quotient_less) simp_all
    with True show ?thesis using A
      using ags_value_Suc [of "Accumulator ?S"] by (simp add: M B round_half)
  next
    case False
    then show ?thesis using A by (simp add: M B round_half)
  qed
qed

text \<open>What an operation can change, for the statements below.\<close>

lemma PutLong_frame: "\<exists>A Q. PutLongAccumulator lli State = State\<lparr>Accumulator := A, Quotient := Q\<rparr>"
  unfolding PutLongAccumulator_def Let_def by (cases State) auto

lemma MPY_frame: "\<exists>A Q. ags_MPY r y State = State\<lparr>Accumulator := A, Quotient := Q\<rparr>"
proof -
  obtain A Q where "PutLongAccumulator (scast (SignExtendAGS (Accumulator State)) * scast (SignExtendAGS y)) State =
      State\<lparr>Accumulator := A, Quotient := Q\<rparr>"
    using PutLong_frame by blast
  then show ?thesis unfolding ags_MPY_def Let_def by (cases State) auto
qed

text \<open>C25: ADD and SUB leave the sum and the difference of 18-bit numbers in the accumulator, modulo
  \<open>2 ^ 18\<close>, and set the overflow flag exactly when the result does not fit; MPY leaves the exact
  35-bit product in the accumulator and the quotient register, MPR and MPZ its value rounded to 18 bits
  in the accumulator, except that the factor \<open>-1\<close> only clears the quotient register; they
  change nothing else.\<close>

theorem AGS_arithmetic:
  assumes "word18 (Accumulator State)" "word18 y"
  shows "let a = ags_value (Accumulator State); b = ags_value y;
      flag = (\<lambda>n. if - (2 ^ 17) \<le> n \<and> n < 2 ^ 17 then Overflow State else 1)
    in (\<exists>A. ags_ADD y State = State\<lparr>Accumulator := A, Overflow := flag (a + b)\<rparr> \<and>
          ags_value A = signed_take_bit 17 (a + b)) \<and>
       (\<exists>A. ags_SUB y State = State\<lparr>Accumulator := A, Overflow := flag (a - b)\<rparr> \<and>
          ags_value A = signed_take_bit 17 (a - b)) \<and>
       (\<exists>A Q. ags_MPY r y State = State\<lparr>Accumulator := A, Quotient := Q\<rparr>) \<and>
       (if b = - (2 ^ 17) then ags_MPY r y State = State\<lparr>Quotient := 0\<rparr>
        else DoubleWord (ags_MPY False y State) = a * b \<and>
          ags_value (Accumulator (ags_MPY True y State)) = (a * b + 2 ^ 16) div 2 ^ 17)"
proof -
  let ?x = "SignExtendAGS (Accumulator State)" and ?y = "SignExtendAGS y"
  have special: "ags_value y = - (2 ^ 17) \<longleftrightarrow> y = 0x20000"
    using assms(2) by (auto simp: ags_value_top word_uint_eq_iff)
  have A: "ags_ADD y State = State\<lparr>Accumulator := (?x + ?y) AND 0x3FFFF, Overflow :=
      if - (2 ^ 17) \<le> ags_value (Accumulator State) + ags_value y \<and>
        ags_value (Accumulator State) + ags_value y < 2 ^ 17 then Overflow State else 1\<rparr>"
    unfolding ags_ADD_def Let_def range18 sint_add_sub [OF assms] by simp
  have S: "ags_SUB y State = State\<lparr>Accumulator := (?x - ?y) AND 0x3FFFF, Overflow :=
      if - (2 ^ 17) \<le> ags_value (Accumulator State) - ags_value y \<and>
        ags_value (Accumulator State) - ags_value y < 2 ^ 17 then Overflow State else 1\<rparr>"
    unfolding ags_SUB_def Let_def range18 sint_add_sub [OF assms] by simp
  have M: "if y = 0x20000 then ags_MPY r y State = State\<lparr>Quotient := 0\<rparr>
      else DoubleWord (ags_MPY False y State) = ags_value (Accumulator State) * ags_value y \<and>
        ags_value (Accumulator (ags_MPY True y State)) =
          (ags_value (Accumulator State) * ags_value y + 2 ^ 16) div 2 ^ 17"
    using MPY_product [OF assms] by (simp add: ags_MPY_def)
  show ?thesis
    unfolding Let_def special
    using A S M MPY_frame [of r y State] ags_value_and sint_add_sub [OF assms] by metis
qed

lemma AGS_arithmetic_witness:
  "ags_value (Accumulator (ags_ADD 5 (ags_start\<lparr>Accumulator := 0x3FFFF\<rparr>))) = 4 \<and>
   DoubleWord (ags_MPY False 5 (ags_start\<lparr>Accumulator := 0x3FFFF\<rparr>)) = - 5"
  using AGS_arithmetic [of "ags_start\<lparr>Accumulator := 0x3FFFF\<rparr>" 5 False]
  by (auto simp: ags_value_top)

section \<open>Division\<close>

lemma division_bounds:
  assumes "0 < e" "- (2 ^ 17) * e \<le> E" "E < 2 ^ 17 * (e :: int)"
  shows "- (2 ^ 17) \<le> E div e" "E div e < 2 ^ 17"
    and "E div e \<le> (E + e div 2) div e" "(E + e div 2) div e \<le> E div e + 1"
proof -
  have "(- (2 ^ 17) * e) div e \<le> E div e"
    using assms(1,2) by (intro zdiv_mono1)
  then show "- (2 ^ 17) \<le> E div e"
    using assms(1) by (metis less_irrefl nonzero_mult_div_cancel_right)
  show "E div e < 2 ^ 17" using assms(1,3) by (intro int_div_less) (simp_all add: mult.commute)
  show "E div e \<le> (E + e div 2) div e"
    using assms(1) by (intro zdiv_mono1) auto
  have "(E + e div 2) div e \<le> (E + e) div e"
    using assms(1) by (intro zdiv_mono1) auto
  then show "(E + e div 2) div e \<le> E div e + 1" using assms(1) by (metis div_add_self2 less_irrefl)
qed

lemma DoubleWord_div:
  assumes "\<bar>ags_value (Accumulator State)\<bar> < \<bar>d\<bar>"
  obtains E e where "0 < e" "- (2 ^ 17) * e \<le> E" "E < 2 ^ 17 * e"
    and "DoubleWord State div d = E div e" "(DoubleWord State + d sdiv 2) div d = (E + e div 2) div e"
proof -
  let ?D = "DoubleWord State" and ?a = "ags_value (Accumulator State)"
  have D: "2 ^ 17 * ?a \<le> ?D" "?D < 2 ^ 17 * (?a + 1)"
    by (simp_all add: DoubleWord_def)
  show ?thesis
  proof (cases "0 < d")
    case True
    with D assms have "- (2 ^ 17) * d \<le> ?D" "?D < 2 ^ 17 * d"
      by simp_all
    with True show ?thesis
      using that [of d ?D] by (simp add: signed_divide_int_def)
  next
    case False
    with assms have "d < 0" by auto
    with D assms have "- (2 ^ 17) * - d \<le> - ?D" "- ?D < 2 ^ 17 * - d"
      by simp_all
    moreover have "?D div d = (- ?D) div (- d)"
      by (simp only: div_minus_minus)
    moreover have "(?D + d sdiv 2) div d = (- (?D + d sdiv 2)) div (- d)"
      by (simp only: div_minus_minus)
    then have "(?D + d sdiv 2) div d = (- ?D + (- d) div 2) div (- d)"
      using \<open>d < 0\<close> by (simp add: signed_divide_int_def)
    ultimately show ?thesis
      using that [of "- d" "- ?D"] \<open>d < 0\<close> by simp
  qed
qed

lemma DVP_regular:
  assumes "word18 (Accumulator State)" "word18 y"
    and "\<bar>ags_value (Accumulator State)\<bar> < \<bar>ags_value y\<bar>"
  defines "D \<equiv> DoubleWord State" and "d \<equiv> ags_value y"
  shows "\<exists>A Q. ags_DVP y State = Some (State\<lparr>Quotient := Q, Accumulator := A\<rparr>) \<and>
    ags_value Q = D div d \<and> ags_value A = min (2 ^ 17 - 1) ((D + d sdiv 2) div d)"
proof -
  let ?i = "SignExtendAGS y" and ?j = "SignExtendAGS (Accumulator State)"
  have i: "sint ?i = d" and j: "sint ?j = ags_value (Accumulator State)"
    and l: "long_value State = D"
    using assms(1,2) by (simp_all add: sint_SignExtendAGS d_def D_def long_value_eq)
  have [simp]: "?i \<noteq> 0" using i assms(3) d_def by auto
  have "sint (- ?j) = - sint ?j"
    using ags_value_bounds [of "Accumulator State"] by (intro sint_uminus) (simp add: j)
  then have [simp]: "?i \<noteq> - ?j" using i j assms(3) d_def by auto
  have special: "\<not> (?i = - 1 \<and> GetLongAccumulator State = - 0x10000)"
  proof
    assume *: "?i = - 1 \<and> GetLongAccumulator State = - 0x10000"
    then have "d = - 1" using i by auto
    then have "0 \<le> D" using assms(3) by (simp add: d_def D_def DoubleWord_def)
    then show False using l * by auto
  qed
  obtain E e where E: "0 < e" "- (2 ^ 17) * e \<le> E" "E < 2 ^ 17 * e"
    and q: "D div d = E div e" "(D + d sdiv 2) div d = (E + e div 2) div e"
    using DoubleWord_div assms(3) unfolding D_def d_def by blast
  note b = division_bounds [OF E, folded q]
  have F: "FloorToInt (sint (GetLongAccumulator State)) (sint ?i) = Some (word_of_int (D div d))"
    "FloorToInt (sint (GetLongAccumulator State) + sint ?i sdiv 2) (sint ?i) =
       Some (word_of_int ((D + d sdiv 2) div d))"
    unfolding l i FloorToInt_def Let_def using b assms(3) d_def by auto
  have val: "ags_value (word_of_int k AND 0x3FFFF) = k" if "- (2 ^ 17) \<le> k" "k < 2 ^ 17" for k
    using that by (simp add: ags_value_and sint_word_of_int_small signed_take_bit_int_eq_self)
  have max: "word_of_int (D div d) AND 0x3FFFF = (0x1FFFF :: cint) \<longleftrightarrow> D div d = 2 ^ 17 - 1"
  proof
    assume "word_of_int (D div d) AND 0x3FFFF = (0x1FFFF :: cint)"
    then show "D div d = 2 ^ 17 - 1" using val [of "D div d"] b(1,2) by (simp add: ags_value_top)
  qed simp
  define Q A where "Q = (word_of_int (D div d) AND 0x3FFFF :: cint)"
    and "A = (if Q = 0x1FFFF then 0x1FFFF else word_of_int ((D + d sdiv 2) div d) AND 0x3FFFF :: cint)"
  have "ags_DVP y State = Some (State\<lparr>Quotient := Q, Accumulator := A\<rparr>)"
    using assms(3) unfolding d_def [symmetric] A_def Q_def
    by (cases "word_of_int (D div d) AND 0x3FFFF = (0x1FFFF :: cint)")
      (simp_all add: ags_DVP_def ags_Divide_def Let_def special j i F [unfolded i] del: de_Morgan_conj)
  moreover have "ags_value A = min (2 ^ 17 - 1) ((D + d sdiv 2) div d)"
    using b max val by (cases "D div d = 2 ^ 17 - 1") (simp_all add: A_def Q_def ags_value_top)
  moreover have "ags_value Q = D div d"
    using b val by (simp add: Q_def)
  ultimately show ?thesis by blast
qed

lemma SignExtendAGS_eq_uminus:
  assumes "word18 x" "word18 y"
  shows "SignExtendAGS y = - SignExtendAGS x \<longleftrightarrow> ags_value y = - ags_value x"
    and "SignExtendAGS y = 0 \<longleftrightarrow> ags_value y = 0"
proof -
  have "sint (- SignExtendAGS x) = - ags_value x"
    using ags_value_bounds [of x] assms by (subst sint_uminus) (simp_all add: sint_SignExtendAGS)
  then show "SignExtendAGS y = - SignExtendAGS x \<longleftrightarrow> ags_value y = - ags_value x"
    using assms(2) by (metis sint_SignExtendAGS signed_word_eqI)
  show "SignExtendAGS y = 0 \<longleftrightarrow> ags_value y = 0"
    using sint_SignExtendAGS [OF assms(2)] by (metis signed_eq_0_iff)
qed

text \<open>Every division, by the values of its operands.\<close>

abbreviation fits_int :: "int \<Rightarrow> bool" where
  "fits_int q \<equiv> - (2 ^ 31) \<le> q \<and> q < 2 ^ 31"

lemma uint_word18: "uint (word_of_int k AND 0x3FFFF :: cint) = k mod 0x40000"
proof -
  have "word_of_int k AND (mask 18 :: cint) = word_of_int (take_bit 18 k)"
    by (rule bit_word_eqI) (auto simp: bit_simps)
  then have "word_of_int k AND 0x3FFFF = (word_of_int (k mod 0x40000) :: cint)"
    by (simp add: low_masks ags_masks take_bit_eq_mod)
  then show ?thesis by (simp add: unsigned_of_int take_bit_eq_mod mod_mod_cancel)
qed

lemma DVP_cases:
  assumes "word18 (Accumulator State)" "word18 y"
  defines "a \<equiv> ags_value (Accumulator State)" and "D \<equiv> DoubleWord State" and "d \<equiv> ags_value y"
  assumes "d \<noteq> 0" "d \<noteq> - a"
  defines "q \<equiv> D div d" and "r \<equiv> (D + d sdiv 2) div d"
    and "S \<equiv> if \<bar>d\<bar> \<le> \<bar>a\<bar> then State\<lparr>Overflow := 1\<rparr> else State"
  shows "ags_DVP y State =
    (if d = - 1 \<and> D = - 0x10000 then Some (S\<lparr>Quotient := 0xFFFF, Accumulator := 0x10000\<rparr>)
     else if \<not> (fits_int q \<and> (q mod 0x40000 = 0x1FFFF \<or> fits_int r)) then None
     else Some (S\<lparr>Quotient := word_of_int q AND 0x3FFFF, Accumulator :=
       if q mod 0x40000 = 0x1FFFF then 0x1FFFF else word_of_int r AND 0x3FFFF\<rparr>))"
proof -
  let ?i = "SignExtendAGS y" and ?l = "GetLongAccumulator State"
  have i: "sint ?i = d" and j: "sint (SignExtendAGS (Accumulator State)) = a" and l: "sint ?l = D"
    using assms(1,2) by (simp_all add: sint_SignExtendAGS a_def d_def D_def long_value_eq)
  have special: "?i = - 1 \<and> ?l = - 0x10000 \<longleftrightarrow> d = - 1 \<and> D = - 0x10000"
  proof -
    have "?i = - 1 \<longleftrightarrow> d = - 1" unfolding i [symmetric] by (metis signed_word_eqI sint_n1)
    moreover have "?l = - 0x10000 \<longleftrightarrow> sint ?l = sint (- 0x10000 :: u64)" by (metis signed_word_eqI)
    ultimately show ?thesis by (simp add: l)
  qed
  have max: "word_of_int q AND 0x3FFFF = (0x1FFFF :: cint) \<longleftrightarrow> q mod 0x40000 = 0x1FFFF"
    by (simp add: word_uint_eq_iff uint_word18)
  have "ags_DVP y State = ags_Divide ?l ?i (SignExtendAGS (Accumulator State)) State"
    using assms(6,7) SignExtendAGS_eq_uminus [OF assms(1,2)] by (simp add: ags_DVP_def Let_def a_def d_def)
  also have "\<dots> = (if d = - 1 \<and> D = - 0x10000 then Some (S\<lparr>Quotient := 0xFFFF, Accumulator := 0x10000\<rparr>)
     else if \<not> (fits_int q \<and> (q mod 0x40000 = 0x1FFFF \<or> fits_int r)) then None
     else Some (S\<lparr>Quotient := word_of_int q AND 0x3FFFF, Accumulator :=
       if q mod 0x40000 = 0x1FFFF then 0x1FFFF else word_of_int r AND 0x3FFFF\<rparr>))"
    unfolding ags_Divide_def Let_def special i j l S_def [symmetric] FloorToInt_def q_def [symmetric] r_def [symmetric]
    using assms(6) by (simp add: max)
  finally show ?thesis .
qed

lemma quotient_bound:
  assumes "d \<noteq> 0" "\<bar>N\<bar> \<le> M * \<bar>d :: int\<bar>"
  shows "\<bar>N div d\<bar> \<le> M"
proof -
  have pos: "\<bar>n div e\<bar> \<le> M" if "0 < e" "\<bar>n\<bar> \<le> M * e" for n e :: int
  proof -
    have "(- M * e) div e \<le> n div e" "n div e \<le> (M * e) div e"
      using that zdiv_mono1 [of "- M * e" n e] zdiv_mono1 [of n "M * e" e] by auto
    moreover have "(- M * e) div e = - M" "(M * e) div e = M"
      using that(1) by (metis less_irrefl nonzero_mult_div_cancel_right)+
    ultimately show ?thesis by simp
  qed
  show ?thesis
  proof (cases "0 < d")
    case True
    then show ?thesis using assms pos by simp
  next
    case False
    then have "\<bar>(- N) div (- d)\<bar> \<le> M" using assms by (intro pos) simp_all
    then show ?thesis by (simp only: div_minus_minus)
  qed
qed

text \<open>The quotient of equal operands always fits.\<close>

lemma equal_fits:
  assumes "d = ags_value (Accumulator State)" "d \<noteq> 0"
  shows "fits_int (DoubleWord State div d)" "fits_int ((DoubleWord State + d sdiv 2) div d)"
proof -
  have "\<bar>DoubleWord State\<bar> \<le> 2 ^ 18 * \<bar>d\<bar>"
  proof -
    have "2 ^ 17 * d \<le> DoubleWord State" "DoubleWord State < 2 ^ 17 * (d + 1)"
      by (simp_all add: DoubleWord_def assms(1))
    then show ?thesis using assms(2) by (cases "0 < d") auto
  qed
  moreover have "\<bar>d sdiv 2\<bar> \<le> \<bar>d\<bar>"
  proof -
    have "d sdiv 2 = (if 0 \<le> d then d div 2 else - ((- d) div 2))"
      by (cases "d = 0") (auto simp: signed_divide_int_def sgn_if)
    then show ?thesis by presburger
  qed
  ultimately have "\<bar>DoubleWord State div d\<bar> \<le> 2 ^ 18" "\<bar>(DoubleWord State + d sdiv 2) div d\<bar> \<le> 2 ^ 18 + 1"
    using assms(2) by (intro quotient_bound; simp add: algebra_simps)+
  then show "fits_int (DoubleWord State div d)" "fits_int ((DoubleWord State + d sdiv 2) div d)"
    by auto
qed

text \<open>The divisions whose quotient no \<open>int\<close> can hold.\<close>

lemma DVP_undefined:
  assumes "word18 (Accumulator State)" "word18 y"
  defines "D \<equiv> DoubleWord State" and "d \<equiv> ags_value y"
  shows "ags_DVP y State = None \<longleftrightarrow>
    d \<noteq> 0 \<and> \<bar>d\<bar> < \<bar>ags_value (Accumulator State)\<bar> \<and>
    (\<not> fits_int (D div d) \<or> D div d mod 2 ^ 18 \<noteq> 0x1FFFF \<and> \<not> fits_int ((D + d sdiv 2) div d))"
proof -
  let ?a = "ags_value (Accumulator State)"
  consider "d = 0 \<or> d = - ?a" | "\<bar>?a\<bar> < \<bar>d\<bar>" | "d \<noteq> 0" "d = ?a" "d \<noteq> - ?a"
    | "d \<noteq> 0" "\<bar>d\<bar> < \<bar>?a\<bar>"
    by linarith
  then show ?thesis
  proof cases
    case 1
    then have "ags_DVP y State \<noteq> None"
      by (auto simp: ags_DVP_def Let_def d_def SignExtendAGS_eq_uminus [OF assms(1,2)])
    then show ?thesis using 1 by auto
  next
    case 2
    then show ?thesis using DVP_regular [OF assms(1,2)] by (auto simp: d_def)
  next
    case 3
    then have "ags_DVP y State \<noteq> None"
      using DVP_cases [OF assms(1,2)] equal_fits [of d State] unfolding D_def d_def by auto
    then show ?thesis using 3 by auto
  next
    case 4
    then have "\<not> (d = - 1 \<and> D = - 0x10000)"
      using DoubleWord_def [of State] by (auto simp: D_def)
    then show ?thesis
      using 4 DVP_cases [OF assms(1,2), folded D_def d_def] by auto
  qed
qed

text \<open>C21: the result of every division.  When the accumulator is smaller in magnitude than the
  divisor, the operands the programmers are allowed, the division succeeds: the quotient register
  receives the quotient of the 35-bit dividend, rounded down, the accumulator the same quotient
  rounded to the nearest number and clamped to the largest one, and nothing else changes, the
  overflow flag included.  A division by zero sets the flag and leaves the largest number of the sign
  of the dividend; a divisor that is the negative of the accumulator leaves \<open>-1\<close>, with the
  flag set if the divisor is negative.  Any other divisor sets the flag; the two quotients are
  reduced to 18 bits, and the accumulator holds the largest number when the quotient register
  does.  The operands of the self-test at address 7701, \<open>-0200000\<close> divided by \<open>-1\<close>,
  are the one exception.  With a divisor smaller in magnitude than the accumulator a quotient can be
  too large for the C type \<open>int\<close>, and then there is no result.\<close>

theorem DVP_exact:
  assumes "word18 (Accumulator State)" "word18 y"
  shows "let a = ags_value (Accumulator State); D = DoubleWord State; d = ags_value y;
      q = D div d; rounded = (D + d sdiv 2) div d;
      reduced = (\<exists>A Q. ags_DVP y State = Some (State\<lparr>Overflow := 1, Quotient := Q, Accumulator := A\<rparr>) \<and>
        uint Q = q mod 2 ^ 18 \<and> uint A = (if uint Q = 0x1FFFF then 0x1FFFF else rounded mod 2 ^ 18))
    in
    (\<bar>a\<bar> < \<bar>d\<bar> \<longrightarrow>
      (\<exists>A Q. ags_DVP y State = Some (State\<lparr>Quotient := Q, Accumulator := A\<rparr>) \<and>
        ags_value Q = q \<and> ags_value A = min (2 ^ 17 - 1) rounded)) \<and>
    (d = 0 \<longrightarrow> ags_DVP y State = Some (State\<lparr>Overflow := 1,
        Accumulator := if 0 \<le> D then 0x1FFFF else 0x20000,
        Quotient := if 0 \<le> D then 0x1FFFF else 0x20000\<rparr>)) \<and>
    (d \<noteq> 0 \<and> d = - a \<longrightarrow> ags_DVP y State = Some (State\<lparr>Overflow := if d < 0 then 1 else Overflow State,
        Accumulator := 0x20000, Quotient := 0x20000\<rparr>)) \<and>
    (d \<noteq> 0 \<and> d = a \<longrightarrow>
      (if d = - 1 \<and> D = - 0x10000
       then ags_DVP y State = Some (State\<lparr>Overflow := 1, Quotient := 0xFFFF, Accumulator := 0x10000\<rparr>)
       else reduced)) \<and>
    (d \<noteq> 0 \<and> \<bar>d\<bar> < \<bar>a\<bar> \<longrightarrow>
      (if fits_int q \<and> (q mod 2 ^ 18 = 0x1FFFF \<or> fits_int rounded) then reduced
       else ags_DVP y State = None))"
proof -
  have n: "0 \<le>s GetLongAccumulator State \<longleftrightarrow> 0 \<le> DoubleWord State"
    using long_value_eq [OF assms(1)] by (simp add: word_sle_eq)
  have m: "SignExtendAGS y <s 0 \<longleftrightarrow> ags_value y < 0"
    using sint_SignExtendAGS [OF assms(2)] by (simp add: sless_0_iff)
  have D: "\<not> (ags_value y = - 1 \<and> DoubleWord State = - 0x10000)"
    if "\<bar>ags_value y\<bar> < \<bar>ags_value (Accumulator State)\<bar>"
    using that DoubleWord_def [of State] by auto
  define a D d where "a = ags_value (Accumulator State)" and "D = DoubleWord State" and "d = ags_value y"
  define q r where "q = D div d" and "r = (D + d sdiv 2) div d"
  note defs = a_def [symmetric] D_def [symmetric] d_def [symmetric] q_def [symmetric] r_def [symmetric]
  define reduced where "reduced = (\<exists>A Q. ags_DVP y State = Some (State\<lparr>Overflow := 1, Quotient := Q, Accumulator := A\<rparr>) \<and>
        uint Q = q mod 2 ^ 18 \<and> uint A = (if uint Q = 0x1FFFF then 0x1FFFF else r mod 2 ^ 18))"
  note C = DVP_cases [OF assms, unfolded defs]
  have reduced: reduced
    if "d \<noteq> 0" "d \<noteq> - a" "\<bar>d\<bar> \<le> \<bar>a\<bar>" "\<not> (d = - 1 \<and> D = - 0x10000)"
      "fits_int q \<and> (q mod 2 ^ 18 = 0x1FFFF \<or> fits_int r)"
  proof -
    have "ags_DVP y State = Some (State\<lparr>Overflow := 1, Quotient := word_of_int q AND 0x3FFFF, Accumulator :=
       if q mod 0x40000 = 0x1FFFF then 0x1FFFF else word_of_int r AND 0x3FFFF\<rparr>)"
      using C that by simp
    then show ?thesis
      unfolding reduced_def
      by (intro exI [of _ "if q mod 0x40000 = 0x1FFFF then 0x1FFFF else word_of_int r AND 0x3FFFF"]
          exI [of _ "word_of_int q AND 0x3FFFF"]) (simp add: uint_word18)
  qed
  have 1: "\<exists>A Q. ags_DVP y State = Some (State\<lparr>Quotient := Q, Accumulator := A\<rparr>) \<and>
        ags_value Q = q \<and> ags_value A = min (2 ^ 17 - 1) r" if "\<bar>a\<bar> < \<bar>d\<bar>"
    using DVP_regular [OF assms, unfolded defs] that by blast
  have 2: "ags_DVP y State = Some (State\<lparr>Overflow := 1, Accumulator := if 0 \<le> D then 0x1FFFF else 0x20000,
        Quotient := if 0 \<le> D then 0x1FFFF else 0x20000\<rparr>)" if "d = 0"
    using that by (simp add: ags_DVP_def Let_def n SignExtendAGS_eq_uminus [OF assms] defs)
  have 3: "ags_DVP y State = Some (State\<lparr>Overflow := if d < 0 then 1 else Overflow State,
        Accumulator := 0x20000, Quotient := 0x20000\<rparr>)" if "d \<noteq> 0 \<and> d = - a"
    using that m [unfolded defs] SignExtendAGS_eq_uminus [OF assms, unfolded defs]
    by (simp add: ags_DVP_def Let_def)
  have 4: "if d = - 1 \<and> D = - 0x10000
       then ags_DVP y State = Some (State\<lparr>Overflow := 1, Quotient := 0xFFFF, Accumulator := 0x10000\<rparr>)
       else reduced" if "d \<noteq> 0 \<and> d = a"
  proof (cases "d = - 1 \<and> D = - 0x10000")
    case True
    then show ?thesis using C that by simp
  next
    case False
    then show ?thesis
      using reduced equal_fits [of d State, unfolded defs] that a_def by auto
  qed
  have 5: "if fits_int q \<and> (q mod 2 ^ 18 = 0x1FFFF \<or> fits_int r) then reduced
       else ags_DVP y State = None" if "d \<noteq> 0 \<and> \<bar>d\<bar> < \<bar>a\<bar>"
  proof -
    have ne: "d \<noteq> - a" "\<not> (d = - 1 \<and> D = - 0x10000)"
      using that D [unfolded defs] by auto
    show ?thesis
    proof (cases "fits_int q \<and> (q mod 2 ^ 18 = 0x1FFFF \<or> fits_int r)")
      case True
      then show ?thesis using reduced that ne by simp
    next
      case False
      then have "ags_DVP y State = None" using C that ne by simp
      then show ?thesis by (simp only: False if_False)
    qed
  qed
  show ?thesis
    unfolding Let_def defs reduced_def [symmetric] using 1 2 3 4 5 by blast
qed

lemma DVP_exact_witness:
  "(\<exists>A Q. ags_DVP 0x10000 (ags_start\<lparr>Accumulator := 5\<rparr>) =
      Some (ags_start\<lparr>Accumulator := 5, Quotient := Q, Accumulator := A\<rparr>) \<and>
    ags_value Q = 10 \<and> ags_value A = 10) \<and>
   ags_DVP 0x3FFFF (ags_start\<lparr>Accumulator := 0x3FFFF, Quotient := 0x10000\<rparr>) =
     Some (ags_start\<lparr>Accumulator := 0x10000, Quotient := 0xFFFF, Overflow := 1\<rparr>)"
  using DVP_exact [of "ags_start\<lparr>Accumulator := 5\<rparr>" "0x10000"]
    DVP_exact [of "ags_start\<lparr>Accumulator := 0x3FFFF, Quotient := 0x10000\<rparr>" "0x3FFFF"]
  by (simp add: ags_value_top DoubleWord_def ags_start_def ags_zero_def ags_t.defs signed_divide_int_def)

section \<open>Shifts\<close>

lemma scaled_range:
  fixes a :: int
  assumes "i \<le> M"
  shows "- (2 ^ M) \<le> a * 2 ^ i \<and> a * 2 ^ i < 2 ^ M \<longleftrightarrow> - (2 ^ (M - i)) \<le> a \<and> a < 2 ^ (M - i)"
proof -
  have e: "2 ^ M = 2 ^ (M - i) * (2 ^ i :: int)"
    unfolding power_add [symmetric] using assms by (simp only: le_add_diff_inverse2)
  have "- (2 ^ M) = - (2 ^ (M - i)) * (2 ^ i :: int)"
    by (simp only: e mult_minus_left)
  moreover note e
  moreover have "0 < (2 ^ i :: int)" by simp
  ultimately show ?thesis
    by (simp only: mult_le_cancel_right_pos mult_less_cancel_right_pos)
qed

lemma range_bits:
  assumes "m \<le> M" "- (2 ^ M) \<le> D" "D < (2 ^ M :: int)"
  shows "- (2 ^ m) \<le> D \<and> D < 2 ^ m \<longleftrightarrow> (\<forall>n. m \<le> n \<and> n < M \<longrightarrow> bit D n = bit D M)"
proof -
  have high: "bit D n = bit D M" if "M \<le> n" for n
  proof -
    have "bit D n = bit (signed_take_bit M D) n"
      using assms(2,3) by (simp add: signed_take_bit_int_eq_self)
    then show ?thesis using that by (simp add: bit_signed_take_bit_iff min_def)
  qed
  have "- (2 ^ m) \<le> D \<and> D < 2 ^ m \<longleftrightarrow> signed_take_bit m D = D"
    by (simp add: signed_take_bit_int_eq_self_iff)
  also have "\<dots> \<longleftrightarrow> (\<forall>n. m \<le> n \<longrightarrow> bit D n = bit D m)"
    by (auto simp: bit_eq_iff bit_signed_take_bit_iff min_def)
  also have "\<dots> \<longleftrightarrow> (\<forall>n. m \<le> n \<and> n < M \<longrightarrow> bit D n = bit D M)"
    using assms(1) high by (metis le_refl linorder_not_less)
  finally show ?thesis .
qed

lemma shl_1_minus_1: "shl k 1 - 1 = (mask k :: 'a::len word)"
  by (simp add: shl_def mask_eq_exp_minus_1)

lemma bit_DoubleWord:
  assumes "word18 (Accumulator State)"
  shows "bit (DoubleWord State) n \<longleftrightarrow> bit (GetLongAccumulator State) (min n 34)"
  using assms
  by (auto simp: long_value_concat bit_concat_bit_iff bit_GetLong bit_uint_iff ags_value_def
      bit_signed_take_bit_iff min_def)

lemma field_mask_test:
  assumes "\<And>n. bit (K :: 'a::len word) n \<longleftrightarrow> m \<le> n \<and> n < M"
  shows "L AND K = 0 \<longleftrightarrow> (\<forall>n. m \<le> n \<and> n < M \<longrightarrow> \<not> bit L n)"
    and "L AND K = K \<longleftrightarrow> (\<forall>n. m \<le> n \<and> n < M \<longrightarrow> bit L n)"
proof -
  have len: "n < LENGTH('a)" if "m \<le> n" "n < M" for n
    using assms that bit_imp_le_length by blast
  show "L AND K = 0 \<longleftrightarrow> (\<forall>n. m \<le> n \<and> n < M \<longrightarrow> \<not> bit L n)"
    using len by (auto simp: bit_eq_iff bit_and_iff assms)
  show "L AND K = K \<longleftrightarrow> (\<forall>n. m \<le> n \<and> n < M \<longrightarrow> bit L n)"
    using len by (auto simp: bit_eq_iff bit_and_iff assms)
qed

lemma lost_bits:
  assumes "\<And>n. bit (K :: 'a::len word) n \<longleftrightarrow> M - i \<le> n \<and> n < M" "i \<le> M"
    and "- (2 ^ M) \<le> D" "D < (2 ^ M :: int)" and "\<And>n. n < M \<Longrightarrow> bit L n = bit D n"
  shows "\<not> bit D M \<and> L AND K \<noteq> 0 \<or> bit D M \<and> L AND K \<noteq> K \<longleftrightarrow>
    \<not> (- (2 ^ M) \<le> D * 2 ^ i \<and> D * 2 ^ i < 2 ^ M)"
  unfolding scaled_range [OF assms(2)] range_bits [OF diff_le_self assms(3,4)]
    field_mask_test [of K "M - i" M, OF assms(1)]
  using assms(5) by (cases "bit D M") auto

lemma sign_DoubleWord:
  "word18 (Accumulator State) \<Longrightarrow> bit (Accumulator State) 17 \<longleftrightarrow> bit (DoubleWord State) 34"
  by (simp add: bit_DoubleWord bit_GetLong)

lemma lost_bits_DoubleWord:
  assumes "word18 (Accumulator State)" "i \<le> 34"
  shows "(0 = Accumulator State AND 0x20000 \<and>
       GetLongAccumulator State AND (0x3FFFFFFFF AND NOT (shl (34 - i) 1 - 1)) \<noteq> 0 \<or>
      0 \<noteq> Accumulator State AND 0x20000 \<and>
       GetLongAccumulator State AND (0x3FFFFFFFF AND NOT (shl (34 - i) 1 - 1)) \<noteq>
         0x3FFFFFFFF AND NOT (shl (34 - i) 1 - 1)) \<longleftrightarrow>
    \<not> (- (2 ^ 34) \<le> DoubleWord State * 2 ^ i \<and> DoubleWord State * 2 ^ i < 2 ^ 34)"
proof -
  let ?K = "0x3FFFFFFFF AND NOT (shl (34 - i) 1 - 1) :: u64"
  have K: "bit ?K n \<longleftrightarrow> 34 - i \<le> n \<and> n < 34" for n
    by (auto simp: bit_and_iff bit_not_iff bit_mask_iff ags_masks shl_1_minus_1)
  have L: "bit (GetLongAccumulator State) n = bit (DoubleWord State) n" if "n < 34" for n
    using that assms(1) by (simp add: bit_DoubleWord min_def)
  show ?thesis
    using lost_bits [OF K assms(2) DoubleWord_bounds L]
    by (simp only: eq_commute [of 0] sign_bit not_not sign_DoubleWord [OF assms(1)])
qed

lemma long_shifts:
  assumes "word18 (Accumulator State)" "i \<le> 31"
  defines "D \<equiv> DoubleWord State"
  shows "DoubleWord (ags_LLS i State) = signed_take_bit 34 (D * 2 ^ i)"
    and "Overflow (ags_LLS i State) =
      (if - (2 ^ 34) \<le> D * 2 ^ i \<and> D * 2 ^ i < 2 ^ 34 then Overflow State else 1)"
    and "DoubleWord (ags_LRS i State) = D div 2 ^ i"
    and "Overflow (ags_LRS i State) = Overflow State"
proof -
  have L: "signed_take_bit 34 (sint (shl i (GetLongAccumulator State))) = signed_take_bit 34 (D * 2 ^ i)"
    unfolding push_bit_eq_mult [symmetric]
  proof (rule bit_eqI)
    fix n
    define k :: nat where "k = min 34 n"
    have k: "k < 64" "k \<le> 34" "k - i \<le> 34" by (auto simp: k_def)
    then have "bit (sint (shl i (GetLongAccumulator State))) k \<longleftrightarrow> i \<le> k \<and> bit D (k - i)"
      using assms(1) by (simp add: bit_sint_iff bit_shl D_def bit_DoubleWord min_def)
    then show "bit (signed_take_bit 34 (sint (shl i (GetLongAccumulator State)))) n =
        bit (signed_take_bit 34 (push_bit i D)) n"
      by (simp only: bit_signed_take_bit_iff bit_push_bit_iff k_def [symmetric] possible_bit_int simp_thms)
  qed
  then show "DoubleWord (ags_LLS i State) = signed_take_bit 34 (D * 2 ^ i)"
    by (simp add: ags_LLS_def Let_def DoubleWord_PutLong)
  show "Overflow (ags_LLS i State) =
      (if - (2 ^ 34) \<le> D * 2 ^ i \<and> D * 2 ^ i < 2 ^ 34 then Overflow State else 1)"
    using lost_bits_DoubleWord [OF assms(1), of i] assms(2) DoubleWord_bounds [of State]
    unfolding ags_LLS_def Let_def D_def
    by (cases "i = 0") (simp_all only: if_True if_False PutLong_Overflow, simp_all)
  show "Overflow (ags_LRS i State) = Overflow State"
    by (simp add: ags_LRS_def Let_def)
  show "DoubleWord (ags_LRS i State) = D div 2 ^ i"
    unfolding ags_LRS_def Let_def DoubleWord_PutLong drop_bit_eq_div [symmetric]
  proof (rule bit_eqI)
    fix n
    define k :: nat where "k = min 34 n"
    have k: "k < 64" "k \<le> 34" by (auto simp: k_def)
    let ?llk = "if 0 \<noteq> Accumulator State AND 0x20000 then 0x3FFFFFFFF AND NOT (shl (34 - i) 1 - 1) else 0"
    have high: "bit D m = bit D 34" if "34 \<le> m" for m
      using assms(1) that by (simp add: D_def bit_DoubleWord min_def)
    have "bit (sar i (GetLongAccumulator State)) k \<longleftrightarrow> bit D (i + k)"
    proof -
      have "bit (GetLongAccumulator State) m = bit D m" if "m < 64" for m
        using assms(1) that by (simp add: D_def long_value_eq [symmetric] bit_sint_iff)
      then show ?thesis
        using k assms(2) high [of 63] high [of "i + k"] by (simp add: bit_sar)
    qed
    moreover have "bit (?llk :: u64) k \<longrightarrow> bit D (i + k)"
    proof
      assume *: "bit (?llk :: u64) k"
      then have "bit (Accumulator State) 17" by (auto simp: sign_bit split: if_splits)
      then have "bit D 34" using assms(1) by (simp add: D_def sign_DoubleWord)
      moreover have "34 - i \<le> k"
        using * k by (simp add: bit_and_iff bit_not_iff bit_mask_iff shl_1_minus_1 split: if_splits)
      ultimately show "bit D (i + k)" using high [of "i + k"] by simp
    qed
    moreover have "bit D (i + n) = bit D (i + k)"
      using high [of "i + n"] high [of "i + 34"] by (cases "n \<le> 34") (simp_all add: k_def min_def)
    ultimately have "bit (sar i (GetLongAccumulator State) OR ?llk) k \<longleftrightarrow> bit D (i + n)"
      by (simp only: bit_or_iff) blast
    then have "bit (sint (sar i (GetLongAccumulator State) OR ?llk)) k \<longleftrightarrow> bit D (i + n)"
      using k by (simp only: bit_sint_iff) simp
    then show "bit (signed_take_bit 34 (sint (sar i (GetLongAccumulator State) OR ?llk))) n =
        bit (drop_bit i D) n"
      by (simp only: bit_signed_take_bit_iff bit_drop_bit_eq k_def [symmetric] possible_bit_int simp_thms o_apply)
  qed
qed

lemma lost_bits_Accumulator:
  assumes "word18 (Accumulator State)" "i \<le> 17"
  defines "k \<equiv> if 17 \<le> i then 0x1FFFF else 0x1FFFF AND NOT (sar i 0x20000 - 1) :: cint"
  shows "(0 = Accumulator State AND 0x20000 \<and> Accumulator State AND k \<noteq> 0 \<or>
      0 \<noteq> Accumulator State AND 0x20000 \<and> Accumulator State AND k \<noteq> k) \<longleftrightarrow>
    \<not> (- (2 ^ 17) \<le> ags_value (Accumulator State) * 2 ^ i \<and>
       ags_value (Accumulator State) * 2 ^ i < 2 ^ 17)"
proof -
  have "sar i 0x20000 = (2 ^ (17 - i) :: cint)"
    using assms(2) by (intro bit_word_eqI) (auto simp: bit_sar bit_exp_iff mask_bits)
  then have "sar i 0x20000 - 1 = (mask (17 - i) :: cint)"
    by (simp add: mask_eq_exp_minus_1)
  then have "k = mask 17 AND NOT (mask (17 - i))"
    using assms(2) unfolding k_def ags_masks by (cases "i = 17") simp_all
  then have K: "bit k n \<longleftrightarrow> 17 - i \<le> n \<and> n < 17" for n
    by (auto simp: bit_and_iff bit_not_iff bit_mask_iff)
  have L: "bit (Accumulator State) n = bit (ags_value (Accumulator State)) n" if "n < 17" for n
    using that by (simp add: ags_value_def bit_signed_take_bit_iff bit_uint_iff min_def)
  have S: "bit (Accumulator State) 17 = bit (ags_value (Accumulator State)) 17"
    by (simp add: ags_value_def bit_signed_take_bit_iff bit_uint_iff)
  show ?thesis
    using lost_bits [OF K assms(2) _ _ L] ags_value_bounds [of "Accumulator State"]
    by (simp only: eq_commute [of 0] sign_bit not_not S) simp
qed

lemma ALS_multiplies:
  assumes "word18 (Accumulator State)" "i \<le> 31"
  defines "a \<equiv> ags_value (Accumulator State)"
  shows "ags_value (Accumulator (ags_ALS i State)) = signed_take_bit 17 (a * 2 ^ i)"
    and "Overflow (ags_ALS i State) =
      (if - (2 ^ 17) \<le> a * 2 ^ min i 17 \<and> a * 2 ^ min i 17 < 2 ^ 17 then Overflow State else 1)"
proof -
  have "Accumulator (ags_ALS i State) = shl i (Accumulator State) AND 0x3FFFF"
    by (simp add: ags_ALS_def Let_def)
  moreover have "signed_take_bit 17 (sint (shl i (Accumulator State))) = signed_take_bit 17 (a * 2 ^ i)"
    unfolding push_bit_eq_mult [symmetric]
  proof (rule bit_eqI)
    fix n
    define k :: nat where "k = min 17 n"
    have k: "k < 32" "k \<le> 17" "k - i \<le> 17" by (auto simp: k_def)
    then have "bit (sint (shl i (Accumulator State))) k \<longleftrightarrow> i \<le> k \<and> bit a (k - i)"
      by (simp add: bit_sint_iff bit_shl a_def ags_value_def bit_signed_take_bit_iff bit_uint_iff min_def)
    then show "bit (signed_take_bit 17 (sint (shl i (Accumulator State)))) n =
        bit (signed_take_bit 17 (push_bit i a)) n"
      by (simp only: bit_signed_take_bit_iff bit_push_bit_iff k_def [symmetric] possible_bit_int simp_thms)
  qed
  ultimately show "ags_value (Accumulator (ags_ALS i State)) = signed_take_bit 17 (a * 2 ^ i)"
    by (simp only: ags_value_and)
  show "Overflow (ags_ALS i State) =
      (if - (2 ^ 17) \<le> a * 2 ^ min i 17 \<and> a * 2 ^ min i 17 < 2 ^ 17 then Overflow State else 1)"
  proof (cases "i \<le> 17")
    case True
    then show ?thesis
      using lost_bits_Accumulator [OF assms(1), of i] ags_value_bounds [of "Accumulator State"]
      unfolding ags_ALS_def Let_def a_def
      by (cases "i = 0") (simp_all only: if_True if_False min.absorb1, simp_all)
  next
    case False
    then have "17 \<le> i" "i \<noteq> 0" by simp_all
    then show ?thesis
      using lost_bits_Accumulator [OF assms(1), of 17]
      unfolding ags_ALS_def Let_def a_def
      by (simp_all only: if_True if_False min.absorb2 order_refl simp_thms, simp_all)
  qed
qed

lemma shift_frame:
  "\<exists>A Q V. ags_LLS i State = State\<lparr>Accumulator := A, Quotient := Q, Overflow := V\<rparr>"
  "\<exists>A Q. ags_LRS i State = State\<lparr>Accumulator := A, Quotient := Q\<rparr>"
  "\<exists>A V. ags_ALS i State = State\<lparr>Accumulator := A, Overflow := V\<rparr>"
proof -
  show "\<exists>A Q V. ags_LLS i State = State\<lparr>Accumulator := A, Quotient := Q, Overflow := V\<rparr>"
    unfolding ags_LLS_def PutLongAccumulator_def Let_def by (cases State) auto
  show "\<exists>A Q. ags_LRS i State = State\<lparr>Accumulator := A, Quotient := Q\<rparr>"
    unfolding ags_LRS_def PutLongAccumulator_def Let_def by (cases State) auto
  show "\<exists>A V. ags_ALS i State = State\<lparr>Accumulator := A, Overflow := V\<rparr>"
    unfolding ags_ALS_def Let_def by (cases State) auto
qed

text \<open>The shifts by \<open>i\<close> places: LLS multiplies the 35-bit number in the accumulator and the
  quotient register by \<open>2 ^ i\<close> and ALS the accumulator, modulo their size; LRS divides by \<open>2 ^ i\<close>,
  rounding down.  The overflow flag is set exactly when the product does not fit and nothing else
  changes; but ALS by more than 17 places sets it as ALS by 17 places does, which misses the
  overflow of the number \<open>-1\<close>.\<close>

theorem AGS_shifts:
  assumes "word18 (Accumulator State)" "i \<le> 31"
  shows "let a = ags_value (Accumulator State); D = DoubleWord State;
      flag = (\<lambda>n k. if - (2 ^ n) \<le> k \<and> k < 2 ^ n then Overflow State else 1)
    in (\<exists>A Q. ags_LLS i State = State\<lparr>Accumulator := A, Quotient := Q, Overflow := flag 34 (D * 2 ^ i)\<rparr>) \<and>
       DoubleWord (ags_LLS i State) = signed_take_bit 34 (D * 2 ^ i) \<and>
       (\<exists>A Q. ags_LRS i State = State\<lparr>Accumulator := A, Quotient := Q\<rparr>) \<and>
       DoubleWord (ags_LRS i State) = D div 2 ^ i \<and>
       (\<exists>A V. ags_ALS i State = State\<lparr>Accumulator := A, Overflow := V\<rparr> \<and>
         ags_value A = signed_take_bit 17 (a * 2 ^ i) \<and>
         V = flag 17 (a * 2 ^ min i 17))"
proof -
  obtain A Q V where L: "ags_LLS i State = State\<lparr>Accumulator := A, Quotient := Q, Overflow := V\<rparr>"
    using shift_frame(1) by blast
  obtain A' V' where S: "ags_ALS i State = State\<lparr>Accumulator := A', Overflow := V'\<rparr>"
    using shift_frame(3) by blast
  have V: "Overflow (ags_LLS i State) = V" and V': "Overflow (ags_ALS i State) = V'"
    and A': "Accumulator (ags_ALS i State) = A'"
    by (simp_all add: L S)
  show ?thesis
    unfolding Let_def
    using long_shifts [OF assms, unfolded V] ALS_multiplies [OF assms, unfolded V' A']
      shift_frame(2) [of i State] L S
    by blast
qed

lemma AGS_shifts_witness:
  "ags_value (Accumulator (ags_ALS 17 (ags_start\<lparr>Accumulator := 0x3FFFF\<rparr>))) = - (2 ^ 17) \<and>
   DoubleWord (ags_LRS 17 (ags_start\<lparr>Accumulator := 0x3FFFF\<rparr>)) = - 1"
  using AGS_shifts [of "ags_start\<lparr>Accumulator := 0x3FFFF\<rparr>" 17]
  by (auto simp: ags_value_top DoubleWord_def ags_start_def ags_zero_def ags_t.defs)

end
