(* ===== verification/AGS_Init.thy ===== *)
theory AGS_Init
  imports AGS_Engine
begin

text \<open>
  Initialisation of yaAGS: \<open>aea_engine_init\<close> and \<open>MakeCoreDumpAGS\<close> of
  \<open>src/yaAGS/aea_engine_init.c\<close>.  A file that can be opened is the list of its bytes; a core
  dump is the list of the octal numbers that \<open>fprintf\<close> writes and \<open>fscanf\<close> reads.
\<close>

unbundle bit_operations_syntax

section \<open>The image\<close>

fun ImageWords :: "u8 list \<Rightarrow> cint list" where
  "ImageWords (a # b # c # d # bs) =
     ((ucast a + shl 8 (ucast b) + shl 16 (ucast c)) AND 0x3FFFF) # ImageWords bs"
| "ImageWords _ = []"

definition LoadImage :: "u8 list \<Rightarrow> ags \<Rightarrow> ags" where
  "LoadImage bytes State =
     State\<lparr>Memory := (\<lambda>a. if a < length (ImageWords bytes) then ImageWords bytes ! a
                            else Memory State a)\<rparr>"

section \<open>Core dumps\<close>

definition MakeCoreDumpAGS :: "ags \<Rightarrow> nat list" where
  "MakeCoreDumpAGS State =
     map (\<lambda>i. unat (InputPorts State i)) [0..<NUM_IO] @
     map (\<lambda>i. unat (OutputPorts State i)) [0..<NUM_IO] @
     map (\<lambda>i. unat (Memory State i)) [0..<NUM_IO] @
     [unat (CycleCounter State), unat (ProgramCounter State), unat (Accumulator State),
      unat (Quotient State), unat (Index State), unat (Overflow State)]"

text \<open>What each number read sets.\<close>

definition LoadPorts :: "(nat \<Rightarrow> ags \<Rightarrow> ags) list" where
  "LoadPorts =
     map (\<lambda>i n. set_in i (of_nat n AND 0x3FFFF)) [0..<NUM_IO] @
     map (\<lambda>i n. set_out i (of_nat n AND 0x3FFFF)) [0..<NUM_IO]"

definition LoadMemory :: "(nat \<Rightarrow> ags \<Rightarrow> ags) list" where
  "LoadMemory = map (\<lambda>i n. set_mem i (of_nat n AND 0x3FFFF)) [0..<2048]"

definition LoadRegisters :: "(nat \<Rightarrow> ags \<Rightarrow> ags) list" where
  "LoadRegisters =
     [\<lambda>n State. State\<lparr>CycleCounter := of_nat n\<rparr>,
      \<lambda>n State. State\<lparr>ProgramCounter := of_nat n\<rparr>,
      \<lambda>n State. State\<lparr>Accumulator := of_nat n\<rparr>,
      \<lambda>n State. State\<lparr>Quotient := of_nat n\<rparr>,
      \<lambda>n State. State\<lparr>Index := of_nat n\<rparr>,
      \<lambda>n State. State\<lparr>Overflow := of_nat n\<rparr>]"

text \<open>Reading stops at the end of the numbers with result 5.\<close>

fun LoadNumbers :: "(nat \<Rightarrow> ags \<Rightarrow> ags) list \<Rightarrow> nat list \<Rightarrow> ags \<Rightarrow> int \<times> ags" where
  "LoadNumbers [] _ State = (0, State)"
| "LoadNumbers (f # fs) [] State = (5, State)"
| "LoadNumbers (f # fs) (n # ns) State = LoadNumbers fs ns (f n State)"

definition LoadCoreDumpAGS :: "nat list \<Rightarrow> ags \<Rightarrow> int \<times> ags" where
  "LoadCoreDumpAGS = LoadNumbers (LoadPorts @ LoadMemory @ LoadRegisters)"

section \<open>Reset\<close>

definition ResetAGS :: "ags \<Rightarrow> ags" where
  "ResetAGS State =
     (let i = sar 12 (Memory State 0xC00) AND 0x3E
      in State\<lparr>InputPorts := (\<lambda>i. if i = IO_2020 \<or> i = IO_2040 then 0x3FFFF
             else if i < NUM_IO then 0 else InputPorts State i),
           OutputPorts := (\<lambda>i. if i = IO_ODISCRETES then 0x3FFFF
             else if i < NUM_IO then 0 else OutputPorts State i),
           CycleCounter := 0, Next20msSignal := AEA_PER_SECOND div 50,
           ProgramCounter := (if i = 0x20 \<or> i = 0x3A \<or> i = 0x38 then 0xC00 else 1),
           Accumulator := 0, Quotient := 0, Index := 0, Overflow := 0\<rparr>)"

definition aea_engine_init :: "u8 list option \<Rightarrow> nat list option option \<Rightarrow> ags \<Rightarrow> int \<times> ags" where
  "aea_engine_init RomImage CoreDump State =
     (case RomImage of
        None \<Rightarrow> (1, State)
      | Some bytes \<Rightarrow>
          let n = length bytes
          in if n mod 4 \<noteq> 0 then (3, State)
             else if 0x1000 < n div 4 then (2, State)
             else
               let State = ResetAGS (LoadImage bytes State)
               in case CoreDump of
                    None \<Rightarrow> (0, State)
                  | Some None \<Rightarrow> (6, State)
                  | Some (Some numbers) \<Rightarrow> LoadCoreDumpAGS numbers State)"

end
