(* ===== verification/AGS_Invariant.thy ===== *)
theory AGS_Invariant
  imports AGS_Arith AGS_Init
begin

text \<open>
  The invariant of the running abort guidance computer: registers, memory and ports hold 18-bit
  words, the program counter and the index register stay within their width, and the counts that
  index the arrays of the emulator within their arrays.  It holds after a reset and is preserved by every call of
  \<open>aea_engine\<close>, whatever the peripherals send.
\<close>

unbundle bit_operations_syntax

section \<open>The invariant\<close>

definition words_ok :: "nat \<Rightarrow> (nat \<Rightarrow> cint) \<Rightarrow> bool" where
  "words_ok n c \<longleftrightarrow> (\<forall>k. word18 (c k)) \<and> (\<forall>k\<ge>n. c k = 0)"

definition aea_ok :: "'a ags_t_scheme \<Rightarrow> bool" where
  "aea_ok State \<longleftrightarrow>
     word18 (Accumulator State) \<and> word18 (Quotient State) \<and> uint (Index State) < 8 \<and>
     uint (ProgramCounter State) < 4096 \<and> Overflow State \<in> {0, 1} \<and> Halt State \<in> {0, 1} \<and>
     words_ok 4096 (Memory State) \<and> words_ok NUM_IO (OutputPorts State) \<and>
     words_ok NUM_IO (InputPorts State)"

definition deda_ok :: "ags \<Rightarrow> bool" where
  "deda_ok State \<longleftrightarrow>
     DedaBufferWanted State \<in> {0, 3, 9} \<and>
     0 \<le> sint (DedaBufferCount State) \<and> sint (DedaBufferCount State) \<le> sint (DedaBufferWanted State) \<and>
     words_ok 9 (DedaBuffer State) \<and>
     word18 (DedaBufferDefault State)"

definition traces_ok :: "ags \<Rightarrow> bool" where
  "traces_ok State \<longleftrightarrow>
     0 \<le> sint (NumBacktracesAGS State) \<and> sint (NumBacktracesAGS State) \<le> 50 \<and>
     - 1 \<le> sint (LatestBacktraceAGS State) \<and> sint (LatestBacktraceAGS State) < 50 \<and>
     (NumBacktracesAGS State \<noteq> 0 \<longrightarrow> 0 \<le> sint (LatestBacktraceAGS State)) \<and>
     (\<forall>n. aea_ok (BacktracesAGS State n)) \<and> (\<forall>n\<ge>50. BacktracesAGS State n = ags_zero)"

definition ags_ok :: "ags \<Rightarrow> bool" where
  "ags_ok State \<longleftrightarrow>
     aea_ok State \<and> deda_ok State \<and> traces_ok State \<and> (\<forall>i. Size (Clients State i) < 4)"

lemma aea_ok_parts [simp]:
  "aea_ok (ags_t.truncate State) = aea_ok State" "aea_ok (ags_t.extend T m) = aea_ok T"
  by (simp_all add: aea_ok_def ags_t.defs)

section \<open>Words of 18 bits\<close>

lemma word18_ops [simp]:
  "word18 v \<Longrightarrow> word18 (v AND w)" "word18 w \<Longrightarrow> word18 (v AND w)"
  "word18 v \<Longrightarrow> word18 w \<Longrightarrow> word18 (v OR w)"
  by (simp_all only: word18_bits) (auto simp: bit_and_iff bit_or_iff)

lemma word18_PutLong_fields [simp]: "word18 (ucast (lli AND 0x1FFFF :: u64))"
  by (simp only: word18_bits) (auto simp: bit_simps mask_bits)

section \<open>Assignments\<close>

lemma ags_ok_frame [simp]:
  "ags_ok (S\<lparr>CycleCounter := x0\<rparr>) = ags_ok S"
  "ags_ok (S\<lparr>Next20msSignal := x1\<rparr>) = ags_ok S"
  "ags_ok (S\<lparr>DebugModeAGS := x2\<rparr>) = ags_ok S"
  "ags_ok (S\<lparr>DedaBufferReadout := x3\<rparr>) = ags_ok S"
  "ags_ok (S\<lparr>Count := x4\<rparr>) = ags_ok S"
  "ags_ok (S\<lparr>SocketInterlace := x5\<rparr>) = ags_ok S"
  "ags_ok (S\<lparr>SocketInterlaceReload := x6\<rparr>) = ags_ok S"
  "ags_ok (S\<lparr>Sent := x7\<rparr>) = ags_ok S"
  by (simp_all add: ags_ok_def aea_ok_def deda_ok_def traces_ok_def)

lemma ags_ok_set [simp]:
  assumes "ags_ok State"
  shows "ags_ok (State\<lparr>Accumulator := v\<rparr>) = word18 v"
    and "ags_ok (State\<lparr>Quotient := v\<rparr>) = word18 v"
    and "ags_ok (State\<lparr>Index := v\<rparr>) = (uint v < 8)"
    and "ags_ok (State\<lparr>ProgramCounter := v\<rparr>) = (uint v < 4096)"
    and "ags_ok (State\<lparr>Overflow := v\<rparr>) = (v \<in> {0, 1})"
    and "ags_ok (State\<lparr>Halt := v\<rparr>) = (v \<in> {0, 1})"
  using assms by (simp_all add: ags_ok_def aea_ok_def deda_ok_def traces_ok_def)

lemma ags_ok_cells [simp]:
  assumes "ags_ok State"
  shows "ags_ok (State\<lparr>Memory := m\<rparr>) = words_ok 4096 m"
    and "ags_ok (State\<lparr>OutputPorts := p\<rparr>) = words_ok NUM_IO p"
    and "ags_ok (State\<lparr>InputPorts := p\<rparr>) = words_ok NUM_IO p"
  using assms unfolding ags_ok_def aea_ok_def deda_ok_def traces_ok_def by simp_all

lemma ResetDedaBuffer_ok [simp]: "ags_ok State \<Longrightarrow> ags_ok (ResetDedaBuffer State)"
  by (simp add: ResetDedaBuffer_def ags_ok_def aea_ok_def deda_ok_def traces_ok_def)

lemma DedaBufferDefault_ok [simp]:
  "ags_ok State \<Longrightarrow> ags_ok (State\<lparr>DedaBufferDefault := v\<rparr>) = word18 v"
  by (simp add: ags_ok_def aea_ok_def deda_ok_def traces_ok_def)

lemma words_ok_upd [simp]: "words_ok n c \<Longrightarrow> k < n \<Longrightarrow> words_ok n (c(k := v)) = word18 v"
  by (auto simp: words_ok_def)

lemma words_okD [simp]: "words_ok n c \<Longrightarrow> word18 (c k)"
  by (simp add: words_ok_def)

lemma ags_okD [simp]:
  assumes "ags_ok State"
  shows "word18 (Accumulator State)" "word18 (Quotient State)" "words_ok 4096 (Memory State)"
    and "words_ok NUM_IO (OutputPorts State)" "words_ok NUM_IO (InputPorts State)"
    and "uint (Index State) < 8" "uint (ProgramCounter State) < 4096"
    and "words_ok 9 (DedaBuffer State)" "word18 (DedaBufferDefault State)" "Size (Clients State i) < 4"
  using assms unfolding ags_ok_def aea_ok_def deda_ok_def by simp_all

lemma ags_ok_words [simp]:
  assumes "ags_ok State"
  shows "word18 (Memory State a)" "word18 (OutputPorts State k)" "word18 (InputPorts State k)"
    and "word18 (DedaBuffer State k)"
  using ags_okD(3-5,8) [OF assms] words_okD by blast+

section \<open>Input and output\<close>

lemma OneRaw_ok [simp]: "ags_ok State \<Longrightarrow> ags_ok (OneRawChannelOutputAGS p i State)"
  by (simp add: OneRawChannelOutputAGS_def)

lemma OneChannelOutputAGS_ok [simp]: "ags_ok State \<Longrightarrow> ags_ok (OneChannelOutputAGS i t d State)"
  by (simp add: OneChannelOutputAGS_def split: option.split)

lemma fold_ok: "(\<And>x S. x \<in> set xs \<Longrightarrow> ags_ok S \<Longrightarrow> ags_ok (f x S)) \<Longrightarrow> ags_ok State \<Longrightarrow> ags_ok (fold f xs State)"
  by (induction xs arbitrary: State) auto

lemma ChannelOutputAGS_ok [simp]: "ags_ok State \<Longrightarrow> ags_ok (ChannelOutputAGS t d State)"
  by (auto simp: ChannelOutputAGS_def intro: fold_ok split: option.split)

lemma OutputPort_ok:
  assumes "ags_ok State" "word18 n" "word18 v"
  shows "word18 (fst (OutputPort f v m (n, State))) \<and> ags_ok (snd (OutputPort f v m (n, State)))"
proof -
  have "word18 (shl 13 (v AND 0xF))"
    by (simp only: word18_bits) (auto simp: bit_and_iff bit_shl mask_bits)
  then show ?thesis
    using assms unfolding OutputPort_def Let_def by (simp del: fst_conv snd_conv) (simp add: Let_def)
qed

lemma OutputPorts_ok:
  "ags_ok State \<Longrightarrow> word18 n \<Longrightarrow> word18 v \<Longrightarrow>
   word18 (fst (fold (OutputPort f v) ms (n, State))) \<and> ags_ok (snd (fold (OutputPort f v) ms (n, State)))"
proof (induction ms arbitrary: n State)
  case (Cons m ms)
  then show ?case
    using OutputPort_ok [of State n v f m] by (cases "OutputPort f v m (n, State)") simp
qed simp

lemma Output_ok [simp]:
  assumes "ags_ok State" "word18 v"
  shows "ags_ok (Output f v State)"
proof -
  obtain n S where p: "fold (OutputPort f v) [1, 2, 4, 0x8, 0x10, 0x20, 0x40, 0x80]
      (OutputPorts State IO_ODISCRETES, State) = (n, S)"
    by fastforce
  have "word18 n" "ags_ok S"
    using OutputPorts_ok [of State "OutputPorts State IO_ODISCRETES" v f
        "[1, 2, 4, 0x8, 0x10, 0x20, 0x40, 0x80]"] assms
    by (simp_all only: p fst_conv snd_conv ags_ok_words)
  then show ?thesis unfolding Output_def p by simp
qed

text \<open>The buffer of the DEDA.\<close>

lemma FetchDedaShift_ok:
  assumes "ags_ok State"
  shows "\<exists>v S. FetchDedaShift State = Some (v, S) \<and> word18 v \<and> ags_ok S"
proof -
  have "0 \<le>s DedaBufferReadout State" "DedaBufferReadout State <s 9"
    if "\<not> DedaBufferWanted State \<le>s DedaBufferReadout State" "\<not> DedaBufferReadout State <s 0"
  proof -
    have "sint (DedaBufferWanted State) \<le> 9"
      using assms unfolding ags_ok_def deda_ok_def by auto
    with that show "0 \<le>s DedaBufferReadout State" "DedaBufferReadout State <s 9"
      by (auto simp: word_sless_alt word_sle_eq)
  qed
  then have read: "ReadDedaBuffer (DedaBufferReadout State) State =
      Some (DedaBuffer State (unat (DedaBufferReadout State)))"
    if "\<not> DedaBufferWanted State \<le>s DedaBufferReadout State" "\<not> DedaBufferReadout State <s 0"
    using that by (simp add: ReadDedaBuffer_def)
  obtain S where "FetchDedaShift State = Some (DedaBufferDefault S, S)" "ags_ok S"
  proof (cases "DedaBufferWanted State = 0 \<or> DedaBufferCount State <s DedaBufferWanted State \<or>
           DedaBufferWanted State \<le>s DedaBufferReadout State \<or> DedaBufferReadout State <s 0")
    case True
    then show ?thesis
      using that [of "ResetDedaBuffer State"] assms by (simp only: FetchDedaShift_def if_True) simp
  next
    case False
    with read have r: "ReadDedaBuffer (DedaBufferReadout State) State =
      Some (DedaBuffer State (unat (DedaBufferReadout State)))" by blast
    let ?T = "State\<lparr>DedaBufferDefault := DedaBuffer State (unat (DedaBufferReadout State))\<rparr>"
    let ?U = "if DedaBufferReadout ?T + 1 = DedaBufferWanted ?T then ResetDedaBuffer ?T else ?T"
    have "ags_ok ?U" using assms by simp
    then show ?thesis
      using that [of "if DedaBufferWanted ?U = 3 then set_in IO_2040 (InputPorts ?U IO_2040 OR 0x400) ?U
        else if DedaBufferWanted ?U = 9 then set_in IO_2040 (InputPorts ?U IO_2040 OR 0x800) ?U else ?U"]
      by (simp only: FetchDedaShift_def False r if_False Let_def option.case option.map) simp
  qed
  then show ?thesis by auto
qed

section \<open>Instructions for input\<close>

lemma InputPort_ok:
  assumes "ags_ok State" "word18 v" "b \<in> {IO_2001, IO_6001}" "i < 8"
  shows "\<exists>w S. InputPort b f i (v, State) = Some (w, S) \<and> word18 w \<and> ags_ok S"
proof -
  obtain w S where "FetchDedaShift State = Some (w, S)" "ags_ok S" "word18 w"
    using FetchDedaShift_ok [OF assms(1)] by blast
  then show ?thesis
    using assms by (auto simp: InputPort_def Let_def)
qed

lemma InputPortLoop_ok:
  "ags_ok State \<Longrightarrow> word18 v \<Longrightarrow> b \<in> {IO_2001, IO_6001} \<Longrightarrow> \<forall>i \<in> set is. i < 8 \<Longrightarrow>
   \<exists>w S. InputPortLoop b f is (v, State) = Some (w, S) \<and> word18 w \<and> ags_ok S"
proof (induction "is" arbitrary: v State)
  case (Cons i "is")
  then obtain w S where "InputPort b f i (v, State) = Some (w, S)" "word18 w" "ags_ok S"
    using InputPort_ok [of State v b i f] by auto
  then show ?case using Cons.IH [of S w] Cons.prems by simp
qed simp

lemma Input_ok:
  assumes "ags_ok State"
  shows "\<exists>m S. Input f State = Some (m, S) \<and> ags_ok S"
proof -
  have p: "\<exists>w S. InputPortLoop b f [0..<8] (0, State) = Some (w, S) \<and> word18 w \<and> ags_ok S"
    if "b \<in> {IO_2001, IO_6001}" for b
    using assms that by (intro InputPortLoop_ok) simp_all
  show ?thesis
    using p [of IO_2001] p [of IO_6001] assms
    by (auto simp: Input_def Let_def simp del: upt_rec_numeral One_nat_def)
qed

section \<open>Packets\<close>

lemma ParseIoPacketAGS_word18: "ParseIoPacketAGS p = Some (t, d) \<Longrightarrow> word18 d"
  by (simp only: word18_bits) (auto simp: ParseIoPacketAGS_def bit_or_iff bit_shl bit_and_iff mask_bits
    split: prod.splits if_splits)

lemma DiscreteInput_ok:
  "ags_ok State \<Longrightarrow> word18 d \<Longrightarrow> t = 4 \<or> t = 5 \<Longrightarrow> ags_ok (DiscreteInput t d State)"
  by (auto simp: DiscreteInput_def Let_def)

lemma RequestDeda_ok [simp]: "ags_ok State \<Longrightarrow> ags_ok (RequestDeda i State)"
  by (simp add: RequestDeda_def)

lemma collect_ok:
  "ags_ok State \<Longrightarrow> w \<in> {3, 9} \<Longrightarrow> ags_ok (State\<lparr>DedaBufferCount := 0, DedaBufferWanted := w\<rparr>)"
  unfolding ags_ok_def aea_ok_def deda_ok_def traces_ok_def by auto

lemma DedaKeys_ok:
  "ags_ok State \<Longrightarrow> word18 d \<Longrightarrow> ags_ok (snd (DedaKeys i d State)) \<and> word18 (fst (DedaKeys i d State))"
  by (simp add: DedaKeys_def collect_ok)

lemma count_step:
  assumes "ags_ok State" "DedaBufferCount State <s DedaBufferWanted State"
  shows "unat (DedaBufferCount State) < 9"
    and "word18 v \<Longrightarrow> ags_ok (State\<lparr>DedaBuffer := (DedaBuffer State)(unat (DedaBufferCount State) := v),
      DedaBufferCount := DedaBufferCount State + 1\<rparr>)"
proof -
  have c: "0 \<le> sint (DedaBufferCount State)" "sint (DedaBufferCount State) < sint (DedaBufferWanted State)"
    "sint (DedaBufferWanted State) \<le> 9"
    using assms unfolding ags_ok_def deda_ok_def by (auto simp: word_sless_alt)
  then have u: "uint (DedaBufferCount State) = sint (DedaBufferCount State)"
    by (intro uint_of_nonneg)
  then show n: "unat (DedaBufferCount State) < 9"
    using c by (intro unat_ltI) simp
  have s: "sint (DedaBufferCount State + 1) = sint (DedaBufferCount State) + 1"
    using c by (subst sint_plus_small) simp_all
  assume "word18 v"
  then show "ags_ok (State\<lparr>DedaBuffer := (DedaBuffer State)(unat (DedaBufferCount State) := v),
      DedaBufferCount := DedaBufferCount State + 1\<rparr>)"
    using assms(1) n c unfolding ags_ok_def aea_ok_def deda_ok_def traces_ok_def
    by (simp add: s)
qed

lemma DedaNibble_ok [simp]:
  assumes "ags_ok State"
  shows "ags_ok (DedaNibble i d State)"
  using count_step(2) [OF assms, of "d AND 0x1E000"]
  by (simp add: DedaNibble_def Let_def assms)

lemma InputPacketAGS_ok:
  assumes "ags_ok State" "word18 d"
  shows "ags_ok (InputPacketAGS i t d State)"
  using assms DedaKeys_ok [OF assms, of i]
  by (auto simp: InputPacketAGS_def Let_def DiscreteInput_ok split: prod.split)

lemma ReceiveClient_ok [simp]:
  assumes "ags_ok State"
  shows "ags_ok (ReceiveClient i State)"
proof -
  have c: "ags_ok (State\<lparr>Clients := (Clients State)(i := c)\<rparr>)" if "Size c < 4" for c
    using assms that unfolding ags_ok_def aea_ok_def deda_ok_def traces_ok_def by simp
  show ?thesis
    unfolding ReceiveClient_def Let_def
    by (auto simp: assms c intro!: InputPacketAGS_ok dest: ParseIoPacketAGS_word18 split: prod.split option.split)
qed

lemma ChannelInputAGS_ok [simp]: "ags_ok State \<Longrightarrow> ags_ok (ChannelInputAGS State)"
  by (auto simp: ChannelInputAGS_def intro: fold_ok)

section \<open>Backtraces\<close>

lemma ags_ok_aea: "ags_ok State \<Longrightarrow> aea_ok State"
  unfolding ags_ok_def by blast

lemma traces_okD:
  assumes "ags_ok State"
  shows "0 \<le> sint (NumBacktracesAGS State)" "sint (NumBacktracesAGS State) \<le> 50"
    and "- 1 \<le> sint (LatestBacktraceAGS State)" "sint (LatestBacktraceAGS State) < 50"
    and "aea_ok (BacktracesAGS State n)" "50 \<le> n \<Longrightarrow> BacktracesAGS State n = ags_zero"
    and "NumBacktracesAGS State \<noteq> 0 \<Longrightarrow> 0 \<le> sint (LatestBacktraceAGS State)"
  using assms unfolding ags_ok_def traces_ok_def by blast+

lemma sless_50: "v <s 50 \<longleftrightarrow> sint (v :: cint) < 50" "50 \<le>s v \<longleftrightarrow> 50 \<le> sint v"
  by (simp_all add: word_sless_alt word_sle_eq)

lemma set_traces_ok:
  assumes "ags_ok State" "0 \<le> sint n" "sint n \<le> 50" "- 1 \<le> sint l" "sint l < 50"
    and "n \<noteq> 0 \<Longrightarrow> 0 \<le> sint l" "\<And>k. aea_ok (b k)" "\<And>k. 50 \<le> k \<Longrightarrow> b k = ags_zero"
  shows "ags_ok (State\<lparr>LatestBacktraceAGS := l, NumBacktracesAGS := n, BacktracesAGS := b\<rparr>)"
  using assms unfolding ags_ok_def aea_ok_def deda_ok_def traces_ok_def by simp

lemma set_counts_ok:
  assumes "ags_ok State" "0 \<le> sint n" "sint n \<le> 50" "0 \<le> sint l" "sint l < 50"
  shows "ags_ok (State\<lparr>NumBacktracesAGS := n, LatestBacktraceAGS := l\<rparr>)"
  using assms unfolding ags_ok_def aea_ok_def deda_ok_def traces_ok_def by simp

definition NextTrace :: "cint \<Rightarrow> cint" where
  "NextTrace l = (if MAX_AGS_BACKTRACES \<le>s l + 1 then 0 else l + 1)"

lemma AddBacktraceAGS_eq:
  "AddBacktraceAGS State =
     (if \<not> DebugModeAGS State then State
      else State\<lparr>LatestBacktraceAGS := NextTrace (LatestBacktraceAGS State),
        NumBacktracesAGS := (if NumBacktracesAGS State <s MAX_AGS_BACKTRACES
          then NumBacktracesAGS State + 1 else NumBacktracesAGS State),
        BacktracesAGS := (BacktracesAGS State)(unat (NextTrace (LatestBacktraceAGS State)) := ags_t.truncate State)\<rparr>)"
  by (simp add: AddBacktraceAGS_def NextTrace_def Let_def ags_t.defs)

lemma AddBacktraceAGS_ok [simp]:
  assumes "ags_ok State"
  shows "ags_ok (AddBacktraceAGS State)"
proof -
  let ?l = "LatestBacktraceAGS State" and ?n = "NumBacktracesAGS State"
  note t = traces_okD [OF assms]
  have l: "sint (?l + 1) = sint ?l + 1" and n: "sint (?n + 1) = sint ?n + 1"
    using t by (auto simp: sint_plus_small)
  have N: "0 \<le> sint (NextTrace ?l)" "sint (NextTrace ?l) < 50"
    using t by (auto simp: NextTrace_def sless_50 l)
  then have u: "unat (NextTrace ?l) < 50"
    using uint_of_nonneg [of "NextTrace ?l"] by (intro unat_ltI) simp
  show ?thesis
  proof (cases "DebugModeAGS State")
    case True
    have "ags_ok (State\<lparr>LatestBacktraceAGS := NextTrace ?l,
        NumBacktracesAGS := (if ?n <s MAX_AGS_BACKTRACES then ?n + 1 else ?n),
        BacktracesAGS := (BacktracesAGS State)(unat (NextTrace ?l) := ags_t.truncate State)\<rparr>)"
      using t N u n by (intro set_traces_ok [OF assms]) (auto simp: sless_50 ags_ok_aea [OF assms])
    then show ?thesis using True by (simp only: AddBacktraceAGS_eq if_False not_True_eq_False)
  qed (simp add: AddBacktraceAGS_def assms)
qed

lemma AddBacktraceAGS_Index [simp]: "Index (AddBacktraceAGS State) = Index State"
  by (simp add: AddBacktraceAGS_eq)

section \<open>The processor\<close>

lemma ags_ADD_ok [simp]: "ags_ok State \<Longrightarrow> ags_ok (ags_ADD y State)"
  by (simp add: ags_ADD_def Let_def)

lemma ags_SUB_ok [simp]: "ags_ok State \<Longrightarrow> ags_ok (ags_SUB y State)"
  by (simp add: ags_SUB_def Let_def)

lemma word18_ucast_AND [simp]: "word18 (ucast (v AND 0x3FFFF :: u64))"
  by (simp only: word18_bits) (auto simp: bit_simps mask_bits)

lemma PutLong_ok [simp]: "ags_ok State \<Longrightarrow> ags_ok (PutLongAccumulator lli State)"
  by (simp add: PutLongAccumulator_def Let_def)

lemma word18_Suc: "word18 v \<Longrightarrow> v \<noteq> 0x3FFFF \<Longrightarrow> word18 (v + 1)"
proof -
  assume v: "word18 v" "v \<noteq> 0x3FFFF"
  then have "uint v \<noteq> 0x3FFFF" by (simp add: word_uint_eq_iff)
  moreover have "uint (v + 1) = uint v + 1" using v by (simp add: uint_word_ariths)
  ultimately show "word18 (v + 1)" using v(1) by simp
qed

lemma ags_MPY_ok [simp]: "ags_ok State \<Longrightarrow> ags_ok (ags_MPY r y State)"
  by (simp add: ags_MPY_def Let_def word18_Suc)

lemma ags_DVP_ok:
  assumes "ags_ok State" "ags_DVP y State = Some State'"
  shows "ags_ok State'"
proof -
  have "ags_ok (if b then S\<lparr>Overflow := 1\<rparr> else S)" if "ags_ok S" for b and S :: ags
    using that by simp
  with assms show ?thesis
    by (auto simp: ags_DVP_def ags_Divide_def Let_def split: if_splits option.splits)
qed

lemma shifts_ok [simp]:
  assumes "ags_ok State"
  shows "ags_ok (ags_LLS i State)" "ags_ok (ags_LRS i State)" "ags_ok (ags_ALS i State)"
  using assms by (simp_all add: ags_LLS_def ags_LRS_def ags_ALS_def Let_def)

lemma ags_ABS_ok [simp]:
  assumes "ags_ok State"
  shows "ags_ok (ags_ABS State)"
proof -
  let ?i = "SignExtendAGS (Accumulator State)"
  have "word18 (- ?i)" if "?i <s 0" "- 0x20000 <s ?i"
    using that uint_of_neg [of ?i] by (simp add: word_sless_alt)
  then show ?thesis using assms by (simp add: ags_ABS_def Let_def)
qed

lemma uint_and_7 [simp]: "uint (v AND 7 :: cint) < 8"
  using uint_and_low_mask(2) [of v 3] by (simp add: low_masks)

lemma word18_PC: "uint v < 4096 \<Longrightarrow> word18 (0x21000 OR v)"
  by (intro word18_ops) simp_all

lemma Index_step: "uint (v :: cint) < 8 \<Longrightarrow> v \<noteq> 0 \<Longrightarrow> uint (v - 1) < 8"
proof -
  assume v: "uint v < 8" "v \<noteq> 0"
  then have "uint v \<noteq> 0" by (simp add: word_uint_eq_iff)
  then have "1 \<le> uint v" using uint_ge_0 [of v] by linarith
  then show ?thesis using v by (simp add: uint_sub_if')
qed

lemma ExecuteAGS_ok:
  assumes "ags_ok State" "word18 y" "uint (NewProgramCounter r) < 4096"
    and "ExecuteAGS op f y (r, State) = Some (r', State')"
  shows "ags_ok State'"
  using assms(4) ags_DVP_ok [OF assms(1)] Input_ok [OF assms(1), of f] assms(1-3)
  by (auto simp: ExecuteAGS_def Let_def Index_step word18_PC split: if_splits)

lemma uint_and_FFF [simp]: "uint (v AND 0xFFF :: cint) < 4096"
  using uint_and_low_mask(2) [of v 12] by (simp add: low_masks)

lemma IndexMemory_bound: "uint (IndexMemory State b f) < 4096"
  unfolding IndexMemory_def by (rule uint_and_FFF)

lemma SpendTime_ok [simp]: "ags_ok (SpendTime m State) = ags_ok State"
  by (simp add: SpendTime_def)

lemma RunInstructionAGS_cases:
  assumes "RunInstructionAGS State = Some (m, State')"
  obtains i a r0 r S where
    "i = Memory State (unat (ProgramCounter State))"
    "a = IndexMemory State (0 \<noteq> i AND 0x1000) (i AND 0xFFF)"
    "NewProgramCounter r0 = (ProgramCounter State + 1) AND 0xFFF" "NewValueForY r0 = Memory State (unat a)"
    "ExecuteAGS (sar 12 i AND 0x3E) (i AND 0xFFF) (Memory State (unat a)) (r0, State) = Some (r, S)"
    "State' = SpendTime m
      ((if a <s 0x800 then set_mem (unat a) (NewValueForY r AND 0x3FFFF) S else S)
        \<lparr>ProgramCounter := NewProgramCounter r AND 0xFFF\<rparr>)"
proof -
  define i a where "i = Memory State (unat (ProgramCounter State))"
    and "a = IndexMemory State (0 \<noteq> i AND 0x1000) (i AND 0xFFF)"
  define r0 where "r0 = \<lparr>NewProgramCounter = (ProgramCounter State + 1) AND 0xFFF,
      NewValueForY = Memory State (unat a),
      MicrosecondsThisInstruction = InstructionTimingAGS ! unat (sar 1 (sar 12 i AND 0x3E))\<rparr>"
  obtain r S where "ExecuteAGS (sar 12 i AND 0x3E) (i AND 0xFFF) (Memory State (unat a)) (r0, State) = Some (r, S)"
    "m = MicrosecondsThisInstruction r"
    "State' = SpendTime (MicrosecondsThisInstruction r)
      ((if a <s 0x800 then set_mem (unat a) (NewValueForY r AND 0x3FFFF) S else S)
        \<lparr>ProgramCounter := NewProgramCounter r AND 0xFFF\<rparr>)"
    using assms unfolding RunInstructionAGS_def Let_def i_def [symmetric] a_def [symmetric] r0_def [symmetric]
    by (auto split: option.splits)
  then show ?thesis
    using that [OF i_def a_def, of r0 r S] by (simp add: r0_def)
qed

lemma RunInstructionAGS_ok:
  assumes "ags_ok State" "RunInstructionAGS State = Some (m, State')"
  shows "ags_ok State'"
  using assms(2)
proof (rule RunInstructionAGS_cases)
  fix i a r0 r S
  assume a: "a = IndexMemory State (0 \<noteq> i AND 0x1000) (i AND 0xFFF)"
    and r0: "NewProgramCounter r0 = (ProgramCounter State + 1) AND 0xFFF"
    and E: "ExecuteAGS (sar 12 i AND 0x3E) (i AND 0xFFF) (Memory State (unat a)) (r0, State) = Some (r, S)"
    and S': "State' = SpendTime m
      ((if a <s 0x800 then set_mem (unat a) (NewValueForY r AND 0x3FFFF) S else S)
        \<lparr>ProgramCounter := NewProgramCounter r AND 0xFFF\<rparr>)"
  have S: "ags_ok S"
    using ExecuteAGS_ok [OF assms(1) _ _ E] assms(1) by (simp add: r0)
  have "unat a < 4096"
    using IndexMemory_bound by (intro unat_ltI) (simp add: a)
  then show "ags_ok State'"
    unfolding S' using S by simp
qed

lemma Signal20ms_ok: "ags_ok State \<Longrightarrow> ags_ok (snd (Signal20ms State))"
  by (simp add: Signal20ms_def Let_def)

lemma aea_engine_cases:
  assumes "aea_engine State = Some (m, State')"
  obtains b S T where "S = (if 100000 \<le>s Count State then State\<lparr>Count := Count State - 100000\<rparr> else State)"
    "Signal20ms S = (b, T)"
    "if b then m = 10 \<and> State' = SpendTime 10 T
     else RunInstructionAGS (ChannelInputAGS T) = Some (m, State')"
proof -
  define S where "S = (if 100000 \<le>s Count State then State\<lparr>Count := Count State - 100000\<rparr> else State)"
  obtain b T where T: "Signal20ms S = (b, T)" by fastforce
  have "if b then m = 10 \<and> State' = SpendTime 10 T
     else RunInstructionAGS (ChannelInputAGS T) = Some (m, State')"
    using assms unfolding aea_engine_def Let_def S_def [symmetric] T by (cases b) simp_all
  then show ?thesis using that S_def T by blast
qed

lemma aea_engine_ok:
  assumes "ags_ok State" "aea_engine State = Some (m, State')"
  shows "ags_ok State'"
  using assms(2)
proof (rule aea_engine_cases)
  fix b S T
  assume S: "S = (if 100000 \<le>s Count State then State\<lparr>Count := Count State - 100000\<rparr> else State)"
    and T: "Signal20ms S = (b, T)"
    and r: "if b then m = 10 \<and> State' = SpendTime 10 T
      else RunInstructionAGS (ChannelInputAGS T) = Some (m, State')"
  have "ags_ok S" using assms(1) by (simp add: S)
  then have "ags_ok T" using Signal20ms_ok [of S] by (simp add: T)
  then show "ags_ok State'"
    using r RunInstructionAGS_ok [OF ChannelInputAGS_ok] by (cases b) auto
qed

section \<open>Every reachable state\<close>

text \<open>What can happen to the emulator between two instructions: a peripheral connects, sends and
  disconnects, and the debugger is switched on and off or goes back to a backtrace.\<close>

text \<open>Going back in the ring of backtraces.\<close>

definition PreviousTrace :: "cint \<Rightarrow> cint \<Rightarrow> cint" where
  "PreviousTrace n l = (if l - n <s 0 then l - n + MAX_AGS_BACKTRACES else l - n)"

lemma sint_PreviousTrace:
  assumes "0 \<le> sint n" "sint n \<le> 50" "0 \<le> sint l" "sint l < 50"
  shows "sint (PreviousTrace n l) = (sint l - sint n) mod 50"
proof -
  have d: "sint (l - n) = sint l - sint n" using assms by (subst sint_minus_small) simp_all
  show ?thesis
  proof (cases "sint l < sint n")
    case True
    then have "(sint l - sint n) mod 50 = (sint l - sint n + 50) mod 50" by simp
    also have "\<dots> = sint l - sint n + 50" using True assms by (intro mod_pos_pos_trivial) simp_all
    finally show ?thesis
      using True assms d by (simp add: PreviousTrace_def word_sless_alt sint_plus_small)
  next
    case False
    then show ?thesis using assms d by (simp add: PreviousTrace_def word_sless_alt)
  qed
qed

lemma RestoreBacktrace_fields [simp]:
  "LatestBacktraceAGS (RestoreBacktrace k State) = LatestBacktraceAGS State"
  "NumBacktracesAGS (RestoreBacktrace k State) = NumBacktracesAGS State"
  "RestoreBacktrace k (State\<lparr>LatestBacktraceAGS := l\<rparr>) = (RestoreBacktrace k State)\<lparr>LatestBacktraceAGS := l\<rparr>"
  "BacktracesAGS (RestoreBacktrace k State) = BacktracesAGS State"
  "Clients (RestoreBacktrace k State) = Clients State"
  "DedaBuffer (RestoreBacktrace k State) = DedaBuffer State"
  "DedaBufferCount (RestoreBacktrace k State) = DedaBufferCount State"
  "DedaBufferWanted (RestoreBacktrace k State) = DedaBufferWanted State"
  "DedaBufferDefault (RestoreBacktrace k State) = DedaBufferDefault State"
  by (cases State; simp add: RestoreBacktrace_def ags_t.defs)+

lemma RegressToBacktraceAGS_eq:
  "RegressToBacktraceAGS n State =
     (if n <s 0 \<or> NumBacktracesAGS State \<le>s n then State
      else
        let l = PreviousTrace n (LatestBacktraceAGS State)
        in (RestoreBacktrace (unat l) State)
             \<lparr>NumBacktracesAGS := NumBacktracesAGS State - (n + 1), LatestBacktraceAGS := PreviousTrace 1 l\<rparr>)"
  by (simp add: RegressToBacktraceAGS_def PreviousTrace_def Let_def)

lemma RestoreBacktrace_ok: "ags_ok State \<Longrightarrow> ags_ok (RestoreBacktrace k State)"
  using traces_okD(5) [of State k] aea_ok_parts(2) [of "BacktracesAGS State k" "ags_t.more State"]
  unfolding ags_ok_def deda_ok_def traces_ok_def RestoreBacktrace_fields
  by (simp add: RestoreBacktrace_def)

lemma RegressToBacktraceAGS_ok:
  assumes "ags_ok State"
  shows "ags_ok (RegressToBacktraceAGS n State)"
proof (cases "n <s 0 \<or> NumBacktracesAGS State \<le>s n")
  case False
  let ?l = "LatestBacktraceAGS State" and ?N = "NumBacktracesAGS State"
  let ?R = "RestoreBacktrace (unat (PreviousTrace n ?l)) State"
  note t = traces_okD [OF assms]
  have n: "0 \<le> sint n" "sint n < sint ?N" using False by (auto simp: word_sless_alt word_sle_eq)
  then have "?N \<noteq> 0" by auto
  then have l: "0 \<le> sint ?l" using t by simp
  have "sint (n + 1) = sint n + 1" using n t by (subst sint_plus_small) simp_all
  then have N: "sint (?N - (n + 1)) = sint ?N - (sint n + 1)"
    using n t by (subst sint_minus_small) simp_all
  have p: "sint (PreviousTrace n ?l) = (sint ?l - sint n) mod 50"
    using n t l by (intro sint_PreviousTrace) simp_all
  then have q: "sint (PreviousTrace 1 (PreviousTrace n ?l)) = ((sint ?l - sint n) mod 50 - 1) mod 50"
    by (subst sint_PreviousTrace) simp_all
  have "ags_ok (?R\<lparr>NumBacktracesAGS := ?N - (n + 1),
      LatestBacktraceAGS := PreviousTrace 1 (PreviousTrace n ?l)\<rparr>)"
    using n t N q by (intro set_counts_ok [OF RestoreBacktrace_ok [OF assms]]) simp_all
  then show ?thesis
    using False by (simp add: RegressToBacktraceAGS_eq Let_def)
qed (simp add: RegressToBacktraceAGS_def assms)

inductive ags_step :: "ags \<Rightarrow> ags \<Rightarrow> bool" where
  ags_engine: "aea_engine State = Some (m, State') \<Longrightarrow> ags_step State State'"
| ags_connect: "ags_step State (State\<lparr>Clients := (Clients State)(i := (Clients State i)\<lparr>Connected := True, Size := 0\<rparr>)\<rparr>)"
| ags_receive: "ags_step State (State\<lparr>Clients := (Clients State)(i := (Clients State i)\<lparr>Incoming := bytes\<rparr>)\<rparr>)"
| ags_close: "ags_step State (State\<lparr>Clients := (Clients State)(i := (Clients State i)\<lparr>Connected := False\<rparr>)\<rparr>)"
| ags_debug: "ags_step State (State\<lparr>DebugModeAGS := b\<rparr>)"
| ags_regress: "ags_step State (RegressToBacktraceAGS n State)"

inductive ags_reachable :: "u8 list \<Rightarrow> ags \<Rightarrow> bool" for rom where
  start: "aea_engine_init (Some rom) None ags_start = (0, State) \<Longrightarrow> ags_reachable rom State"
| step: "ags_reachable rom State \<Longrightarrow> ags_step State State' \<Longrightarrow> ags_reachable rom State'"

lemma ags_start_ok: "ags_ok ags_start"
  by (simp add: ags_ok_def aea_ok_def deda_ok_def traces_ok_def words_ok_def ags_start_def ags_zero_def ags_t.defs)

lemma ImageWords_word18: "v \<in> set (ImageWords bytes) \<Longrightarrow> word18 v"
  by (induction bytes rule: ImageWords.induct) auto

lemma length_ImageWords: "length (ImageWords bytes) = length bytes div 4"
  by (induction bytes rule: ImageWords.induct) auto

lemma LoadImage_ok:
  assumes "ags_ok State" "length bytes div 4 \<le> 4096"
  shows "ags_ok (LoadImage bytes State)"
proof -
  have "words_ok 4096 (\<lambda>a. if a < length (ImageWords bytes) then ImageWords bytes ! a else Memory State a)"
    using ags_okD(3) [OF assms(1)] assms(2)
    by (auto simp: words_ok_def length_ImageWords intro!: ImageWords_word18 nth_mem)
  then show ?thesis using assms(1) by (simp add: LoadImage_def)
qed

lemma ResetAGS_ok: "ags_ok State \<Longrightarrow> ags_ok (ResetAGS State)"
proof -
  assume ok: "ags_ok State"
  have "words_ok NUM_IO (\<lambda>i. if i = IO_2020 \<or> i = IO_2040 then 0x3FFFF
      else if i < NUM_IO then 0 else InputPorts State i)"
    "words_ok NUM_IO (\<lambda>i. if i = IO_ODISCRETES then 0x3FFFF
      else if i < NUM_IO then 0 else OutputPorts State i)"
    using ags_okD(4,5) [OF ok] by (auto simp: words_ok_def)
  then show ?thesis using ok by (simp add: ResetAGS_def Let_def)
qed

lemma aea_engine_init_ok:
  assumes "aea_engine_init (Some rom) None ags_start = (0, State)"
  shows "ags_ok State"
  using assms
  by (auto simp: aea_engine_init_def Let_def ResetAGS_ok LoadImage_ok ags_start_ok split: if_splits)

lemma ags_step_ok:
  assumes "ags_step State State'" "ags_ok State"
  shows "ags_ok State'"
proof -
  have c: "ags_ok (State\<lparr>Clients := (Clients State)(i := c)\<rparr>)" if "Size c < 4" for i c
    using assms(2) that unfolding ags_ok_def aea_ok_def deda_ok_def traces_ok_def by simp
  show ?thesis
    using assms(1)
  proof cases
    case ags_engine
    then show ?thesis using aea_engine_ok [OF assms(2)] by blast
  qed (simp_all add: c assms(2) RegressToBacktraceAGS_ok)
qed

text \<open>C16: in every state of the abort guidance computer that can be reached from a reset with a rope
  image, whatever the peripherals send and the debugger does, the registers, memory and ports hold
  18-bit words, the program counter addresses memory, the index register has three bits, and the
  counts of the buffer of the DEDA, of the packets being received and of the ring of backtraces are
  within their arrays; the cells outside the arrays of memory, ports, DEDA buffer and backtraces keep
  their initial contents, and no input instruction reads outside the buffer of the DEDA.\<close>

theorem reachable_ags_ok:
  assumes "ags_reachable rom State"
  shows "ags_ok State \<and> (\<forall>f. Input f State \<noteq> None)"
proof -
  have "ags_ok State"
    using assms
  proof induction
    case (start State)
    then show ?case by (rule aea_engine_init_ok)
  next
    case (step State State')
    then show ?case using ags_step_ok by blast
  qed
  then show ?thesis using Input_ok by fastforce
qed

lemma reachable_ags_ok_witness:
  "let State = (ResetAGS (LoadImage [1, 2, 3, 0] ags_start))\<lparr>DebugModeAGS := True\<rparr>
   in ags_reachable [1, 2, 3, 0] State \<and> ags_ok State \<and> Memory State 0 = 0x30201"
proof -
  let ?S = "(ResetAGS (LoadImage [1, 2, 3, 0] ags_start))\<lparr>DebugModeAGS := True\<rparr>"
  have r: "ags_reachable [1, 2, 3, 0] ?S"
    by (rule ags_reachable.step [OF ags_reachable.start ags_debug]) (simp add: aea_engine_init_def)
  have "Memory ?S 0 = 0x30201"
    by (simp add: ResetAGS_def LoadImage_def Let_def shift_defs)
  then show ?thesis using r reachable_ags_ok [OF r] by (simp add: Let_def)
qed

end
