(* ===== verification/AGS_Traces.thy ===== *)
theory AGS_Traces
  imports AGS_Invariant
begin

text \<open>
  The ring of backtraces of the abort guidance computer as what it stands for: the list of the at
  most 50 last states saved before a branch, the newest first.  With it, the program in the upper
  half of memory is shown to be constant, whatever the debugger restores.
\<close>

unbundle bit_operations_syntax

section \<open>The list of backtraces\<close>

definition traces :: "ags \<Rightarrow> ags_t list" where
  "traces State =
     map (\<lambda>j. BacktracesAGS State (nat ((sint (LatestBacktraceAGS State) - int j) mod 50)))
       [0..<unat (NumBacktracesAGS State)]"

lemma length_traces [simp]: "length (traces State) = unat (NumBacktracesAGS State)"
  by (simp add: traces_def)

lemma nth_traces:
  "j < unat (NumBacktracesAGS State) \<Longrightarrow>
   traces State ! j = BacktracesAGS State (nat ((sint (LatestBacktraceAGS State) - int j) mod 50))"
  by (simp add: traces_def)

lemma unat_small: "0 \<le> sint v \<Longrightarrow> unat (v :: cint) = nat (sint v)"
  using uint_of_nonneg [of v] by (simp add: unat_eq_nat_uint)

lemma sint_NextTrace:
  assumes "- 1 \<le> sint l" "sint l < 50"
  shows "sint (NextTrace l) = (sint l + 1) mod 50"
proof -
  have "sint (l + 1) = sint l + 1" using assms by (subst sint_plus_small) simp_all
  then show ?thesis using assms by (cases "sint l = 49") (auto simp: NextTrace_def sless_50)
qed

lemma ring_index_distinct:
  assumes "1 \<le> j" "j < 50"
  shows "nat ((l + 1 - int j) mod 50) \<noteq> nat ((l + 1) mod 50)"
proof
  assume "nat ((l + 1 - int j) mod 50) = nat ((l + 1) mod 50)"
  then have "(l + 1 - int j) mod 50 = (l + 1) mod 50" by simp
  then have "50 dvd int j" by (simp add: mod_eq_dvd_iff)
  then have "50 dvd j" by presburger
  with assms show False using dvd_imp_le [of 50 j] by simp
qed

lemma traces_Add:
  assumes "ags_ok State" "DebugModeAGS State"
  shows "traces (AddBacktraceAGS State) = take 50 (ags_t.truncate State # traces State)"
proof (rule nth_equalityI)
  note t = traces_okD [OF assms(1)]
  let ?l = "LatestBacktraceAGS State" and ?n = "NumBacktracesAGS State" and ?A = "AddBacktraceAGS State"
  have n: "sint (?n + 1) = sint ?n + 1" using t by (subst sint_plus_small) simp_all
  have N: "unat (NumBacktracesAGS ?A) = min 50 (unat ?n + 1)"
    using t n by (auto simp: AddBacktraceAGS_eq assms(2) sless_50 unat_small nat_add_distrib)
  have L: "sint (LatestBacktraceAGS ?A) = (sint ?l + 1) mod 50"
    using t by (simp add: AddBacktraceAGS_eq assms(2) sint_NextTrace)
  have B: "BacktracesAGS ?A = (BacktracesAGS State)(nat ((sint ?l + 1) mod 50) := ags_t.truncate State)"
    using t by (simp add: AddBacktraceAGS_eq assms(2) sint_NextTrace unat_small)
  show "length (traces ?A) = length (take 50 (ags_t.truncate State # traces State))"
    by (simp add: N)
  fix j assume "j < length (traces ?A)"
  then have j: "j < 50" "j < unat ?n + 1" "j < unat (NumBacktracesAGS ?A)" by (simp_all add: N)
  show "traces ?A ! j = take 50 (ags_t.truncate State # traces State) ! j"
  proof (cases j)
    case 0
    then show ?thesis using j by (simp add: nth_traces L B)
  next
    case (Suc k)
    have "((sint ?l + 1) mod 50 - int j) mod 50 = (sint ?l + 1 - int j) mod 50"
      by (simp add: mod_diff_left_eq)
    moreover have "sint ?l + 1 - int j = sint ?l - int k" using Suc by simp
    ultimately show ?thesis
      using Suc j ring_index_distinct [of j "sint ?l"] by (simp add: nth_traces L B)
  qed
qed

lemma truncate_Restore [simp]: "ags_t.truncate (RestoreBacktrace k State) = BacktracesAGS State k"
  by (cases "BacktracesAGS State k") (simp add: RestoreBacktrace_def ags_t.defs)

lemma truncate_counts [simp]:
  "ags_t.truncate (State\<lparr>NumBacktracesAGS := n\<rparr>) = ags_t.truncate State"
  "ags_t.truncate (State\<lparr>LatestBacktraceAGS := l\<rparr>) = ags_t.truncate State"
  by (simp_all add: ags_t.defs)

lemma traces_Regress:
  assumes "ags_ok State" "n < length (traces State)"
  shows "ags_t.truncate (RegressToBacktraceAGS (of_nat n) State) = traces State ! n"
    and "traces (RegressToBacktraceAGS (of_nat n) State) = drop (n + 1) (traces State)"
proof -
  note t = traces_okD [OF assms(1)]
  let ?l = "LatestBacktraceAGS State" and ?N = "NumBacktracesAGS State"
  let ?R = "RegressToBacktraceAGS (of_nat n) State"
  have n: "int n < sint ?N" "n < 50" using assms(2) t by (simp_all add: unat_small)
  have sn: "sint (of_nat n :: cint) = int n"
    using n sint_word_of_int_small [of "int n"] by simp
  have l: "0 \<le> sint ?l" using n t by fastforce
  have "sint (of_nat n + 1 :: cint) = int n + 1" using n sn by (subst sint_plus_small) simp_all
  then have N: "sint (?N - (of_nat n + 1)) = sint ?N - (int n + 1)"
    using n t by (subst sint_minus_small) simp_all
  have p: "sint (PreviousTrace (of_nat n) ?l) = (sint ?l - int n) mod 50"
    using n t l sn by (subst sint_PreviousTrace) simp_all
  then have q: "sint (PreviousTrace 1 (PreviousTrace (of_nat n) ?l)) = (sint ?l - int n - 1) mod 50"
    by (subst sint_PreviousTrace) (simp_all add: mod_diff_left_eq)
  have R: "?R = (RestoreBacktrace (unat (PreviousTrace (of_nat n) ?l)) State)
       \<lparr>NumBacktracesAGS := ?N - (of_nat n + 1),
        LatestBacktraceAGS := PreviousTrace 1 (PreviousTrace (of_nat n) ?l)\<rparr>"
    using n sn by (simp add: RegressToBacktraceAGS_eq Let_def word_sless_alt word_sle_eq)
  have k: "unat (PreviousTrace (of_nat n) ?l) = nat ((sint ?l - int n) mod 50)"
    by (simp add: unat_small p)
  show "ags_t.truncate ?R = traces State ! n"
  proof -
    have "ags_t.truncate ?R = BacktracesAGS State (nat ((sint ?l - int n) mod 50))"
      by (simp add: R k)
    then show ?thesis using assms(2) by (simp add: nth_traces)
  qed
  show "traces ?R = drop (n + 1) (traces State)"
  proof (rule nth_equalityI)
    have u: "unat (NumBacktracesAGS ?R) = unat ?N - (n + 1)"
      using n t N by (simp add: R unat_small nat_diff_distrib)
    then show "length (traces ?R) = length (drop (n + 1) (traces State))" by simp
    fix j assume "j < length (traces ?R)"
    moreover have "((sint ?l - int n - 1) mod 50 - int j) mod 50 = (sint ?l - int (n + 1 + j)) mod 50"
      by (simp add: mod_diff_left_eq algebra_simps)
    ultimately show "traces ?R ! j = drop (n + 1) (traces State) ! j"
      using u by (simp add: nth_traces) (simp add: R q)
  qed
qed

text \<open>the ring of backtraces is the list of the last 50 saved states: with the debugger on, a
  branch puts the state before it at the front; going back to entry \<open>n\<close> restores the machine
  saved there and drops the entries up to it; with any other number nothing happens.\<close>

theorem backtrace_ring:
  assumes "ags_ok State"
  shows "(if DebugModeAGS State
      then traces (AddBacktraceAGS State) = take 50 (ags_t.truncate State # traces State)
      else AddBacktraceAGS State = State) \<and>
    (\<forall>n. if n < length (traces State)
      then ags_t.truncate (RegressToBacktraceAGS (of_nat n) State) = traces State ! n \<and>
        traces (RegressToBacktraceAGS (of_nat n) State) = drop (n + 1) (traces State)
      else n < 2 ^ 31 \<longrightarrow> RegressToBacktraceAGS (of_nat n) State = State)"
proof -
  have "RegressToBacktraceAGS (of_nat n) State = State"
    if "\<not> n < length (traces State)" "n < 2 ^ 31" for n
  proof -
    have "sint (of_nat n :: cint) = int n"
      using that(2) sint_word_of_int_small [of "int n"] by simp
    then have "NumBacktracesAGS State \<le>s of_nat n"
      using that(1) traces_okD(1) [OF assms] by (simp add: word_sle_eq unat_small)
    then show ?thesis by (simp only: RegressToBacktraceAGS_def simp_thms if_True)
  qed
  then show ?thesis
    using traces_Add [OF assms] traces_Regress [OF assms] by (auto simp: AddBacktraceAGS_def)
qed

lemma backtrace_ring_witness:
  "let State = ags_start\<lparr>DebugModeAGS := True\<rparr>
   in traces (AddBacktraceAGS State) = [ags_t.truncate State] \<and> RegressToBacktraceAGS 5 State = State"
proof -
  let ?S = "ags_start\<lparr>DebugModeAGS := True\<rparr>"
  have "ags_ok ?S" using ags_start_ok by simp
  moreover have "traces ?S = []" by (simp add: traces_def ags_start_def ags_t.defs)
  ultimately show ?thesis
    using backtrace_ring [of ?S] by (auto simp: Let_def dest: spec [of _ 5])
qed

section \<open>The program memory\<close>

text \<open>What the operations other than branches and stores leave alone.\<close>

definition core :: "ags \<Rightarrow> (nat \<Rightarrow> cint) \<times> (nat \<Rightarrow> ags_t) \<times> cint \<times> cint" where
  "core State = (Memory State, BacktracesAGS State, NumBacktracesAGS State, LatestBacktraceAGS State)"

lemma core_frame [simp]:
  "core (S\<lparr>Accumulator := x0\<rparr>) = core S" "core (S\<lparr>Quotient := x1\<rparr>) = core S"
  "core (S\<lparr>Index := x2\<rparr>) = core S" "core (S\<lparr>ProgramCounter := x3\<rparr>) = core S"
  "core (S\<lparr>Overflow := x4\<rparr>) = core S" "core (S\<lparr>Halt := x5\<rparr>) = core S"
  "core (S\<lparr>CycleCounter := x6\<rparr>) = core S" "core (S\<lparr>Next20msSignal := x7\<rparr>) = core S"
  "core (S\<lparr>OutputPorts := x8\<rparr>) = core S" "core (S\<lparr>InputPorts := x9\<rparr>) = core S"
  "core (S\<lparr>DebugModeAGS := y0\<rparr>) = core S" "core (S\<lparr>DedaBuffer := y1\<rparr>) = core S"
  "core (S\<lparr>DedaBufferCount := y2\<rparr>) = core S" "core (S\<lparr>DedaBufferWanted := y3\<rparr>) = core S"
  "core (S\<lparr>DedaBufferReadout := y4\<rparr>) = core S" "core (S\<lparr>DedaBufferDefault := y5\<rparr>) = core S"
  "core (S\<lparr>Count := y6\<rparr>) = core S" "core (S\<lparr>SocketInterlace := y7\<rparr>) = core S"
  "core (S\<lparr>Clients := y8\<rparr>) = core S" "core (S\<lparr>Sent := y9\<rparr>) = core S"
  by (simp_all add: core_def)

lemma core_fold: "(\<And>x S. core (f x S) = core S) \<Longrightarrow> core (fold f xs State) = core State"
  by (induction xs arbitrary: State) simp_all

lemma core_fold_pair:
  "(\<And>x v S. core (snd (f x (v, S))) = core S) \<Longrightarrow> core (snd (fold f xs (v, State))) = core State"
proof (induction xs arbitrary: v State)
  case (Cons x xs)
  then show ?case by (cases "f x (v, State)") (simp, metis snd_conv)
qed simp

lemma core_output [simp]:
  "core (OneRawChannelOutputAGS p i State) = core State"
  "core (OneChannelOutputAGS i t d State) = core State"
  "core (ChannelOutputAGS t d State) = core State"
  by (auto simp: OneRawChannelOutputAGS_def OneChannelOutputAGS_def ChannelOutputAGS_def
      intro: core_fold split: option.split)

lemma core_OutputPort [simp]: "core (snd (OutputPort f v m (n, State))) = core State"
  by (simp add: OutputPort_def Let_def)

lemma core_Output [simp]: "core (Output f v State) = core State"
proof -
  obtain n S where p: "fold (OutputPort f v) [1, 2, 4, 0x8, 0x10, 0x20, 0x40, 0x80]
      (OutputPorts State IO_ODISCRETES, State) = (n, S)"
    by fastforce
  have "core (snd (fold (OutputPort f v) ms (n, State))) = core State" for ms n
    by (rule core_fold_pair) simp
  then have "core S = core State" using p by (metis snd_conv)
  then show ?thesis unfolding Output_def p by simp
qed

lemma core_FetchDedaShift: "FetchDedaShift State = Some (v, State') \<Longrightarrow> core State' = core State"
  by (auto simp: FetchDedaShift_def ResetDedaBuffer_def Let_def split: if_splits option.splits)

lemma core_InputPort: "InputPort b f i (v, State) = Some (v', State') \<Longrightarrow> core State' = core State"
  by (auto simp: InputPort_def Let_def dest: core_FetchDedaShift split: if_splits option.splits)

lemma core_InputPortLoop:
  "InputPortLoop b f is (v, State) = Some (v', State') \<Longrightarrow> core State' = core State"
proof (induction "is" arbitrary: v State)
  case (Cons i "is")
  then obtain w S where "InputPort b f i (v, State) = Some (w, S)" "InputPortLoop b f is (w, S) = Some (v', State')"
    by (auto split: option.splits)
  then show ?case using Cons.IH core_InputPort by metis
qed simp

lemma core_Input: "Input f State = Some (m, State') \<Longrightarrow> core State' = core State"
  by (auto simp: Input_def Let_def dest: core_InputPortLoop split: if_splits simp del: upt_rec_numeral)

lemma core_packets [simp]:
  "core (RequestDeda i State) = core State"
  "core (DiscreteInput t d State) = core State"
  "core (snd (DedaKeys i d State)) = core State"
  "core (DedaNibble i d State) = core State"
  by (simp_all add: RequestDeda_def DiscreteInput_def DedaKeys_def DedaNibble_def Let_def)

lemma core_InputPacketAGS [simp]: "core (InputPacketAGS i t d State) = core State"
  unfolding InputPacketAGS_def Let_def split_beta by simp

lemma core_ChannelInputAGS [simp]: "core (ChannelInputAGS State) = core State"
proof -
  have "core (ReceiveClient i S) = core S" for i S
    by (simp add: ReceiveClient_def Let_def split: prod.split option.split)
  then show ?thesis by (simp add: ChannelInputAGS_def core_fold del: upt_rec_numeral)
qed

lemma core_arithmetic [simp]:
  "core (ags_ADD y State) = core State" "core (ags_SUB y State) = core State"
  "core (PutLongAccumulator lli State) = core State" "core (ags_ABS State) = core State"
  by (simp_all add: ags_ADD_def ags_SUB_def PutLongAccumulator_def ags_ABS_def Let_def)

lemma core_multiply_shift [simp]:
  "core (ags_MPY r y State) = core State" "core (ags_LLS n State) = core State"
  "core (ags_LRS n State) = core State" "core (ags_ALS n State) = core State"
  by (simp_all add: ags_MPY_def ags_LLS_def ags_LRS_def ags_ALS_def Let_def)

lemma core_DVP: "ags_DVP y State = Some State' \<Longrightarrow> core State' = core State"
proof -
  have "core (if b then S\<lparr>Overflow := 1\<rparr> else S) = core S" for b and S :: ags by simp
  then show "ags_DVP y State = Some State' \<Longrightarrow> core State' = core State"
    by (auto simp: ags_DVP_def ags_Divide_def Let_def split: if_splits option.splits)
qed

lemma core_Execute:
  assumes "ExecuteAGS op f y (r, State) = Some (r', State')"
  shows "core State' = core State \<or> core State' = core (AddBacktraceAGS State)"
  using assms by (auto simp: ExecuteAGS_def Let_def core_DVP dest: core_Input split: if_splits)

text \<open>A property of the program memory of a machine that stores do not touch holds for the current
  state and all saved ones.\<close>

definition rom_ok :: "u8 list \<Rightarrow> ags \<Rightarrow> bool" where
  "rom_ok rom State \<longleftrightarrow>
     (\<forall>m \<in> insert (Memory State) (Memory ` set (traces State)). \<forall>a \<ge> 0x800.
        m a = (if a < length (ImageWords rom) then ImageWords rom ! a else 0))"

lemma rom_ok_core: "core S = core T \<Longrightarrow> rom_ok rom S = rom_ok rom T"
  by (simp add: rom_ok_def traces_def core_def)

lemma rom_ok_Add: "ags_ok State \<Longrightarrow> rom_ok rom State \<Longrightarrow> rom_ok rom (AddBacktraceAGS State)"
proof -
  assume ok: "ags_ok State" and r: "rom_ok rom State"
  have m: "Memory (AddBacktraceAGS State) = Memory State" by (simp add: AddBacktraceAGS_eq)
  show "rom_ok rom (AddBacktraceAGS State)"
  proof (cases "DebugModeAGS State")
    case True
    have "Memory (ags_t.truncate State) = Memory State" by (simp add: ags_t.defs)
    then show ?thesis
      using r unfolding rom_ok_def m traces_Add [OF ok True] by (auto dest!: in_set_takeD)
  next
    case False
    then show ?thesis using r by (simp add: AddBacktraceAGS_def)
  qed
qed

lemma rom_ok_store: "a < 0x800 \<Longrightarrow> rom_ok rom State \<Longrightarrow> rom_ok rom (set_mem a v State)"
  by (simp add: rom_ok_def traces_def)

lemma rom_ok_Run:
  assumes "ags_ok State" "rom_ok rom State" "RunInstructionAGS State = Some (m, State')"
  shows "rom_ok rom State'"
  using assms(3)
proof (rule RunInstructionAGS_cases)
  fix i a r0 r S
  assume a: "a = IndexMemory State (0 \<noteq> i AND 0x1000) (i AND 0xFFF)"
    and E: "ExecuteAGS (sar 12 i AND 0x3E) (i AND 0xFFF) (Memory State (unat a)) (r0, State) = Some (r, S)"
    and S': "State' = SpendTime m
      ((if a <s 0x800 then set_mem (unat a) (NewValueForY r AND 0x3FFFF) S else S)
        \<lparr>ProgramCounter := NewProgramCounter r AND 0xFFF\<rparr>)"
  have S: "rom_ok rom S"
    using core_Execute [OF E] rom_ok_core assms(2) rom_ok_Add [OF assms(1,2)] by blast
  have "uint a < 4096" using IndexMemory_bound by (simp add: a)
  then have "unat a < 0x800" if "a <s 0x800"
    using that by (intro unat_ltI) (simp add: word_sless_alt sint_small)
  then have "rom_ok rom (if a <s 0x800 then set_mem (unat a) (NewValueForY r AND 0x3FFFF) S else S)"
    using S by (simp add: rom_ok_store)
  moreover have "core State' = core (if a <s 0x800 then set_mem (unat a) (NewValueForY r AND 0x3FFFF) S else S)"
    by (simp add: S' SpendTime_def)
  ultimately show "rom_ok rom State'" using rom_ok_core by blast
qed

lemma core_Signal20ms: "core (snd (Signal20ms State)) = core State"
  by (simp add: Signal20ms_def Let_def)

lemma rom_ok_engine:
  assumes "ags_ok State" "rom_ok rom State" "aea_engine State = Some (m, State')"
  shows "rom_ok rom State'"
  using assms(3)
proof (rule aea_engine_cases)
  fix b S T
  assume S: "S = (if 100000 \<le>s Count State then State\<lparr>Count := Count State - 100000\<rparr> else State)"
    and T: "Signal20ms S = (b, T)"
    and r: "if b then m = 10 \<and> State' = SpendTime 10 T
      else RunInstructionAGS (ChannelInputAGS T) = Some (m, State')"
  have "ags_ok S" using assms(1) by (simp add: S)
  then have "ags_ok T" using Signal20ms_ok [of S] by (simp add: T)
  moreover have "core S = core State" by (simp add: S)
  then have "core T = core State" using core_Signal20ms [of S] by (simp add: T)
  then have "rom_ok rom T" "rom_ok rom (ChannelInputAGS T)"
    using rom_ok_core assms(2) core_ChannelInputAGS by metis+
  ultimately show "rom_ok rom State'"
    using r rom_ok_Run [OF ChannelInputAGS_ok] rom_ok_core [of "SpendTime 10 T" T]
    by (cases b) (auto simp: SpendTime_def)
qed

lemma rom_ok_Regress:
  assumes "ags_ok State" "rom_ok rom State"
  shows "rom_ok rom (RegressToBacktraceAGS n State)"
proof (cases "n <s 0 \<or> NumBacktracesAGS State \<le>s n")
  case False
  then have n: "0 \<le> sint n" "sint n < sint (NumBacktracesAGS State)"
    by (auto simp: word_sless_alt word_sle_eq)
  define k where "k = nat (sint n)"
  have k: "n = of_nat k" "k < length (traces State)"
    using n by (simp_all add: k_def unat_small of_nat_nat)
  have "Memory (RegressToBacktraceAGS n State) = Memory (traces State ! k)"
    using traces_Regress(1) [OF assms(1) k(2)] unfolding k(1) by (metis ags_t.select_convs(9) ags_t.truncate_def)
  moreover have "set (traces (RegressToBacktraceAGS n State)) \<subseteq> set (traces State)"
    using traces_Regress(2) [OF assms(1) k(2)] unfolding k(1) by (simp add: set_drop_subset)
  moreover have "traces State ! k \<in> set (traces State)" using k(2) by (rule nth_mem)
  ultimately show ?thesis
    using assms(2) unfolding rom_ok_def by blast
qed (simp add: RegressToBacktraceAGS_def assms)

text \<open>C17: the upper half of memory is read-only: in every reachable state it holds the words of the
  rope image the machine was started with, and zeros beyond its end, whatever the program stores,
  the peripherals send and the debugger restores.\<close>

theorem program_memory:
  assumes "ags_reachable rom State" "0x800 \<le> a"
  shows "Memory State a = (if a < length (ImageWords rom) then ImageWords rom ! a else 0)"
proof -
  have "ags_ok State \<and> rom_ok rom State"
    using assms(1)
  proof induction
    case (start State)
    then have "State = ResetAGS (LoadImage rom ags_start)"
      by (auto simp: aea_engine_init_def Let_def split: if_splits)
    moreover have "rom_ok rom (ResetAGS (LoadImage rom ags_start))"
      by (simp add: rom_ok_def traces_def ResetAGS_def LoadImage_def ags_start_def ags_zero_def ags_t.defs Let_def)
    ultimately show ?case using aea_engine_init_ok [OF start] by simp
  next
    case (step State State')
    then have ok: "ags_ok State" "rom_ok rom State" by simp_all
    have "rom_ok rom State'"
      using step.hyps(2)
    proof cases
      case ags_engine
      then show ?thesis using rom_ok_engine ok by blast
    next
      case ags_regress
      then show ?thesis using rom_ok_Regress ok by simp
    qed (use ok rom_ok_core core_frame in \<open>metis\<close>)+
    then show ?case using ags_step_ok step.hyps(2) ok(1) by blast
  qed
  then show ?thesis using assms(2) by (simp add: rom_ok_def)
qed

lemma ImageWords_zeros: "ImageWords (concat (replicate n [0, 0, 0, 0]) @ bytes) = replicate n 0 @ ImageWords bytes"
  by (induction n) (simp_all add: shift_defs)

lemma program_memory_witness:
  "let rom = concat (replicate 0x800 [0, 0, 0, 0]) @ [1, 2, 3, 0];
     State = (ResetAGS (LoadImage rom ags_start))\<lparr>DebugModeAGS := True\<rparr>
   in ags_reachable rom State \<and> Memory State 0x800 = 0x30201"
proof -
  define rom :: "u8 list" where "rom = concat (replicate 0x800 [0, 0, 0, 0]) @ [1, 2, 3, 0]"
  let ?S = "(ResetAGS (LoadImage rom ags_start))\<lparr>DebugModeAGS := True\<rparr>"
  have w: "ImageWords rom = replicate 0x800 0 @ [0x30201]"
    unfolding rom_def ImageWords_zeros by (simp add: shift_defs)
  have l: "length rom = 0x2004"
    unfolding rom_def by (simp add: length_concat sum_list_replicate)
  have r: "ags_reachable rom ?S"
    by (rule ags_reachable.step [OF ags_reachable.start ags_debug]) (simp add: aea_engine_init_def l)
  have "Memory ?S 0x800 = 0x30201"
    using program_memory [OF r, of "0x800"] unfolding w by (simp add: nth_append)
  then show ?thesis using r unfolding rom_def Let_def by blast
qed

end
