(* ===== verification/AGS_Peripherals.thy ===== *)
theory AGS_Peripherals
  imports AGS_Invariant
begin

text \<open>
  The abort guidance computer and its surroundings: packets of the peripherals as they arrive byte by
  byte, the entry of data through the DEDA keyboard, loading of images and core dumps, and when
  a call of \<open>aea_engine\<close> returns.
\<close>

unbundle bit_operations_syntax

section \<open>Packets from the byte stream\<close>

text \<open>Bytes that come later continue where the reception stopped.\<close>

lemma ReceiveBytes_append:
  "ReceiveBytes xs n n P = ([], m, Q) \<Longrightarrow> m < 4 \<Longrightarrow> ReceiveBytes (xs @ ys) n n P = ReceiveBytes ys m m Q"
  by (induction xs arbitrary: n P) (auto split: if_splits)

lemma FormIoPacketAGS_bytes:
  assumes "FormIoPacketAGS t d = Some (p0, p1, p2, p3)"
  shows "p0 AND 0xC0 = 0" "p1 AND 0xC0 = 0xC0" "p2 AND 0xC0 = 0x80" "p3 AND 0xC0 = 0x40"
    and "ParseIoPacketAGS (p0, p1, p2, p3) = Some (t, d AND 0x3FFFF)"
proof -
  have t: "0 \<le> sint t" "sint t < 64"
    using assms by (auto simp: FormIoPacketAGS_def word_sless_alt split: if_splits)
  then have "uint t < 2 ^ 6" by (simp add: uint_of_nonneg)
  then have b: "\<And>n. 6 \<le> n \<Longrightarrow> \<not> bit t n" by (simp only: uint_lt_iff_bits) simp
  have p: "p0 = ucast t" "p1 = ucast (0xC0 OR (sar 12 (d AND 0x3FFFF) AND 0x3F))"
    "p2 = ucast (0x80 OR (sar 6 (d AND 0x3FFFF) AND 0x3F))" "p3 = ucast (0x40 OR ((d AND 0x3FFFF) AND 0x3F))"
    using assms by (auto simp: FormIoPacketAGS_def Let_def split: if_splits)
  show "p0 AND 0xC0 = 0" "p1 AND 0xC0 = 0xC0" "p2 AND 0xC0 = 0x80" "p3 AND 0xC0 = 0x40"
    unfolding p by (rule u8_eq_bitsI; simp add: bit_simps b)+
  show "ParseIoPacketAGS (p0, p1, p2, p3) = Some (t, d AND 0x3FFFF)"
    using ParseIoPacketAGS_FormIoPacketAGS [OF t, of d] assms by auto
qed

lemma ReceiveBytes_packet:
  assumes "n < 4" "FormIoPacketAGS t d = Some (p0, p1, p2, p3)"
  shows "ReceiveBytes (p0 # p1 # p2 # p3 # rest) n n P = (rest, 4, P(0 := p0, 1 := p1, 2 := p2, 3 := p3))"
proof -
  note b = FormIoPacketAGS_bytes [OF assms(2)]
  have stop: "ReceiveBytes cs 4 4 Q = (cs, 4, Q)" for cs Q by (cases cs) simp_all
  have "ReceiveBytes (p0 # cs) n n P = ReceiveBytes cs 1 1 (P(0 := p0))" for cs
  proof -
    consider "n = 0" | "n = 1" | "n = 2" | "n = 3" using assms(1) by linarith
    then show ?thesis by cases (simp_all add: b Signatures_def)
  qed
  then show ?thesis
    using stop by (simp add: b Signatures_def numeral_eq_Suc)
qed

text \<open>C32: a packet that a connected peripheral sends is taken from the byte stream and handled, with
  its type and 18 bits of data, whatever incomplete packet came before it; one packet is
  taken from a peripheral at a time, and the bytes after it stay for the next call.\<close>

theorem ReceiveClient_delivers:
  assumes "Connected (Clients State i)" "Size (Clients State i) < 4"
    and "FormIoPacketAGS t d = Some (p0, p1, p2, p3)"
    and "Incoming (Clients State i) = p0 # p1 # p2 # p3 # rest"
  shows "\<exists>P. ReceiveClient i State = InputPacketAGS i t (d AND 0x3FFFF)
    (State\<lparr>Clients := (Clients State)(i := (Clients State i)\<lparr>Incoming := rest, Size := 0, Packet := P\<rparr>)\<rparr>)"
  using assms(1,2,4) ReceiveBytes_packet [OF assms(2,3)] FormIoPacketAGS_bytes(5) [OF assms(3)]
  by (auto simp: ReceiveClient_def Let_def)

lemma ReceiveClient_delivers_witness:
  "\<exists>P. ReceiveClient 3 (ags_start\<lparr>Clients := (\<lambda>_. \<lparr>Connected = True, Incoming = [7, 0xDE, 0x80, 0x40, 9], Size = 2, Packet = (\<lambda>_. 0)\<rparr>)\<rparr>) =
     InputPacketAGS 3 7 0x1E000 (ags_start\<lparr>Clients := (\<lambda>i. if i = 3
       then \<lparr>Connected = True, Incoming = [9], Size = 0, Packet = P\<rparr>
       else \<lparr>Connected = True, Incoming = [7, 0xDE, 0x80, 0x40, 9], Size = 2, Packet = (\<lambda>_. 0)\<rparr>)\<rparr>)"
  using ReceiveClient_delivers [of "ags_start\<lparr>Clients := (\<lambda>_. \<lparr>Connected = True, Incoming = [7, 0xDE, 0x80, 0x40, 9],
      Size = 2, Packet = (\<lambda>_. 0)\<rparr>)\<rparr>" 3 7 "0x1E000" 7 "0xDE" "0x80" "0x40" "[9]"]
  by (simp add: FormIoPacketAGS_def shift_defs word_sless_alt fun_upd_def cong: if_cong)

section \<open>Data from the DEDA\<close>

text \<open>The computer reads the shift register: \<open>OUT 2500\<close> shifts, \<open>INP 2200\<close> reads.\<close>

fun DedaRead :: "nat \<Rightarrow> ags \<Rightarrow> (cint list \<times> ags) option" where
  "DedaRead 0 State = Some ([], State)"
| "DedaRead (Suc n) State =
     (case FetchDedaShift (Output 0x540 0 State) of
        None \<Rightarrow> None
      | Some (v, State) \<Rightarrow> map_option (\<lambda>(vs, State). (v # vs, State)) (DedaRead n State))"

lemma Output_DedaShift: "Output 0x540 v State = State\<lparr>DedaBufferReadout := DedaBufferReadout State + 1\<rparr>"
  by (simp add: Output_def OutputPort_def)

lemma RequestDeda_fields [simp]:
  "DedaBuffer (RequestDeda i State) = DedaBuffer State"
  "DedaBufferCount (RequestDeda i State) = DedaBufferCount State"
  "DedaBufferWanted (RequestDeda i State) = DedaBufferWanted State"
  "DedaBufferReadout (RequestDeda i State) = DedaBufferReadout State"
  by (simp_all add: RequestDeda_def OneChannelOutputAGS_def OneRawChannelOutputAGS_def split: option.split)

lemma RequestDeda_InputPorts [simp]: "InputPorts (RequestDeda i State) = InputPorts State"
  by (simp add: RequestDeda_def OneChannelOutputAGS_def OneRawChannelOutputAGS_def split: option.split)

lemma DedaNibble_collects:
  fixes i :: nat and d :: cint
  assumes "w \<in> {3, 9}" "DedaBufferWanted State = w" "sint (DedaBufferCount State) = int c" "c < unat w"
  defines "S \<equiv> DedaNibble i d State"
  shows "DedaBufferWanted S = w" "sint (DedaBufferCount S) = int (c + 1)"
    and "DedaBuffer S = (DedaBuffer State)(c := d AND 0x1E000)"
    and "c + 1 = unat w \<Longrightarrow> DedaBufferReadout S = -1"
    and "InputPorts S IO_2040 = (if c + 1 = unat w
      then InputPorts State IO_2040 AND NOT (if w = 9 then 0x800 else 0x400) else InputPorts State IO_2040)"
proof -
  have w: "sint w = int (unat w)" "unat w \<le> 9" using assms(1) by auto
  have less: "DedaBufferCount State <s DedaBufferWanted State"
    using assms(1-4) by (auto simp: word_sless_alt)
  have suc: "sint (DedaBufferCount State + 1) = int (c + 1)"
    using assms(3,4) w by (subst sint_plus_small) simp_all
  have i: "uint (DedaBufferCount State) = int c"
    using assms(3) uint_of_nonneg [of "DedaBufferCount State"] by simp
  then have u: "unat (DedaBufferCount State) = c" by (simp add: unat_eq_nat_uint)
  have next_less: "DedaBufferCount State + 1 <s w \<longleftrightarrow> c + 1 \<noteq> unat w"
    using assms(4) by (auto simp only: word_sless_alt suc w(1) of_nat_less_iff)
  show "DedaBufferWanted S = w" "sint (DedaBufferCount S) = int (c + 1)"
    "DedaBuffer S = (DedaBuffer State)(c := d AND 0x1E000)"
    "c + 1 = unat w \<Longrightarrow> DedaBufferReadout S = -1"
    "InputPorts S IO_2040 = (if c + 1 = unat w
      then InputPorts State IO_2040 AND NOT (if w = 9 then 0x800 else 0x400) else InputPorts State IO_2040)"
    using assms(1,2) next_less less suc u
    by (auto simp: S_def DedaNibble_def Let_def)
qed

lemma collect_nibbles:
  fixes i :: nat
  assumes "w \<in> {3, 9}" "DedaBufferWanted State = w" "sint (DedaBufferCount State) = int c"
    and "c + length ds \<le> unat w"
  defines "S \<equiv> fold (DedaNibble i) ds State"
  shows "DedaBufferWanted S = w \<and> sint (DedaBufferCount S) = int (c + length ds) \<and>
    (ds \<noteq> [] \<and> c + length ds = unat w \<longrightarrow> DedaBufferReadout S = -1) \<and>
    InputPorts S IO_2040 = (if ds \<noteq> [] \<and> c + length ds = unat w
      then InputPorts State IO_2040 AND NOT (if w = 9 then 0x800 else 0x400) else InputPorts State IO_2040) \<and>
    (\<forall>k. DedaBuffer S k =
      (if c \<le> k \<and> k < c + length ds then ds ! (k - c) AND 0x1E000 else DedaBuffer State k))"
  using assms(2-4) unfolding S_def
proof (induction ds arbitrary: State c)
  case Nil
  then show ?case by auto
next
  case (Cons d ds)
  have "c < unat w" using Cons.prems(3) by simp
  note S = DedaNibble_collects [OF assms(1) Cons.prems(1,2) this, of i d]
  have IH: "DedaBufferWanted (fold (DedaNibble i) ds (DedaNibble i d State)) = w \<and> 
    sint (DedaBufferCount (fold (DedaNibble i) ds (DedaNibble i d State))) = int (c + 1 + length ds) \<and>
    (ds \<noteq> [] \<and> c + 1 + length ds = unat w \<longrightarrow> DedaBufferReadout (fold (DedaNibble i) ds (DedaNibble i d State)) = -1) \<and>
    InputPorts (fold (DedaNibble i) ds (DedaNibble i d State)) IO_2040 = (if ds \<noteq> [] \<and> c + 1 + length ds = unat w
      then InputPorts (DedaNibble i d State) IO_2040 AND NOT (if w = 9 then 0x800 else 0x400)
      else InputPorts (DedaNibble i d State) IO_2040) \<and>
    (\<forall>k. DedaBuffer (fold (DedaNibble i) ds (DedaNibble i d State)) k =
      (if c + 1 \<le> k \<and> k < c + 1 + length ds then ds ! (k - (c + 1)) AND 0x1E000
       else DedaBuffer (DedaNibble i d State) k))"
    using Cons.prems(3) by (intro Cons.IH [OF S(1,2)]) simp
  show ?case
  proof (cases "ds = []")
    case True
    then show ?thesis using S by (auto simp: nth_Cons')
  next
    case False
    then have "c + 1 \<noteq> unat w" using Cons.prems(3) by (cases ds) auto
    then show ?thesis using IH S(3,5) False by (auto simp: nth_Cons')
  qed
qed

lemma DedaRead_buffer:
  assumes "w \<in> {3, 9}" "DedaBufferWanted State = w" "DedaBufferCount State = w"
    and "sint (DedaBufferReadout State) = int k - 1" "k + n = unat w" "0 < n"
  shows "\<exists>T. DedaRead n State = Some (map (DedaBuffer State) [k..<unat w], T) \<and>
    DedaBufferWanted T = 0 \<and> DedaBufferDefault T = DedaBuffer State (unat w - 1)"
  using assms(2-)
proof (induction n arbitrary: State k)
  case 0
  then show ?case by simp
next
  case (Suc n)
  have w: "unat w \<le> 9" "sint w = int (unat w)" using assms(1) by auto
  define S where "S = Output 0x540 0 State"
  have r: "sint (DedaBufferReadout S) = int k" "sint (DedaBufferReadout S + 1) = int k + 1"
    using Suc.prems(3,4) w unfolding S_def Output_DedaShift
    by (simp_all add: sint_plus_small)
  then have u: "unat (DedaBufferReadout S) = k"
    using uint_of_nonneg [of "DedaBufferReadout S"] by (simp add: unat_eq_nat_uint)
  have S: "DedaBufferWanted S = w" "DedaBufferCount S = w" "DedaBuffer S = DedaBuffer State"
    using Suc.prems by (simp_all add: S_def Output_DedaShift)
  have in_range: "\<not> w \<le>s DedaBufferReadout S" "\<not> DedaBufferReadout S <s 0" "w \<noteq> 0"
    using r w Suc.prems(4,5) assms(1) by (auto simp: word_sless_alt word_sle_eq)
  have last: "DedaBufferReadout S + 1 = w \<longleftrightarrow> n = 0"
  proof -
    have "DedaBufferReadout S + 1 = w \<longleftrightarrow> sint (DedaBufferReadout S + 1) = sint w"
      by (metis signed_word_eqI)
    also have "\<dots> \<longleftrightarrow> n = 0" unfolding r(2) w(2) using Suc.prems(4) by linarith
    finally show ?thesis .
  qed
  have "0 \<le>s DedaBufferReadout S" "DedaBufferReadout S <s 9"
    using r(1) w Suc.prems(4) by (auto simp: word_sless_alt word_sle_eq)
  then have read: "ReadDedaBuffer (DedaBufferReadout S) S = Some (DedaBuffer S k)"
    by (simp add: ReadDedaBuffer_def u)
  obtain v T where F: "FetchDedaShift S = Some (v, T)"
    using read by (cases "FetchDedaShift S") (auto simp: FetchDedaShift_def Let_def split: if_splits)
  have v: "v = DedaBuffer State k"
    and T0: "n = 0 \<Longrightarrow> DedaBufferWanted T = 0 \<and> DedaBufferDefault T = v"
    and T1: "n \<noteq> 0 \<Longrightarrow> DedaBufferWanted T = w \<and> DedaBufferCount T = w \<and> DedaBuffer T = DedaBuffer S \<and>
      DedaBufferReadout T = DedaBufferReadout S"
    using F S in_range last u assms(1) read
    by (auto simp: FetchDedaShift_def Let_def ResetDedaBuffer_def word_sless_alt split: if_splits)
  have D: "DedaRead (Suc n) State = map_option (\<lambda>(vs, State). (v # vs, State)) (DedaRead n T)"
    by (simp add: S_def [symmetric] F)
  show ?case
  proof (cases "n = 0")
    case True
    then have "unat w = Suc k" using Suc.prems(4) by simp
    then show ?thesis using D v T0 True by simp
  next
    case False
    then have "\<exists>U. DedaRead n T = Some (map (DedaBuffer T) [k + 1..<unat w], U) \<and>
        DedaBufferWanted U = 0 \<and> DedaBufferDefault U = DedaBuffer T (unat w - 1)"
      using T1 r(1) Suc.prems(4) by (intro Suc.IH) simp_all
    moreover have "[k..<unat w] = k # [k + 1..<unat w]"
      using Suc.prems(4) False by (simp add: upt_conv_Cons)
    ultimately show ?thesis using D v T1 S False by auto
  qed
qed

lemma DedaKeys_request:
  assumes "(key AND 0x804 = 4 \<and> w = 9) \<or> (key AND 0x804 \<noteq> 4 \<and> key AND 0x402 = 2 \<and> w = 3)"
  shows "DedaBufferWanted (InputPacketAGS i 5 key State) = w"
    and "DedaBufferCount (InputPacketAGS i 5 key State) = 0"
    and "bit (InputPorts (InputPacketAGS i 5 key State) IO_2040) (if w = 9 then 11 else 10)"
proof -
  have b: "key AND 0x804 = 4 \<Longrightarrow> bit key 2" "key AND 0x402 = 2 \<Longrightarrow> bit key 1"
  proof -
    assume "key AND 0x804 = 4"
    then have "bit (key AND 0x804) 2" by simp
    then show "bit key 2" by (simp add: bit_and_iff)
  next
    assume "key AND 0x402 = 2"
    then have "bit (key AND 0x402) 1" by simp
    then show "bit key 1" by (simp add: bit_and_iff)
  qed
  show "DedaBufferWanted (InputPacketAGS i 5 key State) = w"
    "DedaBufferCount (InputPacketAGS i 5 key State) = 0"
    "bit (InputPorts (InputPacketAGS i 5 key State) IO_2040) (if w = 9 then 11 else 10)"
    using assms b by (auto simp: InputPacketAGS_def DedaKeys_def DiscreteInput_def Let_def
        bit_or_iff bit_and_iff bit_not_iff bit_shl mask_bits)
qed

text \<open>C35: data typed on the DEDA reaches the program in order: after ENTR (or READ OUT) is pressed and
  the peripheral has sent nine (or three) nibbles, the program reads exactly these nibbles, one
  after each shift, and the transfer is over.  The key becomes visible to the program, as a
  cleared bit of its discrete inputs, with the last nibble and not before.\<close>

theorem DEDA_transfer:
  assumes "(key AND 0x804 = 4 \<and> w = 9) \<or> (key AND 0x804 \<noteq> 4 \<and> key AND 0x402 = 2 \<and> w = 3)"
    and "length ds = w"
  shows "let collected = (\<lambda>k. fold (InputPacketAGS i 7) (take k ds) (InputPacketAGS i 5 key State))
    in (\<forall>k \<le> w. bit (InputPorts (collected k) IO_2040) (if w = 9 then 11 else 10) \<longleftrightarrow> k < w) \<and>
       (\<exists>State'. DedaRead w (collected w) = Some (map (\<lambda>d. d AND 0x1E000) ds, State') \<and>
          DedaBufferWanted State' = 0)"
proof -
  define v where "v = (of_nat w :: cint)"
  have v: "v \<in> {3, 9}" "unat v = w" "v = 9 \<longleftrightarrow> w = 9" using assms(1) by (auto simp: v_def)
  have w: "w \<noteq> 0" using assms(1) by auto
  let ?P = "InputPacketAGS i 5 key State"
  have fold7: "InputPacketAGS i 7 = DedaNibble i"
    by (intro ext) (simp add: InputPacketAGS_def)
  have P: "DedaBufferWanted ?P = v" "sint (DedaBufferCount ?P) = int 0"
    using DedaKeys_request(1,2) [of key v i State] assms(1) by (auto simp: v_def)
  have B: "bit (InputPorts ?P IO_2040) (if w = 9 then 11 else 10)"
    using DedaKeys_request(3) [of key v i State] assms(1) by (auto simp: v_def)
  note C = collect_nibbles [OF v(1) P, of "take k ds" i for k]
  have key: "bit (InputPorts (fold (DedaNibble i) (take k ds) ?P) IO_2040) (if w = 9 then 11 else 10) \<longleftrightarrow> k < w"
    if "k \<le> w" for k
    using C [of k] that B assms(2) w v by (auto simp: bit_and_iff bit_not_iff mask_bits)
  have all: "take w ds = ds" using assms(2) by simp
  let ?S = "fold (DedaNibble i) ds ?P"
  have S: "DedaBufferWanted ?S = v" "sint (DedaBufferCount ?S) = sint v" "DedaBufferReadout ?S = -1"
    "\<And>k. k < w \<Longrightarrow> DedaBuffer ?S k = ds ! k AND 0x1E000"
    using C [of w, unfolded all] assms(2) w v by auto
  have R: "\<exists>T. DedaRead w ?S = Some (map (DedaBuffer ?S) [0..<unat v], T) \<and>
      DedaBufferWanted T = 0 \<and> DedaBufferDefault T = DedaBuffer ?S (unat v - 1)"
    using S w v(2) by (intro DedaRead_buffer [OF v(1)]) (auto intro: signed_word_eqI)
  have "map (DedaBuffer ?S) [0..<unat v] = map (\<lambda>d. d AND 0x1E000) ds"
    by (rule nth_equalityI) (simp_all add: v(2) assms(2) S(4))
  then show ?thesis
    unfolding Let_def fold7 using key R by (auto simp: all)
qed

lemma DEDA_transfer_witness:
  "\<exists>State. DedaRead 3 (fold (InputPacketAGS 0 7) [0x2000, 0x5FFF, 0x6000] (InputPacketAGS 0 5 2 ags_start)) =
     Some ([0x2000, 0x4000, 0x6000], State)"
  using DEDA_transfer [of 2 3 "[0x2000, 0x5FFF, 0x6000]" 0 ags_start]
  unfolding Let_def by (auto simp del: fold_simps DedaRead.simps)

section \<open>Images and core dumps\<close>

lemma LoadNumbers_result: "fst (LoadNumbers fs ns State) = (if length ns < length fs then 5 else 0)"
  by (induction fs ns State rule: LoadNumbers.induct) auto

lemma LoadNumbers_append:
  "length fs \<le> length ns \<Longrightarrow>
   LoadNumbers (fs @ gs) ns State = LoadNumbers gs (drop (length fs) ns) (snd (LoadNumbers fs ns State))"
  by (induction fs ns State rule: LoadNumbers.induct) auto

lemma LoadNumbers_frame:
  assumes "\<And>f n S. f \<in> set fs \<Longrightarrow> g (f n S) = g S"
  shows "g (snd (LoadNumbers fs ns State)) = g State"
  using assms by (induction fs ns State rule: LoadNumbers.induct) auto

lemma LoadNumbers_memory:
  assumes "b \<le> length ns"
  shows "Memory (snd (LoadNumbers (map (\<lambda>i n. set_mem i (of_nat n AND 0x3FFFF)) [a..<a + b]) ns State)) =
    (\<lambda>k. if a \<le> k \<and> k < a + b then of_nat (ns ! (k - a)) AND 0x3FFFF else Memory State k)"
  using assms
proof (induction b arbitrary: a ns State)
  case (Suc b)
  obtain n ms where n: "ns = n # ms" using Suc.prems by (cases ns) auto
  have "[a..<a + Suc b] = a # [Suc a..<Suc a + b]" by (simp add: upt_conv_Cons)
  then show ?case
    using Suc.IH [of ms "Suc a"] Suc.prems by (auto simp: n fun_eq_iff nth_Cons')
qed (auto simp: fun_eq_iff)

text \<open>The initialisation refuses an image whose size is no multiple of four bytes (3) or that is
  larger than memory (2), and otherwise reads a core dump of 2088 numbers: the two groups of
  17 ports, the 2048 words of erasable memory, which replace those of the image, and six
  registers.  A shorter dump is refused with 5, and this is what happens to every dump that the
  program itself writes, because it writes 17 words of memory only.\<close>

theorem core_dump_refused:
  "let (r, State') = aea_engine_init (Some rom) (Some (Some ns)) State;
       image = (\<lambda>a. if a < length (ImageWords rom) then ImageWords rom ! a else Memory State a)
   in r = (if length rom mod 4 \<noteq> 0 then 3 else if 0x1000 < length rom div 4 then 2
           else if length ns < 2088 then 5 else 0) \<and>
      (r = 0 \<longrightarrow> Memory State' = (\<lambda>a. if a < 0x800 then of_nat (ns ! (34 + a)) AND 0x3FFFF else image a)) \<and>
      (ns = MakeCoreDumpAGS T \<longrightarrow> r \<noteq> 0)"
proof -
  have len: "length (LoadPorts @ LoadMemory @ LoadRegisters) = 2088" "length LoadPorts = 34"
    "length LoadMemory = 2048"
    by (simp_all add: LoadPorts_def LoadMemory_def LoadRegisters_def del: upt_rec_numeral)
  have r: "fst (LoadCoreDumpAGS ns S) = (if length ns < 2088 then 5 else 0)" for S
    by (simp add: LoadCoreDumpAGS_def LoadNumbers_result len del: length_append)
  have dump: "length (MakeCoreDumpAGS T) = 57"
    by (simp add: MakeCoreDumpAGS_def del: upt_rec_numeral)
  have mem: "Memory (snd (LoadCoreDumpAGS ns S)) = 
      (\<lambda>a. if a < 0x800 then of_nat (ns ! (34 + a)) AND 0x3FFFF else Memory S a)"
    if "2088 \<le> length ns" for S
  proof -
    let ?P = "snd (LoadNumbers LoadPorts ns S)"
    let ?M = "snd (LoadNumbers LoadMemory (drop 34 ns) ?P)"
    have "Memory ?P = Memory S"
      by (rule LoadNumbers_frame) (auto simp: LoadPorts_def)
    moreover have "Memory ?M = (\<lambda>k. if k < 0x800 then of_nat (drop 34 ns ! k) AND 0x3FFFF else Memory ?P k)"
      using LoadNumbers_memory [where b = "0x800" and ns = "drop 34 ns" and a = 0 and State = ?P] that
      by (simp add: LoadMemory_def del: upt_rec_numeral cong: if_cong)
    moreover have "Memory (snd (LoadNumbers LoadRegisters (drop (34 + 2048) ns) ?M)) = Memory ?M"
      by (rule LoadNumbers_frame) (auto simp: LoadRegisters_def)
    moreover have "LoadCoreDumpAGS ns S = LoadNumbers LoadRegisters (drop (34 + 2048) ns) ?M"
    proof -
      have "LoadCoreDumpAGS ns S = LoadNumbers (LoadMemory @ LoadRegisters) (drop 34 ns) ?P"
        unfolding LoadCoreDumpAGS_def using that len(2) LoadNumbers_append [of LoadPorts ns "LoadMemory @ LoadRegisters" S]
        by simp
      also have "\<dots> = LoadNumbers LoadRegisters (drop 2048 (drop 34 ns)) ?M"
        using that len(3) LoadNumbers_append [of LoadMemory "drop 34 ns" LoadRegisters ?P] by simp
      finally show ?thesis by (simp add: add.commute)
    qed
    ultimately show ?thesis using that by (simp cong: if_cong)
  qed
  have I: "Memory (ResetAGS (LoadImage rom State)) =
      (\<lambda>a. if a < length (ImageWords rom) then ImageWords rom ! a else Memory State a)"
    by (simp add: ResetAGS_def LoadImage_def Let_def)
  show ?thesis
  proof (cases "length rom mod 4 = 0 \<and> length rom div 4 \<le> 0x1000")
    case True
    then have "aea_engine_init (Some rom) (Some (Some ns)) State =
        LoadCoreDumpAGS ns (ResetAGS (LoadImage rom State))"
      by (simp add: aea_engine_init_def)
    then show ?thesis
      using True r [of "ResetAGS (LoadImage rom State)"] mem [of "ResetAGS (LoadImage rom State)"] dump
      unfolding Let_def split_beta by (auto simp: I)
  next
    case False
    then show ?thesis by (auto simp: aea_engine_init_def)
  qed
qed

lemma core_dump_refused_witness:
  "let (r, State') = aea_engine_init (Some []) (Some (Some (replicate 2088 7))) ags_start
   in r = 0 \<and> Memory State' 5 = 7"
  using core_dump_refused [of "[]" "replicate 2088 7" ags_start ags_start]
  unfolding Let_def split_beta length_replicate by simp

section \<open>When the processor returns\<close>

text \<open>C6: an instruction has a result, from any state that keeps the invariant, except in one case,
  which is exactly this: a division whose divisor is not zero and is smaller in magnitude than the
  accumulator, and whose quotient, rounded down, does not fit the C type \<open>int\<close> or is not
  \<open>0377777\<close> in its 18 low bits while the rounded quotient does not fit.  In particular a
  division by zero has a result, because the code does not divide then, and no input instruction
  reads outside the buffer of the DEDA.\<close>

theorem RunInstructionAGS_returns:
  assumes "ags_ok State"
  shows "let i = Memory State (unat (ProgramCounter State));
      y = FetchMemory State (0 \<noteq> i AND 0x1000) (i AND 0xFFF);
      a = ags_value (Accumulator State); D = DoubleWord State; d = ags_value y; q = D div d
    in RunInstructionAGS State = None \<longleftrightarrow>
      sar 12 i AND 0x3E = 4 \<and> d \<noteq> 0 \<and> \<bar>d\<bar> < \<bar>a\<bar> \<and>
      (\<not> fits_int q \<or> q mod 2 ^ 18 \<noteq> 0x1FFFF \<and> \<not> fits_int ((D + d sdiv 2) div d))"
proof -
  define i where "i = Memory State (unat (ProgramCounter State))"
  define y where "y = FetchMemory State (0 \<noteq> i AND 0x1000) (i AND 0xFFF)"
  have y: "word18 y" using assms by (simp add: y_def FetchMemory_def)
  have E: "ExecuteAGS op f y (r, State) \<noteq> None" if "op \<noteq> 4" for op f r
    using that Input_ok [OF assms, of f] by (auto simp: ExecuteAGS_def Let_def split: prod.split)
  have E4: "ExecuteAGS 4 f y (r, State) = map_option (Pair r) (ags_DVP y State)" for f r
    by (simp add: ExecuteAGS_def)
  have "RunInstructionAGS State = None \<longleftrightarrow> ExecuteAGS (sar 12 i AND 0x3E) (i AND 0xFFF) y
      (\<lparr>NewProgramCounter = (ProgramCounter State + 1) AND 0xFFF, NewValueForY = y,
        MicrosecondsThisInstruction = InstructionTimingAGS ! unat (sar 1 (sar 12 i AND 0x3E))\<rparr>, State) = None"
    by (simp add: RunInstructionAGS_def Let_def i_def [symmetric] y_def FetchMemory_def split: option.split prod.split)
  then have R: "RunInstructionAGS State = None \<longleftrightarrow> sar 12 i AND 0x3E = 4 \<and> ags_DVP y State = None"
    using E E4 by (cases "sar 12 i AND 0x3E = 4") simp_all
  show ?thesis
    unfolding Let_def i_def [symmetric] y_def [symmetric] R
    using DVP_undefined [OF ags_okD(1) [OF assms] y] by blast
qed

text \<open>A division of zero by zero returns, one of \<open>-2 ^ 34\<close> by 1 does not, one of
  \<open>2 ^ 18\<close> by 1 does.\<close>

lemma RunInstructionAGS_returns_witness:
  "let State = (\<lambda>a y. ags_start\<lparr>Accumulator := a, Memory := (\<lambda>_. 0)(0 := 0x4005, 5 := y)\<rparr>)
   in RunInstructionAGS (State 0 0) \<noteq> None \<and> RunInstructionAGS (State 0x20000 1) = None \<and>
      RunInstructionAGS (State 2 1) \<noteq> None"
proof -
  define S where "S a y = ags_start\<lparr>Accumulator := a, Memory := (\<lambda>_. 0)(0 := 0x4005, 5 := y)\<rparr>" for a y
  have ok: "ags_ok (S a y)" if "word18 a" "word18 y" for a y
    using that ags_start_ok by (simp add: S_def words_ok_def)
  have fields: "ProgramCounter (S a y) = 0" "Memory (S a y) 0 = 0x4005" "Accumulator (S a y) = a"
    "FetchMemory (S a y) False 5 = y" "DoubleWord (S a y) = 2 ^ 17 * ags_value a" for a y
    by (simp_all add: S_def FetchMemory_def IndexMemory_def DoubleWord_def ags_start_def ags_zero_def ags_t.defs)
  have op: "sar 12 0x4005 AND 0x3E = (4 :: cint)" by (simp add: shift_defs)
  have R: "RunInstructionAGS (S a y) = None \<longleftrightarrow> ags_value y \<noteq> 0 \<and> \<bar>ags_value y\<bar> < \<bar>ags_value a\<bar> \<and>
      (let D = 2 ^ 17 * ags_value a; q = D div ags_value y
       in \<not> fits_int q \<or> q mod 2 ^ 18 \<noteq> 0x1FFFF \<and> \<not> fits_int ((D + ags_value y sdiv 2) div ags_value y))"
    if "word18 a" "word18 y" for a y
    using RunInstructionAGS_returns [OF ok [OF that]] by (simp add: fields op Let_def)
  have "ags_value 0 = 0" "ags_value 1 = 1" "ags_value 2 = 2" "ags_value 0x20000 = - 0x20000"
    by (simp_all add: ags_value_top)
  then show ?thesis
    unfolding Let_def S_def [symmetric] by (simp add: R Let_def signed_divide_int_def)
qed

section \<open>Waiting for the 20 ms signal\<close>

text \<open>Calling \<open>aea_engine\<close> a number of times.\<close>

fun engine_calls :: "nat \<Rightarrow> ags \<Rightarrow> ags option" where
  "engine_calls 0 State = Some State"
| "engine_calls (Suc n) State =
     (case aea_engine State of None \<Rightarrow> None | Some (m, State) \<Rightarrow> engine_calls n State)"

lemma halted_step:
  assumes "Halt State \<noteq> 0" "CycleCounter State < Next20msSignal State"
  obtains c where "aea_engine State = Some (10, State\<lparr>CycleCounter := CycleCounter State + 10, Count := c\<rparr>)"
proof -
  have "\<exists>c. aea_engine State = Some (10, State\<lparr>CycleCounter := CycleCounter State + 10, Count := c\<rparr>)"
    using assms by (auto simp: aea_engine_def Signal20ms_def SpendTime_def Let_def)
  then show ?thesis using that by blast
qed

lemma halted_calls:
  assumes "Halt State \<noteq> 0" "unat (Next20msSignal State) < 2 ^ 63"
    and "k = 0 \<or> unat (CycleCounter State) + 10 * (k - 1) < unat (Next20msSignal State)"
  shows "\<exists>c. engine_calls k State = Some (State\<lparr>CycleCounter := CycleCounter State + 10 * of_nat k, Count := c\<rparr>)"
  using assms
proof (induction k arbitrary: State)
  case 0
  have "engine_calls 0 State =
      Some (State\<lparr>CycleCounter := CycleCounter State + 10 * of_nat 0, Count := Count State\<rparr>)"
    by simp
  then show ?case by blast
next
  case (Suc k)
  have less: "CycleCounter State < Next20msSignal State"
    using Suc.prems(3) by (simp add: word_less_nat_alt)
  obtain c where c: "aea_engine State = Some (10, State\<lparr>CycleCounter := CycleCounter State + 10, Count := c\<rparr>)"
    using halted_step [OF Suc.prems(1) less] .
  let ?S = "State\<lparr>CycleCounter := CycleCounter State + 10, Count := c\<rparr>"
  have "unat (CycleCounter State + 10) = unat (CycleCounter State) + 10"
    using Suc.prems(2,3) by (subst unat_add_lem [THEN iffD1]) simp_all
  then have "\<exists>c. engine_calls k ?S = Some (?S\<lparr>CycleCounter := CycleCounter ?S + 10 * of_nat k, Count := c\<rparr>)"
    using Suc.prems by (intro Suc.IH) auto
  then show ?case by (simp add: c algebra_simps)
qed

text \<open>DLY: a halted computer does nothing but count time until the next 20 ms signal, which the
  following call finds; that call ends the halt, schedules the signal after it and executes the
  instruction at the program counter.\<close>

theorem DLY_waits:
  assumes "Halt State \<noteq> 0" "unat (Next20msSignal State) < 2 ^ 63"
    and "unat (CycleCounter State) \<le> unat (Next20msSignal State)"
  shows "let k = (unat (Next20msSignal State) - unat (CycleCounter State) + 9) div 10
    in \<exists>c T. engine_calls k State = Some T \<and>
      T = State\<lparr>CycleCounter := CycleCounter State + 10 * of_nat k, Count := c\<rparr> \<and>
      (\<exists>d. aea_engine T = RunInstructionAGS (ChannelInputAGS
         (T\<lparr>Count := d, Next20msSignal := Next20msSignal State + 20480, Halt := 0\<rparr>)))"
proof -
  define n where "n = unat (Next20msSignal State) - unat (CycleCounter State)"
  define k where "k = (n + 9) div 10"
  have k: "10 * k \<le> n + 9" "n \<le> 10 * k" by (auto simp: k_def)
  have "k = 0 \<or> unat (CycleCounter State) + 10 * (k - 1) < unat (Next20msSignal State)"
    using k(1) assms(3) by (auto simp: n_def)
  then obtain c where c: "engine_calls k State =
      Some (State\<lparr>CycleCounter := CycleCounter State + 10 * of_nat k, Count := c\<rparr>)"
    using halted_calls [OF assms(1,2)] by blast
  let ?T = "State\<lparr>CycleCounter := CycleCounter State + 10 * of_nat k, Count := c\<rparr>"
  have "unat (CycleCounter State + 10 * of_nat k) = unat (CycleCounter State) + 10 * k"
  proof -
    have "CycleCounter State + 10 * of_nat k = of_nat (unat (CycleCounter State) + 10 * k)"
      by simp
    moreover have "unat (CycleCounter State) + 10 * k < 2 ^ LENGTH(64)"
      using k(1) assms(2,3) by (simp add: n_def)
    ultimately show ?thesis by (simp only: unat_of_nat take_bit_nat_eq_self mod_less)
  qed
  then have "Next20msSignal State \<le> CycleCounter State + 10 * of_nat k"
    using k(2) assms(3) by (simp add: word_le_nat_alt n_def)
  then have "\<exists>d. aea_engine ?T = RunInstructionAGS (ChannelInputAGS
      (?T\<lparr>Count := d, Next20msSignal := Next20msSignal State + 20480, Halt := 0\<rparr>))"
    using assms(1) by (auto simp: aea_engine_def Signal20ms_def Let_def)
  then show ?thesis
    unfolding Let_def n_def [symmetric] k_def [symmetric] using c by blast
qed

lemma DLY_waits_witness:
  "\<exists>c T. engine_calls 2048 (ags_start\<lparr>Halt := 1, Next20msSignal := 20480\<rparr>) = Some T \<and>
     CycleCounter T = 20480 \<and> Halt T = 1 \<and> Count T = c"
proof -
  let ?S = "ags_start\<lparr>Halt := 1, Next20msSignal := 20480\<rparr>"
  have "CycleCounter ?S = 0" by (simp add: ags_start_def ags_zero_def ags_t.defs)
  then show ?thesis
    using DLY_waits [of ?S] by (auto simp: Let_def)
qed

end
