(* ===== verification/B1_State.thy ===== *)
theory B1_State
  imports AGC_Arith Packets
begin

text \<open>
  The state of yaAGCb1, the emulator of the Block I guidance computer: the structure
  \<open>agcBlock1_t\<close> of \<open>src/yaAGCb1/yaAGCb1.h\<close>, extended by the variables with static storage of
  \<open>executeOneInstruction.c\<close>, \<open>main.c\<close> and \<open>SocketAPI.c\<close> to the record \<open>b1\<close>, and the helpers that
  work on single cells.  All of memory, erasable and fixed, is one array of \<open>041 * 02000\<close> words
  under a flat address; the registers are its first cells.  \<open>fromYaAGC.c\<close> repeats functions of
  \<open>agc_engine.c\<close> word for word; those with the same types are taken from \<open>AGC_Arith\<close>.
  A client is a peripheral behind a socket, with the bytes that \<open>recv\<close> has not returned yet;
  \<open>Sent\<close> lists what was sent, with the number of the client.
\<close>

unbundle bit_operations_syntax

section \<open>Records\<close>

record agcBlock1_t =
  memory :: "nat \<Rightarrow> u16"
  INDEX :: u16
  INTERRUPTED :: u16
  B :: u16
  ruptFlatAddress :: u16
  ruptLastINDEX :: u16
  ruptLastZ :: u16
  overflowedTIME3 :: u16
  overflowedTIME4 :: u16
  uplinkReady :: u16
  downlinkReady :: u16
  countMCT :: u64
  startTimeNanoseconds :: "64 word"
  pausedNanoseconds :: "64 word"
  startOfPause :: "64 word"
  instructionCountDown :: cint

record Client_t =
  Connected :: bool
  Incoming :: "u8 list"
  Size :: nat
  Packet :: "nat \<Rightarrow> u8"
  ChannelMasks :: "nat \<Rightarrow> cint"

record b1 = agcBlock1_t +
  breaksOrWatches :: "nat \<Rightarrow> cint"
  numBreaksOrWatches :: nat
  numMCT :: cint
  lastINDEX :: u16
  lastZ :: u16
  lastInstruction :: u16
  nextTimerIncrement :: u64
  defaultErasable :: u16
  dskyRelayBuffer :: "nat \<Rightarrow> u16"
  SocketInterlace :: cint
  SocketInterlaceReload :: cint
  Clients :: "nat \<Rightarrow> Client_t"
  TimeoutCount :: cint
  Sent :: "(nat \<times> u8 list) list"

abbreviation (input) MEMORY_WORDS :: nat where "MEMORY_WORDS \<equiv> 33792"
abbreviation (input) MEMORY_SIZE :: nat where "MEMORY_SIZE \<equiv> 29696"
abbreviation (input) MAX_CLIENTS :: nat where "MAX_CLIENTS \<equiv> 10"
abbreviation (input) BREAK_UININITIALIZED :: cint where "BREAK_UININITIALIZED \<equiv> 0x40000"

text \<open>Static storage when the program starts.\<close>

definition b1_zero :: b1 where
  "b1_zero = \<lparr>memory = (\<lambda>_. 0), INDEX = 0, INTERRUPTED = 0, B = 0, ruptFlatAddress = 0,
     ruptLastINDEX = 0, ruptLastZ = 0, overflowedTIME3 = 0, overflowedTIME4 = 0, uplinkReady = 0,
     downlinkReady = 0, countMCT = 0, startTimeNanoseconds = 0, pausedNanoseconds = 0,
     startOfPause = 0, instructionCountDown = 0, breaksOrWatches = (\<lambda>_. 0),
     numBreaksOrWatches = 0, numMCT = 0, lastINDEX = 0, lastZ = 0, lastInstruction = 0,
     nextTimerIncrement = 1280, defaultErasable = 0, dskyRelayBuffer = (\<lambda>_. 0),
     SocketInterlace = 0, SocketInterlaceReload = 50,
     Clients = (\<lambda>_. \<lparr>Connected = False, Incoming = [], Size = 0, Packet = (\<lambda>_. 0),
       ChannelMasks = (\<lambda>_. 0)\<rparr>),
     TimeoutCount = 0, Sent = []\<rparr>"

section \<open>Registers\<close>

abbreviation (input) regA :: nat where "regA \<equiv> 0"
abbreviation (input) regQ :: nat where "regQ \<equiv> 1"
abbreviation (input) regZ :: nat where "regZ \<equiv> 2"
abbreviation (input) regLP :: nat where "regLP \<equiv> 3"
abbreviation (input) regIN0 :: nat where "regIN0 \<equiv> 4"
abbreviation (input) regIN2 :: nat where "regIN2 \<equiv> 6"
abbreviation (input) regOUT1 :: nat where "regOUT1 \<equiv> 0x9"
abbreviation (input) regBank :: nat where "regBank \<equiv> 0xD"
abbreviation (input) regInhint :: nat where "regInhint \<equiv> 0xF"
abbreviation (input) regCYR :: nat where "regCYR \<equiv> 0x10"
abbreviation (input) regSR :: nat where "regSR \<equiv> 0x11"
abbreviation (input) regCYL :: nat where "regCYL \<equiv> 0x12"
abbreviation (input) regSL :: nat where "regSL \<equiv> 0x13"
abbreviation (input) regZRUPT :: nat where "regZRUPT \<equiv> 0x14"
abbreviation (input) regBRUPT :: nat where "regBRUPT \<equiv> 0x15"
abbreviation (input) ctrOVCTR :: nat where "ctrOVCTR \<equiv> 0x1C"
abbreviation (input) ctrTIME2 :: nat where "ctrTIME2 \<equiv> 0x1D"
abbreviation (input) ctrTIME1 :: nat where "ctrTIME1 \<equiv> 0x1E"
abbreviation (input) ctrTIME3 :: nat where "ctrTIME3 \<equiv> 0x1F"
abbreviation (input) ctrTIME4 :: nat where "ctrTIME4 \<equiv> 0x20"

definition wr :: "nat \<Rightarrow> u16 \<Rightarrow> b1 \<Rightarrow> b1" where
  "wr k v st = st\<lparr>memory := (memory st)(k := v)\<rparr>"

text \<open>Reading beyond the array is undefined in C: \<open>None\<close>.\<close>

definition rd :: "nat \<Rightarrow> b1 \<Rightarrow> u16 option" where
  "rd k st = (if k < MEMORY_WORDS then Some (memory st k) else None)"

definition flatten :: "cint \<Rightarrow> cint \<Rightarrow> cint" where
  "flatten bank offset = (if bank = 0 then offset else bank + (offset AND 0x3FF))"

section \<open>Words\<close>

definition b1_SignExtend :: "u16 \<Rightarrow> u16" where
  "b1_SignExtend Word = (Word AND 0x7FFF) OR (shl 1 Word AND 0x8000)"

definition b1_AddSP16 :: "u16 \<Rightarrow> u16 \<Rightarrow> u16" where
  "b1_AddSP16 Addend1 Addend2 =
     (let Sum = int_of_u16 Addend1 + int_of_u16 Addend2
      in if Sum AND 0x10000 \<noteq> 0 then i16_of_int ((Sum + AGC_P1) AND 0xFFFF)
         else i16_of_int Sum)"

definition fixUcForWriting :: "u16 \<Rightarrow> u16" where
  "fixUcForWriting v = (v AND 0x3FFF) OR shr 1 (v AND 0x8000)"

section \<open>Output to the peripherals\<close>

definition b1_FormIoPacket :: "cint \<Rightarrow> cint \<Rightarrow> packet option" where
  "b1_FormIoPacket Channel Value =
     (if Channel <s 0 \<or> 0x7FFF <s Channel then None
      else if Value <s 0 \<or> 0x7FFF <s Value then None
      else Some
        (ucast (sar 3 Channel),
         ucast (0x40 OR (shl 3 Channel AND 0x38) OR (sar 12 Value AND 0x07)),
         ucast (0x80 OR (sar 6 Value AND 0x3F)),
         ucast (0xC0 OR (Value AND 0x3F))))"

definition packet_bytes :: "packet \<Rightarrow> u8 list" where
  "packet_bytes = (\<lambda>(p0, p1, p2, p3). [p0, p1, p2, p3])"

definition b1_send :: "u8 list \<Rightarrow> nat \<Rightarrow> b1 \<Rightarrow> b1" where
  "b1_send bytes i st =
     (if Connected (Clients st i) then st\<lparr>Sent := Sent st @ [(i, bytes)]\<rparr> else st)"

definition b1_ChannelOutput :: "cint \<Rightarrow> cint \<Rightarrow> b1 \<Rightarrow> b1" where
  "b1_ChannelOutput Channel Value st =
     (let st = (if Channel = 0x8
                then st\<lparr>dskyRelayBuffer :=
                       (dskyRelayBuffer st)(unat (sar 11 Value AND 0xF) := ucast Value)\<rparr>
                else st)
      in case b1_FormIoPacket Channel Value of
           None \<Rightarrow> st
         | Some p \<Rightarrow> fold (b1_send (packet_bytes p)) [0..<MAX_CLIENTS] st)"

section \<open>Cells\<close>

definition writeToErasableOrRegister :: "u16 \<Rightarrow> u16 \<Rightarrow> b1 \<Rightarrow> b1" where
  "writeToErasableOrRegister flatAddress value st =
     (let value = (if 4 \<le> flatAddress then value AND 0x7FFF else value);
          st = (if flatAddress = 0xD then wr (unat flatAddress) (value AND 0x7C00) st
                else if flatAddress < 0x400 then wr (unat flatAddress) value st
                else st)
      in if 0x8 \<le> flatAddress \<and> flatAddress \<le> 0xC
         then b1_ChannelOutput (int_of_u16 flatAddress) (int_of_u16 value) st
         else st)"

definition implementationError :: "b1 \<Rightarrow> b1" where
  "implementationError st =
     (wr regZ (lastZ st) st)\<lparr>instructionCountDown := 1, numMCT := 0, INDEX := lastINDEX st\<rparr>"

definition incrementZ :: "u16 \<Rightarrow> b1 \<Rightarrow> b1" where
  "incrementZ increment st =
     wr regZ ((memory st regZ AND 0xC00) + ((memory st regZ + increment) AND 0x3FF)) st"

definition incTimerCheckOverflow :: "nat \<Rightarrow> b1 \<Rightarrow> cint \<times> b1" where
  "incTimerCheckOverflow timer st =
     (let st = st\<lparr>countMCT := countMCT st + 1\<rparr>;
          st = wr timer (memory st timer + 1) st
      in if memory st timer = 0x4000 then (1, wr timer 0 st) else (0, st))"

definition edit :: "u16 \<Rightarrow> b1 \<Rightarrow> b1" where
  "edit flatAddress st =
     (if flatAddress = 3 then
        let b1 = memory st regLP AND 1
        in wr regLP ((shr 1 (memory st regLP) AND 0x1FFF) OR shl 15 b1 OR shl 14 b1) st
      else if flatAddress = 0x10 then
        wr regCYR (shl 14 (memory st regCYR AND 1) OR shr 1 (memory st regCYR AND 0x7FFF)) st
      else if flatAddress = 0x11 then
        wr regSR ((memory st regSR AND 0x4000) OR shr 1 (memory st regSR)) st
      else if flatAddress = 0x12 then
        wr regCYL (shr 14 (memory st regCYL AND 0x4000) OR (shl 1 (memory st regCYL) AND 0x7FFF)) st
      else if flatAddress = 0x13 then
        wr regSL ((shl 1 (memory st regSL) AND 0x3FFE) OR shr 15 (memory st regSL AND 0x8000)) st
      else st)"

end
