(* ===== verification/B1_Engine.thy ===== *)
theory B1_Engine
  imports B1_State "HOL-Library.Signed_Division"
begin

text \<open>
  \<open>executeOneInstruction\<close> of \<open>src/yaAGCb1/executeOneInstruction.c\<close>.  The function has two
  labels to which it jumps back: \<open>retry\<close>, after an interrupt has been taken, and
  \<open>resumeFromInterrupt\<close>, with the instruction that \<open>RESUME\<close> brings back.  \<open>b1_pass\<close> is the code from
  one of these labels (a \<open>b1_point\<close>, with the local variables that are live there) to the next
  jump or to the end; \<open>b1_run\<close> repeats it as often as its fuel allows.  The local
  variable \<open>operand\<close> is read by the breakpoint test before it is set: its indeterminate initial
  value is an argument.  \<open>Crash\<close> is undefined behaviour of C: a read outside of the memory or a
  division by zero.  Messages and the log file are left out.
\<close>

unbundle bit_operations_syntax

section \<open>Instructions\<close>

definition b1_TC :: "u16 \<Rightarrow> u16 \<Rightarrow> b1 \<Rightarrow> b1" where
  "b1_TC instruction operand st =
     (let st = st\<lparr>numMCT := 1\<rparr>;
          st = (if instruction \<noteq> 1 then (wr regQ (memory st regZ) st)\<lparr>numMCT := 1\<rparr> else st)
      in wr regZ operand st)"

definition b1_CCS :: "u16 \<Rightarrow> u16 \<Rightarrow> b1 \<Rightarrow> b1" where
  "b1_CCS operand fetchedFromOperandSignExtended st =
     (if 0x400 \<le> operand then implementationError st
      else
        let K = fetchedFromOperandSignExtended;
            st = (if K = 0 then incrementZ 1 st
                  else if 0 = K AND 0x8000 then incrementZ 0 st
                  else if K = 0xFFFF then incrementZ 3 st
                  else incrementZ 2 st);
            K = (if 0 \<noteq> K AND 0x8000 then NOT K else K);
            K = (if 1 \<le> K then K - 1 else K)
        in edit operand (wr regA K st))"

text \<open>\<open>INDEX\<close> without the case of \<open>RESUME\<close>.\<close>

definition b1_INDEX :: "u16 \<Rightarrow> u16 \<Rightarrow> b1 \<Rightarrow> b1" where
  "b1_INDEX operand fetchedFromOperand st =
     edit operand
       (if operand = 0xE then wr regInhint 0 st
        else if operand = 0xF then wr regInhint 1 st
        else st\<lparr>INDEX := fetchedFromOperand\<rparr>)"

definition b1_XCH :: "u16 \<Rightarrow> u16 \<Rightarrow> u16 \<Rightarrow> b1 \<Rightarrow> b1" where
  "b1_XCH operand fetchedFromOperand fetchedFromOperandSignExtended st =
     (if 0x10 \<le> operand \<and> operand \<le> 0x13 then
        let st = wr (unat operand) (fixUcForWriting (memory st regA)) st;
            st = wr regA fetchedFromOperandSignExtended st
        in edit operand st
      else if operand < 4 then
        let st = wr (unat operand) (memory st regA) st;
            st = edit operand st
        in wr regA fetchedFromOperand st
      else
        let st = (if operand < 4 \<or> 7 < operand
                  then writeToErasableOrRegister operand (fixUcForWriting (memory st regA)) st
                  else st)
        in wr regA fetchedFromOperandSignExtended st)"

definition b1_CS :: "u16 \<Rightarrow> u16 \<Rightarrow> b1 \<Rightarrow> b1" where
  "b1_CS operand fetchedFromOperandSignExtended st =
     edit operand (wr regA (NOT fetchedFromOperandSignExtended) st)"

definition b1_TS :: "u16 \<Rightarrow> b1 \<Rightarrow> b1" where
  "b1_TS operand st =
     (if 0x400 \<le> operand then implementationError st
      else
        let aOverflowBits = memory st regA AND 0xC000;
            st = (if operand < 4 \<or> 0x10 \<le> operand \<and> operand \<le> 0x13
                  then edit operand (wr (unat operand) (memory st regA) st)
                  else writeToErasableOrRegister operand (fixUcForWriting (memory st regA)) st)
        in if aOverflowBits = 0x8000 \<or> aOverflowBits = 0x4000 then
             let st = incrementZ 1 st
             in if operand \<noteq> 0 then
                  if aOverflowBits = 0x4000 then wr regA 1 st else wr regA 0xFFFE st
                else st
           else st)"

text \<open>\<open>SU\<close> jumps into \<open>AD\<close> (label \<open>entrySubtraction\<close>) with its operand complemented.\<close>

definition b1_AD :: "u16 \<Rightarrow> u16 \<Rightarrow> u16 \<Rightarrow> u16 \<Rightarrow> b1 \<Rightarrow> b1" where
  "b1_AD flatAddress operand fetchedFromOperand fetchedFromOperandSignExtended st =
     (let sum = b1_AddSP16 (memory st regA)
                  (if flatAddress < 4 then fetchedFromOperand else fetchedFromOperandSignExtended);
          st = wr regA sum st;
          st =
            (if sum AND 0xC000 = 0x4000 then
               let st = st\<lparr>numMCT := numMCT st + 1\<rparr>;
                   st = wr ctrOVCTR ((memory st ctrOVCTR + 1) AND 0x7FFF) st
               in if memory st ctrOVCTR = 0x7FFF then wr ctrOVCTR 0 st else st
             else if sum AND 0xC000 = 0x8000 then
               let st = st\<lparr>numMCT := numMCT st + 1\<rparr>;
                   st = (if memory st ctrOVCTR = 0 then wr ctrOVCTR 0x7FFF st else st)
               in wr ctrOVCTR ((memory st ctrOVCTR - 1) AND 0x7FFF) st
             else st)
      in edit operand st)"

definition b1_SU :: "u16 \<Rightarrow> u16 \<Rightarrow> u16 \<Rightarrow> b1 \<Rightarrow> b1" where
  "b1_SU flatAddress operand fetchedFromOperandSignExtended st =
     (let fetchedFromOperandSignExtended = NOT fetchedFromOperandSignExtended
      in b1_AD flatAddress operand fetchedFromOperandSignExtended fetchedFromOperandSignExtended st)"

definition b1_MASK :: "u16 \<Rightarrow> b1 \<Rightarrow> b1" where
  "b1_MASK fetchedFromOperandSignExtended st =
     wr regA (memory st regA AND fetchedFromOperandSignExtended) st"

definition b1_Product :: "u16 \<Rightarrow> u16 \<Rightarrow> u16 \<times> u16" where
  "b1_Product Operand16 OtherOperand16 =
     (if OtherOperand16 = AGC_P0 \<or> OtherOperand16 = AGC_M0 then (AGC_P0, AGC_P0)
      else if Operand16 = AGC_P0 \<or> Operand16 = AGC_M0 then
        if Operand16 = AGC_P0 \<and> 0 \<noteq> 0x4000 AND OtherOperand16 \<or>
           Operand16 = AGC_M0 \<and> 0 = 0x4000 AND OtherOperand16
        then (AGC_M0, AGC_M0)
        else (AGC_P0, AGC_P0)
      else
        let Product = agc2cpu (int_of_i16 (b1_SignExtend Operand16)) *
                      agc2cpu (int_of_i16 (b1_SignExtend OtherOperand16));
            Product = cpu2agc2 Product;
            Product = (if 0x10000000 AND Product \<noteq> 0 then Product OR 0x20000000 else Product)
        in DecentToSp Product)"

definition b1_MP :: "u16 \<Rightarrow> b1 \<Rightarrow> b1" where
  "b1_MP fetchedFromOperandSignExtended st =
     (case b1_Product (fixUcForWriting (memory st regA)) fetchedFromOperandSignExtended of
        (MsWord, LsWord) \<Rightarrow>
          wr regLP (b1_SignExtend LsWord)
            (wr regA (b1_SignExtend MsWord) (st\<lparr>numMCT := 8\<rparr>)))"

text \<open>\<open>None\<close> is a division by zero.\<close>

definition b1_DV :: "u16 \<Rightarrow> u16 \<Rightarrow> u16 \<Rightarrow> b1 \<Rightarrow> b1 option" where
  "b1_DV operand fetchedFromOperand fetchedFromOperandSignExtended st =
     (let st = st\<lparr>numMCT := 18\<rparr>;
          A = memory st regA;
          numerator = shl 14 (int_of_u16 (fixUcForWriting A));
          numerator = (if 0 \<noteq> 0x8000 AND A then numerator OR 0xE0003FFF else numerator);
          denominator =
            int_of_i16 (if operand < 4 then fetchedFromOperand else fetchedFromOperandSignExtended);
          numeratorSign = (if numerator <s 0 then - 1 else 1 :: cint);
          sign = (if numerator <s 0 then - 1 else 1 :: cint);
          numerator = (if numerator <s 0 then NOT numerator else numerator);
          sign = (if denominator <s 0 then - sign else sign);
          denominator = (if denominator <s 0 then NOT denominator else denominator);
          finish = (\<lambda>st. wr regLP (if 0 <s sign then 1
                          else if 0 <s numeratorSign then 0xC000 else 0xC001) st)
      in if sar 14 numerator = denominator then
           Some (finish (wr regA (if 0 <s sign then 0x3FFF else 0xC000)
                   (wr regQ (i16_of_int (NOT denominator)) st)))
         else if denominator = 0 then None
         else
           let quotient = word_of_int (sint numerator sdiv sint denominator) :: cint;
               remainder = word_of_int (sint numerator smod sint denominator) :: cint;
               quotient = (if 0x3FFF <s quotient then 0x3FFF else quotient);
               quotient = (if sign <s 0 then NOT quotient else quotient)
           in Some (finish (wr regQ (i16_of_int (NOT remainder))
                      (wr regA (i16_of_int quotient) st))))"

section \<open>Breakpoints\<close>

definition b1_break :: "u16 \<Rightarrow> u16 \<Rightarrow> u16 \<Rightarrow> b1 \<Rightarrow> cint \<Rightarrow> bool" where
  "b1_break flatAddress flatOperandAddress instruction st b =
     (if b = BREAK_UININITIALIZED \<and> flatOperandAddress < 0x400 \<and>
         memory st (unat flatOperandAddress) = defaultErasable st \<and>
         instruction AND 0x7000 \<noteq> 0x5000
      then True
      else if 0 \<le>s b then b = int_of_u16 flatAddress \<or> b = int_of_u16 flatOperandAddress
      else scast (- b) \<le> countMCT st)"

definition b1_breaks :: "u16 \<Rightarrow> u16 \<Rightarrow> u16 \<Rightarrow> b1 \<Rightarrow> bool" where
  "b1_breaks operand flatAddress instruction st =
     (let flatOperandAddress = instruction AND 0xFFF;
          flatOperandAddress =
            (if 0xC00 \<le> flatOperandAddress
             then ucast (flatten (int_of_u16 (memory st regBank)) (int_of_u16 operand))
             else flatOperandAddress)
      in list_ex (\<lambda>i. b1_break flatAddress flatOperandAddress instruction st (breaksOrWatches st i))
           [0..<numBreaksOrWatches st])"

section \<open>Interrupts\<close>

text \<open>The vector of the pending interrupt with the highest priority, or 0.\<close>

definition SelectRupt :: "b1 \<Rightarrow> u16 \<times> b1" where
  "SelectRupt st =
     (if overflowedTIME3 st \<noteq> 0 then (0x400, st\<lparr>overflowedTIME3 := 0\<rparr>)
      else if 0 \<noteq> memory st regIN2 AND 0x7F80 then (0x404, st)
      else if overflowedTIME4 st \<noteq> 0 then (0x408, st\<lparr>overflowedTIME4 := 0\<rparr>)
      else if 0 \<noteq> memory st regIN0 AND 0x20 then
        (0x40C, wr regIN0 (memory st regIN0 AND NOT 0x20) st)
      else if uplinkReady st \<noteq> 0 then (0x410, st\<lparr>uplinkReady := 0\<rparr>)
      else if downlinkReady st \<noteq> 0 then (0x414, st\<lparr>downlinkReady := 0\<rparr>)
      else (0, st))"

definition RuptAllowed :: "u16 \<Rightarrow> b1 \<Rightarrow> bool" where
  "RuptAllowed instruction st \<longleftrightarrow>
     memory st regInhint = 0 \<and> INTERRUPTED st = 0 \<and>
     0x8000 \<noteq> 0xC000 AND memory st regA \<and> 0x4000 \<noteq> 0xC000 AND memory st regA \<and>
     instruction AND 0x8000 = 0"

definition TakeRupt :: "u16 \<Rightarrow> u16 \<Rightarrow> u16 \<Rightarrow> b1 \<Rightarrow> b1" where
  "TakeRupt interruptVector flatAddress instruction st =
     (let st = st\<lparr>ruptFlatAddress := flatAddress, ruptLastINDEX := lastINDEX st,
                 ruptLastZ := lastZ st, countMCT := countMCT st + 3, INTERRUPTED := 1\<rparr>
      in wr regZ interruptVector (wr regBRUPT instruction (wr regZRUPT (memory st regZ) st)))"

section \<open>One pass\<close>

datatype b1_point =
  Retry u16
| ResumeFromInterrupt u16 u16

datatype b1_next =
  Goto b1_point b1
| Finished cint b1
| Crash

definition b1_Fetch :: "u16 \<Rightarrow> b1 \<Rightarrow> b1_next" where
  "b1_Fetch operand st =
     (let Z = memory st regZ;
          flatAddress = (if Z < 0xC00 then Z
                         else ucast (flatten (int_of_u16 (memory st regBank)) (int_of_u16 Z)))
      in case rd (unat flatAddress) st of
           None \<Rightarrow> Crash
         | Some w \<Rightarrow>
             let instruction = b1_AddSP16 (b1_SignExtend (INDEX st))
                                 (if flatAddress < 4 then w else b1_SignExtend w)
             in if instructionCountDown st \<noteq> 1 \<and> b1_breaks operand flatAddress instruction st
                then Finished 1 (st\<lparr>instructionCountDown := 0\<rparr>)
                else
                  let st = st\<lparr>lastZ := memory st regZ\<rparr>;
                      st = incrementZ 1 st;
                      st = st\<lparr>lastINDEX := INDEX st\<rparr>
                  in Goto (ResumeFromInterrupt flatAddress instruction) st)"

text \<open>The end of an instruction: time passes and the timers count.\<close>

definition b1_Timers :: "b1 \<Rightarrow> b1" where
  "b1_Timers st =
     (if nextTimerIncrement st < countMCT st * 3 then
        let st = st\<lparr>nextTimerIncrement := nextTimerIncrement st + 2560\<rparr>;
            (o1, st) = incTimerCheckOverflow ctrTIME1 st;
            st = (if o1 \<noteq> 0 then snd (incTimerCheckOverflow ctrTIME2 st) else st);
            (o3, st) = incTimerCheckOverflow ctrTIME3 st;
            st = st\<lparr>overflowedTIME3 := overflowedTIME3 st OR ucast o3\<rparr>;
            (o4, st) = incTimerCheckOverflow ctrTIME4 st;
            st = st\<lparr>overflowedTIME4 := overflowedTIME4 st OR ucast o4\<rparr>
        in if memory st ctrTIME1 mod 4 = 0 \<and> 0 = memory st regOUT1 AND 0x200
           then st\<lparr>downlinkReady := 1\<rparr> else st
      else st)"

definition b1_Finish :: "b1 \<Rightarrow> b1_next" where
  "b1_Finish st = Finished 0 (b1_Timers (st\<lparr>countMCT := countMCT st + scast (numMCT st)\<rparr>))"

text \<open>\<open>RESUME\<close>, outside of an interrupt with a message and what \<open>implementationError\<close> does.\<close>

definition b1_RESUME :: "b1 \<Rightarrow> b1_next" where
  "b1_RESUME st =
     (let st = (if INTERRUPTED st = 0 then implementationError st else st);
          st = st\<lparr>lastINDEX := ruptLastINDEX st, lastZ := ruptLastZ st, INTERRUPTED := 0\<rparr>;
          st = wr regZ (memory st regZRUPT) st;
          instruction = memory st regBRUPT;
          st = st\<lparr>countMCT := countMCT st + 2\<rparr>
      in Goto (ResumeFromInterrupt (ruptFlatAddress st) instruction) st)"

definition b1_Execute :: "u16 \<Rightarrow> u16 \<Rightarrow> u16 \<Rightarrow> b1 \<Rightarrow> b1_next" where
  "b1_Execute flatAddress instruction fetchedFromOperand st =
     (let extracode = instruction AND 0x8000 \<noteq> 0;
          opcode = instruction AND 0x7000;
          operand = instruction AND 0xFFF;
          fetchedFromOperandSignExtended =
            (if operand < 4 then fetchedFromOperand
             else shl 1 (fetchedFromOperand AND 0x4000) OR (fetchedFromOperand AND 0x7FFF))
      in if opcode = 0 then b1_Finish (b1_TC instruction operand st)
         else if opcode = 0x1000 \<and> \<not> extracode then
           b1_Finish (b1_CCS operand fetchedFromOperandSignExtended st)
         else if opcode = 0x2000 \<and> \<not> extracode then
           if operand = 0x15 then b1_RESUME st
           else b1_Finish (b1_INDEX operand fetchedFromOperand st)
         else if opcode = 0x3000 \<and> \<not> extracode then
           b1_Finish (b1_XCH operand fetchedFromOperand fetchedFromOperandSignExtended st)
         else if opcode = 0x4000 then b1_Finish (b1_CS operand fetchedFromOperandSignExtended st)
         else if opcode = 0x5000 then b1_Finish (b1_TS operand st)
         else if opcode = 0x6000 then
           b1_Finish (b1_AD flatAddress operand fetchedFromOperand fetchedFromOperandSignExtended st)
         else if opcode = 0x7000 then b1_Finish (b1_MASK fetchedFromOperandSignExtended st)
         else if opcode = 0x1000 \<and> extracode then
           b1_Finish (b1_MP fetchedFromOperandSignExtended st)
         else if opcode = 0x2000 \<and> extracode then
           case b1_DV operand fetchedFromOperand fetchedFromOperandSignExtended st of
             None \<Rightarrow> Crash
           | Some st \<Rightarrow> b1_Finish st
         else if opcode = 0x3000 \<and> extracode then
           b1_Finish (b1_SU flatAddress operand fetchedFromOperandSignExtended st)
         else b1_Finish (implementationError st))"

definition b1_Dispatch :: "u16 \<Rightarrow> u16 \<Rightarrow> b1 \<Rightarrow> b1_next" where
  "b1_Dispatch flatAddress instruction st =
     (let st = st\<lparr>B := (if 0 = instruction AND 0x8000
                       then instruction OR shl 1 (instruction AND 0x4000) else instruction),
                 lastInstruction := instruction, INDEX := 0\<rparr>;
          operand = instruction AND 0xFFF;
          (interruptVector, st) = (if RuptAllowed instruction st then SelectRupt st else (0, st))
      in if interruptVector \<noteq> 0
         then Goto (Retry operand) (TakeRupt interruptVector flatAddress instruction st)
         else
           case rd (if operand < 0xC00 then unat operand
                    else unat (flatten (int_of_u16 (memory st regBank)) (int_of_u16 operand))) st of
             None \<Rightarrow> Crash
           | Some fetchedFromOperand \<Rightarrow> b1_Execute flatAddress instruction fetchedFromOperand st)"

fun b1_pass :: "b1_point \<Rightarrow> b1 \<Rightarrow> b1_next" where
  "b1_pass (Retry operand) st = b1_Fetch operand st"
| "b1_pass (ResumeFromInterrupt flatAddress instruction) st = b1_Dispatch flatAddress instruction st"

section \<open>The function\<close>

datatype b1_result =
  Returned cint b1
| Crashed

fun b1_run :: "nat \<Rightarrow> b1_point \<Rightarrow> b1 \<Rightarrow> b1_result option" where
  "b1_run 0 p st = None"
| "b1_run (Suc fuel) p st =
     (case b1_pass p st of
        Goto p st \<Rightarrow> b1_run fuel p st
      | Finished r st \<Rightarrow> Some (Returned r st)
      | Crash \<Rightarrow> Some Crashed)"

definition executeOneInstruction :: "nat \<Rightarrow> u16 \<Rightarrow> b1 \<Rightarrow> b1_result option" where
  "executeOneInstruction fuel operand st = b1_run fuel (Retry operand) (st\<lparr>numMCT := 2\<rparr>)"

end
