(* ===== verification/B1_Arith.thy ===== *)
theory B1_Arith
  imports B1_Engine
begin

text \<open>
  What the instructions of the Block I computer compute.  A register holds 16 bits, a
  one's-complement number with the overflow (\<open>b1_acc\<close>); a word of memory holds 15 bits
  (\<open>sp_val\<close>).  The conversions are those of the Block II emulator.
\<close>

unbundle bit_operations_syntax

section \<open>Words\<close>

abbreviation b1_acc :: "u16 \<Rightarrow> int" where "b1_acc w \<equiv> acc_val (int_of_u16 w)"

lemma uint_int_of_u16 [simp]: "uint (int_of_u16 w) = uint (w :: u16)"
  using uint_i16_lt [of w] by (simp add: unsigned_ucast_eq take_bit_int_eq_self)

lemma unat_int_of_u16: "unat (int_of_u16 w) = unat w"
  using uint_int_of_u16 [of w] by (simp only: unat_eq_nat_uint)

lemma int_of_u16_lt: "uint (int_of_u16 w) < 65536"
  using uint_i16_lt [of w] by simp

lemma b1_SignExtend_eq: "b1_SignExtend w = i16_of_int (SignExtend w)"
  by (rule i16_eqI) (auto simp: b1_SignExtend_def bit_simps mask_bits lt_steps(3))

lemma b1_AddSP16_eq: "b1_AddSP16 a b = i16_of_int (AddSP16 (int_of_u16 a) (int_of_u16 b))"
  by (simp add: b1_AddSP16_def AddSP16_def Let_def)

lemma fixUcForWriting_eq: "fixUcForWriting w = OverflowCorrected (int_of_u16 w)"
  by (rule i16_eqI) (auto simp: fixUcForWriting_def bit_simps mask_bits lt_steps)

lemma fetched_SignExtend: "shl 1 (w AND 0x4000) OR (w AND 0x7FFF) = b1_SignExtend w"
  by (rule i16_eqI) (auto simp: b1_SignExtend_def bit_simps mask_bits lt_steps(3))

lemma int_of_u16_i16_of_int: "uint v < 65536 \<Longrightarrow> int_of_u16 (i16_of_int v) = v"
  using uint_lt_iff_bits [of v 16] by (intro bit_word_eqI) (auto simp: not_le)

lemma b1_acc_SignExtend [simp]: "b1_acc (b1_SignExtend w) = sp_val w"
  by (simp add: b1_SignExtend_eq int_of_u16_i16_of_int uint_SignExtend_lt)

lemma b1_acc_bounds: "- 32767 \<le> b1_acc w" "b1_acc w \<le> 32767"
  using int_of_u16_lt [of w] by (auto simp: acc_val_eq)

lemma b1_acc_eq: "b1_acc w = (if uint w < 32768 then uint w else uint w - 65535)"
  using acc_val_eq [OF int_of_u16_lt, of w] by simp

lemma b1_acc_NOT [simp]: "b1_acc (NOT w) = - b1_acc w"
proof -
  have "uint (NOT w) = 65535 - uint w"
    using uint_i16_lt [of w] uint_not_mod [of 16 w] uint_i16_lt [of "NOT w"] by simp
  then show ?thesis
    using uint_i16_lt [of w] by (auto simp: b1_acc_eq)
qed

lemma b1_AddSP16_value:
  assumes "\<bar>b1_acc a + b1_acc b\<bar> \<le> 32767"
  shows "b1_acc (b1_AddSP16 a b) = b1_acc a + b1_acc b"
  using acc_val_AddSP16 [OF int_of_u16_lt int_of_u16_lt assms]
    int_of_u16_i16_of_int [OF AddSP16_lt [OF int_of_u16_lt int_of_u16_lt], of a b]
  by (simp only: b1_AddSP16_eq)

lemma b1_overflow:
  "w AND 0xC000 = 0x4000 \<longleftrightarrow> 16383 < b1_acc w" "w AND 0xC000 = 0x8000 \<longleftrightarrow> b1_acc w < - 16383"
proof -
  have "w AND 0xC000 = (if bit w 14 then 0x4000 else 0) OR (if bit w 15 then 0x8000 else 0)"
    by (rule i16_eqI) (auto simp: bit_simps mask_bits)
  then have "w AND 0xC000 = 0x4000 \<longleftrightarrow> ValueOverflowed (int_of_u16 w) = AGC_P1"
    "w AND 0xC000 = 0x8000 \<longleftrightarrow> ValueOverflowed (int_of_u16 w) = AGC_M1"
    by (auto simp: ValueOverflowed_bits)
  then show "w AND 0xC000 = 0x4000 \<longleftrightarrow> 16383 < b1_acc w"
    "w AND 0xC000 = 0x8000 \<longleftrightarrow> b1_acc w < - 16383"
    by (auto simp: ValueOverflowed_acc_val [OF int_of_u16_lt])
qed

section \<open>Cells\<close>

lemma memory_wr [simp]: "memory (wr k v st) = (memory st)(k := v)"
  by (simp add: wr_def)

lemma wr_fields [simp]:
  "numMCT (wr k v st) = numMCT st" "INDEX (wr k v st) = INDEX st"
  "INTERRUPTED (wr k v st) = INTERRUPTED st" "countMCT (wr k v st) = countMCT st"
  "lastZ (wr k v st) = lastZ st" "lastINDEX (wr k v st) = lastINDEX st"
  "overflowedTIME3 (wr k v st) = overflowedTIME3 st"
  "overflowedTIME4 (wr k v st) = overflowedTIME4 st"
  "uplinkReady (wr k v st) = uplinkReady st" "downlinkReady (wr k v st) = downlinkReady st"
  "nextTimerIncrement (wr k v st) = nextTimerIncrement st"
  "instructionCountDown (wr k v st) = instructionCountDown st"
  "numBreaksOrWatches (wr k v st) = numBreaksOrWatches st"
  "ruptFlatAddress (wr k v st) = ruptFlatAddress st" "ruptLastINDEX (wr k v st) = ruptLastINDEX st"
  "ruptLastZ (wr k v st) = ruptLastZ st" "dskyRelayBuffer (wr k v st) = dskyRelayBuffer st"
  "Clients (wr k v st) = Clients st" "Sent (wr k v st) = Sent st"
  "defaultErasable (wr k v st) = defaultErasable st"
  by (simp_all add: wr_def)

text \<open>Cells that are edited when they are read or written.\<close>

definition edited :: "u16 \<Rightarrow> bool" where
  "edited a \<longleftrightarrow> a = 3 \<or> 0x10 \<le> a \<and> a \<le> 0x13"

lemma edit_same [simp]: "\<not> edited a \<Longrightarrow> edit a st = st"
  by (auto simp: edit_def edited_def)

section \<open>Addition and subtraction\<close>

lemma OVCTR_up:
  assumes "uint c < 32767" "\<bar>sp_val c\<bar> < 16383"
  defines "c' \<equiv> (if 0x7FFF AND (c + 1) = 0x7FFF then 0 else 0x7FFF AND (c + 1 :: u16))"
  shows "sp_val c' = sp_val c + 1" "uint c' < 32767"
proof -
  have u: "uint (c + 1) = uint c + 1" using assms(1) by (simp add: uint_plus_if')
  then have m: "uint (0x7FFF AND (c + 1)) = uint c + 1" using assms(1) by simp
  have "0x7FFF AND (c + 1) = 0x7FFF \<longleftrightarrow> uint c = 32766"
    using m u by (simp only: word_uint_eq_iff) auto
  then have c': "uint c' = (if uint c = 32766 then 0 else uint c + 1)"
    using m by (auto simp: c'_def)
  then show "uint c' < 32767" using assms(1) by auto
  then show "sp_val c' = sp_val c + 1"
    using assms(1,2) c' by (auto simp: sp_val_eq split: if_splits)
qed

lemma OVCTR_down:
  assumes "uint c < 32767" "\<bar>sp_val c\<bar> < 16383"
  defines "c' \<equiv> 0x7FFF AND ((if c = 0 then 0x7FFF else c) - 1 :: u16)"
  shows "sp_val c' = sp_val c - 1" "uint c' < 32767"
proof -
  have ge: "1 \<le> uint c" if "uint c \<noteq> 0"
    using that uint_ge_0 [of c] by linarith
  have "uint ((if c = 0 then 0x7FFF else c) - 1) = (if uint c = 0 then 32766 else uint c - 1)"
    using ge by (auto simp: uint_sub_if' uint_0_iff)
  then have c': "uint c' = (if uint c = 0 then 32766 else uint c - 1)"
    using assms(1) ge by (auto simp: c'_def)
  then show "uint c' < 32767" using assms(1) by auto
  then show "sp_val c' = sp_val c - 1"
    using assms(1,2) c' uint_ge_0 [of c] by (auto simp: sp_val_eq split: if_splits)
qed

lemma b1_AD_value:
  fixes w :: u16
  assumes "4 \<le> flat" "\<not> edited a" "\<bar>b1_acc (memory st regA) + b1_acc x\<bar> \<le> 32767"
    and "uint (memory st ctrOVCTR) < 32767" "\<bar>sp_val (memory st ctrOVCTR)\<bar> < 16383"
  defines "v \<equiv> b1_acc (memory st regA) + b1_acc x" and "st' \<equiv> b1_AD flat a w x st"
  shows "b1_acc (memory st' regA) = v \<and>
    sp_val (memory st' ctrOVCTR) =
      sp_val (memory st ctrOVCTR) + (if 16383 < v then 1 else if v < - 16383 then - 1 else 0) \<and>
    numMCT st' = numMCT st + (if 16383 < \<bar>v\<bar> then 1 else 0)"
proof -
  have s: "b1_acc (b1_AddSP16 (memory st regA) x) = v"
    using b1_AddSP16_value [OF assms(3)] by (simp add: v_def)
  have f: "\<not> flat < 4" using assms(1) by (simp add: not_less)
  note up = OVCTR_up [OF assms(4,5)] and down = OVCTR_down [OF assms(4,5)]
  note d = st'_def b1_AD_def b1_overflow
  consider "16383 < v" | "v < - 16383" | "\<bar>v\<bar> \<le> 16383" by linarith
  then show ?thesis
  proof cases
    case 1
    then show ?thesis
      unfolding d using s f up(1) assms(2) by (auto simp: Let_def and.commute split: if_splits)
  next
    case 2
    then show ?thesis
      unfolding d using s f down(1) assms(2) by (auto simp: Let_def and.commute split: if_splits)
  next
    case 3
    then show ?thesis
      unfolding d using s f assms(2) by (auto simp: Let_def and.commute split: if_splits)
  qed
qed

text \<open>Instruction words: code and operand.\<close>

lemma code_parts:
  assumes "i AND 0xF000 = (k :: u16)"
  shows "i AND 0x7000 = k AND 0x7000" "i AND 0x8000 = k AND 0x8000"
  unfolding assms [symmetric] by (simp_all add: and.assoc)

lemma b1_Execute_codes:
  assumes "4 \<le> i AND 0xFFF"
  shows "i AND 0xF000 = 0x6000 \<Longrightarrow> b1_Execute flat i w st =
      b1_Finish (b1_AD flat (i AND 0xFFF) w (b1_SignExtend w) st)"
    and "i AND 0xF000 = 0xB000 \<Longrightarrow> b1_Execute flat i w st =
      b1_Finish (b1_SU flat (i AND 0xFFF) (b1_SignExtend w) st)"
    and "i AND 0xF000 = 0x9000 \<Longrightarrow> b1_Execute flat i w st =
      b1_Finish (b1_MP (b1_SignExtend w) st)"
    and "i AND 0xF000 = 0xA000 \<Longrightarrow> b1_Execute flat i w st =
      (case b1_DV (i AND 0xFFF) w (b1_SignExtend w) st of None \<Rightarrow> Crash | Some st \<Rightarrow> b1_Finish st)"
    and "i AND 0xF000 = 0x1000 \<Longrightarrow> b1_Execute flat i w st =
      b1_Finish (b1_CCS (i AND 0xFFF) (b1_SignExtend w) st)"
proof -
  have a: "\<not> i AND 0xFFF < 4" using assms by (simp add: not_less)
  show "i AND 0xF000 = 0x6000 \<Longrightarrow> b1_Execute flat i w st =
      b1_Finish (b1_AD flat (i AND 0xFFF) w (b1_SignExtend w) st)"
    "i AND 0xF000 = 0xB000 \<Longrightarrow> b1_Execute flat i w st =
      b1_Finish (b1_SU flat (i AND 0xFFF) (b1_SignExtend w) st)"
    "i AND 0xF000 = 0x9000 \<Longrightarrow> b1_Execute flat i w st =
      b1_Finish (b1_MP (b1_SignExtend w) st)"
    "i AND 0xF000 = 0xA000 \<Longrightarrow> b1_Execute flat i w st =
      (case b1_DV (i AND 0xFFF) w (b1_SignExtend w) st of None \<Rightarrow> Crash | Some st \<Rightarrow> b1_Finish st)"
    "i AND 0xF000 = 0x1000 \<Longrightarrow> b1_Execute flat i w st =
      b1_Finish (b1_CCS (i AND 0xFFF) (b1_SignExtend w) st)"
    using a by (simp_all add: b1_Execute_def Let_def code_parts fetched_SignExtend [unfolded One_nat_def] cong: if_cong)
qed

text \<open>C15: \<open>AD\<close> and \<open>SU\<close> leave the exact sum or difference of the accumulator and a word of memory
  in the accumulator, as long as it fits 16 bits; the overflow counter counts up for a result beyond
  15 bits and down for one below, which takes one more cycle.\<close>

theorem b1_AD_SU:
  assumes code: "i AND 0xF000 = (if 0 < s then 0x6000 else 0xB000)" and s: "\<bar>s\<bar> = 1"
    and flat: "4 \<le> flat" and operand: "4 \<le> i AND 0xFFF" "\<not> edited (i AND 0xFFF)"
    and fits: "\<bar>b1_acc (memory st regA) + s * sp_val w\<bar> \<le> 32767"
    and counter: "uint (memory st ctrOVCTR) < 32767" "\<bar>sp_val (memory st ctrOVCTR)\<bar> < 16383"
  shows "let v = b1_acc (memory st regA) + s * sp_val w in
    \<exists>st'. b1_Execute flat i w st = b1_Finish st' \<and>
      b1_acc (memory st' regA) = v \<and>
      sp_val (memory st' ctrOVCTR) =
        sp_val (memory st ctrOVCTR) + (if 16383 < v then 1 else if v < - 16383 then - 1 else 0) \<and>
      numMCT st' = numMCT st + (if 16383 < \<bar>v\<bar> then 1 else 0)"
proof -
  define x where "x = (if 0 < s then b1_SignExtend w else NOT (b1_SignExtend w))"
  have x: "b1_acc x = s * sp_val w" using s by (auto simp: x_def)
  have "b1_Execute flat i w st = b1_Finish (b1_AD flat (i AND 0xFFF) (if 0 < s then w else x) x st)"
    using code by (cases "0 < s") (simp_all add: b1_Execute_codes [OF operand(1)] b1_SU_def Let_def x_def)
  then show ?thesis
    using b1_AD_value [OF flat operand(2) fits [folded x] counter] by (auto simp: x Let_def)
qed

lemma b1_AD_SU_witness:
  "let st = b1_zero\<lparr>memory := (\<lambda>_. 0)(0 := 0xFFFE), numMCT := 2\<rparr>
   in \<exists>st'. b1_Execute 0x418 0xB040 0x3FFF st = b1_Finish st' \<and> b1_acc (memory st' regA) = - 16384 \<and>
      sp_val (memory st' ctrOVCTR) = - 1 \<and> numMCT st' = 3"
proof -
  let ?st = "b1_zero\<lparr>memory := (\<lambda>_. 0)(0 := 0xFFFE), numMCT := 2\<rparr>"
  have a: "acc_val 0xFFFE = - 1" "sp_val 0 = 0" "sp_val 0x3FFF = 16383"
    by (simp_all add: acc_val_def sp_val_def)
  show ?thesis
    using b1_AD_SU [of "0xB040" "- 1" "0x418" ?st "0x3FFF"]
    by (simp add: a edited_def Let_def)
qed

section \<open>Division\<close>

text \<open>The magnitudes that \<open>DV\<close> divides.\<close>

definition magnitude :: "u16 \<Rightarrow> u16" where
  "magnitude w = (if bit w 15 then NOT w else w)"

lemma uint_magnitude: "uint (magnitude w) = \<bar>b1_acc w\<bar>"
proof -
  have "uint (NOT w) = 65535 - uint w"
    using uint_i16_lt [of w] uint_not_mod [of 16 w] uint_i16_lt [of "NOT w"] by simp
  then show ?thesis
    using uint_i16_lt [of w] bit_top_iff [of w 15] by (auto simp: magnitude_def b1_acc_eq)
qed

lemma uint_corrected: "uint (0x3FFF AND magnitude A) = \<bar>sp_val (fixUcForWriting A)\<bar>"
proof -
  have "0x3FFF AND (if bit A 15 then NOT (fixUcForWriting A) else fixUcForWriting A) =
      0x3FFF AND magnitude A"
    by (rule i16_eqI) (auto simp: magnitude_def fixUcForWriting_eq bit_simps mask_bits)
  moreover have "bit (fixUcForWriting A) 14 \<longleftrightarrow> bit A 15"
    by (simp add: fixUcForWriting_eq)
  ultimately show ?thesis
    by (simp add: sp_val_def del: uint_mask_simps split: if_splits)
qed

lemma b1_numerator:
  fixes A :: u16
  defines "n \<equiv> shl 14 (int_of_u16 (fixUcForWriting A))"
  defines "n' \<equiv> (if 0 \<noteq> 0x8000 AND A then n OR 0xE0003FFF else n)"
  shows "n' <s 0 \<longleftrightarrow> bit A 15"
    and "(if n' <s 0 then NOT n' else n') = shl 14 (int_of_u16 (0x3FFF AND magnitude A))"
proof -
  have sign: "v <s 0 \<longleftrightarrow> bit v 31" for v :: cint
    using bit_last_iff [of v] by (simp add: sless_0_iff)
  show *: "n' <s 0 \<longleftrightarrow> bit A 15"
    unfolding sign by (auto simp: n'_def n_def bit_simps mask_bits)
  show "(if n' <s 0 then NOT n' else n') = shl 14 (int_of_u16 (0x3FFF AND magnitude A))"
    unfolding * by (rule cint_eq_bitsI)
      (auto simp: n'_def n_def magnitude_def fixUcForWriting_eq bit_simps mask_bits)
qed

lemma b1_denominator:
  fixes x :: u16
  shows "int_of_i16 x <s 0 \<longleftrightarrow> bit x 15"
    and "(if int_of_i16 x <s 0 then NOT (int_of_i16 x) else int_of_i16 x) = int_of_u16 (magnitude x)"
proof -
  have sign: "v <s 0 \<longleftrightarrow> bit v 31" for v :: cint
    using bit_last_iff [of v] by (simp add: sless_0_iff)
  show *: "int_of_i16 x <s 0 \<longleftrightarrow> bit x 15"
    unfolding sign by simp
  show "(if int_of_i16 x <s 0 then NOT (int_of_i16 x) else int_of_i16 x) = int_of_u16 (magnitude x)"
    unfolding * by (rule cint_eqI) (auto simp: magnitude_def bit_simps)
qed

lemma b1_acc_of_int:
  assumes "uint (v :: cint) < 32768"
  shows "b1_acc (i16_of_int v) = uint v" "b1_acc (i16_of_int (NOT v)) = - uint v"
proof -
  have "int_of_u16 (i16_of_int v) = v" using assms by (simp add: int_of_u16_i16_of_int)
  then show v: "b1_acc (i16_of_int v) = uint v" using assms by (simp add: acc_val_eq)
  have "i16_of_int (NOT v) = NOT (i16_of_int v)" by (rule i16_eqI) (simp add: bit_simps)
  then show "b1_acc (i16_of_int (NOT v)) = - uint v" using v by (simp only: b1_acc_NOT)
qed

lemma uint_scaled:
  assumes "uint (m :: u16) < 16384"
  shows "uint (shl 14 (int_of_u16 m)) = uint m * 16384" "sar 14 (shl 14 (int_of_u16 m)) = int_of_u16 m"
proof -
  have "uint (shl 14 (int_of_u16 m)) = uint m * 16384 mod 4294967296"
    by (simp add: shl_def push_bit_eq_mult uint_word_ariths mult.commute)
  then show "uint (shl 14 (int_of_u16 m)) = uint m * 16384" using assms by simp
  have b: "\<And>n. 14 \<le> n \<Longrightarrow> \<not> bit m n" using assms uint_lt_iff_bits [of m 14] by simp
  show "sar 14 (shl 14 (int_of_u16 m)) = int_of_u16 m"
    by (rule cint_eq_bitsI) (simp add: bit_simps b)
qed

lemma sdiv_nonneg:
  assumes "0 \<le> a" "0 \<le> (b :: int)"
  shows "a sdiv b = a div b" "a smod b = a mod b"
proof -
  show *: "a sdiv b = a div b"
    using assms by (cases "a = 0"; cases "b = 0") (simp_all add: signed_divide_int_def)
  show "a smod b = a mod b"
    using assms by (cases "a = 0") (simp_all add: signed_modulo_int_def)
qed

text \<open>\<open>DV\<close> with the magnitudes and signs worked out.\<close>

lemma b1_DV_eq:
  fixes A x w y :: u16 and st :: b1
  assumes "(if op < 4 then w else y) = x" "A = memory st regA"
  defines "n \<equiv> 0x3FFF AND magnitude A" and "d \<equiv> magnitude x"
    and "negative \<equiv> bit A 15 \<noteq> bit x 15"
  defines "q \<equiv> word_of_int (min 16383 (uint n * 16384 div uint d)) :: cint"
    and "r \<equiv> word_of_int (uint n * 16384 mod uint d) :: cint"
    and "LP \<equiv> (if \<not> negative then 1 else if bit A 15 then 0xC001 else 0xC000 :: u16)"
  shows "b1_DV op w y st =
    (if n = d then Some (wr regLP LP (wr regA (if negative then 0xC000 else 0x3FFF)
        (wr regQ (NOT d) (st\<lparr>numMCT := 18\<rparr>))))
     else if d = 0 then None
     else Some (wr regLP LP (wr regQ (i16_of_int (NOT r))
        (wr regA (i16_of_int (if negative then NOT q else q)) (st\<lparr>numMCT := 18\<rparr>)))))"
proof -
  define N where "N = (if 0 \<noteq> 0x8000 AND A
      then shl 14 (int_of_u16 (fixUcForWriting A)) OR 0xE0003FFF
      else shl 14 (int_of_u16 (fixUcForWriting A)))"
  note num = b1_numerator [of A, folded n_def] and den = b1_denominator [of x, folded d_def]
  have N: "N <s 0 \<longleftrightarrow> bit A 15" "(if N <s 0 then NOT N else N) = shl 14 (int_of_u16 n)"
    using num unfolding N_def by blast+
  have n: "uint n < 16384" unfolding n_def uint_corrected using sp_val_bounds [of "fixUcForWriting A"] by linarith
  have d: "uint d < 32768" unfolding d_def uint_magnitude using b1_acc_bounds [of x] by linarith
  note sc = uint_scaled [OF n]
  have eq: "int_of_u16 n = int_of_u16 d \<longleftrightarrow> n = d" by (metis i16_of_int_of_u16)
  have zero: "int_of_u16 d = 0 \<longleftrightarrow> d = 0" by (metis i16_of_int_of_u16 unsigned_0)
  have sgn: "sint (shl 14 (int_of_u16 n)) = uint n * 16384" "sint (int_of_u16 d) = uint d"
    using n d by (simp_all add: sint_small sc)
  have mem: "memory (st\<lparr>numMCT := 18\<rparr>) regA = A" by (simp add: assms(2))
  let ?s = "if bit A 15 then - 1 else 1 :: cint"
  have signs: "0 <s (if bit x 15 then - ?s else ?s) \<longleftrightarrow> \<not> negative"
    "(if bit x 15 then - ?s else ?s) <s 0 \<longleftrightarrow> negative" "0 <s ?s \<longleftrightarrow> \<not> bit A 15"
    by (simp_all add: negative_def word_sless_alt)
  define Q where "Q = uint n * 16384 div uint d"
  have sdiv: "uint n * 16384 sdiv uint d = Q" "uint n * 16384 smod uint d = uint n * 16384 mod uint d"
    by (simp_all add: Q_def sdiv_nonneg)
  have "Q \<le> uint n * 16384 div 1" if "uint d \<noteq> 0"
  proof -
    have "0 < uint d" using that uint_ge_0 [of d] by linarith
    then have "1 \<le> uint d" by linarith
    then show ?thesis unfolding Q_def by (intro zdiv_mono2) simp_all
  qed
  then have "Q \<le> uint n * 16384" by (cases "uint d = 0") (auto simp: Q_def)
  moreover have "0 \<le> Q" by (simp add: Q_def div_int_pos_iff)
  ultimately have "sint (word_of_int Q :: cint) = Q"
    using n by (intro sint_word_of_int_small) linarith+
  then have q: "(if 0x3FFF <s (word_of_int Q :: cint) then 0x3FFF else word_of_int Q) = q"
    by (simp add: q_def Q_def word_sless_alt min_def)
  have qd: "i16_of_int (NOT (int_of_u16 d)) = NOT d" by (rule i16_eqI) (simp add: bit_simps)
  show ?thesis
    unfolding b1_DV_def Let_def mem N_def [symmetric] assms(1) N(2) den(2) sc(2) eq zero
    unfolding N(1) den(1) sgn signs sdiv q qd LP_def [symmetric] r_def
    by (simp add: LP_def)
qed

text \<open>C22: \<open>DV\<close> divides the accumulator, scaled by 16384, by its operand: the quotient goes to \<open>A\<close>,
  limited to 14 bits, minus the remainder to \<open>Q\<close>, and \<open>LP\<close> tells the signs.  Equal magnitudes give
  the largest quotient.  A zero divisor crashes the emulator unless the dividend is zero.\<close>

theorem b1_DV_quotient:
  assumes code: "i AND 0xF000 = 0xA000" and operand: "4 \<le> i AND 0xFFF"
  shows "let A = memory st regA; a = sp_val (fixUcForWriting A); d = sp_val w;
      negative = (bit A 15 \<noteq> bit w 14);
      q = (if \<bar>a\<bar> = \<bar>d\<bar> then 16383 else min 16383 (\<bar>a\<bar> * 16384 div \<bar>d\<bar>));
      r = (if \<bar>a\<bar> = \<bar>d\<bar> then \<bar>d\<bar> else \<bar>a\<bar> * 16384 mod \<bar>d\<bar>)
    in if d = 0 \<and> a \<noteq> 0 then b1_Execute flat i w st = Crash
       else \<exists>st'. b1_Execute flat i w st = b1_Finish st' \<and>
         b1_acc (memory st' regA) = (if negative then - q else q) \<and>
         b1_acc (memory st' regQ) = - r \<and> numMCT st' = 18 \<and>
         memory st' regLP = (if \<not> negative then 1 else if bit A 15 then 0xC001 else 0xC000)"
proof -
  let ?A = "memory st regA" and ?x = "b1_SignExtend w"
  define n where "n = 0x3FFF AND magnitude ?A"
  define d where "d = magnitude ?x"
  have op: "\<not> i AND 0xFFF < 4" using operand by (simp add: not_less)
  have n: "uint n = \<bar>sp_val (fixUcForWriting ?A)\<bar>" unfolding n_def by (rule uint_corrected)
  have d: "uint d = \<bar>sp_val w\<bar>" by (simp add: d_def uint_magnitude)
  have lt: "uint d < 16384" "uint n < 16384"
    unfolding n d using sp_val_bounds [of w] sp_val_bounds [of "fixUcForWriting ?A"] by linarith+
  have x15: "bit ?x 15 \<longleftrightarrow> bit w 14" by (simp add: b1_SignExtend_eq)
  have dn: "d = n \<longleftrightarrow> \<bar>sp_val (fixUcForWriting ?A)\<bar> = \<bar>sp_val w\<bar>" "d = 0 \<longleftrightarrow> sp_val w = 0" "n = 0 \<longleftrightarrow> sp_val (fixUcForWriting ?A) = 0"
    using n d by (auto simp: word_uint_eq_iff)
  have "b1_acc d = \<bar>sp_val w\<bar>" using d lt by (simp add: b1_acc_eq)
  then have z: "b1_acc (NOT d) = - \<bar>sp_val w\<bar>" by (simp only: b1_acc_NOT)
  define q where "q = min 16383 (uint n * 16384 div uint d)"
  define r where "r = uint n * 16384 mod uint d"
  have q: "0 \<le> q" "q < 16384" by (simp_all add: q_def div_int_pos_iff)
  then have qa: "b1_acc (i16_of_int (word_of_int q)) = q" "b1_acc (i16_of_int (NOT (word_of_int q))) = - q"
    using b1_acc_of_int [of "word_of_int q"] uint_word_of_int_small [of q] by simp_all
  have ra: "b1_acc (i16_of_int (NOT (word_of_int r))) = - r" if "d \<noteq> 0"
  proof -
    have "0 < uint d" using that uint_ge_0 [of d] uint_0_iff [of d] by linarith
    then have "0 \<le> r" "r < 16384"
      unfolding r_def using lt pos_mod_bound [of "uint d" "uint n * 16384"] by (simp, linarith)
    then show ?thesis
      using b1_acc_of_int [of "word_of_int r"] uint_word_of_int_small [of r] by simp
  qed
  have ex: "b1_acc 0xC000 = - 16383" "b1_acc 0x3FFF = 16383"
    by (simp_all add: acc_val_def)
  have "(if i AND 0xFFF < 4 then w else ?x) = ?x" using op by simp
  note dv = b1_DV_eq [OF this refl, where st = st,
      folded n_def, folded d_def, unfolded x15, folded q_def, folded r_def]
  consider "d \<noteq> n" "d = 0" | "d = n" | "d \<noteq> n" "d \<noteq> 0" by blast
  then show ?thesis
  proof cases
    case 1
    then show ?thesis
      unfolding b1_Execute_codes(4) [OF operand code] dv Let_def using dn by auto
  next
    case 2
    define S where "S = wr regLP (if (bit ?A 15 \<noteq> bit w 14) = False then 1 else if bit ?A 15 then 0xC001 else 0xC000)
      (wr regA (if bit ?A 15 \<noteq> bit w 14 then 0xC000 else 0x3FFF) (wr regQ (NOT d) (st\<lparr>numMCT := 18\<rparr>)))"
    have e: "\<bar>sp_val (fixUcForWriting ?A)\<bar> = \<bar>sp_val w\<bar>" using dn 2 by simp
    have "b1_Execute flat i w st = b1_Finish S"
      unfolding b1_Execute_codes(4) [OF operand code] dv S_def using 2 by simp
    then show ?thesis
      unfolding Let_def using e z ex by (auto simp: S_def intro!: exI [of _ S])
  next
    case 3
    define S where "S = wr regLP (if (bit ?A 15 \<noteq> bit w 14) = False then 1 else if bit ?A 15 then 0xC001 else 0xC000)
      (wr regQ (i16_of_int (NOT (word_of_int r)))
        (wr regA (i16_of_int (if bit ?A 15 \<noteq> bit w 14 then NOT (word_of_int q) else word_of_int q)) (st\<lparr>numMCT := 18\<rparr>)))"
    have e: "\<bar>sp_val (fixUcForWriting ?A)\<bar> \<noteq> \<bar>sp_val w\<bar>" "sp_val w \<noteq> 0" using dn 3 by simp_all
    have qr: "min 16383 (\<bar>sp_val (fixUcForWriting ?A)\<bar> * 16384 div \<bar>sp_val w\<bar>) = q"
      "\<bar>sp_val (fixUcForWriting ?A)\<bar> * 16384 mod \<bar>sp_val w\<bar> = r"
      by (simp_all add: q_def r_def n d)
    have "b1_Execute flat i w st = b1_Finish S"
      unfolding b1_Execute_codes(4) [OF operand code] dv S_def using 3 by simp
    then show ?thesis
      unfolding Let_def qr using e qa ra [OF 3(2)] by (auto simp: S_def intro!: exI [of _ S])
  qed
qed

lemma b1_DV_quotient_witness:
  "let st = b1_zero\<lparr>memory := (\<lambda>_. 0)(0 := 0xFFFC)\<rparr>
   in \<exists>st'. b1_Execute 0x418 0xA040 5 st = b1_Finish st' \<and> b1_acc (memory st' regA) = - 9830 \<and>
      b1_acc (memory st' regQ) = - 2 \<and> memory st' regLP = 0xC001"
proof -
  have a: "fixUcForWriting 0xFFFC = 0x7FFC" "sp_val 0x7FFC = - 3" "sp_val 5 = 5"
    "\<not> bit (5 :: u16) 14" "bit (0xFFFC :: u16) 15"
    by (simp_all add: fixUcForWriting_def sp_val_def shift_defs)
  show ?thesis
    using b1_DV_quotient [of "0xA040" "b1_zero\<lparr>memory := (\<lambda>_. 0)(0 := 0xFFFC)\<rparr>" 5 "0x418"]
    by (auto simp: a Let_def)
qed

end
