(* ===== verification/B1_Control.thy ===== *)
theory B1_Control
  imports B1_Arith
begin

text \<open>
  The control flow of \<open>executeOneInstruction\<close>: which passes jump, interrupts and their return,
  when the function returns, when it never does, and when it leaves the defined behaviour of C.
\<close>

unbundle bit_operations_syntax

section \<open>Passes that jump and passes that end\<close>

fun final :: "b1_next \<Rightarrow> bool" where
  "final (Goto p st) = False"
| "final (Finished r st) = True"
| "final Crash = True"

abbreviation (input) RESUME_word :: u16 where "RESUME_word \<equiv> 0x2015"

lemma final_Finish [simp]: "final (b1_Finish st)"
  by (simp add: b1_Finish_def)

lemma Goto_Finish [simp]: "b1_Finish st \<noteq> Goto p st'" "b1_Finish st \<noteq> Crash"
  by (simp_all add: b1_Finish_def)

lemma RESUME_word_iff:
  "i AND 0x7000 = 0x2000 \<and> i AND 0x8000 = 0 \<and> i AND 0xFFF = 0x15 \<longleftrightarrow> i = RESUME_word"
  (is "?parts \<longleftrightarrow> _")
proof
  assume parts: ?parts
  have "i = i AND (0x7000 OR 0x8000 OR 0xFFF)"
    by (rule i16_eqI) (simp add: bit_simps mask_bits)
  also have "\<dots> = (i AND 0x7000) OR (i AND 0x8000) OR (i AND 0xFFF)"
    by (simp only: bit.conj_disj_distrib)
  finally have "i = (i AND 0x7000) OR (i AND 0x8000) OR (i AND 0xFFF)" .
  also have "\<dots> = RESUME_word" using parts by (simp del: bit_tests)
  finally show "i = RESUME_word" .
qed simp

lemma b1_Execute_final:
  assumes "i \<noteq> RESUME_word"
  shows "final (b1_Execute flat i w st)"
proof -
  have "\<not> (i AND 0x7000 = 0x2000 \<and> i AND 0x8000 = 0 \<and> i AND 0xFFF = 0x15)"
    using assms RESUME_word_iff [of i] by blast
  then show ?thesis
    by (auto simp: b1_Execute_def Let_def split: option.split)
qed

lemma b1_Execute_RESUME: "b1_Execute flat RESUME_word w st = b1_RESUME st"
  by (simp add: b1_Execute_def Let_def)

section \<open>Interrupts\<close>

text \<open>The sources of interrupts in the order of their priority.\<close>

definition rupts :: "b1 \<Rightarrow> (u16 \<times> bool) list" where
  "rupts st = [(0x400, overflowedTIME3 st \<noteq> 0), (0x404, 0 \<noteq> memory st regIN2 AND 0x7F80),
     (0x408, overflowedTIME4 st \<noteq> 0), (0x40C, 0 \<noteq> memory st regIN0 AND 0x20),
     (0x410, uplinkReady st \<noteq> 0), (0x414, downlinkReady st \<noteq> 0)]"

definition first_rupt :: "b1 \<Rightarrow> u16" where
  "first_rupt st = (case List.find snd (rupts st) of None \<Rightarrow> 0 | Some (v, _) \<Rightarrow> v)"

lemma fst_SelectRupt: "fst (SelectRupt st) = first_rupt st"
  by (simp add: SelectRupt_def first_rupt_def rupts_def)

text \<open>Selecting takes back the request, except that of the fail bits.\<close>

lemma rupts_SelectRupt:
  "rupts (snd (SelectRupt st)) =
     map (\<lambda>(v, b). (v, b \<and> (v = first_rupt st \<longrightarrow> v = 0x404))) (rupts st)"
proof -
  have "\<not> bit (w AND - 33) 5" for w :: u16
    by (simp add: bit_and_iff)
  then show ?thesis
    by (auto simp: SelectRupt_def first_rupt_def rupts_def)
qed

lemma SelectRupt_frame [simp]:
  "INTERRUPTED (snd (SelectRupt st)) = INTERRUPTED st" "lastZ (snd (SelectRupt st)) = lastZ st"
  "lastINDEX (snd (SelectRupt st)) = lastINDEX st" "countMCT (snd (SelectRupt st)) = countMCT st"
  "numBreaksOrWatches (snd (SelectRupt st)) = numBreaksOrWatches st"
  "INDEX (snd (SelectRupt st)) = INDEX st"
  "k \<noteq> regIN0 \<Longrightarrow> memory (snd (SelectRupt st)) k = memory st k"
  by (simp_all add: SelectRupt_def)

lemma TakeRupt_frame [simp]:
  "INTERRUPTED (TakeRupt v f i st) = 1" "INDEX (TakeRupt v f i st) = INDEX st"
  "numBreaksOrWatches (TakeRupt v f i st) = numBreaksOrWatches st"
  "rupts (TakeRupt v f i st) = rupts st" "ruptFlatAddress (TakeRupt v f i st) = f"
  "ruptLastINDEX (TakeRupt v f i st) = lastINDEX st" "ruptLastZ (TakeRupt v f i st) = lastZ st"
  "countMCT (TakeRupt v f i st) = countMCT st + 3"
  "memory (TakeRupt v f i st) = (memory st)(regZRUPT := memory st regZ, regBRUPT := i, regZ := v)"
  by (simp_all add: TakeRupt_def rupts_def Let_def)

text \<open>The state in which an instruction is dispatched.\<close>

definition Dispatched :: "u16 \<Rightarrow> b1 \<Rightarrow> b1" where
  "Dispatched instruction st =
     st\<lparr>B := (if 0 = instruction AND 0x8000
            then instruction OR shl 1 (instruction AND 0x4000) else instruction),
        lastInstruction := instruction, INDEX := 0\<rparr>"

lemma Dispatched_frame [simp]:
  "memory (Dispatched i st) = memory st" "INTERRUPTED (Dispatched i st) = INTERRUPTED st"
  "INDEX (Dispatched i st) = 0" "rupts (Dispatched i st) = rupts st"
  "first_rupt (Dispatched i st) = first_rupt st"
  "lastZ (Dispatched i st) = lastZ st" "lastINDEX (Dispatched i st) = lastINDEX st"
  "numBreaksOrWatches (Dispatched i st) = numBreaksOrWatches st"
  "countMCT (Dispatched i st) = countMCT st" "ruptFlatAddress (Dispatched i st) = ruptFlatAddress st"
  "ruptLastINDEX (Dispatched i st) = ruptLastINDEX st" "ruptLastZ (Dispatched i st) = ruptLastZ st"
  "RuptAllowed j (Dispatched i st) = RuptAllowed j st"
  by (simp_all add: Dispatched_def rupts_def first_rupt_def RuptAllowed_def)

lemma first_rupt_none: "first_rupt st = 0 \<Longrightarrow> SelectRupt st = (0, st)"
  by (simp add: SelectRupt_def first_rupt_def rupts_def split: if_splits)

lemma b1_Dispatch_Dispatched:
  "b1_Dispatch f i st =
     (case (if RuptAllowed i (Dispatched i st) then SelectRupt (Dispatched i st)
            else (0, Dispatched i st)) of
        (v, st) \<Rightarrow>
          if v \<noteq> 0 then Goto (Retry (i AND 0xFFF)) (TakeRupt v f i st)
          else
            case rd (if i AND 0xFFF < 0xC00 then unat (i AND 0xFFF)
                     else unat (flatten (int_of_u16 (memory st regBank)) (int_of_u16 (i AND 0xFFF)))) st of
              None \<Rightarrow> Crash
            | Some w \<Rightarrow> b1_Execute f i w st)"
  unfolding b1_Dispatch_def Dispatched_def Let_def by simp

lemma b1_Dispatch_rupt:
  assumes "RuptAllowed i st" "first_rupt st \<noteq> 0"
  shows "b1_Dispatch f i st = Goto (Retry (i AND 0xFFF))
    (TakeRupt (first_rupt st) f i (snd (SelectRupt (Dispatched i st))))"
  using assms fst_SelectRupt [of "Dispatched i st"]
  by (cases "SelectRupt (Dispatched i st)")
    (simp add: b1_Dispatch_Dispatched Let_def)

definition operand_address :: "u16 \<Rightarrow> b1 \<Rightarrow> nat" where
  "operand_address i st =
     (if i AND 0xFFF < 0xC00 then unat (i AND 0xFFF)
      else unat (flatten (int_of_u16 (memory st regBank)) (int_of_u16 (i AND 0xFFF))))"

lemma b1_Dispatch_execute:
  assumes "\<not> (RuptAllowed i st \<and> first_rupt st \<noteq> 0)"
  shows "b1_Dispatch f i st =
    (case rd (operand_address i st) st of
       None \<Rightarrow> Crash | Some w \<Rightarrow> b1_Execute f i w (Dispatched i st))"
proof -
  have "(if RuptAllowed i (Dispatched i st) then SelectRupt (Dispatched i st) else (0, Dispatched i st)) =
      (0, Dispatched i st)"
    using assms first_rupt_none [of "Dispatched i st"] by auto
  then show ?thesis
    by (simp add: b1_Dispatch_Dispatched operand_address_def rd_def)
qed

text \<open>\<open>RESUME\<close> in an interrupt.\<close>

lemma b1_RESUME_eq:
  assumes "INTERRUPTED st \<noteq> 0"
  shows "b1_RESUME st = Goto (ResumeFromInterrupt (ruptFlatAddress st) (memory st regBRUPT))
    (wr regZ (memory st regZRUPT)
      (st\<lparr>lastINDEX := ruptLastINDEX st, lastZ := ruptLastZ st, INTERRUPTED := 0,
          countMCT := countMCT st + 2\<rparr>))"
  using assms by (simp add: b1_RESUME_def Let_def wr_def)

lemma RESUME_operand [simp]: "operand_address RESUME_word st = regBRUPT"
  by (simp add: operand_address_def)

lemma b1_Dispatch_RESUME:
  assumes "INTERRUPTED st \<noteq> 0"
  shows "b1_Dispatch f RESUME_word st =
    Goto (ResumeFromInterrupt (ruptFlatAddress st) (memory st regBRUPT))
      (wr regZ (memory st regZRUPT)
        ((Dispatched RESUME_word st)\<lparr>lastINDEX := ruptLastINDEX st, lastZ := ruptLastZ st,
           INTERRUPTED := 0, countMCT := countMCT st + 2\<rparr>))"
proof -
  have "\<not> RuptAllowed RESUME_word st" using assms by (simp add: RuptAllowed_def)
  then have "b1_Dispatch f RESUME_word st = b1_RESUME (Dispatched RESUME_word st)"
    using b1_Execute_RESUME by (simp add: b1_Dispatch_execute rd_def)
  then show ?thesis using assms by (simp add: b1_RESUME_eq)
qed

section \<open>The function returns\<close>

text \<open>The instruction that is fetched next.\<close>

definition flat_address :: "b1 \<Rightarrow> u16" where
  "flat_address st =
     (if memory st regZ < 0xC00 then memory st regZ
      else ucast (flatten (int_of_u16 (memory st regBank)) (int_of_u16 (memory st regZ))))"

definition next_instruction :: "b1 \<Rightarrow> u16 option" where
  "next_instruction st =
     (case rd (unat (flat_address st)) st of
        None \<Rightarrow> None
      | Some w \<Rightarrow> Some (b1_AddSP16 (b1_SignExtend (INDEX st))
                    (if flat_address st < 4 then w else b1_SignExtend w)))"

definition Fetched :: "b1 \<Rightarrow> b1" where
  "Fetched st = (incrementZ 1 (st\<lparr>lastZ := memory st regZ\<rparr>))\<lparr>lastINDEX := INDEX st\<rparr>"

lemma Fetched_frame [simp]:
  "INTERRUPTED (Fetched st) = INTERRUPTED st" "rupts (Fetched st) = rupts st"
  "k \<noteq> regZ \<Longrightarrow> memory (Fetched st) k = memory st k"
  "numBreaksOrWatches (Fetched st) = numBreaksOrWatches st" "first_rupt (Fetched st) = first_rupt st"
  "RuptAllowed i (Fetched st) = RuptAllowed i st"
  by (simp_all add: Fetched_def incrementZ_def rupts_def first_rupt_def RuptAllowed_def)

lemma b1_Fetch_eq:
  "b1_Fetch op st =
     (case next_instruction st of
        None \<Rightarrow> Crash
      | Some i \<Rightarrow>
          if instructionCountDown st \<noteq> 1 \<and> b1_breaks op (flat_address st) i st
          then Finished 1 (st\<lparr>instructionCountDown := 0\<rparr>)
          else Goto (ResumeFromInterrupt (flat_address st) i) (Fetched st))"
proof -
  have "(incrementZ 1 (st\<lparr>lastZ := v\<rparr>))\<lparr>lastINDEX := INDEX (incrementZ 1 (st\<lparr>lastZ := v\<rparr>))\<rparr> =
      (incrementZ 1 (st\<lparr>lastZ := v\<rparr>))\<lparr>lastINDEX := INDEX st\<rparr>" for v
    by (simp add: incrementZ_def)
  then show ?thesis
    unfolding b1_Fetch_def Let_def flat_address_def [symmetric] next_instruction_def Fetched_def
    by (simp split: option.split)
qed

text \<open>The number of requests that an interrupt takes back.\<close>

definition requests :: "b1 \<Rightarrow> nat" where
  "requests st = length (filter (\<lambda>(v, b). b \<and> v \<noteq> 0x404) (rupts st))"

lemma requests_bound: "requests st \<le> 5"
  by (simp add: requests_def rupts_def)

lemma requests_cong [simp]:
  "requests (Fetched st) = requests st" "requests (Dispatched i st) = requests st"
  "requests (TakeRupt v f i st) = requests st"
  by (simp_all add: requests_def)

lemma requests_SelectRupt:
  assumes "first_rupt st \<noteq> 0" "memory st regIN2 AND 0x7F80 = 0"
  shows "requests (snd (SelectRupt st)) < requests st"
  using assms unfolding requests_def rupts_SelectRupt
  by (auto simp: first_rupt_def rupts_def split: if_splits)

lemma final_run: "final (b1_pass p st) \<Longrightarrow> b1_run (Suc n) p st \<noteq> None"
  by (cases "b1_pass p st") auto

lemmas Dispatch_run = final_run [of "ResumeFromInterrupt f i" for f i, simplified b1_pass.simps]

lemma Dispatch_final:
  assumes "i \<noteq> RESUME_word" "\<not> (RuptAllowed i st \<and> first_rupt st \<noteq> 0)"
  shows "final (b1_Dispatch f i st)"
  using b1_Execute_final [OF assms(1)]
  by (simp add: b1_Dispatch_execute [OF assms(2)] split: option.split)

text \<open>From an instruction that is not \<open>RESUME\<close>: each interrupt that is taken, and left by \<open>RESUME\<close>
  as its first instruction, takes three passes and one request.\<close>

lemma run_resumed:
  assumes "i \<noteq> RESUME_word" "INTERRUPTED st = 0" "memory st regIN2 AND 0x7F80 = 0"
    and "requests st \<le> n" "3 * n < fuel"
  shows "b1_run fuel (ResumeFromInterrupt f i) st \<noteq> None"
  using assms(2-)
proof (induction n arbitrary: f st fuel)
  case 0
  then obtain m where m: "fuel = Suc m" by (cases fuel) auto
  have "\<not> (RuptAllowed i st \<and> first_rupt st \<noteq> 0)"
    using requests_SelectRupt [of st] 0 by auto
  then show ?case unfolding m by (intro Dispatch_run Dispatch_final assms(1))
next
  case (Suc n)
  define m where "m = fuel - 3"
  have m: "fuel = Suc (Suc (Suc m))" "3 * n < m" using Suc.prems by (simp_all add: m_def)
  show ?case
  proof (cases "RuptAllowed i st \<and> first_rupt st \<noteq> 0")
    case False
    then show ?thesis unfolding m by (intro Dispatch_run Dispatch_final assms(1))
  next
    case True
    define T where "T = TakeRupt (first_rupt st) f i (snd (SelectRupt (Dispatched i st)))"
    have T: "INTERRUPTED T \<noteq> 0" "memory T regBRUPT = i" "memory T regIN2 AND 0x7F80 = 0"
      using Suc.prems by (simp_all add: T_def)
    have rT: "requests T \<le> n"
      using requests_SelectRupt [of "Dispatched i st"] True Suc.prems by (simp add: T_def)
    have pass1: "b1_Dispatch f i st = Goto (Retry (i AND 0xFFF)) T"
      using True by (simp add: b1_Dispatch_rupt T_def)
    show ?thesis
    proof (cases "final (b1_Fetch (i AND 0xFFF) T)")
      case True
      then show ?thesis using pass1 by (cases "b1_Fetch (i AND 0xFFF) T") (auto simp: m)
    next
      case False
      then obtain j where pass2: "b1_Fetch (i AND 0xFFF) T = Goto (ResumeFromInterrupt (flat_address T) j) (Fetched T)"
        by (auto simp: b1_Fetch_eq split: option.splits if_splits)
      have no: "\<not> (RuptAllowed j (Fetched T) \<and> first_rupt (Fetched T) \<noteq> 0)"
        using T(1) by (simp add: RuptAllowed_def)
      show ?thesis
      proof (cases "j = RESUME_word")
        case False
        then have "final (b1_Dispatch (flat_address T) j (Fetched T))" using no by (rule Dispatch_final)
        then show ?thesis
          using pass1 pass2 by (cases "b1_Dispatch (flat_address T) j (Fetched T)") (auto simp: m)
      next
        case True
        define R where "R = wr regZ (memory (Fetched T) regZRUPT)
          ((Dispatched RESUME_word (Fetched T))\<lparr>lastINDEX := ruptLastINDEX (Fetched T), lastZ := ruptLastZ (Fetched T),
             INTERRUPTED := 0, countMCT := countMCT (Fetched T) + 2\<rparr>)"
        have pass3: "b1_Dispatch (flat_address T) j (Fetched T) =
            Goto (ResumeFromInterrupt (ruptFlatAddress (Fetched T)) i) R"
          using b1_Dispatch_RESUME [of "Fetched T"] T by (simp add: True R_def)
        have "INTERRUPTED R = 0" "memory R regIN2 AND 0x7F80 = 0" "requests R \<le> n"
          using T rT by (simp_all add: R_def requests_def rupts_def Dispatched_def Fetched_def incrementZ_def)
        then show ?thesis using Suc.IH [of R m "ruptFlatAddress (Fetched T)"] pass1 pass2 pass3 m(2) by (simp add: m(1))
      qed
    qed
  qed
qed

text \<open>\<open>RESUME\<close> goes on with \<open>BRUPT\<close>, whether or not an interrupt is in progress.\<close>

lemma b1_RESUME_goto:
  obtains R where "b1_RESUME st = Goto (ResumeFromInterrupt (ruptFlatAddress st) (memory st regBRUPT)) R"
    and "INTERRUPTED R = 0" "memory R regIN2 = memory st regIN2"
  by (simp add: b1_RESUME_def implementationError_def Let_def wr_def)

text \<open>The first instruction of an interrupt routine.\<close>

lemma b1_SignExtend_RESUME: "b1_SignExtend w = RESUME_word \<longleftrightarrow> w AND 0x7FFF = RESUME_word"
proof
  assume w: "b1_SignExtend w = RESUME_word"
  have "b1_SignExtend w AND 0x7FFF = w AND 0x7FFF"
    by (rule i16_eqI) (auto simp: b1_SignExtend_def bit_simps mask_bits)
  then show "w AND 0x7FFF = RESUME_word" by (simp add: w)
next
  assume w: "w AND 0x7FFF = RESUME_word"
  then have "\<not> bit (w AND 0x7FFF) 14" by simp
  then have "\<not> bit w 14" by (simp add: bit_and_iff)
  then have "shl 1 w AND 0x8000 = 0"
    by (intro i16_eqI) (auto simp: bit_simps mask_bits)
  then show "b1_SignExtend w = RESUME_word" unfolding b1_SignExtend_def by (simp only: w or.right_neutral)
qed

lemma b1_AddSP16_zero: "b1_AddSP16 (b1_SignExtend 0) w = w"
proof -
  have "\<not> bit (int_of_u16 w) 16" by (simp add: bit_simps)
  then show ?thesis by (simp add: b1_AddSP16_def b1_SignExtend_def shift_defs)
qed

lemma next_TakeRupt:
  assumes "first_rupt st \<noteq> 0"
  shows "next_instruction (TakeRupt (first_rupt st) f i (snd (SelectRupt (Dispatched j st)))) = Some RESUME_word
    \<longleftrightarrow> memory st (unat (first_rupt st)) AND 0x7FFF = RESUME_word"
proof -
  let ?T = "TakeRupt (first_rupt st) f i (snd (SelectRupt (Dispatched j st)))"
  have v: "first_rupt st \<in> {0x400, 0x404, 0x408, 0x40C, 0x410, 0x414}"
    using assms by (auto simp: first_rupt_def rupts_def split: if_splits)
  have "flat_address ?T = first_rupt st"
    using v by (auto simp: flat_address_def)
  then have "next_instruction ?T =
      Some (b1_AddSP16 (b1_SignExtend 0) (b1_SignExtend (memory st (unat (first_rupt st)))))"
    using v by (auto simp: next_instruction_def rd_def)
  then show ?thesis by (simp add: b1_AddSP16_zero b1_SignExtend_RESUME)
qed

text \<open>From a \<open>RESUME\<close>: an interrupt takes its place, and its routine starts with another
  instruction, or the instruction in \<open>BRUPT\<close> follows it.\<close>

lemma run_RESUME:
  assumes fail: "memory st regIN2 AND 0x7F80 = 0"
    and meets: "if RuptAllowed RESUME_word st \<and> first_rupt st \<noteq> 0
      then memory st (unat (first_rupt st)) AND 0x7FFF \<noteq> RESUME_word
      else memory st regBRUPT \<noteq> RESUME_word"
    and fuel: "16 < fuel"
  shows "b1_run fuel (ResumeFromInterrupt f RESUME_word) st \<noteq> None"
proof -
  define m where "m = fuel - 3"
  have m: "fuel = Suc (Suc (Suc m))" using fuel by (simp add: m_def)
  show ?thesis
  proof (cases "RuptAllowed RESUME_word st \<and> first_rupt st \<noteq> 0")
    case True
    define T where "T = TakeRupt (first_rupt st) f RESUME_word (snd (SelectRupt (Dispatched RESUME_word st)))"
    have pass1: "b1_Dispatch f RESUME_word st = Goto (Retry (RESUME_word AND 0xFFF)) T"
      unfolding T_def using True by (intro b1_Dispatch_rupt) simp_all
    have other: "next_instruction T \<noteq> Some RESUME_word"
      using True meets next_TakeRupt [of st f RESUME_word RESUME_word] by (simp add: T_def)
    have no: "\<not> (RuptAllowed j (Fetched T) \<and> first_rupt (Fetched T) \<noteq> 0)" for j
      by (simp add: T_def RuptAllowed_def)
    have "b1_run (Suc (Suc m)) (Retry (RESUME_word AND 0xFFF)) T \<noteq> None"
    proof (cases "final (b1_Fetch (RESUME_word AND 0xFFF) T)")
      case True
      then show ?thesis by (cases "b1_Fetch (RESUME_word AND 0xFFF) T") auto
    next
      case False
      then obtain j where j: "next_instruction T = Some j" and
          pass2: "b1_Fetch (RESUME_word AND 0xFFF) T = Goto (ResumeFromInterrupt (flat_address T) j) (Fetched T)"
        by (auto simp: b1_Fetch_eq split: option.splits if_splits)
      have "b1_run (Suc m) (ResumeFromInterrupt (flat_address T) j) (Fetched T) \<noteq> None"
        using other j no by (intro Dispatch_run Dispatch_final) auto
      then show ?thesis
        by (simp only: b1_run.simps b1_pass.simps pass2 b1_next.case not_False_eq_True)
    qed
    then show ?thesis by (simp only: m b1_run.simps b1_pass.simps pass1 b1_next.case not_False_eq_True)
  next
    case False
    obtain R where R: "b1_RESUME (Dispatched RESUME_word st) =
        Goto (ResumeFromInterrupt (ruptFlatAddress st) (memory st regBRUPT)) R"
      "INTERRUPTED R = 0" "memory R regIN2 = memory st regIN2"
      using b1_RESUME_goto [of "Dispatched RESUME_word st"] by auto
    have pass1: "b1_Dispatch f RESUME_word st = Goto (ResumeFromInterrupt (ruptFlatAddress st) (memory st regBRUPT)) R"
      using b1_Execute_RESUME False by (simp add: b1_Dispatch_execute rd_def R(1))
    have "b1_run (Suc (Suc m)) (ResumeFromInterrupt (ruptFlatAddress st) (memory st regBRUPT)) R \<noteq> None"
      using meets False R fail fuel
      by (intro run_resumed [OF _ _ _ requests_bound]) (simp_all add: m_def)
    then show ?thesis by (simp only: m b1_run.simps b1_pass.simps pass1 b1_next.case not_False_eq_True)
  qed
qed

text \<open>C7: an instruction ends after at most 18 passes, however interrupts and returns from
  interrupts follow each other, unless a fail bit asks for interrupts forever, or a \<open>RESUME\<close> meets
  another one: the interrupt that takes its place has a routine that starts with \<open>RESUME\<close>, or, when
  it is executed, the instruction that \<open>BRUPT\<close> brings back is a \<open>RESUME\<close>.  To end is to return, or
  to leave the defined behaviour of C with \<open>Crashed\<close>, as characterised for a pass below.\<close>

theorem executeOneInstruction_returns:
  assumes "memory st regIN2 AND 0x7F80 = 0"
    and "next_instruction st = Some RESUME_word \<Longrightarrow>
      if RuptAllowed RESUME_word st \<and> first_rupt st \<noteq> 0
      then memory st (unat (first_rupt st)) AND 0x7FFF \<noteq> RESUME_word
      else memory st regBRUPT \<noteq> RESUME_word"
    and "18 \<le> fuel"
  shows "\<exists>r. executeOneInstruction fuel operand st = Some r"
proof -
  let ?st = "st\<lparr>numMCT := 2\<rparr>"
  have same: "next_instruction ?st = next_instruction st" "flat_address ?st = flat_address st"
    "first_rupt ?st = first_rupt st" "RuptAllowed i ?st = RuptAllowed i st" for i
    by (simp_all add: next_instruction_def flat_address_def rd_def first_rupt_def rupts_def RuptAllowed_def)
  define m where "m = fuel - 1"
  have m: "fuel = Suc m" "16 < m" using assms(3) by (simp_all add: m_def)
  have fail: "memory (Fetched ?st) regIN2 AND 0x7F80 = 0" using assms(1) by simp
  have "b1_run fuel (Retry operand) ?st \<noteq> None"
  proof (cases "final (b1_Fetch operand ?st)")
    case True
    then show ?thesis by (cases "b1_Fetch operand ?st") (auto simp: m)
  next
    case False
    then obtain j where j: "next_instruction st = Some j"
        and pass1: "b1_Fetch operand ?st = Goto (ResumeFromInterrupt (flat_address st) j) (Fetched ?st)"
      by (auto simp: b1_Fetch_eq same split: option.splits if_splits)
    have "b1_run m (ResumeFromInterrupt (flat_address st) j) (Fetched ?st) \<noteq> None"
    proof (cases "j = RESUME_word")
      case True
      have v: "unat (first_rupt st) \<noteq> regZ"
        by (auto simp: first_rupt_def rupts_def)
      have "if RuptAllowed RESUME_word (Fetched ?st) \<and> first_rupt (Fetched ?st) \<noteq> 0
        then memory (Fetched ?st) (unat (first_rupt (Fetched ?st))) AND 0x7FFF \<noteq> RESUME_word
        else memory (Fetched ?st) regBRUPT \<noteq> RESUME_word"
        using assms(2) j True v by (simp add: same)
      then show ?thesis unfolding True using fail m(2) by (intro run_RESUME) simp_all
    next
      case False
      show ?thesis
      proof (cases "INTERRUPTED st = 0")
        case True
        then show ?thesis
          using m(2) by (intro run_resumed [OF False _ fail requests_bound]) simp_all
      next
        case interrupted: False
        then have no: "\<not> (RuptAllowed j (Fetched ?st) \<and> first_rupt (Fetched ?st) \<noteq> 0)"
          by (simp add: RuptAllowed_def)
        obtain n where "m = Suc n" using m(2) by (cases m) auto
        then show ?thesis using Dispatch_run [OF Dispatch_final [OF False no]] by simp
      qed
    qed
    then show ?thesis by (simp only: m(1) b1_run.simps b1_pass.simps pass1 b1_next.case not_False_eq_True)
  qed
  then show ?thesis by (simp add: executeOneInstruction_def)
qed

text \<open>A \<open>RESUME\<close> outside of an interrupt that brings back \<open>TC 0600\<close>, and one whose place is taken by an
  interrupt with a routine that starts with the same instruction.\<close>

lemma executeOneInstruction_returns_witness:
  "let cells = (\<lambda>_. 0)(regZ := 0x418, 0x418 := 0x2015, 0x408 := 0x180, regBRUPT := 0x180)
   in (\<exists>r. executeOneInstruction 18 0 (b1_zero\<lparr>memory := cells\<rparr>) = Some r) \<and>
      (\<exists>r. executeOneInstruction 18 0 (b1_zero\<lparr>memory := cells(regBRUPT := 0x2015), overflowedTIME4 := 1\<rparr>) = Some r)"
proof -
  let ?cells = "(\<lambda>_. 0)(regZ := 0x418, 0x418 := 0x2015, 0x408 := 0x180, regBRUPT := 0x180)"
  have "first_rupt (b1_zero\<lparr>memory := ?cells\<rparr>) = 0"
    "first_rupt (b1_zero\<lparr>memory := ?cells(regBRUPT := 0x2015), overflowedTIME4 := 1\<rparr>) = 0x408"
    "RuptAllowed RESUME_word (b1_zero\<lparr>memory := ?cells(regBRUPT := 0x2015), overflowedTIME4 := 1\<rparr>)"
    by (simp_all add: first_rupt_def rupts_def RuptAllowed_def b1_zero_def)
  then show ?thesis
    unfolding Let_def
    using executeOneInstruction_returns [of "b1_zero\<lparr>memory := ?cells\<rparr>" 18 0]
      executeOneInstruction_returns [of "b1_zero\<lparr>memory := ?cells(regBRUPT := 0x2015), overflowedTIME4 := 1\<rparr>" 18 0]
    by simp
qed

section \<open>The function does not return\<close>

text \<open>A set of configurations that passes never leave.\<close>

lemma runs_forever:
  assumes "P p st" "\<And>p st. P p st \<Longrightarrow> \<exists>p' st'. b1_pass p st = Goto p' st' \<and> P p' st'"
  shows "b1_run fuel p st = None"
  using assms(1)
proof (induction fuel arbitrary: p st)
  case (Suc fuel)
  obtain p' st' where "b1_pass p st = Goto p' st'" "P p' st'" using assms(2) [OF Suc.prems] by blast
  then show ?case using Suc.IH by simp
qed simp

text \<open>A fail bit stays on and its interrupt routine is left at once.\<close>

definition fail_loop :: "b1 \<Rightarrow> bool" where
  "fail_loop st \<longleftrightarrow>
     memory st regInhint = 0 \<and> 0x8000 \<noteq> 0xC000 AND memory st regA \<and>
     0x4000 \<noteq> 0xC000 AND memory st regA \<and>
     overflowedTIME3 st = 0 \<and> 0 \<noteq> memory st regIN2 AND 0x7F80 \<and>
     memory st 0x404 = RESUME_word \<and> numBreaksOrWatches st = 0"

fun looping :: "b1_point \<Rightarrow> b1 \<Rightarrow> bool" where
  "looping (Retry op) st \<longleftrightarrow>
     fail_loop st \<and> INTERRUPTED st \<noteq> 0 \<and> INDEX st = 0 \<and> memory st regZ = 0x404 \<and>
     \<not> bit (memory st regBRUPT) 15"
| "looping (ResumeFromInterrupt f i) st \<longleftrightarrow>
     fail_loop st \<and>
     (if INTERRUPTED st = 0 then \<not> bit i 15 else i = RESUME_word \<and> \<not> bit (memory st regBRUPT) 15)"

lemma fail_loop_first: "fail_loop st \<Longrightarrow> first_rupt st = 0x404"
  by (auto simp: fail_loop_def first_rupt_def rupts_def)

lemma looping_pass: "looping p st \<Longrightarrow> \<exists>p' st'. b1_pass p st = Goto p' st' \<and> looping p' st'"
proof (cases p)
  case (Retry op)
  assume l: "looping p st"
  have "flat_address st = 0x404" using l by (simp add: Retry flat_address_def)
  then have n: "next_instruction st = Some RESUME_word"
    using l by (simp add: Retry next_instruction_def rd_def fail_loop_def b1_SignExtend_def
        b1_AddSP16_def Let_def shift_defs)
  have "\<not> b1_breaks op (flat_address st) RESUME_word st"
    using l by (simp add: Retry b1_breaks_def Let_def fail_loop_def)
  then have "b1_pass p st = Goto (ResumeFromInterrupt (flat_address st) RESUME_word) (Fetched st)"
    by (simp add: Retry b1_Fetch_eq n)
  moreover have "overflowedTIME3 (Fetched st) = overflowedTIME3 st"
    by (simp add: Fetched_def incrementZ_def)
  ultimately show ?thesis using l by (simp add: Retry fail_loop_def)
next
  case (ResumeFromInterrupt f i)
  assume l: "looping p st"
  show ?thesis
  proof (cases "INTERRUPTED st = 0")
    case True
    have "RuptAllowed i st"
      using l True by (simp add: ResumeFromInterrupt RuptAllowed_def fail_loop_def)
    then have pass: "b1_pass p st = Goto (Retry (i AND 0xFFF))
        (TakeRupt 0x404 f i (snd (SelectRupt (Dispatched i st))))"
      using l b1_Dispatch_rupt [of i st f] by (simp add: ResumeFromInterrupt fail_loop_first)
    have "SelectRupt (Dispatched i st) = (0x404, Dispatched i st)"
      using l by (simp add: ResumeFromInterrupt SelectRupt_def fail_loop_def Dispatched_def)
    moreover have "overflowedTIME3 (TakeRupt v f i (Dispatched i st)) = overflowedTIME3 st" for v
      by (simp add: TakeRupt_def Dispatched_def Let_def)
    ultimately show ?thesis
      unfolding pass using l True by (simp add: ResumeFromInterrupt fail_loop_def)
  next
    case False
    then have i: "i = RESUME_word" using l by (simp add: ResumeFromInterrupt)
    show ?thesis
      using l False b1_Dispatch_RESUME [OF False, of f]
      by (simp add: ResumeFromInterrupt i fail_loop_def Dispatched_def)
  qed
qed

text \<open>\<open>RESUME\<close> outside of an interrupt brings back what \<open>BRUPT\<close> holds; when this is a \<open>RESUME\<close>, too,
  the same happens again.\<close>

fun resuming :: "b1_point \<Rightarrow> b1 \<Rightarrow> bool" where
  "resuming (Retry op) st \<longleftrightarrow> False"
| "resuming (ResumeFromInterrupt f i) st \<longleftrightarrow>
     i = RESUME_word \<and> INTERRUPTED st = 0 \<and> memory st regBRUPT = RESUME_word \<and> memory st regInhint \<noteq> 0"

lemma resuming_pass: "resuming p st \<Longrightarrow> \<exists>p' st'. b1_pass p st = Goto p' st' \<and> resuming p' st'"
proof (cases p)
  case (ResumeFromInterrupt f i)
  assume r: "resuming p st"
  then have "\<not> RuptAllowed i st" by (simp add: ResumeFromInterrupt RuptAllowed_def)
  then have "b1_pass p st = b1_RESUME (Dispatched RESUME_word st)"
    using r b1_Execute_RESUME by (simp add: ResumeFromInterrupt b1_Dispatch_execute rd_def)
  then show ?thesis
    using r by (simp add: ResumeFromInterrupt b1_RESUME_def implementationError_def Let_def Dispatched_def)
qed simp

text \<open>C8: the function never returns when a fail bit is on and its interrupt routine is a single
  \<open>RESUME\<close>, or when \<open>RESUME\<close> is executed outside of an interrupt, with interrupts inhibited, and
  \<open>BRUPT\<close> holds a \<open>RESUME\<close>: no amount of fuel is enough.\<close>

theorem executeOneInstruction_hangs:
  assumes i: "next_instruction st = Some i" and "INTERRUPTED st = 0" "numBreaksOrWatches st = 0"
    and "fail_loop st \<and> \<not> bit i 15 \<or>
      i = RESUME_word \<and> memory st regBRUPT = RESUME_word \<and> memory st regInhint \<noteq> 0"
  shows "executeOneInstruction fuel operand st = None"
proof (cases fuel)
  case (Suc n)
  let ?st = "st\<lparr>numMCT := 2\<rparr>"
  have same: "next_instruction ?st = next_instruction st" "flat_address ?st = flat_address st"
    by (simp_all add: next_instruction_def flat_address_def rd_def)
  have "\<not> b1_breaks operand (flat_address st) i ?st"
    using assms(3) by (simp add: b1_breaks_def Let_def)
  then have pass: "b1_Fetch operand ?st = Goto (ResumeFromInterrupt (flat_address st) i) (Fetched ?st)"
    by (simp add: b1_Fetch_eq same i)
  have "fail_loop (Fetched ?st) \<longleftrightarrow> fail_loop st"
    by (simp add: fail_loop_def Fetched_def incrementZ_def)
  then have "looping (ResumeFromInterrupt (flat_address st) i) (Fetched ?st) \<or>
      resuming (ResumeFromInterrupt (flat_address st) i) (Fetched ?st)"
    using assms(2,4) by auto
  then have "b1_run n (ResumeFromInterrupt (flat_address st) i) (Fetched ?st) = None"
    using runs_forever [of looping, OF _ looping_pass] runs_forever [of resuming, OF _ resuming_pass] by blast
  then show ?thesis using pass by (simp add: Suc executeOneInstruction_def)
qed (simp add: executeOneInstruction_def)

lemma executeOneInstruction_hangs_witness:
  "\<forall>fuel. executeOneInstruction fuel 0
     (b1_zero\<lparr>memory := (\<lambda>_. 0)(regZ := 0x418, regIN2 := 0x80, 0x404 := 0x2015)\<rparr>) = None"
  using executeOneInstruction_hangs
    [of "b1_zero\<lparr>memory := (\<lambda>_. 0)(regZ := 0x418, regIN2 := 0x80, 0x404 := 0x2015)\<rparr>" 0 _ 0]
  by (simp add: next_instruction_def flat_address_def rd_def b1_SignExtend_def b1_AddSP16_def
      Let_def shift_defs fail_loop_def b1_zero_def)

section \<open>Interrupts and their return\<close>

text \<open>C12: an interrupt is taken exactly when it is allowed and some request is pending; it is the first
  in the order of priority, its request is taken back (except for the fail bits, which stay on), the
  others stay, \<open>ZRUPT\<close> and \<open>BRUPT\<close> receive the address and the instruction, and control goes to the
  vector.  Whatever the interrupt routine does, as long as it leaves these cells alone, its \<open>RESUME\<close>
  brings back exactly the interrupted instruction at its address, with interrupts enabled.\<close>

theorem b1_interrupt_resume:
  fixes st st2 :: b1 and f i :: u16
  defines "st1 \<equiv> TakeRupt (first_rupt st) f i (snd (SelectRupt (Dispatched i st)))"
  assumes rupt: "RuptAllowed i st" "first_rupt st \<noteq> 0"
    and kept: "INTERRUPTED st2 \<noteq> 0" "memory st2 regZRUPT = memory st1 regZRUPT"
      "memory st2 regBRUPT = memory st1 regBRUPT" "ruptFlatAddress st2 = ruptFlatAddress st1"
      "ruptLastINDEX st2 = ruptLastINDEX st1" "ruptLastZ st2 = ruptLastZ st1"
  shows "b1_pass (ResumeFromInterrupt f i) st = Goto (Retry (i AND 0xFFF)) st1 \<and>
    memory st1 regZ = first_rupt st \<and> INTERRUPTED st1 = 1 \<and> countMCT st1 = countMCT st + 3 \<and>
    rupts st1 = map (\<lambda>(v, b). (v, b \<and> (v \<noteq> first_rupt st \<or> v = 0x404))) (rupts st) \<and>
    (\<exists>st3. b1_pass (ResumeFromInterrupt g RESUME_word) st2 = Goto (ResumeFromInterrupt f i) st3 \<and>
       memory st3 = (memory st2)(regZ := memory st regZ) \<and> INTERRUPTED st3 = 0 \<and>
       lastINDEX st3 = lastINDEX st \<and> lastZ st3 = lastZ st \<and> countMCT st3 = countMCT st2 + 2)"
proof -
  have r: "ruptFlatAddress st2 = f" "memory st2 regBRUPT = i" "memory st2 regZRUPT = memory st regZ"
    "ruptLastINDEX st2 = lastINDEX st" "ruptLastZ st2 = lastZ st"
    using kept by (simp_all add: st1_def)
  have "rupts st1 = map (\<lambda>(v, b). (v, b \<and> (v \<noteq> first_rupt st \<or> v = 0x404))) (rupts st)"
    by (auto simp: st1_def rupts_SelectRupt)
  then show ?thesis
    using b1_Dispatch_rupt [OF rupt, of f] b1_Dispatch_RESUME [OF kept(1), of g]
    by (auto simp: r st1_def)
qed

lemma b1_interrupt_resume_witness:
  "let st = b1_zero\<lparr>memory := (\<lambda>_. 0)(regZ := 0x419), overflowedTIME4 := 1, downlinkReady := 1\<rparr>
   in \<exists>st1. b1_pass (ResumeFromInterrupt 0x418 0x3040) st = Goto (Retry 0x40) st1 \<and>
      memory st1 regZ = 0x408 \<and> first_rupt st1 = 0x414 \<and>
      (\<exists>st3. b1_pass (ResumeFromInterrupt 0x408 RESUME_word) st1 = Goto (ResumeFromInterrupt 0x418 0x3040) st3 \<and>
         memory st3 regZ = 0x419)"
proof -
  let ?st = "b1_zero\<lparr>memory := (\<lambda>_. 0)(regZ := 0x419), overflowedTIME4 := 1, downlinkReady := 1\<rparr>"
  let ?st1 = "TakeRupt (first_rupt ?st) 0x418 0x3040 (snd (SelectRupt (Dispatched 0x3040 ?st)))"
  have f: "first_rupt ?st = 0x408" by (simp add: first_rupt_def rupts_def b1_zero_def)
  have a: "RuptAllowed 0x3040 ?st" by (simp add: RuptAllowed_def b1_zero_def)
  have n: "first_rupt ?st \<noteq> 0" by (simp add: f)
  have i: "INTERRUPTED ?st1 \<noteq> 0" by simp
  note t = b1_interrupt_resume [OF a n i refl refl refl refl refl, of "0x408"]
  have "first_rupt ?st1 = 0x414"
    by (simp add: f first_rupt_def rupts_SelectRupt) (simp add: rupts_def b1_zero_def)
  then show ?thesis
    using t unfolding Let_def by (intro exI [of _ ?st1]) (auto simp: f)
qed

section \<open>Undefined behaviour\<close>

text \<open>The bank register keeps its bits 11 to 15 only.\<close>

definition bank_ok :: "b1 \<Rightarrow> bool" where
  "bank_ok st \<longleftrightarrow> memory st regBank AND 0x83FF = 0"

lemma uint_bank:
  assumes "bank_ok st"
  shows "uint (memory st regBank) \<le> 0x7C00"
proof -
  let ?b = "memory st regBank"
  have "?b = ?b AND (0x83FF OR 0x7C00)"
    by (rule i16_eqI) (simp add: bit_simps mask_bits)
  also have "\<dots> = ?b AND 0x7C00"
    using assms unfolding bit.conj_disj_distrib bank_ok_def by simp
  finally have "?b \<le> 0x7C00" by (metis word_and_le1)
  then show ?thesis by (simp add: word_le_def)
qed

lemma uint_and_1777: "uint (w AND 0x3FF :: cint) < 1024"
  using uint_and_low_mask(2) [of w 10] by (simp add: low_masks(11) [symmetric] mask_eq_exp_minus_1)

lemma flatten_bound:
  assumes "bank_ok st" "memory st regBank \<noteq> 0"
  shows "uint (flatten (int_of_u16 (memory st regBank)) v) < 33792"
proof -
  have "uint (int_of_u16 (memory st regBank) + (v AND 0x3FF)) \<le>
      uint (memory st regBank) + uint (v AND 0x3FF)"
    by (simp add: uint_plus_if')
  moreover have "int_of_u16 (memory st regBank) \<noteq> 0"
    using assms(2) by (metis i16_of_int_of_u16 unsigned_0)
  ultimately show ?thesis
    using uint_bank [OF assms(1)] uint_and_1777 [of v] by (simp add: flatten_def)
qed

lemma next_instruction_None:
  assumes "bank_ok st"
  shows "next_instruction st = None \<longleftrightarrow> memory st regBank = 0 \<and> 0x8400 \<le> memory st regZ"
proof -
  let ?Z = "memory st regZ" and ?b = "memory st regBank"
  have None_iff: "next_instruction st = None \<longleftrightarrow> 33792 \<le> unat (flat_address st)"
    by (simp add: next_instruction_def rd_def not_less)
  have le: "33792 \<le> unat w \<longleftrightarrow> 0x8400 \<le> w" for w :: u16
    by (simp add: word_le_nat_alt)
  show ?thesis
  proof (cases "?b \<noteq> 0 \<and> \<not> ?Z < 0xC00")
    case True
    let ?v = "flatten (int_of_u16 ?b) (int_of_u16 ?Z)"
    have "uint ?v < 33792" using flatten_bound [OF assms] True by blast
    then have "uint (ucast ?v :: u16) < 33792" by (simp add: uint_i16_of_int)
    then have "unat (flat_address st) < 33792"
      using True by (simp add: flat_address_def unat_ltI)
    then show ?thesis using None_iff True by simp
  next
    case False
    have "flat_address st = ?Z" using False by (auto simp: flat_address_def flatten_def)
    moreover have "?Z < 0xC00 \<Longrightarrow> \<not> 0x8400 \<le> ?Z" by (simp add: word_le_nat_alt word_less_nat_alt)
    ultimately show ?thesis using None_iff le [of ?Z] False by auto
  qed
qed

lemma bit15_set: "i AND 0x8000 = 0x8000 \<longleftrightarrow> bit (i :: u16) 15"
proof
  assume "i AND 0x8000 = 0x8000"
  then have "bit (i AND 0x8000) 15" by simp
  then show "bit i 15" by (simp add: bit_and_iff)
next
  assume "bit i 15"
  then show "i AND 0x8000 = 0x8000" by (intro i16_eqI) (auto simp: bit_simps mask_bits)
qed

lemma operand_address_bound:
  assumes "bank_ok st"
  shows "operand_address i st < 33792"
proof -
  let ?a = "i AND 0xFFF" and ?b = "memory st regBank"
  have "uint ?a < 4096"
    using uint_and_low_mask(2) [of i 12] by (simp add: low_masks(9) [symmetric] mask_eq_exp_minus_1)
  then have a: "unat ?a < 33792" by (intro unat_ltI) simp
  show ?thesis
  proof (cases "?a < 0xC00 \<or> ?b = 0")
    case True
    then have "operand_address i st = unat ?a"
      unfolding operand_address_def flatten_def using unat_int_of_u16 [of ?a] by (cases "?a < 0xC00") simp_all
    then show ?thesis using a by (simp only:)
  next
    case False
    then have "operand_address i st = unat (flatten (int_of_u16 ?b) (int_of_u16 ?a))"
      unfolding operand_address_def by (simp only: if_False de_Morgan_disj)
    moreover have "unat (flatten (int_of_u16 ?b) (int_of_u16 ?a)) < 33792"
      using flatten_bound [OF assms] False by (intro unat_ltI) simp
    ultimately show ?thesis by (simp only:)
  qed
qed

definition divisor :: "u16 \<Rightarrow> b1 \<Rightarrow> u16" where
  "divisor i st =
     (let w = memory st (operand_address i st) in if i AND 0xFFF < 4 then w else b1_SignExtend w)"

lemma b1_DV_None:
  "b1_DV op w x st = None \<longleftrightarrow>
     b1_acc (if op < 4 then w else x) = 0 \<and> sp_val (fixUcForWriting (memory st regA)) \<noteq> 0"
proof -
  let ?y = "if op < 4 then w else x"
  have "magnitude ?y = 0 \<longleftrightarrow> b1_acc ?y = 0"
    using uint_magnitude [of ?y] by (simp add: uint_0_iff [symmetric])
  moreover have "0x3FFF AND magnitude (memory st regA) = 0 \<longleftrightarrow> sp_val (fixUcForWriting (memory st regA)) = 0"
    using uint_corrected [of "memory st regA"] by (simp add: uint_0_iff [symmetric] del: uint_mask_simps)
  ultimately show ?thesis
    unfolding b1_DV_eq [OF refl refl] by auto
qed

lemma DV_code: "i AND 0xF000 = 0xA000 \<longleftrightarrow> i AND 0x7000 = 0x2000 \<and> bit (i :: u16) 15"
proof -
  have parts: "i AND 0xF000 = (i AND 0x7000) OR (i AND 0x8000)"
    unfolding bit.conj_disj_distrib [symmetric] by simp
  show ?thesis
  proof
    assume c: "i AND 0xF000 = 0xA000"
    have "i AND 0x7000 = 0x2000" using code_parts(1) [OF c] by simp
    moreover have "i AND 0x8000 = 0x8000" using code_parts(2) [OF c] by simp
    ultimately show "i AND 0x7000 = 0x2000 \<and> bit i 15" by (simp only: bit15_set simp_thms)
  next
    assume "i AND 0x7000 = 0x2000 \<and> bit i 15"
    then have "i AND 0x7000 = 0x2000" "i AND 0x8000 = 0x8000"
      by (simp_all only: bit15_set simp_thms)
    then show "i AND 0xF000 = 0xA000" unfolding parts by simp
  qed
qed

lemma b1_Execute_Crash:
  "b1_Execute f i w st = Crash \<longleftrightarrow>
     i AND 0xF000 = 0xA000 \<and> b1_DV (i AND 0xFFF) w (b1_SignExtend w) st = None"
proof -
  have "(case x of None \<Rightarrow> Crash | Some st \<Rightarrow> b1_Finish st) = Crash \<longleftrightarrow> x = None" for x
    by (cases x) simp_all
  then show ?thesis
    unfolding DV_code
    by (cases "i AND 0xFFF < 4")
      (auto simp: b1_Execute_def b1_RESUME_def Let_def fetched_SignExtend [unfolded One_nat_def] b1_DV_None)
qed

text \<open>C18: as long as the bank register is well-formed, the function leaves the defined behaviour of C
  in exactly two cases: fetching an instruction when \<open>Z\<close> is beyond the memory and no bank is
  selected, and dividing a nonzero accumulator by zero.\<close>

theorem b1_pass_Crash:
  assumes "bank_ok st"
  shows "(b1_pass (Retry op) st = Crash \<longleftrightarrow> memory st regBank = 0 \<and> 0x8400 \<le> memory st regZ) \<and>
    (b1_pass (ResumeFromInterrupt f i) st = Crash \<longleftrightarrow>
      i AND 0xF000 = 0xA000 \<and> b1_acc (divisor i st) = 0 \<and>
      sp_val (fixUcForWriting (memory st regA)) \<noteq> 0)"
proof (intro conjI)
  show "b1_pass (Retry op) st = Crash \<longleftrightarrow> memory st regBank = 0 \<and> 0x8400 \<le> memory st regZ"
    using next_instruction_None [OF assms] by (auto simp: b1_Fetch_eq split: option.split)
  let ?crash = "i AND 0xF000 = 0xA000 \<and> b1_acc (divisor i st) = 0 \<and>
      sp_val (fixUcForWriting (memory st regA)) \<noteq> 0"
  show "b1_pass (ResumeFromInterrupt f i) st = Crash \<longleftrightarrow> ?crash"
  proof (cases "RuptAllowed i st \<and> first_rupt st \<noteq> 0")
    case True
    then have "\<not> bit i 15" by (simp add: RuptAllowed_def)
    then have "i AND 0xF000 \<noteq> 0xA000" by (simp only: DV_code simp_thms)
    then show ?thesis using b1_Dispatch_rupt [of i st f] True by simp
  next
    case False
    then show ?thesis
      using operand_address_bound [OF assms, of i]
      by (simp add: b1_Dispatch_execute rd_def b1_Execute_Crash b1_DV_None divisor_def Let_def)
  qed
qed

lemma b1_pass_Crash_witness:
  "b1_pass (Retry 0) (b1_zero\<lparr>memory := (\<lambda>_. 0)(regZ := 0xFFFF)\<rparr>) = Crash \<and>
   b1_pass (ResumeFromInterrupt 0x418 0xA040) (b1_zero\<lparr>memory := (\<lambda>_. 0)(regA := 1)\<rparr>) = Crash \<and>
   b1_pass (ResumeFromInterrupt 0x418 0xA040) (b1_zero\<lparr>memory := (\<lambda>_. 0)(regA := 1, 0x40 := 5)\<rparr>) \<noteq> Crash"
proof -
  have a: "sp_val (fixUcForWriting 1) \<noteq> 0" "acc_val 0 = 0" "sp_val 0 = 0" "sp_val 5 \<noteq> 0"
    by (simp_all add: fixUcForWriting_def sp_val_def acc_val_def shift_defs)
  have ok: "bank_ok (b1_zero\<lparr>memory := m\<rparr>) \<longleftrightarrow> m regBank AND 0x83FF = 0" for m
    by (simp add: bank_ok_def)
  show ?thesis
    using b1_pass_Crash [of "b1_zero\<lparr>memory := (\<lambda>_. 0)(regZ := 0xFFFF)\<rparr>" 0]
      b1_pass_Crash [of "b1_zero\<lparr>memory := (\<lambda>_. 0)(regA := 1)\<rparr>" _ "0x418" "0xA040"]
      b1_pass_Crash [of "b1_zero\<lparr>memory := (\<lambda>_. 0)(regA := 1, 0x40 := 5)\<rparr>" _ "0x418" "0xA040"]
    by (simp add: ok a divisor_def Let_def operand_address_def)
qed

text \<open>A program gets there: \<open>TS Z\<close> with minus zero in the accumulator and no bank selected, and the
  next fetch reads beyond the memory.\<close>

lemma TS_Z_crashes:
  assumes "memory st regA = 0xFFFF" "memory st regBank = 0"
  shows "b1_pass (Retry op) (b1_TS 2 st) = Crash"
proof -
  have "memory (b1_TS 2 st) = (memory st)(regZ := 0xFFFF)"
    using assms(1) by (simp add: b1_TS_def edit_def Let_def)
  then have "next_instruction (b1_TS 2 st) = None"
    using next_instruction_None [of "b1_TS 2 st"] assms(2) by (simp add: bank_ok_def)
  then show ?thesis by (simp add: b1_Fetch_eq)
qed

end
