(* ===== verification/B1_Input.thy ===== *)
theory B1_Input
  imports B1_Engine
begin

text \<open>
  The surroundings of the Block I processor: packets from the peripherals and their connection
  (\<open>ChannelInput\<close>, \<open>ChannelRoutine\<close> of \<open>src/yaAGCb1/SocketAPI.c\<close>), loading of the rope and of the
  pad loads (\<open>loadYul.c\<close>, \<open>loadPads.c\<close>), the commands of the console that change the state
  (\<open>processConsoleDebuggingCommand.c\<close>) and the loop of \<open>main.c\<close> that lets the processor catch up with
  the clock.  Readings of the clock, connections that wait at a server socket, and the numbers that
  \<open>sscanf\<close> finds in a line are arguments.
\<close>

unbundle bit_operations_syntax

section \<open>Packets from the peripherals\<close>

definition b1_Signatures :: "u8 list" where "b1_Signatures = [0x00, 0x40, 0x80, 0xC0]"

text \<open>\<open>j\<close> is the position that the next byte should have in a packet; \<open>n\<close> bytes are stored.\<close>

fun b1_ReceiveBytes :: "u8 list \<Rightarrow> nat \<Rightarrow> nat \<Rightarrow> (nat \<Rightarrow> u8) \<Rightarrow> u8 list \<times> nat \<times> (nat \<Rightarrow> u8)" where
  "b1_ReceiveBytes [] j n P = ([], n, P)"
| "b1_ReceiveBytes (c # cs) j n P =
     (if 4 \<le> j then (c # cs, n, P)
      else if b1_Signatures ! j \<noteq> c AND 0xC0 then
        if 0 \<noteq> c AND 0xC0 then b1_ReceiveBytes cs 0 0 P
        else b1_ReceiveBytes cs 1 1 (P(0 := c))
      else b1_ReceiveBytes cs (j + 1) (n + 1) (P(n := c)))"

text \<open>The packet \<open>Channel\<close>, \<open>Value\<close>, \<open>uBit\<close> of client \<open>i\<close>; true when the function returns at once.\<close>

definition b1_InputPacket :: "nat \<Rightarrow> cint \<Rightarrow> cint \<Rightarrow> cint \<Rightarrow> b1 \<Rightarrow> bool \<times> b1" where
  "b1_InputPacket i Channel Value uBit st =
     (let Value = Value AND 0x7FFF;
          c = Clients st i
      in if uBit \<noteq> 0 then
           (False, st\<lparr>Clients := (Clients st)(i :=
              c\<lparr>ChannelMasks := (ChannelMasks c)(unat Channel := Value)\<rparr>)\<rparr>)
         else if Channel AND 0x80 \<noteq> 0 then (True, st)
         else
           let Value = Value AND ChannelMasks c (unat Channel);
               Value = Value OR (int_of_u16 (memory st (unat Channel)) AND
                                 NOT (ChannelMasks c (unat Channel)));
               st = (if Channel = 0x21 then st\<lparr>uplinkReady := 1\<rparr> else st)
           in (False, wr (unat Channel) (i16_of_int Value) st))"

definition b1_ReceiveClient :: "nat \<Rightarrow> b1 \<Rightarrow> bool \<times> b1" where
  "b1_ReceiveClient i st =
     (let c = Clients st i
      in if \<not> Connected c then (False, st)
         else
           case b1_ReceiveBytes (Incoming c) (Size c) (Size c) (Packet c) of
             (rest, n, p) \<Rightarrow>
               let st = st\<lparr>Clients := (Clients st)(i :=
                     c\<lparr>Incoming := rest, Size := (if 4 \<le> n then 0 else n), Packet := p\<rparr>)\<rparr>
               in if 4 \<le> n then
                    case ParseIoPacket (p 0, p 1, p 2, p 3) of
                      None \<Rightarrow> (False, st)
                    | Some (Channel, Value, uBit) \<Rightarrow> b1_InputPacket i Channel Value uBit st
                  else (False, st))"

fun b1_ReceiveClients :: "nat list \<Rightarrow> b1 \<Rightarrow> cint \<times> b1" where
  "b1_ReceiveClients [] st = (0, st)"
| "b1_ReceiveClients (i # is) st =
     (case b1_ReceiveClient i st of
        (r, st) \<Rightarrow> if r then (1, st) else b1_ReceiveClients is st)"

definition b1_ChannelInput :: "b1 \<Rightarrow> cint \<times> b1" where
  "b1_ChannelInput st =
     (if 0 <s SocketInterlace st then (0, st\<lparr>SocketInterlace := SocketInterlace st - 1\<rparr>)
      else b1_ReceiveClients [0..<MAX_CLIENTS]
             (st\<lparr>SocketInterlace := SocketInterlaceReload st\<rparr>))"

section \<open>Connections\<close>

text \<open>A new peripheral is sent the 16 words of the relays and the other outputs that are not 0.
  The result of \<open>FormIoPacket\<close> is not tested: after a refusal, the packet sent is the last one.\<close>

definition UpdateWith :: "nat \<Rightarrow> cint \<Rightarrow> cint \<Rightarrow> packet \<times> b1 \<Rightarrow> packet \<times> b1" where
  "UpdateWith i Channel Value = (\<lambda>(Packet, st).
     let Packet = (case b1_FormIoPacket Channel Value of None \<Rightarrow> Packet | Some p \<Rightarrow> p)
     in (Packet, b1_send (packet_bytes Packet) i st))"

definition UpdateAgcPeripheralConnect :: "nat \<Rightarrow> packet \<Rightarrow> b1 \<Rightarrow> b1" where
  "UpdateAgcPeripheralConnect i P st =
     snd (fold (\<lambda>k (Packet, st). if memory st k \<noteq> 0
                  then UpdateWith i (of_nat k) (int_of_u16 (memory st k)) (Packet, st)
                  else (Packet, st)) [0x9..<0xD]
           (fold (\<lambda>r (Packet, st). UpdateWith i 0x8 (int_of_u16 (dskyRelayBuffer st r)) (Packet, st))
             [0..<16] (P, st)))"

definition b1_Accept :: "packet \<Rightarrow> nat \<Rightarrow> b1 \<Rightarrow> b1" where
  "b1_Accept P i st =
     UpdateAgcPeripheralConnect i P
       (st\<lparr>Clients := (Clients st)(i := (Clients st i)
          \<lparr>Connected := True, Incoming := [], Size := 0, ChannelMasks := (\<lambda>_. 0x7FFF)\<rparr>)\<rparr>)"

text \<open>\<open>ChannelRoutine\<close>, when connections \<open>waiting\<close> are waiting; every 16th time a byte is sent to
  notice broken connections.\<close>

definition b1_ChannelRoutine :: "(nat \<Rightarrow> bool) \<Rightarrow> packet \<Rightarrow> b1 \<Rightarrow> b1" where
  "b1_ChannelRoutine waiting P st =
     (let st = fold (\<lambda>i st. if \<not> Connected (Clients st i) \<and> waiting i
                            then b1_Accept P i st else st) [0..<MAX_CLIENTS] st;
          st = st\<lparr>TimeoutCount := TimeoutCount st + 1\<rparr>
      in if 0 = 0xF AND TimeoutCount st
         then fold (b1_send [0xFF]) [0..<MAX_CLIENTS] st else st)"

section \<open>Loading\<close>

definition b1_clear :: "b1 \<Rightarrow> b1" where
  "b1_clear st = st\<lparr>memory := (\<lambda>_. 0), INDEX := 0, INTERRUPTED := 0, B := 0, ruptFlatAddress := 0,
     ruptLastINDEX := 0, ruptLastZ := 0, overflowedTIME3 := 0, overflowedTIME4 := 0,
     uplinkReady := 0, downlinkReady := 0, countMCT := 0, startTimeNanoseconds := 0,
     pausedNanoseconds := 0, startOfPause := 0, instructionCountDown := 0\<rparr>"

fun b1_LoadWords :: "nat \<Rightarrow> u8 list \<Rightarrow> b1 \<Rightarrow> b1" where
  "b1_LoadWords addr (w0 # w1 # bytes) st =
     (if addr \<le> MEMORY_SIZE
      then b1_LoadWords (addr + 1) bytes
             (wr addr (i16_of_int (shl 7 (ucast w0) OR sar 1 (ucast w1))) st)
      else st)"
| "b1_LoadWords addr bytes st = st"

definition loadYul :: "u8 list option \<Rightarrow> b1 \<Rightarrow> cint \<times> b1" where
  "loadYul fp st =
     (let st = b1_clear st;
          st = st\<lparr>memory := (\<lambda>i. if 0x30 \<le> i \<and> i < 0x400 then defaultErasable st
                               else if 0x400 \<le> i \<and> i < MEMORY_WORDS then 0x8000
                               else memory st i)\<rparr>
      in case fp of
           None \<Rightarrow> (1, st)
         | Some bytes \<Rightarrow> (0, b1_LoadWords 0x400 bytes st))"

definition b1_Pad :: "(u32 \<times> u32) option \<Rightarrow> b1 \<Rightarrow> b1" where
  "b1_Pad line st =
     (case line of
        None \<Rightarrow> st
      | Some (addr, data) \<Rightarrow>
          if addr < 0x400 \<and> data < 0x10000 then wr (unat addr) (ucast data) st
          else if 0x400 \<le> addr \<and> addr < of_nat MEMORY_SIZE \<and> data < 0x10000
          then wr (unat addr) (ucast data) st
          else st)"

definition loadPads :: "(u32 \<times> u32) option list option \<Rightarrow> b1 \<Rightarrow> cint \<times> b1" where
  "loadPads fp st = (case fp of None \<Rightarrow> (1, st) | Some lines \<Rightarrow> (0, fold b1_Pad lines st))"

text \<open>\<open>main\<close> before its loop, with \<open>defaultErasable\<close>, the breakpoints and so on as the options have
  set them: \<open>startState\<close> is 0 or, for \<open>--run\<close>, -1.\<close>

definition b1_main :: "u8 list option \<Rightarrow> (u32 \<times> u32) option list option \<Rightarrow> cint \<Rightarrow> 64 word \<Rightarrow> b1 \<Rightarrow> b1 option" where
  "b1_main rope pads startState now st =
     (case loadYul rope st of (i, st) \<Rightarrow>
        if i \<noteq> 0 then None
        else case loadPads pads st of (i, st) \<Rightarrow>
          if i \<noteq> 0 then None
          else
            let st = (wr regZ 0x418 st)\<lparr>startTimeNanoseconds := now, instructionCountDown := startState\<rparr>
            in Some (if instructionCountDown st = 0
                     then st\<lparr>startOfPause := startTimeNanoseconds st\<rparr> else st))"

section \<open>The console\<close>

text \<open>The commands that change the state.  A break is removed with a \<open>memmove\<close> of two bytes, the
  lower half of an \<open>int\<close> on the little-endian machines that the program runs on.\<close>

datatype b1_command =
  Free
| Single
| Steps cint
| Break cint
| NoBreaks
| Deposit nat u16

definition b1_ToggleBreak :: "cint \<Rightarrow> b1 \<Rightarrow> b1" where
  "b1_ToggleBreak flatAddress st =
     (case List.find (\<lambda>i. breaksOrWatches st i = flatAddress) [0..<numBreaksOrWatches st] of
        Some i \<Rightarrow>
          let b = breaksOrWatches st;
              b = (if i + 1 < numBreaksOrWatches st
                   then b(i := (b i AND NOT 0xFFFF) OR (b (i + 1) AND 0xFFFF)) else b)
          in st\<lparr>breaksOrWatches := b, numBreaksOrWatches := numBreaksOrWatches st - 1\<rparr>
      | None \<Rightarrow>
          if numBreaksOrWatches st < 16
          then st\<lparr>breaksOrWatches := (breaksOrWatches st)(numBreaksOrWatches st := flatAddress),
                  numBreaksOrWatches := numBreaksOrWatches st + 1\<rparr>
          else st)"

fun processConsoleDebuggingCommand :: "b1_command \<Rightarrow> b1 \<Rightarrow> b1" where
  "processConsoleDebuggingCommand Free st = st\<lparr>instructionCountDown := - 1\<rparr>"
| "processConsoleDebuggingCommand Single st = st\<lparr>instructionCountDown := 1\<rparr>"
| "processConsoleDebuggingCommand (Steps i) st =
     (if 1 \<le>s i then st\<lparr>instructionCountDown := i + 1\<rparr>
      else if i <s 0 then st\<lparr>instructionCountDown := i\<rparr>
      else st\<lparr>instructionCountDown := 0\<rparr>)"
| "processConsoleDebuggingCommand (Break flatAddress) st = b1_ToggleBreak flatAddress st"
| "processConsoleDebuggingCommand NoBreaks st = st\<lparr>numBreaksOrWatches := 0\<rparr>"
| "processConsoleDebuggingCommand (Deposit flatAddress Value) st =
     (if flatAddress < MEMORY_WORDS then wr flatAddress Value st else st)"

text \<open>A line from the keyboard only pauses a running machine; \<open>now\<close> and \<open>later\<close> are the clock before
  and after the command.\<close>

definition b1_Keyboard :: "b1_command \<Rightarrow> 64 word \<Rightarrow> 64 word \<Rightarrow> b1 \<Rightarrow> b1" where
  "b1_Keyboard command now later st =
     (let discardCommand = instructionCountDown st \<noteq> 0;
          st = (if discardCommand then st\<lparr>startOfPause := now\<rparr> else st);
          st = st\<lparr>instructionCountDown := 0\<rparr>;
          st = (if discardCommand then st else processConsoleDebuggingCommand command st)
      in if instructionCountDown st \<noteq> 0
         then st\<lparr>pausedNanoseconds := pausedNanoseconds st + (later - startOfPause st)\<rparr>
         else st)"

section \<open>The loop of the processor\<close>

text \<open>One turn of the inner loop, after its condition.\<close>

definition b1_Turn :: "nat \<Rightarrow> u16 \<Rightarrow> 64 word \<Rightarrow> b1 \<Rightarrow> b1_result option" where
  "b1_Turn fuel operand now st =
     (case executeOneInstruction fuel operand (snd (b1_ChannelInput st)) of
        None \<Rightarrow> None
      | Some Crashed \<Rightarrow> Some Crashed
      | Some (Returned r st) \<Rightarrow>
          if r \<noteq> 0 then Some (Returned r (st\<lparr>startOfPause := now\<rparr>))
          else if instructionCountDown st \<noteq> 0 then
            let st =
                  (if 0 <s instructionCountDown st then
                     let st = st\<lparr>instructionCountDown := instructionCountDown st - 1\<rparr>
                     in if instructionCountDown st = 1 then st\<lparr>instructionCountDown := 0\<rparr> else st
                   else st)
            in Some (Returned r
                 (if instructionCountDown st = 0 then st\<lparr>startOfPause := now\<rparr> else st))
          else Some (Returned r st))"

definition b1_Behind :: "64 word \<Rightarrow> b1 \<Rightarrow> bool" where
  "b1_Behind now st \<longleftrightarrow>
     countMCT st < word_of_int (sint (now - startTimeNanoseconds st - pausedNanoseconds st) sdiv 11700)"

text \<open>The inner loop with the readings of the clock, in its condition and at a pause.\<close>

fun b1_CatchUp :: "nat \<Rightarrow> u16 \<Rightarrow> (64 word \<times> 64 word) list \<Rightarrow> b1 \<Rightarrow> b1_result option" where
  "b1_CatchUp fuel operand [] st = Some (Returned 0 st)"
| "b1_CatchUp fuel operand ((now, later) # clock) st =
     (if instructionCountDown st \<noteq> 0 \<and> b1_Behind now st then
        case b1_Turn fuel operand later st of
          Some (Returned r st) \<Rightarrow> b1_CatchUp fuel operand clock st
        | other \<Rightarrow> other
      else Some (Returned 0 st))"

end
