(* ===== verification/B1_Peripherals.thy ===== *)
theory B1_Peripherals
  imports B1_Input B1_Arith
begin

text \<open>
  What the peripherals of the Block I computer see.  The display relays of the DSKY are addressed by
  the upper bits of the word on \<open>OUT0\<close>; the emulator remembers the last word for each row, so that a
  peripheral that connects late can be told all of them.
\<close>

unbundle bit_operations_syntax

section \<open>What is sent\<close>

definition messages :: "nat \<Rightarrow> b1 \<Rightarrow> u8 list list" where
  "messages i st = map snd (filter (\<lambda>(j, _). j = i) (Sent st))"

lemma send_all:
  "fold (b1_send m) is st = st\<lparr>Sent := Sent st @ map (\<lambda>i. (i, m)) (filter (\<lambda>i. Connected (Clients st i)) is)\<rparr>"
  by (induction "is" arbitrary: st) (simp_all add: b1_send_def)

lemma filter_client:
  "filter (\<lambda>j. j = i) (filter P [0..<n]) = (if i < n \<and> P i then [i] else [])"
  "filter (\<lambda>j. P j \<and> j = i) [0..<n] = (if i < n \<and> P i then [i] else [])"
  by (induction n; auto simp: less_Suc_eq)+

lemma messages_send_all:
  "i < MAX_CLIENTS \<Longrightarrow> messages i (fold (b1_send m) [0..<MAX_CLIENTS] st) =
     messages i st @ (if Connected (Clients st i) then [m] else [])"
  by (simp add: messages_def send_all filter_map o_def case_prod_beta filter_client del: upt_Suc)

lemma messages_relay [simp]: "messages i (st\<lparr>dskyRelayBuffer := d\<rparr>) = messages i st"
  by (simp add: messages_def)

lemma messages_send:
  "messages i (b1_send m i st) = messages i st @ (if Connected (Clients st i) then [m] else [])"
  by (simp add: messages_def b1_send_def)

section \<open>The relays\<close>

definition row :: "u16 \<Rightarrow> nat" where
  "row w = unat (shr 11 w AND 0xF)"

definition set_row :: "u16 \<Rightarrow> (nat \<Rightarrow> u16) \<Rightarrow> nat \<Rightarrow> u16" where
  "set_row w d = d(row w := w)"

text \<open>How a DSKY reads a message.\<close>

definition show_message :: "u8 list \<Rightarrow> (nat \<Rightarrow> u16) \<Rightarrow> nat \<Rightarrow> u16" where
  "show_message m d =
     (case m of
        [p0, p1, p2, p3] \<Rightarrow>
          (case ParseIoPacket (p0, p1, p2, p3) of
             Some (Channel, Value, uBit) \<Rightarrow>
               if Channel = 0x8 \<and> uBit = 0 then set_row (i16_of_int Value) d else d
           | None \<Rightarrow> d)
      | _ \<Rightarrow> d)"

definition shown :: "u8 list list \<Rightarrow> nat \<Rightarrow> u16" where
  "shown ms = fold show_message ms (\<lambda>_. 0)"

text \<open>The outputs of a program: channels and words of 15 bits.\<close>

definition output_ok :: "u16 \<times> u16 \<Rightarrow> bool" where
  "output_ok = (\<lambda>(c, v). 0x8 \<le> uint c \<and> uint c \<le> 0xC \<and> uint v < 0x8000)"

definition outputs :: "(u16 \<times> u16) list \<Rightarrow> b1 \<Rightarrow> b1" where
  "outputs = fold (\<lambda>(c, v). b1_ChannelOutput (int_of_u16 c) (int_of_u16 v))"

definition relay_words :: "(u16 \<times> u16) list \<Rightarrow> (nat \<Rightarrow> u16) \<Rightarrow> nat \<Rightarrow> u16" where
  "relay_words = fold (\<lambda>(c, v). if c = 0x8 then set_row v else id)"

lemma b1_FormIoPacket_parse:
  assumes "output_ok (c, v)"
  shows "\<exists>p. b1_FormIoPacket (int_of_u16 c) (int_of_u16 v) = Some p \<and>
    show_message (packet_bytes p) = (if c = 0x8 then set_row v else id)"
proof -
  have s: "sint (int_of_u16 w) = uint w" for w :: u16
    using uint_i16_lt [of w] by (simp add: sint_small)
  have b: "0 \<le> sint (int_of_u16 c)" "sint (int_of_u16 c) < 512" "0 \<le> sint (int_of_u16 v)"
    "sint (int_of_u16 v) < 32768" and c: "uint c \<le> 12" "8 \<le> uint c"
    using assms by (simp_all add: output_ok_def s)
  obtain p where p: "FormIoPacket (int_of_u16 c) (int_of_u16 v) = Some p"
    "ParseIoPacket p = Some (int_of_u16 c AND 0xFF, int_of_u16 v, if bit (int_of_u16 c) 8 then 0x20 else 0)"
    using ParseIoPacket_FormIoPacket [OF b] by blast
  have e: "b1_FormIoPacket (int_of_u16 c) (int_of_u16 v) = Some p"
    using p(1) b by (simp add: b1_FormIoPacket_def FormIoPacket_def word_sless_alt)
  have n: "\<not> bit c 8" using c uint_lt_iff_bits [of c 8] by auto
  have "uint (int_of_u16 c AND 0xFF) = uint c"
    using c uint_and_low_mask(2) [of "int_of_u16 c" 8] by (simp add: low_masks(13) [symmetric] mask_eq_exp_minus_1)
  then have "int_of_u16 c AND 0xFF = 0x8 \<longleftrightarrow> c = 0x8"
    by (simp add: word_uint_eq_iff)
  then show ?thesis
    using e p(2) n by (cases p) (auto simp: show_message_def packet_bytes_def fun_eq_iff)
qed

lemma b1_ChannelOutput_frame [simp]:
  "memory (b1_ChannelOutput c v st) = memory st" "Clients (b1_ChannelOutput c v st) = Clients st"
  by (auto simp: b1_ChannelOutput_def Let_def send_all split: option.split)

lemma b1_ChannelOutput_relays:
  assumes "output_ok (c, v)"
  shows "dskyRelayBuffer (b1_ChannelOutput (int_of_u16 c) (int_of_u16 v) st) =
    relay_words [(c, v)] (dskyRelayBuffer st)"
proof -
  have "sar 11 (int_of_u16 v) AND 0xF = int_of_u16 (shr 11 v AND 0xF)"
    by (rule cint_eqI) (auto simp: bit_simps mask_bits)
  then have "unat (sar 11 (int_of_u16 v) AND 0xF) = row v"
    by (simp only: row_def unat_int_of_u16)
  moreover have "int_of_u16 c = 0x8 \<longleftrightarrow> c = 0x8"
    by (simp add: word_uint_eq_iff)
  ultimately show ?thesis
    by (auto simp: b1_ChannelOutput_def relay_words_def set_row_def Let_def send_all split: option.split)
qed

lemma b1_outputs_frame [simp]:
  "memory (outputs outs st) = memory st" "Clients (outputs outs st) = Clients st"
  by (induction outs arbitrary: st) (auto simp: outputs_def)

lemma outputs_simps [simp]:
  "outputs [] st = st"
  "outputs ((c, v) # outs) st = outputs outs (b1_ChannelOutput (int_of_u16 c) (int_of_u16 v) st)"
  by (simp_all add: outputs_def)

lemma relay_words_simps [simp]:
  "relay_words [] d = d"
  "relay_words ((c, v) # outs) d = relay_words outs (if c = 0x8 then set_row v d else d)"
  "relay_words (outs @ outs') d = relay_words outs' (relay_words outs d)"
  by (simp_all add: relay_words_def)

lemma outputs_relays:
  "\<forall>x \<in> set outs. output_ok x \<Longrightarrow>
     dskyRelayBuffer (outputs outs st) = relay_words outs (dskyRelayBuffer st)"
  by (induction outs arbitrary: st) (auto simp: b1_ChannelOutput_relays)

section \<open>Messages that follow\<close>

text \<open>From \<open>st\<close> to \<open>st'\<close> client \<open>i\<close> was sent messages that change its display by \<open>f\<close>.\<close>

definition follows :: "nat \<Rightarrow> b1 \<Rightarrow> ((nat \<Rightarrow> u16) \<Rightarrow> nat \<Rightarrow> u16) \<Rightarrow> b1 \<Rightarrow> bool" where
  "follows i st f st' \<longleftrightarrow>
     (\<exists>ms. messages i st' = messages i st @ ms \<and> fold show_message ms = f)"

lemma follows_refl [simp]: "follows i st id st" "follows i st (\<lambda>d. d) st"
  by (auto simp: follows_def intro!: exI [of _ "[]"])

lemma follows_trans: "follows i st f st' \<Longrightarrow> follows i st' g st'' \<Longrightarrow> follows i st (g \<circ> f) st''"
  unfolding follows_def by (metis append_assoc fold_append)

lemma follows_one: "messages i st' = messages i st @ [m] \<Longrightarrow> follows i st (show_message m) st'"
  unfolding follows_def by (rule exI [of _ "[m]"]) simp

lemma b1_ChannelOutput_follows:
  assumes "output_ok (c, v)" "Connected (Clients st i)" "i < MAX_CLIENTS"
  shows "follows i st (if c = 0x8 then set_row v else id)
    (b1_ChannelOutput (int_of_u16 c) (int_of_u16 v) st)"
proof -
  obtain p where p: "b1_FormIoPacket (int_of_u16 c) (int_of_u16 v) = Some p"
    and s: "show_message (packet_bytes p) = (if c = 0x8 then set_row v else id)"
    using b1_FormIoPacket_parse [OF assms(1)] by blast
  show ?thesis
    unfolding s [symmetric]
    by (rule follows_one)
      (use assms in \<open>simp add: b1_ChannelOutput_def Let_def p messages_send_all messages_relay del: upt_Suc\<close>)
qed

lemma outputs_follows:
  "\<forall>x \<in> set outs. output_ok x \<Longrightarrow> Connected (Clients st i) \<Longrightarrow> i < MAX_CLIENTS \<Longrightarrow>
     follows i st (relay_words outs) (outputs outs st)"
proof (induction outs arbitrary: st)
  case (Cons x outs)
  obtain c v where x: "x = (c, v)" by (cases x)
  have "relay_words (x # outs) = relay_words outs \<circ> (if c = 0x8 then set_row v else id)"
    by (auto simp: x fun_eq_iff)
  then show ?case
    unfolding x outputs_simps
    using Cons.prems by (simp only:, intro follows_trans [OF b1_ChannelOutput_follows Cons.IH])
      (simp_all add: x)
qed (simp add: relay_words_def)

section \<open>A late connection\<close>

definition same_outputs :: "b1 \<Rightarrow> b1 \<Rightarrow> bool" where
  "same_outputs st st' \<longleftrightarrow> dskyRelayBuffer st' = dskyRelayBuffer st \<and> memory st' = memory st \<and>
     Clients st' = Clients st"

lemma UpdateWith_follows:
  assumes "output_ok (c, v)" "Connected (Clients st i)"
  obtains Q st' where "UpdateWith i (int_of_u16 c) (int_of_u16 v) (P, st) = (Q, st')"
    "follows i st (if c = 0x8 then set_row v else id) st'" "same_outputs st st'"
proof -
  obtain p where p: "b1_FormIoPacket (int_of_u16 c) (int_of_u16 v) = Some p"
    and s: "show_message (packet_bytes p) = (if c = 0x8 then set_row v else id)"
    using b1_FormIoPacket_parse [OF assms(1)] by blast
  show ?thesis
  proof (rule that)
    show "UpdateWith i (int_of_u16 c) (int_of_u16 v) (P, st) = (p, b1_send (packet_bytes p) i st)"
      by (simp add: UpdateWith_def p)
    show "follows i st (if c = 0x8 then set_row v else id) (b1_send (packet_bytes p) i st)"
      unfolding s [symmetric] by (rule follows_one) (simp add: messages_send assms)
    show "same_outputs st (b1_send (packet_bytes p) i st)"
      by (simp add: same_outputs_def b1_send_def)
  qed
qed

lemma UpdateWith_relay:
  assumes "output_ok (0x8, v)" "Connected (Clients st i)"
  shows "\<exists>Q st'. UpdateWith i 0x8 (int_of_u16 v) (P, st) = (Q, st') \<and>
    follows i st (set_row v) st' \<and> same_outputs st st'"
proof (rule UpdateWith_follows [OF assms, of P])
  fix Q st'
  assume "UpdateWith i (int_of_u16 0x8) (int_of_u16 v) (P, st) = (Q, st')"
    "follows i st (if (0x8 :: u16) = 0x8 then set_row v else id) st'" "same_outputs st st'"
  then show ?thesis
    by (intro exI [of _ Q] exI [of _ st']) simp
qed

lemma UpdateWith_other:
  assumes "output_ok (c, v)" "Connected (Clients st i)" "c \<noteq> 0x8"
  shows "\<exists>Q st'. UpdateWith i (int_of_u16 c) (int_of_u16 v) (P, st) = (Q, st') \<and>
    follows i st id st' \<and> same_outputs st st'"
  by (rule UpdateWith_follows [OF assms(1,2), of P])
    (use assms(3) in \<open>metis (full_types)\<close>)

lemma follows_same:
  "\<lbrakk>follows i st f st'; same_outputs st st'; follows i st' g st''; same_outputs st' st''\<rbrakk>
   \<Longrightarrow> follows i st (g \<circ> f) st'' \<and> same_outputs st st''"
  by (auto simp: same_outputs_def intro: follows_trans)

lemma rows_follow:
  assumes "\<forall>r \<in> set rs. output_ok (0x8, b r)" "Connected (Clients st i)"
    "dskyRelayBuffer st = b"
  shows "\<exists>Q st'. fold (\<lambda>r (Packet, st). UpdateWith i 0x8 (int_of_u16 (dskyRelayBuffer st r)) (Packet, st))
      rs (P, st) = (Q, st') \<and>
    follows i st (fold (\<lambda>r. set_row (b r)) rs) st' \<and> same_outputs st st'"
  using assms
proof (induction rs arbitrary: st P)
  case Nil
  show ?case by (rule exI [of _ P], rule exI [of _ st]) (simp add: same_outputs_def)
next
  case (Cons r rs)
  have "output_ok (0x8, b r)" "Connected (Clients st i)" using Cons.prems by simp_all
  then obtain Q st1 where u: "UpdateWith i 0x8 (int_of_u16 (b r)) (P, st) = (Q, st1)"
    "follows i st (set_row (b r)) st1" "same_outputs st st1"
    using UpdateWith_relay by metis
  then obtain R st2 where
    "fold (\<lambda>r (Packet, st). UpdateWith i 0x8 (int_of_u16 (dskyRelayBuffer st r)) (Packet, st))
      rs (Q, st1) = (R, st2)"
    "follows i st1 (fold (\<lambda>r. set_row (b r)) rs) st2" "same_outputs st1 st2"
    using Cons.IH [of st1 Q] Cons.prems by (auto simp: same_outputs_def)
  then show ?case
    using u Cons.prems follows_same [of i st "set_row (b r)" st1 _ st2]
    by (intro exI [of _ R] exI [of _ st2]) (simp add: o_def)
qed

lemma others_follow:
  assumes "\<forall>k \<in> set ks. 0x8 < k \<and> k \<le> 0xC \<and> uint (memory st k) < 0x8000"
    "Connected (Clients st i)"
  shows "\<exists>Q st'. fold (\<lambda>k (Packet, st). if memory st k \<noteq> 0
        then UpdateWith i (of_nat k) (int_of_u16 (memory st k)) (Packet, st) else (Packet, st))
      ks (P, st) = (Q, st') \<and> follows i st id st' \<and> same_outputs st st'"
  using assms
proof (induction ks arbitrary: st P)
  case Nil
  show ?case by (rule exI [of _ P], rule exI [of _ st]) (simp add: same_outputs_def)
next
  case (Cons k ks)
  show ?case
  proof (cases "memory st k = 0")
    case True
    then show ?thesis using Cons by simp
  next
    case False
    have "k = 9 \<or> k = 10 \<or> k = 11 \<or> k = 12"
      using Cons.prems by auto
    then have k: "uint (of_nat k :: u16) = int k" "int_of_u16 (of_nat k) = of_nat k"
      "(of_nat k :: u16) \<noteq> 0x8"
      by auto
    have "output_ok (of_nat k, memory st k)" "Connected (Clients st i)"
      using Cons.prems k by (simp_all add: output_ok_def)
    then obtain Q st1 where u: "UpdateWith i (of_nat k) (int_of_u16 (memory st k)) (P, st) = (Q, st1)"
      "follows i st id st1" "same_outputs st st1"
      using UpdateWith_other k(2,3) by metis
    then obtain R st2 where
      "fold (\<lambda>k (Packet, st). if memory st k \<noteq> 0
          then UpdateWith i (of_nat k) (int_of_u16 (memory st k)) (Packet, st) else (Packet, st))
        ks (Q, st1) = (R, st2)" "follows i st1 (\<lambda>d. d) st2" "same_outputs st1 st2"
      using Cons.IH [of st1 Q] Cons.prems by (auto simp: same_outputs_def id_def)
    then show ?thesis
      using u False follows_same [of i st "\<lambda>d. d" st1 "\<lambda>d. d" st2]
      by (intro exI [of _ R] exI [of _ st2]) (simp add: id_def o_def)
  qed
qed

text \<open>In the buffer of the emulator each word lies in its row, or the row was never set.\<close>

definition relay_ok :: "(nat \<Rightarrow> u16) \<Rightarrow> bool" where
  "relay_ok b \<longleftrightarrow> (\<forall>r. (b r = 0 \<or> row (b r) = r) \<and> uint (b r) < 0x8000)"

lemma relay_words_ok: "relay_ok b \<Longrightarrow> \<forall>x \<in> set outs. output_ok x \<Longrightarrow> relay_ok (relay_words outs b)"
proof (induction outs arbitrary: b)
  case (Cons x outs)
  then show ?case
    by (cases x) (auto simp: relay_ok_def set_row_def output_ok_def)
qed simp

lemma all_rows:
  assumes "relay_ok b" "0 < r"
  shows "fold (\<lambda>r. set_row (b r)) [0..<n] (\<lambda>_. 0) r = (if r < n then b r else 0)"
proof (induction n)
  case (Suc n)
  have "row 0 = 0" by (simp add: row_def shift_defs)
  then have "b n = 0 \<and> row (b n) \<noteq> r \<or> row (b n) = n"
    using assms by (auto simp: relay_ok_def) (metis assms(2) not_less0)
  then show ?case
    using Suc assms by (auto simp: set_row_def less_Suc_eq)
qed simp

lemma relay_words_cong: "d r = d' r \<Longrightarrow> relay_words outs d r = relay_words outs d' r"
proof (induction outs arbitrary: d d')
  case (Cons x outs)
  obtain c v where x: "x = (c, v)" by (cases x)
  show ?case
    unfolding x relay_words_simps
    by (rule Cons.IH) (simp add: set_row_def Cons.prems)
qed simp

lemma b1_Accept_follows:
  assumes "\<forall>r < 16. uint (dskyRelayBuffer st r) < 0x8000"
    "\<forall>k \<in> {0x9..<0xD}. uint (memory st k) < 0x8000"
  shows "follows i st (fold (\<lambda>r. set_row (dskyRelayBuffer st r)) [0..<16]) (b1_Accept P i st)"
    "Connected (Clients (b1_Accept P i st) i)"
proof -
  let ?st = "st\<lparr>Clients := (Clients st)(i := (Clients st i)
    \<lparr>Connected := True, Incoming := [], Size := 0, ChannelMasks := (\<lambda>_. 0x7FFF)\<rparr>)\<rparr>"
  let ?f = "fold (\<lambda>r. set_row (dskyRelayBuffer st r)) [0..<16]"
  obtain Q st' where 1: "fold (\<lambda>r (Packet, st). UpdateWith i 0x8 (int_of_u16 (dskyRelayBuffer st r))
      (Packet, st)) [0..<16] (P, ?st) = (Q, st')" "follows i ?st ?f st'" "same_outputs ?st st'"
    using rows_follow [of "[0..<16]" "dskyRelayBuffer st" ?st i P] assms
    by (auto simp: output_ok_def simp del: upt_Suc)
  obtain R st'' where 2: "fold (\<lambda>k (Packet, st). if memory st k \<noteq> 0
        then UpdateWith i (of_nat k) (int_of_u16 (memory st k)) (Packet, st) else (Packet, st))
      [0x9..<0xD] (Q, st') = (R, st'')" "follows i st' id st''" "same_outputs st' st''"
    using others_follow [of "[0x9..<0xD]" st' i Q] assms 1(3)
    by (auto simp: same_outputs_def simp del: upt_Suc)
  have e: "b1_Accept P i st = st''"
    unfolding b1_Accept_def UpdateAgcPeripheralConnect_def 1(1) 2(1) by simp
  have "follows i ?st ?f st'' \<and> same_outputs ?st st''"
    using follows_same [OF 1(2,3) 2(2,3)] by simp
  then show "follows i st ?f (b1_Accept P i st)" "Connected (Clients (b1_Accept P i st) i)"
    by (simp_all add: e follows_def messages_def same_outputs_def)
qed

text \<open>C34: A DSKY that connects while the program runs shows the same relays as one that was connected
  from the start.  Let the program output the words \<open>before\<close>, then let client \<open>i\<close> connect, then let the
  program output the words \<open>after\<close>; each is a 15-bit word to one of the channels 010 to 014.  The
  messages that client \<open>i\<close> receives from the moment of its connection, decoded with \<open>ParseIoPacket\<close>,
  leave in each row 1 to 15 the last word of \<open>before @ after\<close> addressed to that row, and 0 if there is none.
  Row 0 is excepted: for each row that was never set the emulator sends the word 0, and this addresses
  row 0.\<close>

theorem b1_late_connection:
  assumes "i < MAX_CLIENTS" "dskyRelayBuffer st = (\<lambda>_. 0)"
    "\<forall>x \<in> set before. output_ok x" "\<forall>x \<in> set after. output_ok x"
    "\<forall>k \<in> {0x9..<0xD}. uint (memory st k) < 0x8000"
    "st1 = outputs before st" "st2 = outputs after (b1_Accept P i st1)"
    "0 < r" "r < 16"
  shows "shown (drop (length (messages i st1)) (messages i st2)) r =
    relay_words (before @ after) (\<lambda>_. 0) r"
proof -
  have b: "dskyRelayBuffer st1 = relay_words before (\<lambda>_. 0)"
    using assms by (simp add: outputs_relays)
  have ok: "relay_ok (dskyRelayBuffer st1)"
    unfolding b by (rule relay_words_ok) (use assms in \<open>simp_all add: relay_ok_def\<close>)
  let ?f = "fold (\<lambda>r. set_row (dskyRelayBuffer st1 r)) [0..<16]"
  have "follows i st1 ?f (b1_Accept P i st1)" "Connected (Clients (b1_Accept P i st1) i)"
    using ok assms by (auto intro!: b1_Accept_follows simp: relay_ok_def simp del: upt_Suc)
  then have "follows i st1 (relay_words after \<circ> ?f) st2"
    unfolding assms(7) using assms(1,4) by (intro follows_trans [OF _ outputs_follows])
  then have "shown (drop (length (messages i st1)) (messages i st2)) = relay_words after (?f (\<lambda>_. 0))"
    by (auto simp: follows_def shown_def simp del: upt_Suc)
  moreover have "?f (\<lambda>_. 0) r = dskyRelayBuffer st1 r"
    using all_rows [OF ok, of r 16] assms by (simp del: upt_Suc)
  ultimately show ?thesis
    using relay_words_cong [of "?f (\<lambda>_. 0)" r "dskyRelayBuffer st1" after]
    by (simp add: b del: upt_Suc)
qed

lemma b1_late_connection_witness:
  "let st1 = outputs [(0x8, 0x805), (0x8, 0x1003)] b1_zero;
       st2 = outputs [(0x9, 7), (0x8, 0x811)] (b1_Accept (0, 0, 0, 0) 3 st1);
       display = shown (drop (length (messages 3 st1)) (messages 3 st2))
   in display 1 = 0x811 \<and> display 2 = 0x1003"
proof -
  let ?before = "[(0x8, 0x805), (0x8, 0x1003)] :: (u16 \<times> u16) list"
  let ?after = "[(0x9, 7), (0x8, 0x811)] :: (u16 \<times> u16) list"
  have ok: "\<forall>x \<in> set ?before. output_ok x" "\<forall>x \<in> set ?after. output_ok x"
    by (simp_all add: output_ok_def)
  have words: "relay_words (?before @ ?after) (\<lambda>_. 0) r = (if r = 1 then 0x811 else if r = 2 then 0x1003 else 0)"
    for r by (simp add: set_row_def row_def shift_defs drop_bit_eq_div)
  have zero: "dskyRelayBuffer b1_zero = (\<lambda>_. 0)" "\<forall>k \<in> {0x9..<0xD}. uint (memory b1_zero k) < 0x8000"
    by (simp_all add: b1_zero_def)
  let ?st1 = "outputs ?before b1_zero"
  let ?st2 = "outputs ?after (b1_Accept (0, 0, 0, 0) 3 ?st1)"
  have "shown (drop (length (messages 3 ?st1)) (messages 3 ?st2)) r =
      (if r = 1 then 0x811 else if r = 2 then 0x1003 else 0)" if "0 < r" "r < 16" for r
    unfolding words [symmetric]
    by (rule b1_late_connection [OF _ zero(1) ok zero(2) refl refl that]) simp
  from this [of 1] this [of 2] show ?thesis
    unfolding Let_def by (intro conjI; simp del: outputs_simps)
qed

end
