(* ===== verification/LVDC_State.thy ===== *)
theory LVDC_State
  imports Prelude
begin

text \<open>
  The state of yaLVDC, the emulator of the launch vehicle digital computer (LVDC) and of its ground
  based sibling, the PTC: \<open>state_t\<close> of \<open>src/yaLVDC/yaLVDC.h\<close>, with the global variables of the other
  files that the processor and its input and output use, and the functions of
  \<open>src/yaLVDC/runOneInstruction.c\<close> that read and write single words: HOP constants, data and
  instructions.

  A data word has 26 bits in two's complement, an instruction 13.  Memory cell \<open>core m s y l\<close> is the
  cell of module \<open>m\<close>, sector \<open>s\<close> and location \<open>l\<close>, as the instruction of syllable \<open>y\<close> (0 or 1) or as
  data (\<open>y = 2\<close>); -1 is an empty cell.  The indices are \<open>uint8_t\<close>, as the code has them.
\<close>

unbundle bit_operations_syntax

section \<open>Data\<close>

record hopStructure_t =
  h_im :: u8
  h_is :: u8
  h_s :: u8
  h_loc :: u8
  h_dm :: u8
  h_ds :: u8
  h_dupin :: u8
  h_dupdn :: u8

record pendingInstruction_t =
  pending :: bool
  nextHop :: cint
  pendingHop :: cint
  pending_instruction :: i16

record lvdc =
  ptc :: bool
  hop :: cint
  acc :: cint
  pq :: cint
  pqPend1 :: cint
  pqPend2 :: cint
  mpyDivCount :: cint
  hopSaver :: cint
  core :: "u8 \<Rightarrow> u8 \<Rightarrow> u8 \<Rightarrow> u8 \<Rightarrow> cint"
  pio :: "cint \<Rightarrow> cint"
  cio :: "cint \<Rightarrow> cint"
  prs :: "cint \<Rightarrow> cint"
  pendingInstruction :: pendingInstruction_t
  rtcDivider :: cint
  timerDivider :: bool
  pioChange :: cint
  cioChange :: cint
  prsChange :: cint
  pioChangeFull :: cint
  lastHop :: cint
  lvdc_lastInstruction :: i16
  busyCountPlotter :: cint
  busyCountPrinter :: cint
  busyCountTypewriter :: cint
  busyCountCarriagePrinter :: cint
  bbPlotter :: cint
  bbPrinter :: cint
  bbTypewriter :: cint
  caseChange :: bool
  currentTypewriterInterrupt :: cint
  currentCaseInterrupt :: cint
  lastTypewriterCharCase :: cint
  interruptInhibitLatches :: cint
  masterInterruptLatch :: cint
  pendingInterruptIndex :: cint
  progRegA17_22 :: cint
  riLastHOP :: cint
  riLastInstruction :: cint
  ai3Shifter :: cint
  cio210CarrBusy :: cint
  cio264Buffer :: cint
  lastWasPrinter :: bool
  prsDelayedParity :: "cint \<Rightarrow> cint"
  prsParityDelayCount :: cint
  inhibit250 :: bool
  inhibitInterruptCycles :: cint
  instructionFromDataMemory :: bool
  dataFromInstructionMemory :: bool
  dataOverwritesInstructionMemory :: bool
  typewriterMargin :: cint
  typewriterTabStop :: cint
  typewriterCharsInLine :: cint
  printerOctalMode :: bool
  panelPause :: cint

abbreviation (input) signMask :: cint where "signMask \<equiv> 0x2000000"
abbreviation (input) dataWordMask :: cint where "dataWordMask \<equiv> 0x3FFFFFF"

abbreviation int_of_u8 :: "u8 \<Rightarrow> cint" where "int_of_u8 w \<equiv> ucast w"
abbreviation u8_of_int :: "cint \<Rightarrow> u8" where "u8_of_int v \<equiv> ucast v"

definition set_core :: "u8 \<Rightarrow> u8 \<Rightarrow> u8 \<Rightarrow> u8 \<Rightarrow> cint \<Rightarrow> lvdc \<Rightarrow> lvdc" where
  "set_core m s y l v st = st\<lparr>core := (core st)(m := (core st m)(s := (core st m s)(y :=
     (core st m s y)(l := v))))\<rparr>"

definition set_pio :: "cint \<Rightarrow> cint \<Rightarrow> lvdc \<Rightarrow> lvdc" where
  "set_pio k v st = st\<lparr>pio := (pio st)(k := v)\<rparr>"

definition set_cio :: "cint \<Rightarrow> cint \<Rightarrow> lvdc \<Rightarrow> lvdc" where
  "set_cio k v st = st\<lparr>cio := (cio st)(k := v)\<rparr>"

section \<open>HOP constants\<close>

definition parseHopConstant :: "bool \<Rightarrow> cint \<Rightarrow> hopStructure_t option" where
  "parseHopConstant PTC hopConstant =
     (if (\<not> PTC \<and> hopConstant AND 0x8000 \<noteq> 0) \<or> (PTC \<and> hopConstant AND 0xD8003 \<noteq> 0) then None
      else Some
        \<lparr>h_im = u8_of_int ((sar 25 hopConstant AND 1) OR (shl 1 hopConstant AND 6)),
         h_is = u8_of_int (sar 2 hopConstant AND 0xF),
         h_s = u8_of_int (sar 6 hopConstant AND 1),
         h_loc = u8_of_int (sar 7 hopConstant AND 0xFF),
         h_dm = u8_of_int (sar 17 hopConstant AND 7),
         h_ds = u8_of_int (sar 20 hopConstant AND 0xF),
         h_dupin = u8_of_int (sar 24 hopConstant AND 1),
         h_dupdn = u8_of_int (sar 16 hopConstant AND 1)\<rparr>)"

text \<open>The result says whether the code returns 0; a refusal leaves the fields before the refused one in
  \<open>*hopConstant\<close>.\<close>

definition formHopConstant :: "hopStructure_t \<Rightarrow> cint \<Rightarrow> bool \<times> cint" where
  "formHopConstant h hopConstant =
     (if 7 < h_im h then (False, hopConstant) else
      let hopConstant = (sar 1 (int_of_u8 (h_im h)) AND 3) OR shl 25 (int_of_u8 (h_im h) AND 1) in
      if 0xF < h_is h then (False, hopConstant) else
      let hopConstant = hopConstant OR shl 2 (int_of_u8 (h_is h)) in
      if 1 < h_s h then (False, hopConstant) else
      let hopConstant = hopConstant OR shl 6 (int_of_u8 (h_s h)) in
      let hopConstant = hopConstant OR shl 7 (int_of_u8 (h_loc h)) in
      if 1 < h_dupdn h then (False, hopConstant) else
      let hopConstant = hopConstant OR shl 16 (int_of_u8 (h_dupdn h)) in
      if 7 < h_dm h then (False, hopConstant) else
      let hopConstant = hopConstant OR shl 17 (int_of_u8 (h_dm h)) in
      if 0xF < h_ds h then (False, hopConstant) else
      let hopConstant = hopConstant OR shl 20 (int_of_u8 (h_ds h)) in
      if 1 < h_dupin h then (False, hopConstant) else
      (True, hopConstant OR shl 24 (int_of_u8 (h_dupin h))))"

section \<open>Words of memory\<close>

text \<open>The value is \<open>None\<close> when the code returns 1; the flag is \<open>*dataFromInstructionMemory\<close>.\<close>

definition fetchData :: "u8 \<Rightarrow> u8 \<Rightarrow> u8 \<Rightarrow> u8 \<Rightarrow> lvdc \<Rightarrow> cint option \<times> bool" where
  "fetchData module residual sector loc st =
     (if residual \<noteq> 0 \<and> \<not> ptc st \<and> loc = 0xFD then (Some (pq st), False)
      else
        let sector = (if residual \<noteq> 0 then 0xF else sector);
            module = (if residual \<noteq> 0 \<and> ptc st then 0 else module);
            data = core st module sector 2 loc
        in if data = -1 then
             let fetch1 = i16_of_int (core st module sector 1 loc);
                 fetch0 = i16_of_int (core st module sector 0 loc)
             in if fetch0 = -1 \<and> fetch1 = -1 then (if \<not> ptc st then (None, False) else (Some 0, False))
                else
                  let fetch0 = (if fetch0 = -1 then 0 else fetch0);
                      fetch1 = (if fetch1 = -1 then 0 else fetch1)
                  in (Some (shl 13 (int_of_i16 fetch1) + int_of_i16 fetch0), True)
           else (Some data, False))"

definition storeData :: "u8 \<Rightarrow> u8 \<Rightarrow> u8 \<Rightarrow> u8 \<Rightarrow> cint \<Rightarrow> lvdc \<Rightarrow> lvdc" where
  "storeData module residual sector loc data st =
     (let st = st\<lparr>dataOverwritesInstructionMemory := False\<rparr>
      in if residual \<noteq> 0 \<and> loc = 0xFD then st\<lparr>pq := data\<rparr>
      else
        let data = (if residual \<noteq> 0 \<and> (loc = 0xFE \<or> loc = 0xFF) then hopSaver st else data);
            module = (if residual \<noteq> 0 \<and> ptc st then 0 else module);
            sector = (if residual \<noteq> 0 then 0xF else sector);
            st = set_core module sector 2 loc data st
        in if core st module sector 1 loc \<noteq> -1 \<or> core st module sector 0 loc \<noteq> -1
           then (set_core module sector 0 loc (-1) (set_core module sector 1 loc (-1) st))
                  \<lparr>dataOverwritesInstructionMemory := True\<rparr>
           else st)"

definition fetchInstruction :: "u8 \<Rightarrow> u8 \<Rightarrow> u8 \<Rightarrow> u8 \<Rightarrow> lvdc \<Rightarrow> u16 option \<times> bool" where
  "fetchInstruction module sector syllable loc st =
     (let fetchedData = core st module sector syllable loc
      in if fetchedData = -1 then
           let fetchedData = core st module sector 2 loc
           in if fetchedData = -1 then (None, False)
              else
                let fetchedData = (if syllable = 1 then sar 13 fetchedData else fetchedData)
                in (Some (ucast (fetchedData AND 0x1FFF)), True)
         else (Some (ucast fetchedData), False))"

section \<open>Numbers\<close>

definition convertDataWordToNative :: "cint \<Rightarrow> cint" where
  "convertDataWordToNative dataWord =
     (if signMask AND dataWord \<noteq> 0 then dataWord OR NOT dataWordMask else dataWord)"

definition convertNativeToDataWord :: "cint \<Rightarrow> cint" where
  "convertNativeToDataWord integer = integer AND dataWordMask"

text \<open>The products are computed as \<open>int\<close> and widened.\<close>

definition mpyDelta1 :: "cint \<Rightarrow> cint \<Rightarrow> u64" where
  "mpyDelta1 multiplier multiplicand =
     (let bits = multiplier AND 7
      in if bits = 1 \<or> bits = 2 then scast (2 * multiplicand)
         else if bits = 3 then scast (4 * multiplicand)
         else if bits = 4 then scast (-4 * multiplicand)
         else if bits = 5 \<or> bits = 6 then scast (-2 * multiplicand)
         else 0)"

definition mpyDelta2 :: "cint \<Rightarrow> cint \<Rightarrow> u64" where
  "mpyDelta2 multiplier multiplicand =
     (let bits = sar 2 multiplier AND 7
      in if bits = 1 \<or> bits = 2 then scast (8 * multiplicand)
         else if bits = 3 then scast (16 * multiplicand)
         else if bits = 4 then scast (-16 * multiplicand)
         else if bits = 5 \<or> bits = 6 then scast (-8 * multiplicand)
         else 0)"

end
