(* ===== verification/LVDC_Engine.thy ===== *)
theory LVDC_Engine
  imports LVDC_State
begin

text \<open>
  The processor of yaLVDC: \<open>checkForInterrupts\<close> and \<open>runOneInstruction\<close> of
  \<open>src/yaLVDC/runOneInstruction.c\<close>, with one definition per instruction.

  The function \<open>runOneInstruction\<close> jumps back to its label \<open>reenterForEXM\<close> when it has prepared the
  target of an EXM; a pass is what lies between two jumps.  Its variable \<open>saveLOC\<close> is not initialised:
  the parameter \<open>garbage\<close> is the value it happens to have.  The record \<open>locals\<close> holds the variables that
  survive a branch.  The debugger and the log of PIO instructions are left out.
\<close>

unbundle bit_operations_syntax

section \<open>Interrupts\<close>

definition checkForInterrupts :: "lvdc \<Rightarrow> lvdc" where
  "checkForInterrupts st =
     (if masterInterruptLatch st = 0 then
        if ptc st then
          (case find (\<lambda>i. shl i (cio st 0x6C) AND 0x2000000 \<noteq> 0 \<and>
                          sar i (interruptInhibitLatches st) AND 1 = 0) [0..<16] of
             None \<Rightarrow> st
           | Some i \<Rightarrow> st\<lparr>masterInterruptLatch := 1, pendingInterruptIndex := of_nat i\<rparr>)
        else if pio st 0x5F AND NOT (shl 1 (pio st 0x3A)) \<noteq> 0
        then st\<lparr>masterInterruptLatch := 1, pendingInterruptIndex := 0\<rparr>
        else st
      else if masterInterruptLatch st = 1 then
        if inhibitInterruptCycles st = 0
        then st\<lparr>masterInterruptLatch := 2, pendingInstruction :=
               \<lparr>pending = True, nextHop = hop st, pendingHop = hop st,
                pending_instruction = i16_of_int (0x10 OR shl 5 (pendingInterruptIndex st))\<rparr>\<rparr>
        else st
      else st)"

section \<open>Local variables\<close>

record locals =
  hopStructure :: hopStructure_t
  rawHopStructure :: hopStructure_t
  nextLOC :: cint
  nextS :: cint
  saveLOC :: cint
  isHOP :: bool
  deltaCycleCount :: cint

datatype lv_outcome =
    Failed lvdc
  | Completed locals lvdc
  | Reenter cint lvdc

definition WithData :: "locals \<Rightarrow> u8 \<Rightarrow> u8 \<Rightarrow> (cint \<Rightarrow> lvdc \<Rightarrow> lv_outcome) \<Rightarrow> lvdc \<Rightarrow> lv_outcome" where
  "WithData v residual operand k st =
     (case fetchData (h_dm (hopStructure v)) residual (h_ds (hopStructure v)) operand st of
        (data, flag) \<Rightarrow>
          let st = st\<lparr>dataFromInstructionMemory := flag\<rparr>
          in case data of None \<Rightarrow> Failed st | Some d \<Rightarrow> k d st)"

definition Branch :: "u8 \<Rightarrow> u8 \<Rightarrow> locals \<Rightarrow> lvdc \<Rightarrow> lv_outcome" where
  "Branch residual operand v st =
     Completed (v\<lparr>saveLOC := nextLOC v, nextLOC := int_of_u8 operand, nextS := int_of_u8 residual\<rparr>)
       (st\<lparr>lastHop := hop st\<rparr>)"

section \<open>Transfer of control\<close>

definition lv_HOP :: "u8 \<Rightarrow> u8 \<Rightarrow> locals \<Rightarrow> lvdc \<Rightarrow> lv_outcome" where
  "lv_HOP residual operand v st =
     WithData v residual operand
       (\<lambda>d st. Completed (v\<lparr>isHOP := True, saveLOC := nextLOC v\<rparr>) (st\<lparr>lastHop := hop st, hop := d\<rparr>))
       (st\<lparr>inhibitInterruptCycles := 1\<rparr>)"

definition lv_TNZ :: "u8 \<Rightarrow> u8 \<Rightarrow> locals \<Rightarrow> lvdc \<Rightarrow> lv_outcome" where
  "lv_TNZ residual operand v st =
     (if acc st \<noteq> 0 then Branch residual operand v st else Completed v st)"

definition lv_TMI :: "u8 \<Rightarrow> u8 \<Rightarrow> locals \<Rightarrow> lvdc \<Rightarrow> lv_outcome" where
  "lv_TMI residual operand v st =
     (if acc st AND signMask \<noteq> 0 then Branch residual operand v st else Completed v st)"

section \<open>Multiplication and division\<close>

definition MpyStep :: "cint \<Rightarrow> nat \<Rightarrow> u64 \<times> cint \<times> cint \<Rightarrow> u64 \<times> cint \<times> cint" where
  "MpyStep multiplicand i = (\<lambda>(dummy, multiplier, pend1).
     let dummy = dummy + (mpyDelta2 multiplier multiplicand + mpyDelta1 multiplier multiplicand);
         dummy = sar 4 dummy;
         multiplier = sar 4 multiplier
     in (dummy, multiplier, if i = 2 then ucast (dummy AND 0x3FFFFFF) else pend1))"

definition lv_MPY :: "bool \<Rightarrow> u8 \<Rightarrow> u8 \<Rightarrow> locals \<Rightarrow> lvdc \<Rightarrow> lv_outcome" where
  "lv_MPY hold residual operand v st =
     WithData v residual operand
       (\<lambda>d st.
          let multiplier = sar 1 (acc st) AND NOT 1;
              multiplicand = convertDataWordToNative d AND NOT 3
          in case fold (MpyStep multiplicand) [0..<6] (0, multiplier, pqPend1 st) of
               (dummy, _, pend1) \<Rightarrow>
                 let st = st\<lparr>pqPend1 := pend1, pqPend2 := ucast (dummy AND 0x3FFFFFF)\<rparr>
                 in if hold
                    then Completed (v\<lparr>deltaCycleCount := 5\<rparr>)
                           (st\<lparr>mpyDivCount := 1, acc := pqPend2 st, inhibitInterruptCycles := 1\<rparr>)
                    else Completed v (st\<lparr>mpyDivCount := 4, inhibitInterruptCycles := 5\<rparr>))
       st"

definition DivStep :: "cint \<Rightarrow> nat \<Rightarrow> cint \<times> cint \<Rightarrow> cint \<times> cint" where
  "DivStep divisor i = (\<lambda>(remainder, quot).
     if (0 \<le>s remainder \<and> 0 \<le>s divisor) \<or> (remainder <s 0 \<and> divisor <s 0)
     then (shl 1 remainder - divisor, shl 1 (quot OR 1))
     else (shl 1 remainder + divisor, shl 1 quot))"

definition lv_DIV :: "u8 \<Rightarrow> u8 \<Rightarrow> locals \<Rightarrow> lvdc \<Rightarrow> lv_outcome" where
  "lv_DIV residual operand v st =
     WithData v residual operand
       (\<lambda>d st.
          let divisor = convertDataWordToNative d
          in case fold (DivStep divisor) [0..<24] (convertDataWordToNative (acc st), 0) of
               (remainder, quot) \<Rightarrow>
                 let quot = shl 1 quot XOR 0x2000000
                 in Completed v (st\<lparr>pqPend1 := 0, pqPend2 := convertNativeToDataWord quot,
                      mpyDivCount := 8, inhibitInterruptCycles := 8\<rparr>))
       st"

section \<open>The accumulator\<close>

definition Accumulate :: "(cint \<Rightarrow> cint \<Rightarrow> cint) \<Rightarrow> u8 \<Rightarrow> u8 \<Rightarrow> locals \<Rightarrow> lvdc \<Rightarrow> lv_outcome" where
  "Accumulate f residual operand v st =
     WithData v residual operand (\<lambda>d st. Completed v (st\<lparr>acc := f (acc st) d\<rparr>)) st"

definition acc_SUB :: "cint \<Rightarrow> cint \<Rightarrow> cint" where
  "acc_SUB a d = convertNativeToDataWord (convertDataWordToNative a - convertDataWordToNative d)"

definition acc_ADD :: "cint \<Rightarrow> cint \<Rightarrow> cint" where
  "acc_ADD a d = convertNativeToDataWord (convertDataWordToNative a + convertDataWordToNative d)"

definition acc_RSU :: "cint \<Rightarrow> cint \<Rightarrow> cint" where
  "acc_RSU a d = convertNativeToDataWord (convertDataWordToNative d - convertDataWordToNative a)"

definition lv_STO :: "u8 \<Rightarrow> u8 \<Rightarrow> locals \<Rightarrow> lvdc \<Rightarrow> lv_outcome" where
  "lv_STO residual operand v st =
     Completed v (storeData (h_dm (hopStructure v)) residual (h_ds (hopStructure v)) operand (acc st) st)"

text \<open>\<open>None\<close> is an illegal shift.\<close>

definition ptc_shift :: "u8 \<Rightarrow> cint \<Rightarrow> cint option" where
  "ptc_shift operand a =
     (let sign = a AND signMask; k = operand AND 0x3F
      in if operand AND 0x40 \<noteq> 0 then
           if k = 1 then Some (sign OR sar 1 a)
           else if k = 2 then Some (sign OR sar 1 sign OR sar 2 a)
           else if k = 4 then Some (sign OR sar 1 sign OR sar 2 sign OR sar 3 a)
           else if k = 0x8 then Some (sign OR sar 1 sign OR sar 2 sign OR sar 3 sign OR sar 4 a)
           else if k = 0x10 then
             Some (sign OR sar 1 sign OR sar 2 sign OR sar 3 sign OR sar 4 sign OR sar 5 a)
           else if k = 0x20 then
             Some (sign OR sar 1 sign OR sar 2 sign OR sar 3 sign OR sar 4 sign OR sar 5 sign OR sar 6 a)
           else None
         else
           map_option (\<lambda>a. a AND 0x3FFFFFF)
            (if k = 1 then Some (shl 1 a)
             else if k = 2 then Some (shl 2 a)
             else if k = 4 then Some (shl 3 a)
             else if k = 0x8 then Some (shl 4 a)
             else if k = 0x10 then Some (shl 5 a)
             else if k = 0x20 then Some (shl 6 a)
             else None))"

definition lvdc_shift :: "u8 \<Rightarrow> cint \<Rightarrow> cint option" where
  "lvdc_shift operand a =
     map_option (\<lambda>a. a AND 0x3FFFFFF)
      (let sign = a AND signMask
       in if operand = 0 then Some 0
          else if operand = 1 then Some (sign OR sar 1 a)
          else if operand = 2 then Some (sign OR sar 1 sign OR sar 2 a)
          else if operand = 0x10 then Some (shl 1 a)
          else if operand = 0x20 then Some (shl 2 a)
          else None)"

definition lv_SHF :: "u8 \<Rightarrow> locals \<Rightarrow> lvdc \<Rightarrow> lv_outcome" where
  "lv_SHF operand v st =
     (case (if ptc st then ptc_shift operand (acc st) else lvdc_shift operand (acc st)) of
        None \<Rightarrow> Failed st
      | Some a \<Rightarrow> Completed v (st\<lparr>acc := a\<rparr>))"

section \<open>Data sectors\<close>

definition lv_CDS :: "u8 \<Rightarrow> locals \<Rightarrow> lvdc \<Rightarrow> lv_outcome" where
  "lv_CDS operand v st =
     Completed
       (v\<lparr>rawHopStructure :=
          (if ptc st
           then (rawHopStructure v)\<lparr>h_dm := shr 4 operand AND 1, h_ds := operand AND 0xF\<rparr>
           else (rawHopStructure v)\<lparr>h_dm := shr 1 operand AND 7, h_ds := shr 4 operand AND 0xF,
                  h_dupdn := operand AND 1\<rparr>)\<rparr>) st"

section \<open>Input and output\<close>

text \<open>These instructions only record the word and its channel; the functions that run between two
  instructions act on them.\<close>

definition lv_PRS :: "u8 \<Rightarrow> u8 \<Rightarrow> locals \<Rightarrow> lvdc \<Rightarrow> lv_outcome" where
  "lv_PRS residual operand v st =
     (let put = (\<lambda>data st.
            let location = int_of_u8 operand OR shl 8 (int_of_u8 residual)
            in Completed v (st\<lparr>prs := (prs st)(location := data), prsChange := location,
                 cio264Buffer := cio st 0xB4, lastWasPrinter := True\<rparr>))
      in if residual = 0 \<or> residual = 1 \<and> operand \<le> 0xFB
         then WithData v residual operand (\<lambda>d st. put d (st\<lparr>acc := d\<rparr>)) st
         else if residual = 1 \<and> operand = 0xFC then put 0x3F st
         else if residual = 1 \<and> operand = 0xFD then put (acc st) st
         else Failed st)"

definition ReadInterrupts :: "lvdc \<Rightarrow> cint" where
  "ReadInterrupts st =
     (let a = cio st 0x6C;
          a = (if lastWasPrinter st then a OR cio210CarrBusy st
               else a OR (cio210CarrBusy st AND NOT 0x20000));
          a = (if 0 <s prsParityDelayCount st \<and> prsParityDelayCount st <s 4
               then (a AND NOT 0x80000) OR prsDelayedParity st (prsParityDelayCount st) else a)
      in if cio264Buffer st AND 2 \<noteq> 0 \<and> cio st 0x88 AND 4 = 0
         then if printerOctalMode st then a OR (0x20000 OR shl 24 (cio264Buffer st AND 3))
              else a OR 0x1000000
         else a)"

definition ReadProgRegA :: "lvdc \<Rightarrow> cint" where
  "ReadProgRegA st =
     (let a = cio st 0x8C OR (progRegA17_22 st OR bbPrinter st OR bbPlotter st OR bbTypewriter st);
          a = (if cio st 0x88 AND 8 \<noteq> 0 then a OR 1 else a)
      in if cio st 0x88 AND 16 \<noteq> 0 then a OR 1 else a)"

definition lv_CIO :: "u8 \<Rightarrow> cint \<Rightarrow> locals \<Rightarrow> lvdc \<Rightarrow> lv_outcome" where
  "lv_CIO operand operand9 v st =
     (let st = (if operand9 = 0x8C then st\<lparr>acc := ReadProgRegA st\<rparr>
                else if operand9 = 0x6C then st\<lparr>acc := ReadInterrupts st\<rparr>
                else if operand9 = 0x90 \<or> operand9 = 0x7D then st\<lparr>acc := cio st operand9\<rparr>
                else set_cio operand9 (acc st) (st\<lparr>cioChange := operand9\<rparr>));
          st = (if operand = 1 then st\<lparr>acc := ai3Shifter st\<rparr> else st)
      in Completed v st)"

definition lv_PIO :: "bool \<Rightarrow> u8 \<Rightarrow> u8 \<Rightarrow> cint \<Rightarrow> locals \<Rightarrow> lvdc \<Rightarrow> lv_outcome" where
  "lv_PIO a8 residual operand operand9 v st =
     (if operand9 AND 3 = 3 then Completed v (st\<lparr>acc := pio st operand9\<rparr>)
      else
        let st = st\<lparr>pioChange := (if ptc st then operand9 else int_of_u8 operand AND 0x7F),
                    pioChangeFull := operand9\<rparr>
        in if \<not> a8 then Completed v (set_pio (pioChange st) (acc st) st)
           else
             case fetchData (h_dm (hopStructure v)) residual (h_ds (hopStructure v)) operand st of
               (data, flag) \<Rightarrow>
                 Completed v (set_pio (pioChange st) (case data of None \<Rightarrow> 0 | Some d \<Rightarrow> d)
                   (st\<lparr>dataFromInstructionMemory := flag\<rparr>)))"

section \<open>EXM\<close>

text \<open>The modified instruction, with the bits A1 to A4 of the EXM.\<close>

definition modified :: "u16 \<Rightarrow> u8 \<Rightarrow> u16" where
  "modified instruction operand =
     i16_of_int ((int_of_u16 instruction AND NOT 0x70) OR shl 5 (int_of_u8 (operand AND 0xF)))"

definition EXM_loc :: "u8 \<Rightarrow> u8" where
  "EXM_loc operand = [0x80, 0xA0, 0xC0, 0xE0] ! unat (shr 5 operand AND 3)"

definition EXM_sector :: "u16 \<Rightarrow> u8" where
  "EXM_sector instruction =
     [4, 0xC, 5, 0xD, 6, 0xE, 7, 0xF] ! unat (shr 4 instruction AND 7)"

definition lv_EXM :: "u8 \<Rightarrow> locals \<Rightarrow> lvdc \<Rightarrow> lv_outcome" where
  "lv_EXM operand v st =
     (let h = hopStructure v;
          syllable = shr 4 operand AND 1;
          loc = EXM_loc operand
      in case fetchInstruction (h_dm h) 0xF syllable loc st of
           (None, flag) \<Rightarrow> Failed (st\<lparr>instructionFromDataMemory := flag\<rparr>)
         | (Some instruction, flag) \<Rightarrow>
             let st = st\<lparr>instructionFromDataMemory := flag\<rparr>;
                 p = (pendingInstruction st)\<lparr>pending_instruction := modified instruction operand\<rparr>;
                 raw = (rawHopStructure v)\<lparr>h_loc := u8_of_int (nextLOC v), h_s := u8_of_int (nextS v)\<rparr>
             in case formHopConstant raw (nextHop p) of
                  (ok, hop1) \<Rightarrow>
                    let p = p\<lparr>nextHop := hop1\<rparr>
                    in if \<not> ok then Failed (st\<lparr>pendingInstruction := p\<rparr>)
                    else case formHopConstant
                       \<lparr>h_im = h_dm h, h_is = 0xF, h_s = syllable, h_loc = loc, h_dm = h_dm h,
                        h_ds = EXM_sector instruction, h_dupin = h_dupin h, h_dupdn = h_dupdn h\<rparr>
                       (pendingHop p) of
                      (ok, hop2) \<Rightarrow>
                        let p = p\<lparr>pendingHop := hop2\<rparr>
                        in if \<not> ok then Failed (st\<lparr>pendingInstruction := p\<rparr>)
                           else Reenter (deltaCycleCount v + 1)
                                  (st\<lparr>pendingInstruction := p\<lparr>pending := True\<rparr>\<rparr>))"

section \<open>One instruction\<close>

definition lv_Execute :: "u16 \<Rightarrow> locals \<Rightarrow> lvdc \<Rightarrow> lv_outcome" where
  "lv_Execute instruction v st =
     (let op = instruction AND 0xF;
          residual = ucast (shr 4 instruction AND 1) :: u8;
          operand = ucast (shr 5 instruction AND 0xFF) :: u8;
          a8 = (shr 7 operand AND 1 = 1);
          operand9 = int_of_u8 operand OR shl 8 (int_of_u8 residual)
      in if op = 0 then lv_HOP residual operand v st
         else if \<not> ptc st \<and> (op = 1 \<or> op = 5) then lv_MPY (op = 5) residual operand v st
         else if ptc st \<and> op = 1 then lv_PRS residual operand v st
         else if ptc st \<and> op = 5 then lv_CIO operand operand9 v st
         else if op = 2 then Accumulate acc_SUB residual operand v st
         else if \<not> ptc st \<and> op = 3 then lv_DIV residual operand v st
         else if op = 4 then lv_TNZ residual operand v st
         else if op = 6 then Accumulate (AND) residual operand v st
         else if op = 7 then Accumulate acc_ADD residual operand v st
         else if op = 0x8 then Branch residual operand v st
         else if (\<not> ptc st \<and> op = 0x9) \<or> (ptc st \<and> op = 0xD) then Accumulate (XOR) residual operand v st
         else if op = 0xA then lv_PIO a8 residual operand operand9 v st
         else if op = 0xB then lv_STO residual operand v st
         else if op = 0xC then lv_TMI residual operand v st
         else if (\<not> ptc st \<and> op = 0xD) \<or> (ptc st \<and> op = 3) then Accumulate acc_RSU residual operand v st
         else if (ptc st \<and> op = 0xE \<and> a8) \<or> (\<not> ptc st \<and> op = 0xE \<and> residual = 0)
         then lv_CDS operand v st
         else if (ptc st \<and> op = 0xE \<and> \<not> a8) \<or> (\<not> ptc st \<and> op = 0xE \<and> \<not> a8 \<and> residual = 1)
         then lv_SHF operand v st
         else if \<not> ptc st \<and> op = 0xE \<and> a8 \<and> residual = 1 then lv_EXM operand v st
         else if op = 0xF then Accumulate (\<lambda>_ d. d) residual operand v st
         else Failed st)"

text \<open>Before the label: the marks of changed channels, and the busy signals of the peripherals.\<close>

definition BusyCounters :: "lvdc \<Rightarrow> lvdc" where
  "BusyCounters st =
     (let st = (if busyCountPlotter st \<noteq> 0 then
                  let st = st\<lparr>busyCountPlotter := busyCountPlotter st - 1\<rparr>
                  in if busyCountPlotter st = 0 then st\<lparr>bbPlotter := 0\<rparr> else st
                else st);
          st = (if busyCountPrinter st \<noteq> 0 then
                  let st = st\<lparr>busyCountPrinter := busyCountPrinter st - 1\<rparr>
                  in if busyCountPrinter st = 0 then st\<lparr>bbPrinter := 0\<rparr> else st
                else st);
          st = (if busyCountCarriagePrinter st \<noteq> 0 \<and> cio st 0x88 AND 4 = 0 then
                  let st = st\<lparr>busyCountCarriagePrinter := busyCountCarriagePrinter st - 1\<rparr>
                  in if busyCountCarriagePrinter st = 0 then st\<lparr>cio210CarrBusy := 0\<rparr> else st
                else st)
      in if busyCountTypewriter st \<noteq> 0 \<and> cio st 0x88 AND 5 = 0 then
           let st = st\<lparr>busyCountTypewriter := busyCountTypewriter st - 1\<rparr>
           in if busyCountTypewriter st = 0 then
                if caseChange st
                then (set_cio 0x6C (cio st 0x6C OR currentTypewriterInterrupt st)
                       (st\<lparr>caseChange := False\<rparr>))\<lparr>busyCountTypewriter := 1060\<rparr>
                else st\<lparr>bbTypewriter := 0\<rparr>
              else st
         else st)"

definition Begin :: "lvdc \<Rightarrow> lvdc" where
  "Begin st =
     (let st = BusyCounters (st\<lparr>pioChange := -1, cioChange := -1, prsChange := -1, lastHop := -1,
                 riLastHOP := hop st\<rparr>);
          st = st\<lparr>ai3Shifter := shl 1 (ai3Shifter st) AND 0x3FFFFFF\<rparr>
      in if prsParityDelayCount st <s 3
         then st\<lparr>prsParityDelayCount := prsParityDelayCount st + 1\<rparr> else st)"

text \<open>At the label: the inhibition of interrupts and the PQ register count down.\<close>

definition Countdown :: "lvdc \<Rightarrow> lvdc" where
  "Countdown st =
     (let st = (if 0 <s inhibitInterruptCycles st
                then st\<lparr>inhibitInterruptCycles := inhibitInterruptCycles st - 1\<rparr> else st);
          st = st\<lparr>dataFromInstructionMemory := False, instructionFromDataMemory := False\<rparr>
      in if 0 <s mpyDivCount st then
           let st = st\<lparr>mpyDivCount := mpyDivCount st - 1\<rparr>
           in st\<lparr>pq := (if 0 <s mpyDivCount st then pqPend1 st else pqPend2 st)\<rparr>
         else st)"

text \<open>The current instruction, or \<open>None\<close> when the code gives up.\<close>

definition lv_Fetch :: "cint \<Rightarrow> cint \<Rightarrow> lvdc \<Rightarrow> (u16 \<times> locals) option \<times> lvdc" where
  "lv_Fetch garbage delta st =
     (if pending (pendingInstruction st) then
        let p = pendingInstruction st;
            st = st\<lparr>pendingInstruction := p\<lparr>pending := False\<rparr>, hop := pendingHop p\<rparr>
        in case parseHopConstant (ptc st) (hop st) of
             None \<Rightarrow> (None, st)
           | Some h \<Rightarrow>
               (case parseHopConstant (ptc st) (nextHop p) of
                  None \<Rightarrow> (None, st)
                | Some raw \<Rightarrow>
                    (Some (pending_instruction p,
                       \<lparr>hopStructure = h, rawHopStructure = raw, nextLOC = int_of_u8 (h_loc raw),
                        nextS = int_of_u8 (h_s raw), saveLOC = garbage, isHOP = False,
                        deltaCycleCount = delta\<rparr>), st))
      else
        case parseHopConstant (ptc st) (hop st) of
          None \<Rightarrow> (None, st)
        | Some h \<Rightarrow>
            (case fetchInstruction (h_im h) (h_is h) (h_s h) (h_loc h) st of
               (instruction, flag) \<Rightarrow>
                 (map_option (\<lambda>instruction. (instruction,
                    \<lparr>hopStructure = h, rawHopStructure = h,
                     nextLOC = (if h_loc h \<noteq> 0xFF then int_of_u8 (h_loc h) + 1 else int_of_u8 (h_loc h)),
                     nextS = int_of_u8 (h_s h), saveLOC = garbage, isHOP = False,
                     deltaCycleCount = delta\<rparr>)) instruction,
                  st\<lparr>instructionFromDataMemory := flag\<rparr>)))"

definition lv_pass :: "cint \<Rightarrow> cint \<Rightarrow> lvdc \<Rightarrow> lv_outcome" where
  "lv_pass garbage delta st =
     (case lv_Fetch garbage delta (Countdown st) of
        (None, st) \<Rightarrow> Failed st
      | (Some (instruction, v), st) \<Rightarrow>
          (let st = st\<lparr>riLastInstruction := int_of_u16 instruction, lvdc_lastInstruction := instruction\<rparr>
           in case lv_Execute instruction v st of
                Failed st \<Rightarrow> Failed st
              | Reenter delta st \<Rightarrow> Reenter delta st
              | Completed w st \<Rightarrow>
                  let raw = (rawHopStructure w)\<lparr>h_loc := u8_of_int (nextLOC w), h_s := u8_of_int (nextS w)\<rparr>;
                      (ok, st) = (if isHOP w then (True, st)
                                  else case formHopConstant raw (hop st) of (ok, c) \<Rightarrow> (ok, st\<lparr>hop := c\<rparr>))
                  in if \<not> ok then Failed st
                     else
                       let rawest = (rawHopStructure v)\<lparr>h_loc := u8_of_int (saveLOC w)\<rparr>;
                           st = (case formHopConstant rawest (hopSaver st) of
                                   (ok, c) \<Rightarrow> st\<lparr>hopSaver := (if ok then c else -1)\<rparr>)
                       in Completed w (st\<lparr>rtcDivider := rtcDivider st + deltaCycleCount w\<rparr>)))"

text \<open>The jumps to \<open>reenterForEXM\<close>; nothing in the code bounds them.\<close>

partial_function (option) lv_passes :: "cint \<Rightarrow> cint \<Rightarrow> lvdc \<Rightarrow> (cint option \<times> lvdc) option" where
  "lv_passes garbage delta st =
     (case lv_pass garbage delta st of
        Failed st \<Rightarrow> Some (None, st)
      | Completed w st \<Rightarrow> Some (Some (deltaCycleCount w), st)
      | Reenter delta st \<Rightarrow> lv_passes garbage delta st)"

text \<open>The result is \<open>*cyclesUsed\<close>, or \<open>None\<close> when the code returns 1.\<close>

definition runOneInstruction :: "cint \<Rightarrow> lvdc \<Rightarrow> (cint option \<times> lvdc) option" where
  "runOneInstruction garbage st = lv_passes garbage 1 (Begin st)"

end
