(* ===== verification/LVDC_IO.thy ===== *)
theory LVDC_IO
  imports LVDC_Engine
begin

text \<open>
  What happens between two instructions of yaLVDC: \<open>src/yaLVDC/processInterruptsAndIO.c\<close> up to the
  virtual wire.  The computer writes a channel with PIO, CIO or PRS; the functions here carry out what
  the channel does in the computer.  The constants of the tables are those of the sources, with their
  \<open>>> 1\<close> carried out.
\<close>

unbundle bit_operations_syntax

section \<open>The interrupt latch of the PTC\<close>

definition setLatch :: "cint \<Rightarrow> lvdc \<Rightarrow> lvdc" where
  "setLatch n st =
     (if n <s 1 \<or> 16 <s n then st else set_cio 0x6C (cio st 0x6C OR shl (unat (26 - n)) 1) st)"

definition resetLatch :: "cint \<Rightarrow> lvdc \<Rightarrow> lvdc" where
  "resetLatch n st =
     (if n <s 1 \<or> 16 <s n then st else set_cio 0x6C (cio st 0x6C AND NOT (shl (unat (26 - n)) 1)) st)"

section \<open>The typewriter\<close>

definition PATN :: "cint list" where
  "PATN = [
     0x800, 0xFE0000, 0x6E0000, 0x7C0000, 0xAE0000, 0xBC0000, 0x2C0000, 0x3E0000,
     0x9E0000, 0x8C0000, 0x1C0000, 0xE0000, 0x29E0000, 0x8C0000, 0x1C0000, 0xE0000,
     0xE60000, 0xF40000, 0x640000, 0x760000, 0xA40000, 0xB60000, 0x260000, 0x340000,
     0x940000, 0x860000, 0x340000, 0x40000, 0x940000, 0x860000, 0xE60000, 0x40000,
     0xEA0000, 0xF80000, 0x680000, 0x7A0000, 0xA80000, 0xBA0000, 0x2A0000, 0x380000,
     0x980000, 0x8A0000, 0x380000, 0x80000, 0x980000, 0x8A0000, 0xEA0000, 0x80000,
     0xE00000, 0xF20000, 0x620000, 0x700000, 0xA20000, 0xB00000, 0x200000, 0x320000,
     0x920000, 0x800000, 0x320000, 0x20000, 0x920000, 0x800000, 0xE00000, 0x20000]"

definition PATN134 :: "cint list" where
  "PATN134 = [
     0x800, 0x2000, 0x4000, 0x8000, 0x1000, 0x10000]"

definition UPCASE :: "cint list" where
  "UPCASE = [
     0, 0, 0, 0, 0, 0, 0, 0, 0, 0, 0, 0, 1, 1, 1, 1,
     0, 0, 0, 0, 0, 0, 0, 0, 0, 0, 1, 0, 1, 1, 1, 1,
     0, 0, 0, 0, 0, 0, 0, 0, 0, 0, 1, 0, 1, 1, 1, 1,
     0, 0, 0, 0, 0, 0, 0, 0, 0, 0, 1, 0, 1, 1, 1, 1]"

definition typeChar :: "nat \<Rightarrow> lvdc \<Rightarrow> lvdc" where
  "typeChar index st =
     (let st = st\<lparr>typewriterCharsInLine := typewriterCharsInLine st + 1\<rparr>;
          charCase = UPCASE ! index
      in if charCase \<noteq> lastTypewriterCharCase st then
           let st = st\<lparr>lastTypewriterCharCase := charCase,
                       currentCaseInterrupt := (if charCase \<noteq> 0 then 0x2000000 else 0x1000000)\<rparr>
           in (set_cio 0x6C (cio st 0x6C OR currentCaseInterrupt st) st)
                \<lparr>caseChange := True, currentTypewriterInterrupt := PATN ! index\<rparr>
         else set_cio 0x6C (cio st 0x6C OR PATN ! index) st)"

text \<open>The tabulator: \<open>do typewriterCharsInLine++; while (typewriterCharsInLine % typewriterTabStop
  != 0)\<close>.  The division is undefined for a tab width of 0; for the others the loop ends.\<close>

partial_function (option) TabLoop :: "cint \<Rightarrow> cint \<Rightarrow> cint option" where
  "TabLoop stop chars =
     (let chars = chars + 1
      in if sint chars smod sint stop \<noteq> 0 then TabLoop stop chars else Some chars)"

definition typeControl :: "nat \<Rightarrow> lvdc \<Rightarrow> lvdc option" where
  "typeControl i st =
     (let st = set_cio 0x6C (cio st 0x6C OR PATN134 ! i) st
      in if i = 0 then Some (st\<lparr>typewriterCharsInLine := typewriterCharsInLine st + 1\<rparr>)
         else if i = 4 then Some (st\<lparr>typewriterCharsInLine := typewriterMargin st\<rparr>)
         else if i = 5 then
           (if typewriterTabStop st = 0 then None
            else map_option (\<lambda>n. st\<lparr>typewriterCharsInLine := n\<rparr>)
                   (TabLoop (typewriterTabStop st) (typewriterCharsInLine st)))
         else Some st)"

fun typeControls :: "cint \<Rightarrow> nat list \<Rightarrow> lvdc \<Rightarrow> lvdc option" where
  "typeControls payload [] st = Some st"
| "typeControls payload (i # is) st =
     (if shl i payload AND 0x2000000 \<noteq> 0
      then Option.bind (typeControl i st) (typeControls payload is)
      else typeControls payload is st)"

section \<open>Channels of the PTC\<close>

definition ptc_PIO :: "lvdc \<Rightarrow> lvdc" where
  "ptc_PIO st =
     (let channel = pioChange st;
          latch = (\<lambda>b. (set_cio 0x6C (cio st 0x6C OR b) st)\<lparr>pioChange := -1\<rparr>)
      in if channel = 0 then (set_cio 0x6C 0 st)\<lparr>pioChange := -1\<rparr>
         else if channel = 1 then latch 0x2000000
         else if channel = 2 then latch 0x1000000
         else if channel = 4 then latch 0x800000
         else if channel = 0x8 then latch 0x400000
         else if channel = 0x10 then latch 0x200000
         else if channel = 0x20 then latch 0x100000
         else if channel = 0x40 then latch 0x80000
         else if channel = 0x80 then latch 0x40000
         else if channel = 0x100 then latch 0x20000
         else st)"

text \<open>The discrete outputs, channel 210.\<close>

definition DiscreteOutputs :: "cint \<Rightarrow> lvdc \<Rightarrow> lvdc" where
  "DiscreteOutputs payload st =
     (let st = st\<lparr>progRegA17_22 := shl 3 (payload AND 0x3F)\<rparr>;
          st = (if payload AND 0x1D \<noteq> 0 \<and> bbPrinter st = 0
                then st\<lparr>bbPrinter := 1, busyCountPrinter := 20\<rparr>
                else if payload AND 0x1D = 0 \<and> bbPrinter st \<noteq> 0
                then st\<lparr>bbPrinter := 0, busyCountPrinter := 0\<rparr>
                else st);
          st = (if payload AND 5 = 0 \<and> bbTypewriter st \<noteq> 0
                then st\<lparr>bbTypewriter := 0, busyCountTypewriter := 0\<rparr> else st);
          st = (if payload AND 4 \<noteq> 0
                then (set_cio 0x6C (cio st 0x6C OR PATN134 ! 4) (st\<lparr>cio210CarrBusy := 0x21000\<rparr>))
                       \<lparr>bbTypewriter := 4, typewriterCharsInLine := 0, busyCountTypewriter := 15,
                        busyCountPrinter := 20, busyCountCarriagePrinter := 3\<rparr>
                else st)
      in if payload AND 32 \<noteq> 0
         then (set_cio 0x6C ((cio st 0x6C AND NOT 0x3FFF000) OR 0x3141000) st)
                \<lparr>prsDelayedParity := (prsDelayedParity st)(1 := 0, 2 := 0, 3 := 0)\<rparr>
         else st)"

text \<open>Each function below returns the state and whether the channel also goes to the peripherals.\<close>

definition ptc_CIO0 :: "cint \<Rightarrow> cint \<Rightarrow> lvdc \<Rightarrow> (bool \<times> lvdc) option" where
  "ptc_CIO0 channel payload st =
     (let q = sar 2 channel
      in if channel = 0 then
           Some (False, st\<lparr>interruptInhibitLatches := interruptInhibitLatches st OR (payload AND 0x7FFF)\<rparr>)
         else if channel = 4 then
           Some (False, st\<lparr>interruptInhibitLatches := interruptInhibitLatches st AND NOT (payload AND 0x7FFF)\<rparr>)
         else if channel \<le>s 0x44 then
           Some (False, (resetLatch (q - 1) st)
             \<lparr>cio264Buffer := cio264Buffer st AND NOT (shl (unat (q - 2)) 1)\<rparr>)
         else if channel = 0x48 then Some (False, st\<lparr>masterInterruptLatch := 0\<rparr>)
         else if channel = 0x50 then Some (True, typeChar (unat (sar 20 payload AND 0x3F)) st)
         else if channel = 0x54 then Some (True, typeChar (unat (sar 22 payload AND 0xF)) st)
         else if channel = 0x58 then
           (let index = unat (sar 23 payload AND 7)
            in Some (True, typeChar (if index = 0 then 0xA else index) st))
         else if channel = 0x5C then map_option (Pair True) (typeControls payload [0..<6] st)
         else if channel = 0x88 then Some (True, DiscreteOutputs payload st)
         else if channel = 0x94 then
           Some (False, set_cio 0x6C
             (cio st 0x6C OR ((payload AND 0x3FFF800) OR shl 15 (payload AND 0x7FF))) st)
         else Some (True, st))"

definition ptc_CIO1 :: "cint \<Rightarrow> lvdc \<Rightarrow> bool \<times> lvdc" where
  "ptc_CIO1 channel st =
     (let q = sar 2 channel
      in if channel \<le>s 0x31 then (False, setLatch (q + 3) st)
         else if channel \<le>s 0x39 then (False, setLatch (q - 4) st)
         else if channel \<le>s 0x69 then (False, setLatch (q - 0xE) st)
         else if channel \<le>s 0x7D then (False, st)
         else (True, st))"

definition ptc_CIO2 :: "cint \<Rightarrow> lvdc \<Rightarrow> bool \<times> lvdc" where
  "ptc_CIO2 channel st =
     (let q = sar 2 channel
      in if channel \<le>s 0x3A then (False, setLatch (q + 1) st)
         else if channel = 0x3E then (False, setLatch 11 st)
         else if channel = 0x42 then (False, setLatch 13 st)
         else if channel \<le>s 0x7E then (False, setLatch (q - 0x10) st)
         else if channel = 0x82 then (False, setLatch 12 st)
         else if channel = 0x86 then (False, setLatch 14 st)
         else if channel \<le>s 0x8E then (False, setLatch (q - 0x21) st)
         else (True, st))"

definition ptc_CIO :: "lvdc \<Rightarrow> lvdc option" where
  "ptc_CIO st =
     (let channel = cioChange st;
          payload = cio st channel;
          st = (if channel = 0xA8 then
                  let st = (if payload AND 0x2000000 \<noteq> 0 then st\<lparr>inhibit250 := True\<rparr> else st)
                  in if payload AND 0x1000000 \<noteq> 0 then st\<lparr>inhibit250 := False\<rparr> else st
                else st)
      in if channel = 0xA0 then
           Some (if cio st 0x8C AND 0x200 = 0 then st else st\<lparr>panelPause := 2\<rparr>)
         else
           let st = (if channel = 0x9C then st\<lparr>ai3Shifter := payload\<rparr> else st);
               st = (if channel = 0x3C then st\<lparr>cio210CarrBusy := cio210CarrBusy st AND NOT 0x1000\<rparr> else st);
               remainder = channel AND 3
           in map_option (\<lambda>(more, st). if more then st else st\<lparr>cioChange := -1\<rparr>)
                (if remainder = 0 then ptc_CIO0 channel payload st
                 else if remainder = 1 then Some (ptc_CIO1 channel st)
                 else if remainder = 2 then Some (ptc_CIO2 channel st)
                 else Some (True, st)))"

section \<open>Timers and interrupts of the LVDC\<close>

definition RtcTick :: "lvdc \<Rightarrow> lvdc" where
  "RtcTick st =
     (let st = set_pio 0x43 (0x3FFE000 OR ((pio st 0x43 + 1) AND 0x1FFF))
                 (st\<lparr>rtcDivider := rtcDivider st - 3\<rparr>);
          st = st\<lparr>timerDivider := \<not> timerDivider st\<rparr>
      in if timerDivider st then
           let st = set_pio 0x3E ((pio st 0x3E - 1) AND 0x1FFF) st;
               st = (if pio st 0x3E = 0 then set_pio 0x5F (pio st 0x5F OR 0x2000000) st else st)
           in if 0 <s pio st 0x32 then
                let st = set_pio 0x32 (pio st 0x32 - 1) st
                in if pio st 0x32 = 0 then set_pio 0x5F (pio st 0x5F OR 0x1000000) st else st
              else st
         else st)"

lemma rtcDivider_RtcTick [simp]: "rtcDivider (RtcTick st) = rtcDivider st - 3"
  by (simp add: RtcTick_def set_pio_def Let_def)

function RtcLoop :: "lvdc \<Rightarrow> lvdc" where
  "RtcLoop st = (if 3 \<le>s rtcDivider st then RtcLoop (RtcTick st) else st)"
  by auto
termination
proof (relation "measure (\<lambda>st. nat (sint (rtcDivider st)))")
  fix st :: lvdc
  assume "3 \<le>s rtcDivider st"
  then have "3 \<le> sint (rtcDivider st)" by (simp add: word_sle_eq)
  then show "(RtcTick st, st) \<in> measure (\<lambda>st. nat (sint (rtcDivider st)))"
    using sint_minus_small [of "rtcDivider st" 3] sint_cint_bounds [of "rtcDivider st"] by simp
qed simp

definition LvdaChannel :: "lvdc \<Rightarrow> lvdc" where
  "LvdaChannel st =
     (if pioChange st = 0x1A
      then (set_pio 0x5F (pio st 0x5F AND NOT (shl 1 (pio st 0x1A))) st)\<lparr>masterInterruptLatch := 0\<rparr>
      else st)"

declare RtcLoop.simps [simp del]

end
