(* ===== verification/LVDC_Wire.thy ===== *)
theory LVDC_Wire
  imports LVDC_IO
begin

text \<open>
  The virtual wire of yaLVDC (\<open>src/yaLVDC/virtualWire.c\<close>), the packets of six bytes between the computer
  and its peripherals, and the memory files (\<open>src/yaLVDC/readWriteCore.c\<close>).  A socket is the list of
  the bytes that have not been received.  Errors of a connection belong to the environment.
\<close>

unbundle bit_operations_syntax

section \<open>State\<close>

record pendingMask_t =
  m_valid :: bool
  m_source :: cint
  m_ioType :: cint
  m_channel :: cint
  m_mask :: cint

record wire =
  cpu :: lvdc
  outPacket :: "u8 list"
  Enabled :: "nat \<Rightarrow> bool"
  NumListeners :: nat
  Arriving :: "nat \<Rightarrow> u8 list"
  inPackets :: "nat \<Rightarrow> u8 list"
  pendingMasks :: "nat \<Rightarrow> pendingMask_t"
  Outgoing :: "(nat \<times> u8 list) list"
  newConnect :: bool
  needStatus :: cint
  panelPatternDataAddress :: cint
  panelPatternDM :: u8
  panelPatternDS :: u8
  panelPatternDLOC :: u8
  panelPatternInstructionAddress :: cint
  panelPatternDataValue :: cint
  panelDisplayModePlus :: cint
  panelDisplaySelect :: cint
  panelAddressCompare :: cint
  panelModeControl :: cint

abbreviation (input) MAX_LISTENERS :: nat where "MAX_LISTENERS \<equiv> 10"
abbreviation (input) MAX_INPACKET_SIZE :: nat where "MAX_INPACKET_SIZE \<equiv> 1800"

section \<open>Packets\<close>

definition lvdc_packet :: "cint \<Rightarrow> cint \<Rightarrow> cint \<Rightarrow> bool \<Rightarrow> u8 list" where
  "lvdc_packet ioType channel payload isMask =
     [u8_of_int ((if isMask then 0xC0 else 0x80) OR (shl 3 ioType AND 0x38)),
      u8_of_int (channel AND 0x7F),
      u8_of_int (sar 2 (channel AND 0x180) OR (sar 21 payload AND 0x1F)),
      u8_of_int (sar 14 payload AND 0x7F),
      u8_of_int (sar 7 payload AND 0x7F),
      u8_of_int (payload AND 0x7F)]"

definition formatPacket :: "cint \<Rightarrow> cint \<Rightarrow> cint \<Rightarrow> bool \<Rightarrow> wire \<Rightarrow> wire" where
  "formatPacket ioType channel payload isMask w =
     w\<lparr>outPacket := outPacket w @ lvdc_packet ioType channel payload isMask\<rparr>"

section \<open>Output of the computer\<close>

definition oddParity6 :: "cint \<Rightarrow> cint" where
  "oddParity6 value =
     (let value = value XOR (sar 1 value XOR sar 2 value XOR sar 3 value XOR sar 4 value XOR sar 5 value)
      in if 1 AND NOT value \<noteq> 0 then 0x80000 else 0)"

definition octalPATN :: "cint list" where
  "octalPATN = [0xA0C000, 0xB0C000, 0xA0C000, 0xB0C000,
                0xE0C000, 0xF0C000, 0xE0C000, 0xF0C000]"

definition set_parity :: "cint \<Rightarrow> cint \<Rightarrow> lvdc \<Rightarrow> lvdc" where
  "set_parity k v st = st\<lparr>prsDelayedParity := (prsDelayedParity st)(k := v)\<rparr>"

definition PrintOctal :: "cint \<Rightarrow> nat \<Rightarrow> lvdc \<Rightarrow> lvdc" where
  "PrintOctal payload i st =
     (let octal = sar 23 (shl i payload AND 0x3800000);
          st = set_cio 0x6C (cio st 0x6C OR octalPATN ! unat octal) st
      in if i = 3 then set_parity 1 (oddParity6 octal) st
         else if i = 18 then set_parity 2 (oddParity6 (if inhibit250 st then octal else 0)) st
         else if i = 24 then set_parity 3 (oddParity6 (if inhibit250 st then octal else 0)) st
         else st)"

definition PrintBCD :: "cint \<Rightarrow> nat \<Rightarrow> lvdc \<Rightarrow> lvdc" where
  "PrintBCD payload i st =
     (let ba8421 = shl i payload AND 0x3F00000;
          st = set_cio 0x6C (cio st 0x6C OR ba8421) st;
          st = set_cio 0x6C (cio st 0x6C OR 0xC000) st
      in if i = 6 then set_parity 1 (oddParity6 (sar 20 ba8421)) st
         else if i = 18 then set_parity 3 (oddParity6 (sar 20 ba8421))
                (set_parity 2 (oddParity6 (sar 20 ba8421)) st)
         else st)"

definition OutputPRS :: "cint \<Rightarrow> cint \<Rightarrow> lvdc \<Rightarrow> lvdc" where
  "OutputPRS channel payload st =
     (let st = set_cio 0x6C 0 (st\<lparr>bbPrinter := 1, prsParityDelayCount := 0\<rparr>)
      in if channel = 0x1FC then
           set_parity 3 (oddParity6 0) (set_parity 2 (oddParity6 0) (set_parity 1 (oddParity6 0)
             (set_cio 0x6C (cio st 0x6C OR 0x1C000) (st\<lparr>busyCountPrinter := 20\<rparr>))))
         else if printerOctalMode st
         then fold (PrintOctal payload) [0, 3, 6, 9, 12, 15, 18, 21, 24] (st\<lparr>busyCountPrinter := 30\<rparr>)
         else fold (PrintBCD payload) [0, 6, 12, 18] (st\<lparr>busyCountPrinter := 30\<rparr>))"

definition OutputCIO :: "cint \<Rightarrow> cint \<Rightarrow> lvdc \<Rightarrow> lvdc" where
  "OutputCIO channel payload st =
     (if channel = 0x64 \<or> channel = 0x68 then st\<lparr>bbPlotter := 2, busyCountPlotter := 30\<rparr>
      else if channel = 0x70 then
        (set_cio 0x6C ((payload AND 0x3F00000) OR 0x44000 OR oddParity6 (sar 20 payload AND 0x3F))
           (st\<lparr>bbPrinter := 1, busyCountPrinter := 30\<rparr>))\<lparr>lastWasPrinter := True\<rparr>
      else if channel = 0x74 \<or> channel = 0x78 then
        (set_cio 0xB4 0 (st\<lparr>printerOctalMode := (channel = 0x74), cio264Buffer := 0\<rparr>))
          \<lparr>lastWasPrinter := True\<rparr>
      else if channel = 0x50 \<or> channel = 0x54 \<or> channel = 0x58 \<or> channel = 0x5C then
        (let st = st\<lparr>bbTypewriter := 4, lastWasPrinter := False\<rparr>
         in if typewriterMargin st \<le>s typewriterCharsInLine st
            then st\<lparr>busyCountTypewriter := 40, typewriterCharsInLine := 0\<rparr>
            else st\<lparr>busyCountTypewriter := 30\<rparr>)
      else st)"

text \<open>The i/o type, channel and payload of the word that the last instruction put out, if any.\<close>

definition OutputWord :: "lvdc \<Rightarrow> (cint \<times> cint \<times> cint) option \<times> lvdc" where
  "OutputWord st =
     (if pioChange st \<noteq> -1 then
        let channel = pioChangeFull st;
            payload = pio st (pioChange st)
        in (Some (0, channel, if channel = 0x17C then payload OR 0xFFF else payload),
            st\<lparr>pioChange := -1\<rparr>)
      else if cioChange st \<noteq> -1 then
        let channel = cioChange st;
            payload = cio st channel
        in (Some (1, channel, payload), OutputCIO channel payload (st\<lparr>cioChange := -1\<rparr>))
      else if prsChange st \<noteq> -1 then
        let channel = prsChange st;
            payload = prs st channel
        in (Some (2, channel, payload), OutputPRS channel payload (st\<lparr>prsChange := -1\<rparr>))
      else (None, st))"

section \<open>Status for the panel of the PTC\<close>

text \<open>A value of -1 is not sent.  As in the code, the instruction shown is fetched from sector
  \<open>dm\<close>.\<close>

definition StatusData :: "wire \<Rightarrow> cint \<Rightarrow> cint \<times> cint \<times> lvdc" where
  "StatusData w hop0 =
     (let st = cpu w
      in case (if hop0 = -1 then None else parseHopConstant (ptc st) hop0) of
           None \<Rightarrow> (-1, -1, st)
         | Some h \<Rightarrow>
             (case fetchInstruction (h_im h) (h_dm h) (h_s h) (h_loc h) st of
                (None, flag) \<Rightarrow> (-1, -1, st\<lparr>instructionFromDataMemory := flag\<rparr>)
              | (Some instruction, flag) \<Rightarrow>
                  let st = st\<lparr>instructionFromDataMemory := flag\<rparr>;
                      opcode = instruction AND 0xF;
                      a9 = ucast (shr 4 instruction AND 1);
                      a81 = ucast (shr 5 instruction AND 0xFF);
                      hopd = (hop st AND 0x3FFE000) OR int_of_u16 instruction
                  in if (ptc st \<and> (opcode = 1 \<or> opcode = 5)) \<or> opcode = 4 \<or> opcode = 0x8
                        \<or> opcode = 0xA \<or> opcode = 0xC \<or> opcode = 0xE \<or> needStatus w = 2
                     then (hopd, -1, st)
                     else case fetchData (h_dm h) a9 (h_ds h) a81 st of
                            (data, flag) \<Rightarrow>
                              (hopd, case data of None \<Rightarrow> 0 | Some d \<Rightarrow> d,
                               st\<lparr>dataFromInstructionMemory := flag\<rparr>)))"

definition PanelStatus :: "wire \<Rightarrow> wire" where
  "PanelStatus w =
     (let n = needStatus w;
          hop0 = (if n \<noteq> 3 \<and> n \<noteq> 4 \<and> n \<noteq> 5 then hop (cpu w) else -1);
          full = (n = 2 \<or> newConnect w);
          back = fetchData (panelPatternDM w) 0 (panelPatternDS w) (panelPatternDLOC w);
          send = (\<lambda>channel v w. if v \<noteq> -1 then formatPacket 5 channel v False w else w)
      in case StatusData w hop0 of
           (hopd, data, st) \<Rightarrow>
             let w = w\<lparr>cpu := st\<rparr>;
                 datapat = (if full \<or> n = 3 then panelPatternDataAddress w else -1);
                 inspat = (if full \<or> n = 4 then panelPatternInstructionAddress w else -1);
                 ask = ((full \<or> n = 5) \<and> panelPatternDataAddress w \<noteq> -1);
                 dataReadback = (if ask then (case fst (back st) of None \<Rightarrow> 0 | Some d \<Rightarrow> d) else -1);
                 w = (if ask then w\<lparr>cpu := st\<lparr>dataFromInstructionMemory := snd (back st)\<rparr>\<rparr> else w)
             in (send 0x181 dataReadback
                 (send 0x182 datapat
                  (send 0x183 inspat
                   (send 0x185 (if full then cio st 0x90 else -1)
                    (send 0x184 (if full then cio st 0x8C else -1)
                     (formatPacket 5 0x180 (acc st) False
                      (send 5 (if full then panelDisplayModePlus w else -1)
                       (send 4 data
                        (send 2 hopd
                         ((if hop0 \<noteq> -1 then formatPacket 5 3 (hop st) False else id)
                          (formatPacket 5 (if panelPause st = 0 \<or> panelPause st = 4 then 1 else 0) 0 False
                             w))))))))))))"

section \<open>Input from the peripherals\<close>

definition apply_mask :: "cint \<Rightarrow> cint \<Rightarrow> cint \<Rightarrow> cint" where
  "apply_mask old value bits = (old AND NOT bits) OR (value AND bits)"

text \<open>The mask that was announced for the packet, or all bits.\<close>

definition TakeMask :: "nat \<Rightarrow> cint \<Rightarrow> cint \<Rightarrow> cint \<Rightarrow> wire \<Rightarrow> cint \<times> wire" where
  "TakeMask i source ioType channel w =
     (let m = pendingMasks w i
      in if m_valid m then
           (if m_source m \<noteq> source \<or> m_ioType m \<noteq> ioType \<or> m_channel m \<noteq> channel then 0x3FFFFFF
            else m_mask m,
            w\<lparr>pendingMasks := (pendingMasks w)(i := m\<lparr>m_valid := False\<rparr>)\<rparr>)
         else (0x3FFFFFF, w))"

definition InputPIO :: "cint \<Rightarrow> cint \<Rightarrow> cint \<Rightarrow> lvdc \<Rightarrow> lvdc" where
  "InputPIO channel value bits st =
     (let newValue = apply_mask (pio st channel) value bits;
          st = set_pio channel newValue st
      in if channel = 0x23 then
           let st = set_pio 0x2F (apply_mask (pio st 0x2F) newValue 0x8) st
           in set_pio 0x5F (apply_mask (pio st 0x5F) 0x200000 0x200000) st
         else st)"

text \<open>As in the code, the bits outside of the mask are those of the PIO channel of the number.\<close>

definition InputCIO :: "cint \<Rightarrow> cint \<Rightarrow> cint \<Rightarrow> lvdc \<Rightarrow> lvdc" where
  "InputCIO channel value bits st = set_cio channel (apply_mask (pio st channel) value bits) st"

definition PanelCommand :: "cint \<Rightarrow> cint \<Rightarrow> wire \<Rightarrow> wire" where
  "PanelCommand channel value w =
     (let st = cpu w
      in if channel = 0 then w\<lparr>cpu := st\<lparr>panelPause := 2\<rparr>\<rparr>
         else if channel = 1 then w\<lparr>cpu := st\<lparr>panelPause := 4\<rparr>\<rparr>
         else if channel = 2 then
           (let residual = (sar 4 value AND 1 \<noteq> 0)
            in w\<lparr>panelPatternDM := (if residual \<and> ptc st then 0 else u8_of_int (sar 17 value AND 1)),
                 panelPatternDS := (if residual then 0xF else u8_of_int (sar 20 value AND 0xF)),
                 panelPatternDLOC := u8_of_int (sar 5 value AND 0xFF),
                 panelPatternDataAddress := value, needStatus := 3\<rparr>)
         else if channel = 3 then w\<lparr>panelPatternInstructionAddress := value, needStatus := 4\<rparr>
         else if channel = 4 then
           (let m = panelPatternDM w; s = panelPatternDS w; l = panelPatternDLOC w
            in w\<lparr>panelPatternDataValue := value,
                 cpu := set_core m s 1 l (-1) (set_core m s 0 l (-1) (set_core m s 2 l value st)),
                 needStatus := 5\<rparr>)
         else if channel = 5 then
           (let mode = value AND 7
            in w\<lparr>panelDisplayModePlus := value, panelModeControl := mode,
                 panelAddressCompare := sar 3 value AND 1, panelDisplaySelect := sar 4 value AND 3,
                 cpu := (if 3 \<le>s mode then st\<lparr>panelPause := 0\<rparr> else st)\<rparr>)
         else if channel = 0x183 then w\<lparr>cpu := st\<lparr>panelPause := 1\<rparr>\<rparr>
         else if channel = 0x184 then w\<lparr>cpu := st\<lparr>hop := 0, panelPause := 0\<rparr>\<rparr>
         else if channel = 0x185 then w\<lparr>needStatus := 1\<rparr>
         else if channel = 0x186 then w\<lparr>cpu := st\<lparr>typewriterMargin := value\<rparr>\<rparr>
         else if channel = 0x187 then w\<lparr>cpu := st\<lparr>typewriterTabStop := value\<rparr>\<rparr>
         else w)"

definition HandlePacket :: "nat \<Rightarrow> bool \<Rightarrow> cint \<Rightarrow> cint \<Rightarrow> cint \<Rightarrow> cint \<Rightarrow> wire \<Rightarrow> wire" where
  "HandlePacket i isMask source ioType channel value w =
     (if isMask then
        w\<lparr>pendingMasks := (pendingMasks w)(i := \<lparr>m_valid = True, m_source = source,
            m_ioType = ioType, m_channel = channel, m_mask = value\<rparr>)\<rparr>
      else
        case TakeMask i source ioType channel w of
          (bits, w) \<Rightarrow>
            if ioType = 0 then w\<lparr>cpu := InputPIO channel value bits (cpu w)\<rparr>
            else if ioType = 1 then w\<lparr>cpu := InputCIO channel value bits (cpu w)\<rparr>
            else if ioType = 4 then PanelCommand channel value w
            else w)"

text \<open>The bytes of one packet, in the variables of the loop.\<close>

record packet_locals =
  l_isMask :: bool
  l_source :: cint
  l_ioType :: cint
  l_channel :: cint
  l_value :: cint

text \<open>\<open>kept\<close> are the bytes that stay in the buffer if no more arrive, those from
  \<open>offsetIntoBuffer\<close> on.\<close>

fun ParseInput :: "nat \<Rightarrow> u8 list \<Rightarrow> nat \<Rightarrow> packet_locals \<Rightarrow> u8 list \<Rightarrow> wire \<Rightarrow> u8 list \<times> wire" where
  "ParseInput i [] n v kept w = (kept, w)"
| "ParseInput i (c # cs) n v kept w =
     (let firstByte = (c AND 0x80 \<noteq> 0)
      in if \<not> firstByte \<and> n = 0 then ParseInput i cs 0 v [] w
         else
           let (n, kept) = (if firstByte then (0, []) else (n, kept));
               b = int_of_u8 c
           in if n = 0 then
                ParseInput i cs 1 (v\<lparr>l_isMask := (0x40 AND c \<noteq> 0), l_ioType := 0x07 AND sar 3 b,
                  l_source := 0x07 AND b\<rparr>) (kept @ [c]) w
              else if n = 1 then ParseInput i cs 2 (v\<lparr>l_channel := 0x7F AND b\<rparr>) (kept @ [c]) w
              else if n = 2 then
                ParseInput i cs 3 (v\<lparr>l_channel := l_channel v OR (shl 2 b AND 0x180),
                  l_value := shl 21 (b AND 0x1F)\<rparr>) (kept @ [c]) w
              else if n = 3 then ParseInput i cs 4 (v\<lparr>l_value := l_value v OR shl 14 b\<rparr>) (kept @ [c]) w
              else if n = 4 then ParseInput i cs 5 (v\<lparr>l_value := l_value v OR shl 7 b\<rparr>) (kept @ [c]) w
              else
                let v = v\<lparr>l_value := l_value v OR b\<rparr>
                in ParseInput i cs 0 v []
                     (HandlePacket i (l_isMask v) (l_source v) (l_ioType v) (l_channel v) (l_value v) w))"

definition no_locals :: packet_locals where
  "no_locals = \<lparr>l_isMask = False, l_source = 0, l_ioType = 0, l_channel = 0, l_value = 0\<rparr>"

definition ReceiveWire :: "nat \<Rightarrow> wire \<Rightarrow> nat \<times> wire" where
  "ReceiveWire i w =
     (if Enabled w i then
        let room = MAX_INPACKET_SIZE - length (inPackets w i);
            bytes = take room (Arriving w i)
        in (length bytes, w\<lparr>Arriving := (Arriving w)(i := drop room (Arriving w i)),
                            inPackets := (inPackets w)(i := inPackets w i @ bytes)\<rparr>)
      else (0, w))"

text \<open>The bytes that are kept are moved to the front of the buffer; the code does this with
  \<open>memcpy\<close>, also when source and target overlap, which C leaves undefined: the model
  takes it as a move.\<close>

definition ParseWire :: "nat \<Rightarrow> wire \<Rightarrow> wire" where
  "ParseWire i w =
     (if Enabled w i then
        case ParseInput i (inPackets w i) 0 no_locals [] w of
          (kept, w) \<Rightarrow> w\<lparr>inPackets := (inPackets w)(i := kept)\<rparr>
      else w)"

section \<open>One round\<close>

text \<open>A new peripheral takes the first free place; the wire sends it, and all others, PIO 006.\<close>

definition connectCheck :: "bool \<Rightarrow> wire \<Rightarrow> wire" where
  "connectCheck waiting w =
     (let j = (case find (\<lambda>j. \<not> Enabled w j) [0..<NumListeners w] of None \<Rightarrow> NumListeners w | Some j \<Rightarrow> j)
      in if j < MAX_LISTENERS \<and> waiting then
           formatPacket 0 6 (pio (cpu w) 6) False
             (w\<lparr>Enabled := (Enabled w)(j := True), inPackets := (inPackets w)(j := []),
                NumListeners := (if j < NumListeners w then NumListeners w else NumListeners w + 1),
                newConnect := True\<rparr>)
         else w)"

definition WireRound :: "bool \<Rightarrow> wire \<Rightarrow> wire" where
  "WireRound waiting w =
     (let w = w\<lparr>outPacket := []\<rparr>;
          st = cpu w;
          w = (if ptc st \<and> (needStatus w \<noteq> 0 \<or> newConnect w \<or> panelPause st = 2 \<or> panelPause st = 4)
               then PanelStatus w else w);
          w = w\<lparr>needStatus := 0, newConnect := False\<rparr>;
          w = (case OutputWord (cpu w) of
                 (None, st) \<Rightarrow> w\<lparr>cpu := st\<rparr>
               | (Some (ioType, channel, payload), st) \<Rightarrow>
                   formatPacket ioType channel payload False (w\<lparr>cpu := st\<rparr>));
          w = connectCheck waiting w;
          (received, w) = fold (\<lambda>i (n, w). case ReceiveWire i w of (m, w) \<Rightarrow> (n + m, w))
                            [0..<NumListeners w] (0, w);
          w = w\<lparr>Outgoing := Outgoing w @
                map (\<lambda>i. (i, outPacket w)) (filter (Enabled w) [0..<NumListeners w])\<rparr>
      in if received \<noteq> 0 then fold ParseWire [0..<NumListeners w] w else w)"

text \<open>A command that needs a status is answered at once, in another round; \<open>waiting k\<close> says whether a
  peripheral is waiting to be connected in round \<open>k\<close>.\<close>

partial_function (option) WireRounds :: "(nat \<Rightarrow> bool) \<Rightarrow> nat \<Rightarrow> wire \<Rightarrow> wire option" where
  "WireRounds waiting k w =
     (let w = WireRound (waiting k) w
      in if needStatus w \<noteq> 0 then WireRounds waiting (Suc k) w else Some w)"

definition pendingVirtualWireActivity :: "(nat \<Rightarrow> bool) \<Rightarrow> wire \<Rightarrow> wire option" where
  "pendingVirtualWireActivity waiting w = WireRounds waiting 0 w"

section \<open>Between two instructions\<close>

definition processPTCInterruptsAndIO :: "(nat \<Rightarrow> bool) \<Rightarrow> wire \<Rightarrow> wire option" where
  "processPTCInterruptsAndIO waiting w =
     (let st = cpu w;
          lastInterruptLatch = cio st 0x6C
      in case (if pioChange st \<noteq> -1 then Some (ptc_PIO st)
               else if cioChange st \<noteq> -1 then ptc_CIO st
               else Some st) of
           None \<Rightarrow> None
         | Some st \<Rightarrow>
             pendingVirtualWireActivity waiting
               (w\<lparr>cpu := (if lastInterruptLatch \<noteq> cio st 0x6C then st\<lparr>prsParityDelayCount := 100\<rparr>
                          else st)\<rparr>))"

definition processLVDAInterruptsAndIO :: "(nat \<Rightarrow> bool) \<Rightarrow> wire \<Rightarrow> wire option" where
  "processLVDAInterruptsAndIO waiting w =
     map_option (\<lambda>w. w\<lparr>cpu := (cpu w)\<lparr>pioChange := -1\<rparr>\<rparr>)
       (pendingVirtualWireActivity waiting (w\<lparr>cpu := LvdaChannel (RtcLoop (cpu w))\<rparr>))"

definition processInterruptsAndIO :: "(nat \<Rightarrow> bool) \<Rightarrow> wire \<Rightarrow> wire option" where
  "processInterruptsAndIO waiting w =
     (if ptc (cpu w) then processPTCInterruptsAndIO waiting w else processLVDAInterruptsAndIO waiting w)"

end
