(* ===== verification/LVDC_Main.thy ===== *)
theory LVDC_Main
  imports LVDC_Wire
begin

text \<open>
  The start of yaLVDC, its memory files (\<open>src/yaLVDC/readWriteCore.c\<close>), the ring of backtraces and the
  two branches of the main loop (\<open>src/yaLVDC/yaLVDC.c\<close>), without the debugger and host time.
\<close>

unbundle bit_operations_syntax

section \<open>Start\<close>

text \<open>\<open>readAssemblies\<close> clears the state and empties the memory; the listings fill it afterwards.\<close>

definition empty_state :: "bool \<Rightarrow> lvdc" where
  "empty_state PTC = \<lparr>ptc = PTC, hop = 0, acc = 0, pq = 0, pqPend1 = 0, pqPend2 = 0, mpyDivCount = 0,
     hopSaver = 0, core = (\<lambda>_ _ _ _. -1), pio = (\<lambda>_. 0), cio = (\<lambda>_. 0), prs = (\<lambda>_. 0),
     pendingInstruction = \<lparr>pending = False, nextHop = 0, pendingHop = 0, pending_instruction = 0\<rparr>,
     rtcDivider = 0, timerDivider = False, pioChange = -1, cioChange = -1, prsChange = -1,
     pioChangeFull = 0, lastHop = -1, lvdc_lastInstruction = 0, busyCountPlotter = 0,
     busyCountPrinter = 0, busyCountTypewriter = 0, busyCountCarriagePrinter = 0, bbPlotter = 0,
     bbPrinter = 0, bbTypewriter = 0, caseChange = False, currentTypewriterInterrupt = 0,
     currentCaseInterrupt = 0, lastTypewriterCharCase = 0, interruptInhibitLatches = 0,
     masterInterruptLatch = 0, pendingInterruptIndex = 0, progRegA17_22 = 0, riLastHOP = 0,
     riLastInstruction = 0, ai3Shifter = 0, cio210CarrBusy = 0, cio264Buffer = 0,
     lastWasPrinter = False, prsDelayedParity = (\<lambda>_. 0), prsParityDelayCount = 0, inhibit250 = False,
     inhibitInterruptCycles = 0, instructionFromDataMemory = False, dataFromInstructionMemory = False,
     dataOverwritesInstructionMemory = False, typewriterMargin = 80, typewriterTabStop = 5,
     typewriterCharsInLine = 0, printerOctalMode = False, panelPause = 0\<rparr>"

section \<open>Memory files\<close>

datatype core_file = Missing | Short | Image lvdc

definition cell_accepted :: "lvdc \<Rightarrow> u8 \<Rightarrow> u8 \<Rightarrow> u8 \<Rightarrow> u8 \<Rightarrow> bool" where
  "cell_accepted st module sector syllable loc =
     (let v = core st module sector syllable loc
      in v = -1 \<or>
         (\<not> v <s 0 \<and>
          (if syllable = 0 then v \<le>s 0x7FFF \<and> v AND 0x4001 = 0
           else if syllable = 1 then v \<le>s 0x7FFF \<and> v AND 3 = 0
           else v \<le>s 0x7FFFFFF \<and> v AND 1 = 0 \<and> core st module sector 0 loc = -1 \<and>
                core st module sector 1 loc = -1)))"

definition core_accepted :: "lvdc \<Rightarrow> bool" where
  "core_accepted st =
     list_all (\<lambda>m. list_all (\<lambda>s. list_all (\<lambda>y. list_all (\<lambda>l.
        cell_accepted st (of_nat m) (of_nat s) (of_nat y) (of_nat l)) [0..<256]) [0..<3]) [0..<16]) [0..<8]"

text \<open>The file holds the structure \<open>state\<close>; the other global variables keep their values.\<close>

definition load_image :: "lvdc \<Rightarrow> lvdc \<Rightarrow> lvdc" where
  "load_image img st = img
     \<lparr>ptc := ptc st, instructionFromDataMemory := instructionFromDataMemory st,
      dataFromInstructionMemory := dataFromInstructionMemory st,
      dataOverwritesInstructionMemory := dataOverwritesInstructionMemory st,
      typewriterMargin := typewriterMargin st, typewriterTabStop := typewriterTabStop st,
      typewriterCharsInLine := typewriterCharsInLine st, printerOctalMode := printerOctalMode st,
      panelPause := panelPause st\<rparr>"

text \<open>The result is whether the code returns 0, the state and the file.\<close>

definition writeCore :: "bool \<Rightarrow> lvdc \<Rightarrow> core_file \<Rightarrow> bool \<times> core_file" where
  "writeCore writable st f = (if writable then (True, Image st) else (False, f))"

definition readCore :: "bool \<Rightarrow> core_file \<Rightarrow> lvdc \<Rightarrow> bool \<times> lvdc \<times> core_file" where
  "readCore writable f st =
     (case f of
        Short \<Rightarrow> (False, st, f)
      | Missing \<Rightarrow> (case writeCore writable st f of (ok, f) \<Rightarrow> (ok, st, f))
      | Image img \<Rightarrow>
          let st = load_image img st
          in if core_accepted st
             then (case writeCore writable st f of (ok, f) \<Rightarrow> (ok, st, f))
             else (False, st, f))"

text \<open>The state at the first instruction, once memory has been filled by \<open>fill\<close>; \<open>None\<close> when the
  program ends.  \<open>prsParityDelayCount\<close> is set to 100 before, and cleared with the rest.\<close>

definition lvdc_start :: "bool \<Rightarrow> (lvdc \<Rightarrow> lvdc) \<Rightarrow> bool \<Rightarrow> bool \<Rightarrow> core_file \<Rightarrow> lvdc option" where
  "lvdc_start PTC fill coldStart writable f =
     (let st = fill (empty_state PTC);
          (ok, st, f) = (if coldStart then (True, st, f) else readCore writable f st)
      in if ok then Some (st\<lparr>hopSaver := 0, hop := 0\<rparr>) else None)"

section \<open>Backtraces\<close>

record backtrace_t =
  fromWhere :: cint
  toWhere :: cint
  bt_cycleCount :: u64
  bt_instructionCount :: u64
  fromInstruction :: i16

record host =
  wires :: wire
  cycleCount :: u64
  instructionCount :: u64
  backtraces :: "nat \<Rightarrow> backtrace_t"
  firstUsedBacktrace :: nat
  firstEmptyBacktrace :: nat

abbreviation (input) MAX_BACKTRACES :: nat where "MAX_BACKTRACES \<equiv> 101"

definition NEXT_BACKTRACE :: "nat \<Rightarrow> nat" where
  "NEXT_BACKTRACE n = (n + 1) mod MAX_BACKTRACES"

definition addBacktrace :: "backtrace_t \<Rightarrow> host \<Rightarrow> host" where
  "addBacktrace b h =
     (let h = h\<lparr>backtraces := (backtraces h)(firstEmptyBacktrace h := b),
               firstEmptyBacktrace := NEXT_BACKTRACE (firstEmptyBacktrace h)\<rparr>
      in if firstUsedBacktrace h = firstEmptyBacktrace h
         then h\<lparr>firstUsedBacktrace := NEXT_BACKTRACE (firstUsedBacktrace h)\<rparr> else h)"

section \<open>The main loop\<close>

definition set_cpu :: "lvdc \<Rightarrow> host \<Rightarrow> host" where
  "set_cpu st h = h\<lparr>wires := (wires h)\<lparr>cpu := st\<rparr>\<rparr>"

text \<open>One instruction with its bookkeeping.\<close>

definition StepCpu :: "cint \<Rightarrow> host \<Rightarrow> host option" where
  "StepCpu garbage h =
     (case runOneInstruction garbage (cpu (wires h)) of
        None \<Rightarrow> None
      | Some (None, st) \<Rightarrow> Some (set_cpu st h)
      | Some (Some cyclesUsed, st) \<Rightarrow>
          let h = set_cpu st h;
              h = (if lastHop st \<noteq> -1
                   then addBacktrace \<lparr>fromWhere = lastHop st, toWhere = hop st, bt_cycleCount = cycleCount h,
                          bt_instructionCount = instructionCount h,
                          fromInstruction = lvdc_lastInstruction st\<rparr> h
                   else h)
          in Some (h\<lparr>cycleCount := cycleCount h + scast cyclesUsed,
                     instructionCount := instructionCount h + 1\<rparr>))"

text \<open>The comparison of addresses with those set on the panel of the PTC.\<close>

definition PatternMatched :: "wire \<Rightarrow> bool \<times> lvdc" where
  "PatternMatched w =
     (let st = cpu w
      in if panelAddressCompare w = 0 \<and> panelPatternInstructionAddress w \<noteq> -1 \<and>
            (hop st XOR panelPatternInstructionAddress w) AND 0x2007FFC = 0
         then (True, st)
         else if panelAddressCompare w = 1 \<and> panelPatternDataAddress w \<noteq> -1 then
           (case parseHopConstant (ptc st) (hop st) of
              None \<Rightarrow> (False, st)
            | Some h \<Rightarrow>
                (case fetchInstruction (h_im h) (h_is h) (h_s h) (h_loc h) st of
                   (None, flag) \<Rightarrow> (False, st\<lparr>instructionFromDataMemory := flag\<rparr>)
                 | (Some instruction, flag) \<Rightarrow>
                     let opcode = instruction AND 0xF;
                         a9 = (shr 4 instruction AND 1 \<noteq> 0);
                         a81 = ucast (shr 5 instruction AND 0xFF);
                         dm = (if a9 \<and> ptc st then 0 else h_dm h);
                         ds = (if a9 then 0xF else h_ds h)
                     in (\<not> (opcode = 1 \<or> opcode = 5 \<or> opcode = 4 \<or> opcode = 0x8 \<or> opcode = 0xA
                            \<or> opcode = 0xC \<or> opcode = 0xE) \<and>
                         dm = panelPatternDM w \<and> ds = panelPatternDS w \<and> a81 = panelPatternDLOC w,
                         st\<lparr>instructionFromDataMemory := flag\<rparr>)))
         else (False, st))"

definition PanelMatch :: "wire \<Rightarrow> wire" where
  "PanelMatch w =
     (if ptc (cpu w) \<and> panelPause (cpu w) = 0 then
        case PatternMatched w of
          (found, st) \<Rightarrow>
            w\<lparr>cpu := (if \<not> found then st
                      else if 3 \<le>s panelModeControl w then st\<lparr>panelPause := 4\<rparr>
                      else if 1 \<le>s panelModeControl w then st\<lparr>panelPause := 2\<rparr>
                      else st\<lparr>panelPause := 4, hop := 0\<rparr>)\<rparr>
      else w)"

definition Process :: "(nat \<Rightarrow> bool) \<Rightarrow> host \<Rightarrow> host option" where
  "Process waiting h =
     map_option (\<lambda>w. h\<lparr>wires := w\<rparr>) (processInterruptsAndIO waiting (wires h))"

text \<open>One turn of the free-running loop.\<close>

definition RunFree :: "cint \<Rightarrow> (nat \<Rightarrow> bool) \<Rightarrow> host \<Rightarrow> host option" where
  "RunFree garbage waiting h =
     Option.bind (StepCpu garbage (set_cpu (checkForInterrupts (cpu (wires h))) h))
       (\<lambda>h. Process waiting (h\<lparr>wires := PanelMatch (wires h)\<rparr>))"

text \<open>One turn while the panel holds the computer.\<close>

definition RunPaused :: "cint \<Rightarrow> (nat \<Rightarrow> bool) \<Rightarrow> host \<Rightarrow> host option" where
  "RunPaused garbage waiting h =
     (let pause = (\<lambda>n h. set_cpu ((cpu (wires h))\<lparr>panelPause := n\<rparr>) h);
          h = set_cpu (checkForInterrupts (cpu (wires h))) h
      in Option.bind
           (if panelPause (cpu (wires h)) = 1 then map_option (pause 2) (StepCpu garbage h) else Some h)
           (\<lambda>h. map_option
              (\<lambda>h. if panelPause (cpu (wires h)) = 2 then pause 3 h
                   else if panelPause (cpu (wires h)) = 4 then pause 0 h
                   else h)
              (Process waiting h)))"

definition Turn :: "cint \<Rightarrow> (nat \<Rightarrow> bool) \<Rightarrow> host \<Rightarrow> host option" where
  "Turn garbage waiting h =
     (if panelPause (cpu (wires h)) \<noteq> 0 then RunPaused garbage waiting h
      else RunFree garbage waiting h)"

end
