(* ===== verification/LVDC_Arith.thy ===== *)
theory LVDC_Arith
  imports LVDC_Main
begin

text \<open>
  What the arithmetic of yaLVDC computes.  A data word is a two's complement number of 26 bits
  (\<open>lv_value\<close>).  Multiplication takes the multiplier two bits at a time (Booth's recoding) and shifts the
  partial sum down by four bits in each step, so that every step rounds; division does not restore
  a remainder whose sign has changed.
\<close>

unbundle bit_operations_syntax

section \<open>Words of 26 bits\<close>

definition lv_value :: "cint \<Rightarrow> int" where
  "lv_value v = signed_take_bit 25 (uint v)"

abbreviation word26 :: "cint \<Rightarrow> bool" where
  "word26 v \<equiv> uint v < 0x4000000"

lemma lv_masks:
  "(0x3FFFFFF :: 'a::len word) = mask 26" "(0x1FFFFFF :: 'a::len word) = mask 25"
  "(0x2000000 :: 'a::len word) = 2 ^ 25"
  by (simp_all add: mask_eq_exp_minus_1)

lemma lv_masks_int:
  "(0x3FFFFFF :: int) = mask 26" "(0x2000000 :: int) = 2 ^ 25" "(- 0x4000000 :: int) = NOT (mask 26)"
  by (simp_all add: mask_eq_exp_minus_1 not_int_def)

lemma bits_lv_masks_int [mask_bits]:
  "bit (0x3FFFFFF :: int) i \<longleftrightarrow> i < 26" "bit (0x2000000 :: int) i \<longleftrightarrow> i = 25"
  "bit (- 0x4000000 :: int) i \<longleftrightarrow> 26 \<le> i"
  by (auto simp only: lv_masks_int bit_mask_iff bit_exp_iff bit_not_iff possible_bit_int simp_thms not_less)

lemma bits_lv_masks [mask_bits]:
  "bit (0x3FFFFFF :: 'a::len word) i \<longleftrightarrow> i < LENGTH('a) \<and> i < 26"
  "bit (0x2000000 :: 'a::len word) i \<longleftrightarrow> i < LENGTH('a) \<and> i = 25"
  by (auto simp only: lv_masks bit_mask_iff bit_exp_iff possible_bit_word)

lemma lv_sign:
  "v AND 0x2000000 = 0 \<longleftrightarrow> \<not> bit (v :: 'a::len word) 25"
  "0x2000000 AND v = 0 \<longleftrightarrow> \<not> bit (v :: 'a::len word) 25"
  by (simp_all only: lv_masks and_exp_eq_0_iff)

lemma word26_bits: "word26 v \<longleftrightarrow> (\<forall>n. 26 \<le> n \<longrightarrow> \<not> bit v n)"
  using uint_lt_iff_bits [of v 26] by simp

lemma word26_and [simp]: "word26 (v AND 0x3FFFFFF)" "word26 (0x3FFFFFF AND v)"
  by (simp_all only: word26_bits bit_and_iff bits_lv_masks) auto

lemma bit_Native:
  "n < 32 \<Longrightarrow> bit (convertDataWordToNative v) n \<longleftrightarrow> (if 26 \<le> n then bit v 25 \<or> bit v n else bit v n)"
  by (auto simp: convertDataWordToNative_def lv_sign bit_or_iff bit_not_iff mask_bits)

lemma lv_value_bounds: "- 33554432 \<le> lv_value v" "lv_value v < 33554432"
  using signed_take_bit_int_greater_eq_minus_exp [of 25 "uint v"]
    signed_take_bit_int_less_exp [of 25 "uint v"]
  by (simp_all add: lv_value_def)

lemma sint_Native:
  assumes "word26 v"
  shows "sint (convertDataWordToNative v) = lv_value v"
proof (rule sint_eq_bitsI)
  have *: "\<not> bit v m" if "26 \<le> m" for m
    using assms that word26_bits by blast
  show "bit (convertDataWordToNative v) n = bit (lv_value v) n" if "n < LENGTH(32)" for n
    using that * by (cases "26 \<le> n")
      (auto simp: lv_value_def bit_signed_take_bit_iff bit_uint_iff bit_Native)
qed (use lv_value_bounds [of v] in auto)

lemma lv_value_word26:
  "word26 v \<Longrightarrow> lv_value v = (if bit v 25 then uint v - 2 ^ 26 else uint v)"
  unfolding lv_value_def signed_take_bit_eq_take_bit_minus
  by (simp add: take_bit_int_eq_self bit_uint_iff)

lemma lv_value_and: "lv_value (v AND 0x3FFFFFF) = signed_take_bit 25 (sint v)"
  by (rule bit_eqI) (auto simp: lv_value_def bit_signed_take_bit_iff bit_uint_iff bit_and_iff
      mask_bits bit_sint_iff min_def)

lemma lv_value_ucast: "lv_value (ucast (v AND 0x3FFFFFF :: u64)) = signed_take_bit 25 (sint v)"
  by (rule bit_eqI) (auto simp: lv_value_def bit_signed_take_bit_iff bit_uint_iff bit_and_iff
      bit_ucast_iff mask_bits bit_sint_iff min_def)

lemma sint_sar: "sint (sar n (v :: 'a::len word)) = sint v div 2 ^ n"
  by (simp add: sar_def sint_signed_drop_bit_eq drop_bit_eq_div)

lemma uint_sar:
  assumes "uint (m :: cint) < 2 ^ 31"
  shows "uint (sar n m) = uint m div 2 ^ n"
proof -
  have "sint m = uint m" by (rule sint_small) (use assms in simp)
  then have *: "sint (sar n m) = uint m div 2 ^ n" by (simp add: sint_sar)
  then have "0 \<le> sint (sar n m)" by (simp add: pos_imp_zdiv_nonneg_iff)
  from uint_of_nonneg [OF this] * show ?thesis by simp
qed

section \<open>Multiplication\<close>

text \<open>The digit of Booth's recoding for three adjacent bits.\<close>

definition booth :: "int \<Rightarrow> int" where
  "booth u = u mod 2 + u div 2 mod 2 - 2 * (u div 4 mod 2)"

lemma booth_digits: "2 * booth u + 8 * booth (u div 4) = u mod 16 + u mod 2 - 16 * (u div 16 mod 2)"
proof -
  have d: "u div 2 div 2 = u div 4" "u div 4 div 2 = u div 8" "u div 4 div 4 = u div 16"
    using zdiv_zmult2_eq [of 2 u 2] zdiv_zmult2_eq [of 2 u 4] zdiv_zmult2_eq [of 4 u 4] by simp_all
  have digits: "\<lbrakk>m16 = 2 * m8 + a; m8 = 2 * m4 + b; m4 = 2 * e + c\<rbrakk>
    \<Longrightarrow> 2 * (a + b - 2 * c) + 8 * (c + e - 2 * f) = m16 + a - 16 * f" for m16 m8 m4 a b c e f :: int
    by simp
  have p: "2 * 8 = (16 :: int)" "2 * 4 = (8 :: int)" "2 * 2 = (4 :: int)" by simp_all
  have "u mod (2 * 8) = 2 * (u div 2 mod 8) + u mod 2"
    "u div 2 mod (2 * 4) = 2 * (u div 2 div 2 mod 4) + u div 2 mod 2"
    "u div 4 mod (2 * 2) = 2 * (u div 4 div 2 mod 2) + u div 4 mod 2"
    by (rule zmod_zmult2_eq; simp only: order.refl zero_le_numeral)+
  then have "u mod 16 = 2 * (u div 2 mod 8) + u mod 2" "u div 2 mod 8 = 2 * (u div 4 mod 4) + u div 2 mod 2"
    "u div 4 mod 4 = 2 * (u div 8 mod 2) + u div 4 mod 2"
    by (simp_all only: d p)
  then show ?thesis
    unfolding booth_def d by (rule digits)
qed

lemma booth_bits: "booth u = of_bool (bit u 0) + of_bool (bit u 1) - 2 * of_bool (bit u 2)"
  by (simp add: booth_def mod_2_eq_odd bit_iff_odd)

lemma and_7_cases:
  "m AND 7 \<in> {0, 1, 2, 3, 4, 5, 6, 7 :: cint}"
proof -
  have u: "uint (m AND 7 :: cint) = uint m mod 8"
    using uint_and_low_mask(2) [of m 3] by (simp add: mask_eq_exp_minus_1)
  have "0 \<le> uint m mod 8" "uint m mod 8 < 8" by simp_all
  then show ?thesis by (auto simp: word_uint_eq_iff u)
qed

lemma booth_and_7:
  "booth (uint (m :: cint)) = (if m AND 7 = 1 \<or> m AND 7 = 2 then 1 else if m AND 7 = 3 then 2
     else if m AND 7 = 4 then - 2 else if m AND 7 = 5 \<or> m AND 7 = 6 then - 1 else 0)"
proof -
  have "bit m n = bit (m AND 7) n" if "n < 3" for n
    using that by (auto simp: bit_and_iff mask_bits)
  then have "booth (uint m) = of_bool (bit (m AND 7) 0) + of_bool (bit (m AND 7) 1) - 2 * of_bool (bit (m AND 7) 2)"
    by (simp add: booth_bits bit_uint_iff)
  then show ?thesis
    using and_7_cases [of m] by auto
qed

lemma mpyDeltas:
  assumes "\<bar>sint N\<bar> \<le> 2 ^ 25" "uint m < 2 ^ 31"
  shows "sint (mpyDelta1 m N) = 2 * booth (uint m) * sint N"
    and "sint (mpyDelta2 m N) = 8 * booth (uint m div 4) * sint N"
proof -
  have s: "sint (k * N) = sint k * sint N" if "\<bar>sint k\<bar> \<le> 16" for k :: cint
  proof -
    have "\<bar>sint k * sint N\<bar> \<le> 16 * 2 ^ 25"
      using assms(1) that unfolding abs_mult by (intro mult_mono) auto
    then have "sint k * sint N \<le> 536870912" "- 536870912 \<le> sint k * sint N"
      by (simp_all add: abs_le_iff)
    then show ?thesis by (intro sint_times_small) linarith+
  qed
  have n: "sint (2 * N) = 2 * sint N" "sint (4 * N) = 4 * sint N" "sint (8 * N) = 8 * sint N"
    "sint (16 * N) = 16 * sint N" "sint (- (2 * N)) = - (2 * sint N)" "sint (- (4 * N)) = - (4 * sint N)"
    "sint (- (8 * N)) = - (8 * sint N)" "sint (- (16 * N)) = - (16 * sint N)"
    by (rule s [of 2, simplified] s [of 4, simplified] s [of 8, simplified] s [of 16, simplified]
        s [of "- 2", simplified] s [of "- 4", simplified] s [of "- 8", simplified] s [of "- 16", simplified])+
  show "sint (mpyDelta1 m N) = 2 * booth (uint m) * sint N"
    unfolding mpyDelta1_def Let_def booth_and_7 by (simp add: n)
  have "uint (sar 2 m) = uint m div 4"
    using uint_sar [of m 2] assms(2) by simp
  then have b: "booth (uint m div 4) = booth (uint (sar 2 m))" by simp
  show "sint (mpyDelta2 m N) = 8 * booth (uint m div 4) * sint N"
    unfolding b mpyDelta2_def Let_def booth_and_7 by (simp add: n)
qed

text \<open>The partial sum after \<open>k\<close> steps: the multiplier's lower \<open>4 * k\<close> bits, as a number with a sign,
  times the multiplicand, rounded down.\<close>

definition product_sum :: "nat \<Rightarrow> int \<Rightarrow> int \<Rightarrow> int" where
  "product_sum k u N = (signed_take_bit (4 * k) u * N) div 16 ^ k"

lemma signed_take_digits:
  "signed_take_bit (4 * Suc k) u =
     signed_take_bit (4 * k) u + 16 ^ k * (2 * booth (u div 16 ^ k) + 8 * booth (u div 16 ^ k div 4))"
proof -
  have e: "(16 :: int) ^ k = 2 ^ (4 * k)" by (simp add: power_mult)
  have t: "signed_take_bit n u = u mod 2 ^ n - 2 ^ n * (u div 2 ^ n mod 2)" for n
  proof -
    have "signed_take_bit n u = u mod (2 ^ n * 2) - 2 ^ n * 2 * (u div 2 ^ n mod 2)"
      by (simp add: signed_take_bit_eq_take_bit_minus take_bit_eq_mod bit_iff_odd mod_2_eq_odd
          mult.commute del: take_bit_Suc)
    also have "u mod (2 ^ n * 2) = 2 ^ n * (u div 2 ^ n mod 2) + u mod 2 ^ n"
      by (rule zmod_zmult2_eq) simp
    finally show ?thesis by simp
  qed
  have "u mod 2 ^ (4 * Suc k) = 2 ^ (4 * k) * (u div 2 ^ (4 * k) mod 16) + u mod 2 ^ (4 * k)"
    using zmod_zmult2_eq [of 16 u "2 ^ (4 * k)"] by (simp add: power_add mult.commute [of 16])
  moreover have "u div 2 ^ (4 * Suc k) = u div 2 ^ (4 * k) div 16"
    using zdiv_zmult2_eq [of 16 u "2 ^ (4 * k)"] by (simp add: power_add mult.commute [of 16])
  ultimately show ?thesis
    unfolding t booth_digits e by (simp add: algebra_simps power_add)
qed

lemma partial_step:
  "(product_sum k u N + (2 * booth (u div 16 ^ k) + 8 * booth (u div 16 ^ k div 4)) * N) div 16 =
     product_sum (Suc k) u N"
proof -
  let ?D = "2 * booth (u div 16 ^ k) + 8 * booth (u div 16 ^ k div 4)"
  have "product_sum k u N + ?D * N = (signed_take_bit (4 * k) u * N + 16 ^ k * (?D * N)) div 16 ^ k"
    by (simp add: product_sum_def)
  also have "\<dots> div 16 = (signed_take_bit (4 * k) u * N + 16 ^ k * (?D * N)) div (16 ^ k * 16)"
    by (rule zdiv_zmult2_eq [symmetric]) simp
  also have "\<dots> = product_sum (Suc k) u N"
    unfolding product_sum_def signed_take_digits by (simp add: algebra_simps)
  finally show ?thesis .
qed

lemma partial_bound:
  assumes "\<bar>N\<bar> \<le> M"
  shows "\<bar>product_sum k u N\<bar> \<le> M"
proof -
  let ?S = "signed_take_bit (4 * k) u"
  have e: "(16 :: int) ^ k = 2 ^ (4 * k)" by (simp add: power_mult)
  have "\<bar>?S\<bar> \<le> 16 ^ k"
    using signed_take_bit_int_greater_eq_minus_exp [of "4 * k" u] signed_take_bit_int_less_exp [of "4 * k" u]
    unfolding e by linarith
  then have "\<bar>?S * N\<bar> \<le> 16 ^ k * M"
    using assms unfolding abs_mult by (intro mult_mono) auto
  then have "?S * N \<le> M * 16 ^ k" "- M * 16 ^ k \<le> ?S * N"
    by (auto simp: abs_le_iff mult.commute)
  then have "(?S * N) div 16 ^ k \<le> M * 16 ^ k div 16 ^ k" "- M * 16 ^ k div 16 ^ k \<le> (?S * N) div 16 ^ k"
    by (intro zdiv_mono1; simp)+
  moreover have "M * 16 ^ k div 16 ^ k = M" "- M * 16 ^ k div 16 ^ k = - M"
    by (rule nonzero_mult_div_cancel_right; simp)+
  ultimately show ?thesis unfolding product_sum_def by linarith
qed

lemma booth_bound: "\<bar>booth u\<bar> \<le> 2"
  by (simp add: booth_bits)

lemma sint_plus_64:
  assumes "\<bar>sint a + sint b\<bar> < 2 ^ 63"
  shows "sint (a + b :: u64) = sint a + sint b"
  using assms by (simp add: sint_word_ariths signed_take_bit_int_eq_self)

lemma MpyLoop:
  assumes N: "\<bar>sint N\<bar> \<le> 2 ^ 25" and m: "uint m < 2 ^ 31" "even (uint m)"
  shows "case fold (MpyStep N) [0..<k] (0, m, p) of (D, m', p') \<Rightarrow>
    sint D = product_sum k (uint m) (sint N) \<and> uint m' = uint m div 16 ^ k \<and>
    (if 2 < k then word26 p' \<and> lv_value p' = signed_take_bit 25 (product_sum 3 (uint m) (sint N)) else p' = p)"
proof (induction k)
  case 0
  show ?case using m by (simp add: product_sum_def)
next
  case (Suc k)
  obtain D m' p' where f: "fold (MpyStep N) [0..<k] (0, m, p) = (D, m', p')"
    by (metis prod_cases3)
  let ?u = "uint m div 16 ^ k"
  have IH: "sint D = product_sum k (uint m) (sint N)" "uint m' = ?u"
    "if 2 < k then word26 p' \<and> lv_value p' = signed_take_bit 25 (product_sum 3 (uint m) (sint N)) else p' = p"
    using Suc.IH by (simp_all add: f)
  have m': "uint m' < 2 ^ 31"
    using m(1) IH(2) zdiv_mono2 [of "uint m" 1 "16 ^ k"] by simp
  have b: "\<bar>c * booth v * sint N\<bar> \<le> 16 * 2 ^ 25" if "\<bar>c\<bar> \<le> 8" for c v
    using booth_bound [of v] N that mult_mono [of "\<bar>c\<bar> * \<bar>booth v\<bar>" 16 "\<bar>sint N\<bar>" "2 ^ 25"]
      mult_mono [of "\<bar>c\<bar>" 8 "\<bar>booth v\<bar>" 2] by (simp add: abs_mult)
  let ?D = "sar 4 (D + (mpyDelta2 m' N + mpyDelta1 m' N))"
  have "sint (mpyDelta2 m' N + mpyDelta1 m' N) = (2 * booth ?u + 8 * booth (?u div 4)) * sint N"
    using mpyDeltas [OF N m'] b [of 2 ?u] b [of 8 "?u div 4"] IH(2)
    by (subst sint_plus_64) (simp_all add: algebra_simps)
  moreover have "\<bar>sint D\<bar> \<le> 2 ^ 25"
    unfolding IH(1) by (rule partial_bound [OF N])
  ultimately have "sint (D + (mpyDelta2 m' N + mpyDelta1 m' N)) =
      product_sum k (uint m) (sint N) + (2 * booth ?u + 8 * booth (?u div 4)) * sint N"
    using b [of 2 ?u] b [of 8 "?u div 4"] IH(1)
    by (subst sint_plus_64) (simp_all add: algebra_simps)
  then have D: "sint ?D = product_sum (Suc k) (uint m) (sint N)"
    using partial_step [of k "uint m" "sint N"] by (simp add: sint_sar)
  have e: "uint (sar 4 m') = uint m div 16 ^ Suc k"
    using m' IH(2) zdiv_zmult2_eq [of 16 "uint m" "16 ^ k"] uint_sar [of m' 4]
    by (simp add: mult.commute)
  define x :: cint where "x = ucast (?D AND 0x3FFFFFF)"
  have f': "fold (MpyStep N) [0..<Suc k] (0, m, p) = (?D, sar 4 m', if k = 2 then x else p')"
    by (simp add: f MpyStep_def Let_def x_def)
  have w: "word26 x"
    unfolding x_def by (simp only: word26_bits bit_ucast_iff bit_and_iff bits_lv_masks) auto
  have v: "lv_value x = signed_take_bit 25 (product_sum (Suc k) (uint m) (sint N))"
    unfolding x_def by (simp only: lv_value_ucast D)
  consider "k < 2" | "k = 2" | "2 < k" by linarith
  then show ?case
    unfolding f' prod.case using e w v D IH(3) by cases simp_all
qed

text \<open>The lowest two bits of both factors do not count.\<close>

lemma sint_multiplicand: "sint (x AND NOT 3 :: cint) = 4 * (sint x div 4)"
proof -
  have "x AND NOT 3 = x AND NOT (mask 2)" by (simp add: mask_eq_exp_minus_1)
  then have "sint (x AND NOT 3) = sint x AND NOT (mask 2)"
    by (simp add: signed_and_eq signed_not_eq mask_eq_exp_minus_1)
  also have "\<dots> = push_bit 2 (drop_bit 2 (sint x))"
  proof (rule bit_eqI)
    fix n :: nat
    have "2 \<le> n \<Longrightarrow> 2 + (n - 2) = n" by simp
    then show "bit (sint x AND NOT (mask 2)) n = bit (push_bit 2 (drop_bit 2 (sint x))) n"
      by (cases "2 \<le> n") (simp_all only: bit_and_iff bit_not_iff bit_mask_iff bit_push_bit_iff_int
          bit_drop_bit_eq comp_apply possible_bit_int not_less simp_thms)
  qed
  finally show ?thesis by (simp add: push_bit_eq_mult drop_bit_eq_div)
qed

lemma uint_multiplier:
  assumes "word26 a"
  shows "uint (sar 1 a AND NOT 1) = 2 * (uint a div 4)"
proof -
  have "uint (sar 1 a) = uint a div 2" using uint_sar [of a 1] assms by simp
  moreover have "uint (sar 1 a AND NOT 1) = uint (sar 1 a) AND NOT (mask 1)"
    by (rule bit_eqI) (auto simp: bit_simps bit_uint_iff)
  ultimately have "uint (sar 1 a AND NOT 1) = (uint a div 2) AND NOT (mask 1)" by simp
  also have "\<dots> = 2 * (uint a div 2 div 2)"
  proof (rule bit_eqI)
    fix n
    show "bit ((uint a div 2) AND NOT (mask 1)) n = bit (2 * (uint a div 2 div 2)) n"
      by (cases n) (simp_all add: bit_and_iff bit_not_iff bit_mask_iff bit_double_iff bit_Suc [symmetric]
          possible_bit_int)
  qed
  finally show ?thesis
    using zdiv_zmult2_eq [of 2 "uint a" 2] by simp
qed

lemma multiplier_bits:
  "signed_take_bit 24 (2 * (U div 4)) = 2 * (signed_take_bit 25 U div 4)"
  "signed_take_bit 12 (2 * (U div 4)) = 2 * signed_take_bit 11 (signed_take_bit 25 U div 4)" for U :: int
proof -
  have e: "x div 4 = drop_bit 2 x" for x :: int
    by (simp add: drop_bit_eq_div)
  show "signed_take_bit 24 (2 * (U div 4)) = 2 * (signed_take_bit 25 U div 4)"
    "signed_take_bit 12 (2 * (U div 4)) = 2 * signed_take_bit 11 (signed_take_bit 25 U div 4)"
    unfolding e by (rule bit_eqI; auto simp: bit_simps bit_double_iff min_def not_le numeral_eq_Suc
        less_Suc_eq_le Suc_diff_Suc)+
qed

lemma int_le_div: "0 < d \<Longrightarrow> k * d \<le> a \<Longrightarrow> k \<le> a div (d :: int)"
  using zdiv_mono1 [of "k * d" a d] by simp

text \<open>A product of fractions: only -1 times -1 is too large.\<close>

definition fraction_product :: "int \<Rightarrow> nat \<Rightarrow> int \<Rightarrow> int" where
  "fraction_product a k n = (if a = - (2 ^ k) \<and> n = - (2 ^ 23) then - (2 ^ 25) else a * n div 2 ^ (k - 2))"

lemma fraction_product:
  assumes "- (2 ^ k) \<le> a" "a < 2 ^ k" "- (2 ^ 23) \<le> n" "n < 2 ^ 23" "2 \<le> k"
  shows "signed_take_bit 25 (a * n div 2 ^ (k - 2)) = fraction_product a k n"
proof -
  obtain j where "k = j + 2" using assms(5) by (metis le_add_diff_inverse2)
  then have k: "(2 :: int) ^ k = 4 * 2 ^ (k - 2)" by simp
  show ?thesis
  proof (cases "a = - (2 ^ k) \<and> n = - (2 ^ 23)")
    case True
    then have "a * n div 2 ^ (k - 2) = 2 ^ 25"
      by (simp add: k)
    then show ?thesis using True by (simp add: fraction_product_def signed_take_bit_eq_take_bit_minus take_bit_eq_mod bit_simps)
  next
    case False
    have "a * n < 2 ^ k * 2 ^ 23"
    proof (cases "a = - (2 ^ k)")
      case True
      then have "- n < 2 ^ 23" using False assms(3) by auto
      then have "2 ^ k * - n < 2 ^ k * 2 ^ 23" by (intro mult_strict_left_mono) simp_all
      then show ?thesis using True by simp
    next
      case False
      then have "\<bar>a\<bar> < 2 ^ k" "\<bar>n\<bar> \<le> 2 ^ 23" using assms by auto
      then have "\<bar>a\<bar> * \<bar>n\<bar> \<le> \<bar>a\<bar> * 2 ^ 23" "\<bar>a\<bar> * 2 ^ 23 < 2 ^ k * 2 ^ 23"
        by (auto intro: mult_left_mono)
      moreover have "a * n \<le> \<bar>a\<bar> * \<bar>n\<bar>"
        by (simp only: abs_mult [symmetric] abs_ge_self)
      ultimately show ?thesis by linarith
    qed
    moreover have "\<bar>a * n\<bar> \<le> 2 ^ k * 2 ^ 23"
      using assms unfolding abs_mult by (intro mult_mono) auto
    ultimately have "a * n < 2 ^ (k - 2) * 2 ^ 25" "- (2 ^ 25) * 2 ^ (k - 2) \<le> a * n"
      by (simp_all add: k)
    then have "a * n div 2 ^ (k - 2) < 2 ^ 25" "- (2 ^ 25) \<le> a * n div 2 ^ (k - 2)"
      by (simp_all add: int_div_less mult.commute int_le_div)
    then show ?thesis
      using False by (auto simp: fraction_product_def signed_take_bit_int_eq_self)
  qed
qed

text \<open>The factors of MPY, in units of 2 to the power -23.\<close>

abbreviation factor :: "cint \<Rightarrow> int" where "factor w \<equiv> lv_value w div 4"

lemma factor_bounds: "- (2 ^ 23) \<le> factor w" "factor w < 2 ^ 23"
  using lv_value_bounds [of w] by (simp_all add: int_le_div int_div_less)

lemma MpyLoop_products:
  assumes "word26 a" "word26 d"
  obtains D m p1 where
    "fold (MpyStep (convertDataWordToNative d AND NOT 3)) [0..<6] (0, sar 1 a AND NOT 1, p) = (D, m, p1)"
    "lv_value (ucast (D AND 0x3FFFFFF)) = fraction_product (factor a) 23 (factor d)"
    "lv_value p1 = fraction_product (signed_take_bit 11 (factor a)) 11 (factor d)"
    "word26 p1" "word26 (ucast (D AND 0x3FFFFFF))"
proof -
  let ?N = "convertDataWordToNative d AND NOT 3" and ?m = "sar 1 a AND NOT 1"
  have N: "sint ?N = 4 * factor d"
    using sint_multiplicand [of "convertDataWordToNative d"] sint_Native [OF assms(2)] by simp
  have m: "uint ?m = 2 * (uint a div 4)" by (rule uint_multiplier [OF assms(1)])
  have bounds: "\<bar>sint ?N\<bar> \<le> 2 ^ 25" "uint ?m < 2 ^ 31" "even (uint ?m)"
    using factor_bounds [of d] assms(1) m unfolding N by (simp_all add: abs_le_iff)
  obtain D m p1 where f: "fold (MpyStep ?N) [0..<6] (0, ?m, p) = (D, m, p1)"
    by (metis prod_cases3)
  have r: "sint D = product_sum 6 (uint ?m) (sint ?N)" "word26 p1"
    "lv_value p1 = signed_take_bit 25 (product_sum 3 (uint ?m) (sint ?N))"
    using MpyLoop [OF bounds, of 6 p] unfolding f by simp_all
  have p6: "product_sum 6 (uint ?m) (sint ?N) = factor a * factor d div 2 ^ 21"
  proof -
    have "product_sum 6 (uint ?m) (sint ?N) = 8 * (factor a * factor d) div (8 * 2 ^ 21)"
      unfolding product_sum_def m N by (simp add: multiplier_bits(1) lv_value_def mult.assoc)
    then show ?thesis by (simp only: div_mult_mult1 zero_neq_numeral not_False_eq_True)
  qed
  have p3: "product_sum 3 (uint ?m) (sint ?N) = signed_take_bit 11 (factor a) * factor d div 2 ^ 9"
  proof -
    have "product_sum 3 (uint ?m) (sint ?N) = 8 * (signed_take_bit 11 (factor a) * factor d) div (8 * 2 ^ 9)"
      unfolding product_sum_def m N by (simp add: multiplier_bits(2) lv_value_def mult.assoc)
    then show ?thesis by (simp only: div_mult_mult1 zero_neq_numeral not_False_eq_True)
  qed
  show thesis
  proof (rule that [OF f])
    show "lv_value (ucast (D AND 0x3FFFFFF)) = fraction_product (factor a) 23 (factor d)"
      unfolding lv_value_ucast r p6
      using fraction_product [of 23 "factor a" "factor d"] factor_bounds [of a] factor_bounds [of d] by simp
    show "lv_value p1 = fraction_product (signed_take_bit 11 (factor a)) 11 (factor d)"
      unfolding r(3) p3
      using fraction_product [of 11 "signed_take_bit 11 (factor a)" "factor d"] factor_bounds [of d]
        signed_take_bit_int_greater_eq_minus_exp [of 11 "factor a"]
        signed_take_bit_int_less_exp [of 11 "factor a"] by simp
    show "word26 p1" by (rule r(2))
    show "word26 (ucast (D AND 0x3FFFFFF))"
      by (simp only: word26_bits bit_ucast_iff bit_and_iff bits_lv_masks) auto
  qed
qed

text \<open>How the PQ register follows the pending products.\<close>

lemma pq_Countdown:
  assumes "mpyDivCount st = of_nat n" "n < 16" "0 < k" "k \<le> n"
  shows "pq ((Countdown ^^ k) st) = (if k < n then pqPend1 st else pqPend2 st)"
proof -
  have keep: "pqPend1 (Countdown st) = pqPend1 st" "pqPend2 (Countdown st) = pqPend2 st" for st
    by (simp_all add: Countdown_def Let_def)
  have count: "mpyDivCount (Countdown st) = of_nat m" if "mpyDivCount st = of_nat (Suc m)" "m < 16" for st m
  proof -
    have "sint (of_nat (Suc m) :: cint) = int (Suc m)"
      using that(2) sint_word_of_int_small [of "int (Suc m)"] by simp
    then show ?thesis using that(1) by (simp add: Countdown_def Let_def word_sless_alt)
  qed
  have iter: "mpyDivCount ((Countdown ^^ j) st) = of_nat (n - j) \<and> pqPend1 ((Countdown ^^ j) st) = pqPend1 st \<and>
      pqPend2 ((Countdown ^^ j) st) = pqPend2 st" if "j \<le> n" for j
    using that
  proof (induction j)
    case 0
    then show ?case using assms(1) by simp
  next
    case (Suc j)
    then have "n - j = Suc (n - Suc j)" by simp
    then show ?case
      using Suc count [of "(Countdown ^^ j) st" "n - Suc j"] assms(2) keep by simp
  qed
  obtain j where j: "k = Suc j" using assms(3) by (cases k) auto
  obtain m where m: "n = Suc j + m" using assms(4) j by (metis le_Suc_ex)
  have "sint (of_nat (Suc m) :: cint) = int (Suc m)" "sint (of_nat m :: cint) = int m"
    using assms(2) m sint_word_of_int_small [of "int (Suc m)"] sint_word_of_int_small [of "int m"] by simp_all
  then show ?thesis
    using iter [of j] unfolding j m
    by (simp add: Countdown_def Let_def word_sless_alt)
qed

text \<open>C23: MPY and MPH multiply exactly, as fractions.  With \<open>a\<close> and \<open>n\<close> the factors in units of
  \<open>2 ^ -23\<close> (the lowest two bits do not count), the product register holds \<open>a * n\<close> rounded down to
  a word; that is not changed by the rounding of the single steps, and native multiplication would
  give the same.  Only -1 times -1 overflows, to -1.  During the next three instructions PQ
  shows the product with the 12 lowest bits of the multiplier alone, shifted to the upper end, and from the fourth on
  the full one; MPH takes five cycles and loads the accumulator.\<close>

theorem lv_MPY_product:
  assumes "fetchData (h_dm (hopStructure v)) residual (h_ds (hopStructure v)) operand st = (Some d, flag)"
    and "word26 (acc st)" "word26 d"
  shows "\<exists>p1 p2. word26 p1 \<and> word26 p2 \<and>
    lv_value p2 = fraction_product (factor (acc st)) 23 (factor d) \<and>
    lv_value p1 = fraction_product (signed_take_bit 11 (factor (acc st))) 11 (factor d) \<and>
    (let st' = st\<lparr>dataFromInstructionMemory := flag, pqPend1 := p1, pqPend2 := p2\<rparr>;
         waiting = st'\<lparr>mpyDivCount := 4, inhibitInterruptCycles := 5\<rparr>
     in lv_MPY False residual operand v st = Completed v waiting \<and>
        pq ((Countdown ^^ 1) waiting) = p1 \<and> pq ((Countdown ^^ 2) waiting) = p1 \<and>
        pq ((Countdown ^^ 3) waiting) = p1 \<and> pq ((Countdown ^^ 4) waiting) = p2 \<and>
        lv_MPY True residual operand v st = Completed (v\<lparr>deltaCycleCount := 5\<rparr>)
          (st'\<lparr>mpyDivCount := 1, acc := p2, inhibitInterruptCycles := 1\<rparr>))"
proof -
  obtain D m p1 where f: "fold (MpyStep (convertDataWordToNative d AND NOT 3)) [0..<6]
      (0, sar 1 (acc st) AND NOT 1, pqPend1 st) = (D, m, p1)"
    and p2: "lv_value (ucast (D AND 0x3FFFFFF)) = fraction_product (factor (acc st)) 23 (factor d)"
    and p1: "lv_value p1 = fraction_product (signed_take_bit 11 (factor (acc st))) 11 (factor d)"
    and w: "word26 p1" "word26 (ucast (D AND 0x3FFFFFF))"
    using MpyLoop_products [OF assms(2,3)] by metis
  define q :: cint where "q = ucast (D AND 0x3FFFFFF)"
  show ?thesis
  proof (rule exI [of _ p1], rule exI [of _ q], intro conjI)
    show "lv_value q = fraction_product (factor (acc st)) 23 (factor d)" "word26 q"
      using p2 w(2) by (simp_all only: q_def)
  qed (use p1 w(1) f q_def pq_Countdown [of _ 4] in
      \<open>simp_all add: lv_MPY_def WithData_def assms(1) Let_def del: funpow.simps\<close>)
qed

lemma lv_MPY_product_witness:
  "let st = (empty_state False)\<lparr>acc := 0x1000000, core := (\<lambda>_ _ _ _. 0x3000000)\<rparr>;
       v = \<lparr>hopStructure = \<lparr>h_im = 0, h_is = 0, h_s = 0, h_loc = 0, h_dm = 0, h_ds = 0, h_dupin = 0, h_dupdn = 0\<rparr>,
            rawHopStructure = \<lparr>h_im = 0, h_is = 0, h_s = 0, h_loc = 0, h_dm = 0, h_ds = 0, h_dupin = 0, h_dupdn = 0\<rparr>,
            nextLOC = 1, nextS = 0, saveLOC = 0, isHOP = False, deltaCycleCount = 1\<rparr>
   in \<exists>p2. lv_value p2 = - (2 ^ 23) \<and>
        lv_MPY True 0 5 v st = Completed (v\<lparr>deltaCycleCount := 5\<rparr>)
          (st\<lparr>dataFromInstructionMemory := False, pqPend1 := 0, pqPend2 := p2, mpyDivCount := 1, acc := p2,
             inhibitInterruptCycles := 1\<rparr>)"
  (is "let st = ?st; v = ?v in _")
proof -
  have f: "factor 0x1000000 = 2 ^ 22" "factor 0x3000000 = - (2 ^ 22)"
    by (simp_all add: lv_value_def signed_take_bit_eq_take_bit_minus take_bit_eq_mod bit_iff_odd)
  have z: "word26 p \<Longrightarrow> lv_value p = 0 \<Longrightarrow> p = 0" for p
    using lv_value_word26 [of p] uint_lt_iff_bits [of p 26] by (auto simp: word_uint_eq_iff split: if_splits)
  have "fetchData (h_dm (hopStructure ?v)) 0 (h_ds (hopStructure ?v)) 5 ?st = (Some 0x3000000, False)"
    by (simp add: fetchData_def empty_state_def)
  from lv_MPY_product [OF this] obtain p1 p2 where
    p: "word26 p1" "word26 p2" "lv_value p2 = fraction_product (2 ^ 22) 23 (- (2 ^ 22))"
      "lv_value p1 = fraction_product (signed_take_bit 11 (2 ^ 22)) 11 (- (2 ^ 22))"
    and e: "lv_MPY True 0 5 ?v ?st = Completed (?v\<lparr>deltaCycleCount := 5\<rparr>)
          (?st\<lparr>dataFromInstructionMemory := False, pqPend1 := p1, pqPend2 := p2, mpyDivCount := 1, acc := p2,
             inhibitInterruptCycles := 1\<rparr>)"
    unfolding Let_def f lvdc.simps empty_state_def by (auto simp: f)
  have "p1 = 0"
    using p(1,4) by (intro z) (simp_all add: fraction_product_def signed_take_bit_eq_take_bit_minus take_bit_eq_mod bit_iff_odd)
  then show ?thesis
    using p e by (auto simp: Let_def fraction_product_def)
qed

section \<open>Division\<close>

text \<open>The remainder never leaves the range of the divisor; it need not have the sign of the dividend.\<close>

lemma DivStep_exact:
  assumes "\<bar>sint r\<bar> \<le> \<bar>sint d\<bar>" "\<bar>sint d\<bar> \<le> 2 ^ 25" "uint q = 2 * B" "B < 2 ^ 29"
  obtains r' q' b where "DivStep d i (r, q) = (r', q')" "b = 0 \<or> b = 1" "uint q' = 2 * (2 * B + b)"
    "sint r' = 2 * sint r - (2 * b - 1) * sint d" "\<bar>sint r'\<bar> \<le> \<bar>sint d\<bar>"
proof -
  have dbl: "shl 1 w = 2 * w" for w :: cint by (simp add: shl_def push_bit_eq_mult mult.commute)
  have s: "sint (shl 1 r) = 2 * sint r"
    using assms(1,2) sint_word_of_int_small [of "2 * sint r"] unfolding dbl by simp
  have "0 \<le> B" using assms(3) uint_ge_0 [of q] by simp
  have q: "q = word_of_int (2 * B)" by (simp only: assms(3) [symmetric] word_of_int_uint)
  have "even q" using bit_uint_iff [of q 0] by (simp add: assms(3) bit_0)
  then have "q OR 1 = word_of_int (2 * B + 1)" by (simp add: or_one_eq q)
  then have u: "uint (shl 1 q) = 4 * B" "uint (shl 1 (q OR 1)) = 4 * B + 2"
    using \<open>0 \<le> B\<close> assms(4) uint_word_of_int_small [of "4 * B"] uint_word_of_int_small [of "4 * B + 2"]
    unfolding dbl by (simp_all add: q)
  let ?p = "(0 \<le>s r \<and> 0 \<le>s d) \<or> (r <s 0 \<and> d <s 0)"
  have p: "?p \<longleftrightarrow> (0 \<le> sint r \<and> 0 \<le> sint d) \<or> (sint r < 0 \<and> sint d < 0)"
    by (simp add: word_sle_eq word_sless_alt)
  show thesis
  proof (cases ?p)
    case True
    then have "\<bar>2 * sint r - sint d\<bar> \<le> \<bar>sint d\<bar>" using assms(1) p by auto
    then show ?thesis
      using True u s assms(2) sint_minus_small [of "shl 1 r" d]
      by (intro that [of _ _ 1]) (auto simp: DivStep_def)
  next
    case False
    then have "\<bar>2 * sint r + sint d\<bar> \<le> \<bar>sint d\<bar>" using assms(1) p by auto
    then show ?thesis
      using False u s assms(2) sint_plus_small [of "shl 1 r" d]
      by (intro that [of _ _ 0]) (auto simp: DivStep_def)
  qed
qed

lemma DivLoop_exact:
  assumes "\<bar>sint a\<bar> \<le> \<bar>sint d\<bar>" "\<bar>sint d\<bar> \<le> 2 ^ 25" "k \<le> 24"
  shows "\<exists>r q B. fold (DivStep d) [0..<k] (a, 0) = (r, q) \<and> uint q = 2 * B \<and> B < 2 ^ k \<and>
    \<bar>sint r\<bar> \<le> \<bar>sint d\<bar> \<and> 2 ^ k * sint a = sint d * (2 * B - 2 ^ k + 1) + sint r"
  using assms(3)
proof (induction k)
  case 0
  then show ?case using assms(1) by (intro exI [of _ a] exI [of _ "0 :: cint"] exI [of _ "0 :: int"]) simp
next
  case (Suc k)
  then obtain r q B where IH: "fold (DivStep d) [0..<k] (a, 0) = (r, q)" "uint q = 2 * B" "B < 2 ^ k"
    "\<bar>sint r\<bar> \<le> \<bar>sint d\<bar>" "2 ^ k * sint a = sint d * (2 * B - 2 ^ k + 1) + sint r"
    by auto
  have "(2 :: int) ^ k \<le> 2 ^ 24" using Suc.prems by (intro power_increasing) auto
  then have "B < 2 ^ 29" using IH(3) by simp
  from DivStep_exact [OF IH(4) assms(2) IH(2) this, of k] obtain r' q' b where
    *: "DivStep d k (r, q) = (r', q')" "b = 0 \<or> b = 1" "uint q' = 2 * (2 * B + b)"
    "sint r' = 2 * sint r - (2 * b - 1) * sint d" "\<bar>sint r'\<bar> \<le> \<bar>sint d\<bar>"
    by blast
  have "2 ^ Suc k * sint a = 2 * (sint d * (2 * B - 2 ^ k + 1) + sint r)"
    using IH(5) by simp
  also have "\<dots> = sint d * (2 * (2 * B + b) - 2 ^ Suc k + 1) + sint r'"
    by (simp add: *(4) algebra_simps)
  finally show ?case
    using * IH(1,3) by (intro exI [of _ r'] exI [of _ q'] exI [of _ "2 * B + b"]) auto
qed

lemma uint_set_25:
  assumes "\<not> bit z 25" "word26 z"
  shows "uint (z OR 0x2000000 :: cint) = uint z + 2 ^ 25"
proof -
  have "z OR 0x2000000 = z + 0x2000000"
    by (rule disjunctive_add [symmetric]) (use assms(1) in \<open>auto simp: mask_bits\<close>)
  then show ?thesis
    using assms(2) uint_word_of_int_small [of "uint z + 2 ^ 25"] by simp
qed

lemma quotient_word:
  assumes "uint q = 2 * B" "B < 2 ^ 24"
  shows "word26 (convertNativeToDataWord (shl 1 q XOR 0x2000000))"
    and "lv_value (convertNativeToDataWord (shl 1 q XOR 0x2000000)) = 4 * B - 2 ^ 25"
proof -
  let ?x = "shl 1 q"
  have B: "0 \<le> B" using assms(1) uint_ge_0 [of q] by simp
  have q: "q = word_of_int (2 * B)" by (simp only: assms(1) [symmetric] word_of_int_uint)
  have dbl: "?x = word_of_int (4 * B)" by (simp add: q shl_def push_bit_eq_mult)
  have x: "uint ?x = 4 * B" unfolding dbl using B assms(2) by (intro uint_word_of_int_small) simp_all
  then have xb: "\<not> bit ?x n" if "26 \<le> n" for n
    using assms(2) word26_bits [of ?x] that by auto
  let ?y = "?x XOR 0x2000000"
  have "word26 ?y" using xb by (auto simp: word26_bits bit_xor_iff mask_bits)
  moreover have "convertNativeToDataWord ?y = ?y"
    unfolding convertNativeToDataWord_def
    by (rule bit_word_eqI) (use xb in \<open>auto simp: bit_and_iff bit_xor_iff mask_bits not_le [symmetric]\<close>)
  moreover have "lv_value ?y = 4 * B - 2 ^ 25"
  proof (cases "bit ?x 25")
    case True
    have "\<not> bit ?y 25" using True by (simp add: bit_xor_iff mask_bits)
    moreover have "?y OR 0x2000000 = ?x"
      by (rule bit_word_eqI) (use True in \<open>auto simp: bit_or_iff bit_xor_iff mask_bits\<close>)
    ultimately show ?thesis
      using uint_set_25 [of ?y] \<open>word26 ?y\<close> x lv_value_word26 [of ?y] by simp
  next
    case False
    have "bit ?y 25" using False by (simp add: bit_xor_iff mask_bits)
    moreover have "?x OR 0x2000000 = ?y"
      by (rule bit_word_eqI) (use False in \<open>auto simp: bit_or_iff bit_xor_iff mask_bits\<close>)
    ultimately show ?thesis
      using uint_set_25 [of ?x] False \<open>word26 ?y\<close> x assms(2) lv_value_word26 [of ?y] by simp
  qed
  ultimately show "word26 (convertNativeToDataWord ?y)" "lv_value (convertNativeToDataWord ?y) = 4 * B - 2 ^ 25"
    by simp_all
qed

text \<open>C24: DIV divides exactly, for a dividend not larger than the divisor.  If \<open>V\<close> is the quotient
  that DIV leaves, in units of \<open>2 ^ -25\<close>, then the dividend times \<open>2 ^ 25\<close> differs from the divisor
  times \<open>V + 2\<close> by at most twice the divisor; that is, the exact quotient lies between \<open>V\<close> and \<open>V + 4\<close>, and \<open>V\<close> is
  a multiple of 4, so no quotient of 24 bits is nearer from below.  PQ shows 0 during the next
  seven instructions and the quotient from the eighth on.\<close>

theorem lv_DIV_quotient:
  assumes "fetchData (h_dm (hopStructure v)) residual (h_ds (hopStructure v)) operand st = (Some d, flag)"
    and "word26 (acc st)" "word26 d" "\<bar>lv_value (acc st)\<bar> \<le> \<bar>lv_value d\<bar>"
  shows "\<exists>q. word26 q \<and> lv_value q mod 4 = 0 \<and>
    \<bar>2 ^ 25 * lv_value (acc st) - lv_value d * (lv_value q + 2)\<bar> \<le> 2 * \<bar>lv_value d\<bar> \<and>
    (let st' = st\<lparr>dataFromInstructionMemory := flag, pqPend1 := 0, pqPend2 := q, mpyDivCount := 8,
                 inhibitInterruptCycles := 8\<rparr>
     in lv_DIV residual operand v st = Completed v st' \<and>
        (\<forall>k. 0 < k \<and> k < 8 \<longrightarrow> pq ((Countdown ^^ k) st') = 0) \<and> pq ((Countdown ^^ 8) st') = q)"
proof -
  let ?a = "convertDataWordToNative (acc st)" and ?d = "convertDataWordToNative d"
  have n: "sint ?a = lv_value (acc st)" "sint ?d = lv_value d"
    using assms(2,3) by (simp_all add: sint_Native)
  have "\<bar>lv_value d\<bar> \<le> 2 ^ 25" using lv_value_bounds [of d] by simp
  then obtain r q B where f: "fold (DivStep ?d) [0..<24] (?a, 0) = (r, q)" and q: "uint q = 2 * B" "B < 2 ^ 24"
    and r: "\<bar>sint r\<bar> \<le> \<bar>lv_value d\<bar>" "2 ^ 24 * lv_value (acc st) = lv_value d * (2 * B - 2 ^ 24 + 1) + sint r"
    using DivLoop_exact [of ?a ?d 24] assms(4) unfolding n by auto
  define Q where "Q = convertNativeToDataWord (shl 1 q XOR 0x2000000)"
  have Q: "word26 Q" "lv_value Q = 4 * B - 2 ^ 25"
    unfolding Q_def by (rule quotient_word [OF q])+
  have "2 ^ 25 * lv_value (acc st) = lv_value d * (lv_value Q + 2) + 2 * sint r"
    using r(2) by (simp add: Q(2) algebra_simps)
  then have bound: "\<bar>2 ^ 25 * lv_value (acc st) - lv_value d * (lv_value Q + 2)\<bar> \<le> 2 * \<bar>lv_value d\<bar>"
    using r(1) by simp
  have "lv_value Q = 4 * (B - 2 ^ 23)" by (simp add: Q(2))
  then have m: "lv_value Q mod 4 = 0" by simp
  show ?thesis
    by (intro exI [of _ Q] conjI Q(1) m bound)
      (use f pq_Countdown [of _ 8] in \<open>simp add: lv_DIV_def WithData_def assms(1) Let_def Q_def del: funpow.simps\<close>)
qed

lemma lv_DIV_quotient_witness:
  "let st = (empty_state False)\<lparr>acc := 0x1000000, core := (\<lambda>_ _ _ _. 0x1800000)\<rparr>;
       v = \<lparr>hopStructure = \<lparr>h_im = 0, h_is = 0, h_s = 0, h_loc = 0, h_dm = 0, h_ds = 0, h_dupin = 0, h_dupdn = 0\<rparr>,
            rawHopStructure = \<lparr>h_im = 0, h_is = 0, h_s = 0, h_loc = 0, h_dm = 0, h_ds = 0, h_dupin = 0, h_dupdn = 0\<rparr>,
            nextLOC = 1, nextS = 0, saveLOC = 0, isHOP = False, deltaCycleCount = 1\<rparr>
   in \<exists>q. lv_value q = 22369620 \<and> 22369620 = 2 ^ 25 * 2 div (3 :: int) - 1 \<and>
        lv_DIV 0 5 v st = Completed v (st\<lparr>dataFromInstructionMemory := False, pqPend1 := 0, pqPend2 := q,
          mpyDivCount := 8, inhibitInterruptCycles := 8\<rparr>)"
  (is "let st = ?st; v = ?v in _")
proof -
  have f: "lv_value 0x1000000 = 2 ^ 24" "lv_value 0x1800000 = 3 * 2 ^ 23"
    by (simp_all add: lv_value_def signed_take_bit_eq_take_bit_minus take_bit_eq_mod bit_iff_odd)
  have "fetchData (h_dm (hopStructure ?v)) 0 (h_ds (hopStructure ?v)) 5 ?st = (Some 0x1800000, False)"
    by (simp add: fetchData_def empty_state_def)
  from lv_DIV_quotient [OF this] obtain q where
    q: "4 dvd lv_value q" "\<bar>2 ^ 25 * 2 ^ 24 - 3 * 2 ^ 23 * (lv_value q + 2)\<bar> \<le> 2 * \<bar>3 * 2 ^ 23\<bar>"
    and e: "lv_DIV 0 5 ?v ?st = Completed ?v (?st\<lparr>dataFromInstructionMemory := False, pqPend1 := 0, pqPend2 := q,
          mpyDivCount := 8, inhibitInterruptCycles := 8\<rparr>)"
    unfolding Let_def f lvdc.simps empty_state_def by (auto simp: f)
  obtain c where c: "lv_value q = 4 * c" using q(1) by (elim dvdE)
  have "c < 5592406" "5592404 < c" using q(2) unfolding c abs_le_iff by simp_all
  then have "lv_value q = 22369620" by (simp add: c)
  then show ?thesis using e by (auto simp: Let_def)
qed

section \<open>Sums\<close>

lemma lv_value_sum:
  assumes "word26 a" "word26 d"
  shows "lv_value (acc_ADD a d) = signed_take_bit 25 (lv_value a + lv_value d)"
    "lv_value (acc_SUB a d) = signed_take_bit 25 (lv_value a - lv_value d)"
    "lv_value (acc_RSU a d) = signed_take_bit 25 (lv_value d - lv_value a)"
    "word26 (acc_ADD a d)" "word26 (acc_SUB a d)" "word26 (acc_RSU a d)"
proof -
  let ?a = "convertDataWordToNative a" and ?d = "convertDataWordToNative d"
  have "sint (?a + ?d) = lv_value a + lv_value d" "sint (?a - ?d) = lv_value a - lv_value d"
    "sint (?d - ?a) = lv_value d - lv_value a"
    using sint_plus_small [of ?a ?d] sint_minus_small [of ?a ?d] sint_minus_small [of ?d ?a]
      lv_value_bounds [of a] lv_value_bounds [of d] sint_Native [OF assms(1)] sint_Native [OF assms(2)]
    by simp_all
  then show "lv_value (acc_ADD a d) = signed_take_bit 25 (lv_value a + lv_value d)"
    "lv_value (acc_SUB a d) = signed_take_bit 25 (lv_value a - lv_value d)"
    "lv_value (acc_RSU a d) = signed_take_bit 25 (lv_value d - lv_value a)"
    by (simp_all add: acc_ADD_def acc_SUB_def acc_RSU_def convertNativeToDataWord_def lv_value_and)
qed (simp_all add: acc_ADD_def acc_SUB_def acc_RSU_def convertNativeToDataWord_def)

end
