(* ===== verification/LVDC_Memory.thy ===== *)
theory LVDC_Memory
  imports LVDC_Arith
begin

text \<open>
  HOP constants and memory of yaLVDC.  A HOP constant is a word of 26 bits that names the next
  instruction and the sector of its data; the memory is an array of words of 26 bits, each of which
  may be used as data or as two instructions of 13 bits.
\<close>

unbundle bit_operations_syntax

section \<open>HOP constants\<close>

definition hop_ok :: "hopStructure_t \<Rightarrow> bool" where
  "hop_ok h \<longleftrightarrow> h_im h < 8 \<and> h_is h < 16 \<and> h_s h < 2 \<and> h_dm h < 8 \<and> h_ds h < 16 \<and>
     h_dupin h < 2 \<and> h_dupdn h < 2"

lemma u8_less_bits:
  "(w :: u8) < 2 \<longleftrightarrow> (\<forall>n. 1 \<le> n \<longrightarrow> \<not> bit w n)" "w < 8 \<longleftrightarrow> (\<forall>n. 3 \<le> n \<longrightarrow> \<not> bit w n)"
  "w < 16 \<longleftrightarrow> (\<forall>n. 4 \<le> n \<longrightarrow> \<not> bit w n)"
  using uint_lt_iff_bits [of w 1] uint_lt_iff_bits [of w 3] uint_lt_iff_bits [of w 4]
  by (simp_all add: word_less_def)

lemma bits_6 [mask_bits]:
  "bit (6 :: 'a::len word) n \<longleftrightarrow> n < LENGTH('a) \<and> (n = 1 \<or> n = 2)"
  "bit (6 :: int) n \<longleftrightarrow> n = 1 \<or> n = 2"
proof -
  have "(6 :: 'a word) = push_bit 1 (mask 2)" by (simp add: mask_eq_exp_minus_1)
  then have "bit (6 :: 'a word) n \<longleftrightarrow> 1 \<le> n \<and> n < LENGTH('a) \<and> n - 1 < 2"
    by (simp only: bit_push_bit_iff bit_mask_iff) auto
  then show "bit (6 :: 'a word) n \<longleftrightarrow> n < LENGTH('a) \<and> (n = 1 \<or> n = 2)" by auto
  have "(6 :: int) = push_bit 1 (mask 2)" by (simp add: mask_eq_exp_minus_1)
  then show "bit (6 :: int) n \<longleftrightarrow> n = 1 \<or> n = 2"
    by (simp only: bit_push_bit_iff bit_mask_iff) auto
qed

lemma parseHop_ok: "parseHopConstant P c = Some h \<Longrightarrow> hop_ok h"
  unfolding parseHopConstant_def hop_ok_def u8_less_bits
  by (auto simp: bit_simps mask_bits split: if_splits)

lemma bit_u8_of_int [simp]: "bit (u8_of_int v) n \<longleftrightarrow> n < 8 \<and> bit v n"
  by (auto simp: bit_simps)

lemma bit_int_of_u8 [simp]: "bit (int_of_u8 v) n \<longleftrightarrow> bit v n"
  by (auto simp: bit_simps dest: bit_imp_le_length)

lemma formHop_eq:
  assumes "hop_ok h"
  shows "formHopConstant h x = (True, (sar 1 (int_of_u8 (h_im h)) AND 3) OR shl 25 (int_of_u8 (h_im h) AND 1)
      OR shl 2 (int_of_u8 (h_is h)) OR shl 6 (int_of_u8 (h_s h)) OR shl 7 (int_of_u8 (h_loc h))
      OR shl 16 (int_of_u8 (h_dupdn h)) OR shl 17 (int_of_u8 (h_dm h)) OR shl 20 (int_of_u8 (h_ds h))
      OR shl 24 (int_of_u8 (h_dupin h)))"
proof -
  have "\<not> 7 < h_im h" "\<not> 0xF < h_is h" "\<not> 1 < h_s h" "\<not> 7 < h_dm h" "\<not> 0xF < h_ds h"
    "\<not> 1 < h_dupin h" "\<not> 1 < h_dupdn h"
    using assms by (simp_all add: hop_ok_def word_less_def)
  then show ?thesis by (simp only: formHopConstant_def if_False Let_def or.assoc)
qed

text \<open>The bits of the fields beyond their widths are 0.\<close>

lemma hop_ok_bits:
  assumes "hop_ok h"
  shows "3 \<le> n \<Longrightarrow> \<not> bit (h_im h) n" "4 \<le> n \<Longrightarrow> \<not> bit (h_is h) n" "1 \<le> n \<Longrightarrow> \<not> bit (h_s h) n"
    "3 \<le> n \<Longrightarrow> \<not> bit (h_dm h) n" "4 \<le> n \<Longrightarrow> \<not> bit (h_ds h) n" "1 \<le> n \<Longrightarrow> \<not> bit (h_dupin h) n"
    "1 \<le> n \<Longrightarrow> \<not> bit (h_dupdn h) n"
  using assms by (simp_all add: hop_ok_def u8_less_bits)

text \<open>The layout of a HOP constant.\<close>

definition encodes :: "cint \<Rightarrow> hopStructure_t \<Rightarrow> bool" where
  "encodes c h \<longleftrightarrow>
     bit c 0 = bit (h_im h) 1 \<and> bit c 1 = bit (h_im h) 2 \<and> bit c 25 = bit (h_im h) 0 \<and>
     bit c 2 = bit (h_is h) 0 \<and> bit c 3 = bit (h_is h) 1 \<and> bit c 4 = bit (h_is h) 2 \<and>
     bit c 5 = bit (h_is h) 3 \<and> bit c 6 = bit (h_s h) 0 \<and>
     bit c 7 = bit (h_loc h) 0 \<and> bit c 8 = bit (h_loc h) 1 \<and> bit c 9 = bit (h_loc h) 2 \<and>
     bit c 10 = bit (h_loc h) 3 \<and> bit c 11 = bit (h_loc h) 4 \<and> bit c 12 = bit (h_loc h) 5 \<and>
     bit c 13 = bit (h_loc h) 6 \<and> bit c 14 = bit (h_loc h) 7 \<and> \<not> bit c 15 \<and>
     bit c 16 = bit (h_dupdn h) 0 \<and> bit c 17 = bit (h_dm h) 0 \<and> bit c 18 = bit (h_dm h) 1 \<and>
     bit c 19 = bit (h_dm h) 2 \<and> bit c 20 = bit (h_ds h) 0 \<and> bit c 21 = bit (h_ds h) 1 \<and>
     bit c 22 = bit (h_ds h) 2 \<and> bit c 23 = bit (h_ds h) 3 \<and> bit c 24 = bit (h_dupin h) 0 \<and> word26 c"

lemma formHop_encodes:
  assumes "hop_ok h"
  obtains c where "formHopConstant h x = (True, c)" "encodes c h"
proof -
  note b = hop_ok_bits [OF assms]
  have high: "\<not> bit (h_loc h) n" if "8 \<le> n" for n
    using that bit_imp_le_length [of "h_loc h" n] by auto
  show thesis
    by (rule that [OF formHop_eq [OF assms]])
      (simp add: encodes_def word26_bits bit_simps mask_bits b high numeral_2_eq_2 [symmetric])
qed

text \<open>A property follows for each of the 26 bits.\<close>

lemma word26_eq_bitsI:
  assumes "word26 a" "word26 b"
    "list_all (\<lambda>n. bit a n = bit b n) [0, 1, 2, 3, 4, 5, 6, 7, 8, 9, 10, 11, 12, 13, 14, 15, 16, 17, 18,
      19, 20, 21, 22, 23, 24, 25]"
  shows "a = b"
proof (rule bit_word_eqI)
  fix n
  show "bit a n = bit b n"
  proof (cases "26 \<le> n")
    case True
    then show ?thesis using assms(1,2) by (simp only: word26_bits simp_thms)
  next
    case False
    then have "n \<in> set [0..<26]" by simp
    moreover have "[0..<26] = [0, 1, 2, 3, 4, 5, 6, 7, 8, 9, 10, 11, 12, 13, 14, 15, 16, 17, 18,
      19, 20, 21, 22, 23, 24, 25 :: nat]" by code_simp
    ultimately show ?thesis using assms(3) by (simp only: list_all_iff)
  qed
qed

lemma parse_form:
  assumes "hop_ok h"
  shows "\<exists>c. formHopConstant h x = (True, c) \<and> word26 c \<and> parseHopConstant False c = Some h"
proof -
  obtain c where c: "formHopConstant h x = (True, c)" and e: "encodes c h"
    by (rule formHop_encodes [OF assms])
  note b = hop_ok_bits [OF assms] and e' = e [unfolded encodes_def One_nat_def]
  have "u8_of_int ((sar 25 c AND 1) OR (shl 1 c AND 6)) = h_im h" "u8_of_int (sar 2 c AND 0xF) = h_is h"
    "u8_of_int (sar 6 c AND 1) = h_s h" "u8_of_int (sar 17 c AND 7) = h_dm h"
    "u8_of_int (sar 20 c AND 0xF) = h_ds h" "u8_of_int (sar 24 c AND 1) = h_dupin h"
    "u8_of_int (sar 16 c AND 1) = h_dupdn h" "u8_of_int (sar 7 c AND 0xFF) = h_loc h"
    by (rule u8_eq_bitsI; simp add: bit_simps mask_bits e' b numeral_2_eq_2 [symmetric])+
  then have "parseHopConstant False c = Some h"
    using e' by (simp add: parseHopConstant_def)
  then show ?thesis using c e' by simp
qed

lemma form_parse:
  assumes "parseHopConstant P c = Some h" "word26 c"
  shows "formHopConstant h x = (True, c)"
proof -
  have ok: "hop_ok h" by (rule parseHop_ok [OF assms(1)])
  have h: "h_im h = u8_of_int ((sar 25 c AND 1) OR (shl 1 c AND 6))"
    "h_is h = u8_of_int (sar 2 c AND 0xF)" "h_s h = u8_of_int (sar 6 c AND 1)"
    "h_loc h = u8_of_int (sar 7 c AND 0xFF)" "h_dm h = u8_of_int (sar 17 c AND 7)"
    "h_ds h = u8_of_int (sar 20 c AND 0xF)" "h_dupin h = u8_of_int (sar 24 c AND 1)"
    "h_dupdn h = u8_of_int (sar 16 c AND 1)"
    using assms(1) by (auto simp: parseHopConstant_def split: if_splits)
  have "\<not> bit c 15"
  proof (cases P)
    case True
    then have "c AND 0xD8003 = 0" using assms(1) by (auto simp: parseHopConstant_def split: if_splits)
    then have "\<not> bit (c AND 0xD8003) 15" by simp
    then show ?thesis by (simp add: bit_and_iff)
  next
    case False
    then show ?thesis using assms(1) by (auto simp: parseHopConstant_def split: if_splits)
  qed
  obtain d where d: "formHopConstant h x = (True, d)" and e: "encodes d h"
    by (rule formHop_encodes [OF ok])
  note e' = e [unfolded encodes_def One_nat_def]
  have "d = c"
    by (rule word26_eq_bitsI [OF _ assms(2)])
      (use \<open>\<not> bit c 15\<close> e' in \<open>simp_all add: h bit_simps mask_bits numeral_2_eq_2 [symmetric]\<close>)
  then show ?thesis using d(1) by simp
qed

lemma formHop_refuses: "fst (formHopConstant h x) \<longleftrightarrow> hop_ok h"
proof
  assume "fst (formHopConstant h x)"
  then have "\<not> 7 < h_im h" "\<not> 0xF < h_is h" "\<not> 1 < h_s h" "\<not> 7 < h_dm h" "\<not> 0xF < h_ds h"
    "\<not> 1 < h_dupin h" "\<not> 1 < h_dupdn h"
    unfolding formHopConstant_def Let_def by (simp_all only: fst_conv if_distrib [of fst] not_False_eq_True split: if_splits)
  then show "hop_ok h" by (simp_all add: hop_ok_def word_less_def)
next
  assume "hop_ok h"
  then show "fst (formHopConstant h x)" using parse_form [of h x] by auto
qed

text \<open>C31: HOP constants.  \<open>formHopConstant\<close> accepts exactly the structures whose fields are within
  their widths, and \<open>parseHopConstant\<close> reads such a constant back; conversely every word of 26 bits
  that \<open>parseHopConstant\<close> accepts, on either machine, has fields within their widths (so the arrays
  of memory are accessed within bounds) and is formed again from them.\<close>

theorem HopConstant_roundtrip:
  "(fst (formHopConstant h x) \<longleftrightarrow> hop_ok h) \<and>
   (hop_ok h \<longrightarrow> parseHopConstant False (snd (formHopConstant h x)) = Some h) \<and>
   (word26 c \<and> parseHopConstant P c = Some k \<longrightarrow> hop_ok k \<and> formHopConstant k x = (True, c))"
  using formHop_refuses [of h x] parse_form [of h x] parseHop_ok [of P c k] form_parse [of P c k x] by auto

lemma HopConstant_roundtrip_witness:
  "let h = \<lparr>h_im = 5, h_is = 0xE, h_s = 1, h_loc = 0xD1, h_dm = 3, h_ds = 7, h_dupin = 0, h_dupdn = 1\<rparr>
   in parseHopConstant False (snd (formHopConstant h 0)) = Some h"
  using HopConstant_roundtrip [of "\<lparr>h_im = 5, h_is = 0xE, h_s = 1, h_loc = 0xD1, h_dm = 3, h_ds = 7,
    h_dupin = 0, h_dupdn = 1\<rparr>" 0 0 False] by (simp add: hop_ok_def)

section \<open>The memory as an array of words\<close>

definition core_ok :: "lvdc \<Rightarrow> bool" where
  "core_ok st \<longleftrightarrow> (\<forall>m s l.
     (core st m s 2 l = -1 \<or> word26 (core st m s 2 l) \<and> core st m s 0 l = -1 \<and> core st m s 1 l = -1) \<and>
     (core st m s 0 l = -1 \<or> uint (core st m s 0 l) < 2 ^ 13) \<and>
     (core st m s 1 l = -1 \<or> uint (core st m s 1 l) < 2 ^ 13))"

definition filled :: "cint \<Rightarrow> cint" where
  "filled v = (if v = -1 then 0 else v)"

text \<open>The word of a location; \<open>None\<close> if nothing was ever there.  An empty half counts as 0.\<close>

definition word_at :: "lvdc \<Rightarrow> u8 \<Rightarrow> u8 \<Rightarrow> u8 \<Rightarrow> cint option" where
  "word_at st m s l =
     (if core st m s 2 l \<noteq> -1 then Some (core st m s 2 l)
      else if core st m s 0 l = -1 \<and> core st m s 1 l = -1 then None
      else Some (shl 13 (filled (core st m s 1 l)) OR filled (core st m s 0 l)))"

text \<open>The instruction in syllable \<open>y\<close> of a word.\<close>

definition half :: "u8 \<Rightarrow> cint \<Rightarrow> u16" where
  "half y w = ucast ((if y = 1 then sar 13 w else w) AND 0x1FFF)"

text \<open>Where an operand lies: with the residual bit it is in sector 17.\<close>

definition resolved :: "lvdc \<Rightarrow> u8 \<Rightarrow> u8 \<Rightarrow> u8 \<Rightarrow> u8 \<times> u8" where
  "resolved st m r s = (if r = 0 then (m, s) else (if ptc st then 0 else m, 0xF))"

lemma i16_minus_1 [simp]: "i16_of_int (- 1) = - 1"
  by (rule i16_eqI) simp

lemma fetchData_word_at:
  assumes "core_ok st" "r = 0 \<or> ptc st \<or> l \<noteq> 0xFD"
  shows "fst (fetchData m r s l st) =
    (case word_at st (fst (resolved st m r s)) (snd (resolved st m r s)) l of
       None \<Rightarrow> if ptc st then Some 0 else None | Some w \<Rightarrow> Some w)"
proof -
  let ?m = "fst (resolved st m r s)" and ?s = "snd (resolved st m r s)"
  have r: "?m = (if r \<noteq> 0 \<and> ptc st then 0 else m)" "?s = (if r \<noteq> 0 then 0xF else s)"
    by (simp_all add: resolved_def)
  have c0: "core st ?m ?s 0 l = -1 \<or> uint (core st ?m ?s 0 l) < 2 ^ 13"
    and c1: "core st ?m ?s 1 l = -1 \<or> uint (core st ?m ?s 1 l) < 2 ^ 13"
    using assms(1) unfolding core_ok_def by blast+
  have small: "i16_of_int v = -1 \<longleftrightarrow> v = -1" "v \<noteq> -1 \<Longrightarrow> int_of_i16 (i16_of_int v) = v"
    if v: "v = -1 \<or> uint v < 2 ^ 13" for v :: cint
  proof -
    have "i16_of_int v \<noteq> -1 \<and> int_of_i16 (i16_of_int v) = v" if "v \<noteq> -1"
    proof -
      have b: "\<not> bit v n" if "13 \<le> n" for n
        using v \<open>v \<noteq> -1\<close> that uint_lt_iff_bits [of v 13] by auto
      then have "\<not> bit (i16_of_int v) 15" by simp
      moreover have "bit (- 1 :: i16) 15" by simp
      ultimately have "i16_of_int v \<noteq> -1" by metis
      moreover have "int_of_i16 (i16_of_int v) = v"
        by (rule cint_eqI) (use b in \<open>auto simp: bit_simps min_def\<close>)
      ultimately show ?thesis by simp
    qed
    then show "i16_of_int v = -1 \<longleftrightarrow> v = -1" "v \<noteq> -1 \<Longrightarrow> int_of_i16 (i16_of_int v) = v"
      by auto
  qed
  have add: "shl 13 a + b = shl 13 a OR b" if "uint b < 2 ^ 13" for a b :: cint
  proof (rule disjunctive_add)
    fix n show "\<not> bit (shl 13 a) n \<or> \<not> bit b n"
      using that uint_lt_iff_bits [of b 13] by (auto simp: bit_simps)
  qed
  have z: "uint (filled v) < 2 ^ 13" if "v = -1 \<or> uint v < 2 ^ 13" for v
    using that by (auto simp: filled_def)
  have g: "(r \<noteq> 0 \<and> \<not> ptc st \<and> l = 0xFD) = False" using assms(2) by auto
  let ?c0 = "core st ?m ?s 0 l" and ?c1 = "core st ?m ?s 1 l"
  have e: "fst (fetchData m r s l st) =
      (if core st ?m ?s 2 l \<noteq> -1 then Some (core st ?m ?s 2 l)
       else if i16_of_int ?c0 = -1 \<and> i16_of_int ?c1 = -1 then if ptc st then Some 0 else None
       else Some (shl 13 (int_of_i16 (if i16_of_int ?c1 = -1 then 0 else i16_of_int ?c1)) +
                  int_of_i16 (if i16_of_int ?c0 = -1 then 0 else i16_of_int ?c0)))"
    unfolding r fetchData_def g if_False by (simp add: Let_def)
  have v: "int_of_i16 (if i16_of_int v = -1 then 0 else i16_of_int v) = filled v"
    if "v = -1 \<or> uint v < 2 ^ 13" for v
    using small [OF that] by (simp add: filled_def)
  show ?thesis
    unfolding e unfolding v [OF c0] v [OF c1] unfolding add [OF z [OF c0]] small(1) [OF c0] small(1) [OF c1]
    by (simp add: word_at_def)
qed

text \<open>The half of a word of two instructions.\<close>

lemma half_join:
  assumes "uint a < 2 ^ 13" "uint b < 2 ^ 13"
  shows "half 1 (shl 13 a OR b) = ucast a" "half 0 (shl 13 a OR b) = ucast b"
proof -
  have h: "\<not> bit a n" "\<not> bit b n" if "13 \<le> n" for n
    using assms that uint_lt_iff_bits [of a 13] uint_lt_iff_bits [of b 13] by auto
  show "half 1 (shl 13 a OR b) = ucast a" "half 0 (shl 13 a OR b) = ucast b"
    unfolding half_def by (rule i16_eqI; use h in \<open>auto simp: bit_simps mask_bits not_le [symmetric]\<close>)+
qed

lemma fetchInstruction_word_at:
  assumes "core_ok st" "y = 0 \<or> y = 1"
  shows "fst (fetchInstruction m s y l st) =
    (if core st m s 2 l = -1 \<and> core st m s y l = -1 then None
     else map_option (half y) (word_at st m s l))"
proof -
  have c: "core st m s 2 l = -1 \<or> word26 (core st m s 2 l) \<and> core st m s 0 l = -1 \<and> core st m s 1 l = -1"
    "core st m s 0 l = -1 \<or> uint (core st m s 0 l) < 2 ^ 13"
    "core st m s 1 l = -1 \<or> uint (core st m s 1 l) < 2 ^ 13"
    using assms(1) unfolding core_ok_def by blast+
  have f: "uint (filled (core st m s 0 l)) < 2 ^ 13" "uint (filled (core st m s 1 l)) < 2 ^ 13"
    using c(2,3) by (auto simp: filled_def)
  have e: "fst (fetchInstruction m s y l st) =
      (if core st m s y l \<noteq> -1 then Some (ucast (core st m s y l))
       else if core st m s 2 l = -1 then None else Some (half y (core st m s 2 l)))"
    by (simp add: fetchInstruction_def Let_def half_def)
  have "filled v = v" if "v \<noteq> -1" for v using that by (simp add: filled_def)
  then show ?thesis
    unfolding e using assms(2) c(1) half_join [OF f(2,1)] by (auto simp: word_at_def)
qed

definition put_word :: "u8 \<Rightarrow> u8 \<Rightarrow> u8 \<Rightarrow> cint \<Rightarrow> (u8 \<Rightarrow> u8 \<Rightarrow> u8 \<Rightarrow> cint option) \<Rightarrow> u8 \<Rightarrow> u8 \<Rightarrow> u8 \<Rightarrow> cint option" where
  "put_word m s l v mem = (\<lambda>m' s' l'. if m' = m \<and> s' = s \<and> l' = l then Some v else mem m' s' l')"

lemma storeData_word_at:
  assumes "core_ok st" "word26 d" "word26 (hopSaver st)" "r = 0 \<or> l \<noteq> 0xFD"
  shows "word_at (storeData m r s l d st) =
      put_word (fst (resolved st m r s)) (snd (resolved st m r s)) l
        (if r \<noteq> 0 \<and> 0xFE \<le> l then hopSaver st else d) (word_at st)"
    and "core_ok (storeData m r s l d st)"
proof -
  let ?m = "fst (resolved st m r s)" and ?s = "snd (resolved st m r s)"
  let ?d = "if r \<noteq> 0 \<and> (l = 0xFE \<or> l = 0xFF) then hopSaver st else d"
  have l: "0xFE \<le> l \<longleftrightarrow> l = 0xFE \<or> l = 0xFF"
    using uint_lt2p [of l] by (auto simp: word_le_def word_uint_eq_iff)
  have r: "?m = (if r \<noteq> 0 \<and> ptc st then 0 else m)" "?s = (if r \<noteq> 0 then 0xF else s)"
    by (simp_all add: resolved_def)
  have d: "word26 ?d" using assms(2,3) by simp
  have "w \<noteq> -1" if "word26 w" for w
    using that by (auto simp: unsigned_minus_1_eq_mask mask_eq_exp_minus_1)
  from this [OF d] have n: "?d \<noteq> -1" .
  have g: "(r \<noteq> 0 \<and> l = 0xFD) = False" using assms(4) by auto
  have k: "core (set_core a b y k v st) a' b' y' k' =
      (if a' = a \<and> b' = b \<and> y' = y \<and> k' = k then v else core st a' b' y' k')" for a b y k v st a' b' y' k'
    by (simp add: set_core_def)
  have e: "core (storeData m r s l d st) = core (if core st ?m ?s 1 l \<noteq> -1 \<or> core st ?m ?s 0 l \<noteq> -1
      then set_core ?m ?s 0 l (-1) (set_core ?m ?s 1 l (-1) (set_core ?m ?s 2 l ?d st))
      else set_core ?m ?s 2 l ?d st)"
    unfolding r storeData_def Let_def g if_False by (simp add: set_core_def)
  have c: "core (storeData m r s l d st) m' s' y l' =
      (if m' = ?m \<and> s' = ?s \<and> l' = l
       then if y = 2 then ?d else if y = 0 \<or> y = 1 then -1 else core st m' s' y l'
       else core st m' s' y l')" for m' s' y l'
    unfolding e by (simp add: k)
  show "word_at (storeData m r s l d st) = put_word ?m ?s l (if r \<noteq> 0 \<and> 0xFE \<le> l then hopSaver st else d) (word_at st)"
  proof (intro ext)
    fix m' s' l'
    show "word_at (storeData m r s l d st) m' s' l' =
        put_word ?m ?s l (if r \<noteq> 0 \<and> 0xFE \<le> l then hopSaver st else d) (word_at st) m' s' l'"
    proof (cases "m' = ?m \<and> s' = ?s \<and> l' = l")
      case True
      then show ?thesis unfolding l word_at_def put_word_def c using n by simp
    next
      case False
      show ?thesis unfolding word_at_def put_word_def c if_not_P [OF False] by (rule refl)
    qed
  qed
  show "core_ok (storeData m r s l d st)"
    unfolding core_ok_def
  proof (intro allI)
    fix m' s' l'
    show "(core (storeData m r s l d st) m' s' 2 l' = -1 \<or> word26 (core (storeData m r s l d st) m' s' 2 l') \<and>
         core (storeData m r s l d st) m' s' 0 l' = -1 \<and> core (storeData m r s l d st) m' s' 1 l' = -1) \<and>
      (core (storeData m r s l d st) m' s' 0 l' = -1 \<or> uint (core (storeData m r s l d st) m' s' 0 l') < 2 ^ 13) \<and>
      (core (storeData m r s l d st) m' s' 1 l' = -1 \<or> uint (core (storeData m r s l d st) m' s' 1 l') < 2 ^ 13)"
    proof (cases "m' = ?m \<and> s' = ?s \<and> l' = l")
      case True
      then show ?thesis unfolding c using d by simp
    next
      case False
      then show ?thesis unfolding c if_not_P [OF False] using assms(1) unfolding core_ok_def by blast
    qed
  qed
qed

text \<open>C4: The memory is an array of words (\<open>word_at\<close>).  \<open>storeData\<close> changes exactly the word that the
  operand names, where the residual bit selects sector 17 (and module 0 on the PTC) and locations 376 and
  377 take the saved HOP constant instead; residual location 375 is the PQ register.  \<open>fetchData\<close> reads
  the word, and \<open>fetchInstruction\<close> the half of the word for its syllable, whether the word was stored as data or loaded as
  instructions; an empty location is 0 on the PTC and an error on the LVDC.  No location ever holds data and
  instructions at once.\<close>

theorem memory_refines:
  assumes "core_ok st" "word26 d" "word26 (hopSaver st)"
  shows "case resolved st m r s of (M, S) \<Rightarrow>
    (r = 0 \<or> l \<noteq> 0xFD \<longrightarrow> core_ok (storeData m r s l d st) \<and>
       word_at (storeData m r s l d st) =
         put_word M S l (if r \<noteq> 0 \<and> 0xFE \<le> l then hopSaver st else d) (word_at st)) \<and>
    (r \<noteq> 0 \<longrightarrow> storeData m r s 0xFD d st = st\<lparr>dataOverwritesInstructionMemory := False, pq := d\<rparr> \<and>
       (\<not> ptc st \<longrightarrow> fst (fetchData m r s 0xFD st) = Some (pq st))) \<and>
    (r = 0 \<or> ptc st \<or> l \<noteq> 0xFD \<longrightarrow> fst (fetchData m r s l st) =
       (case word_at st M S l of None \<Rightarrow> if ptc st then Some 0 else None | Some w \<Rightarrow> Some w)) \<and>
    (\<forall>y \<in> {0, 1}. fst (fetchInstruction m s y l st) =
       (if core st m s 2 l = -1 \<and> core st m s y l = -1 then None
        else map_option (half y) (word_at st m s l)))"
proof -
  have "storeData m r s 0xFD d st = st\<lparr>dataOverwritesInstructionMemory := False, pq := d\<rparr>"
    "\<not> ptc st \<Longrightarrow> fst (fetchData m r s 0xFD st) = Some (pq st)" if "r \<noteq> 0"
    using that by (simp_all add: storeData_def fetchData_def Let_def)
  then show ?thesis
    using storeData_word_at [OF assms, of r l m s] fetchData_word_at [OF assms(1), of r l m s]
      fetchInstruction_word_at [OF assms(1), of _ m s l]
    by (simp only: split_def) blast
qed

lemma memory_refines_witness:
  "let st = storeData 3 1 5 0x53 0x2053977 (empty_state False)
   in fst (fetchData 3 1 7 0x53 st) = Some 0x2053977 \<and>
      fst (fetchInstruction 3 0xF 1 0x53 st) = Some 0x1029"
proof -
  let ?st = "storeData 3 1 5 0x53 0x2053977 (empty_state False)"
  have e: "core_ok (empty_state False)" "word26 (hopSaver (empty_state False))" "\<not> ptc (empty_state False)"
    by (simp_all add: core_ok_def empty_state_def)
  have st: "core_ok ?st" "word_at ?st = put_word 3 0xF 0x53 0x2053977 (word_at (empty_state False))"
    using memory_refines [OF e(1) _ e(2), where d = "0x2053977" and m = 3 and r = 1 and s = 5 and l = "0x53"] e(3)
    by (simp_all add: resolved_def)
  have p: "\<not> ptc ?st" "word26 (hopSaver ?st)" "core ?st 3 0xF 2 0x53 = 0x2053977"
    by (simp_all add: storeData_def Let_def set_core_def empty_state_def)
  show ?thesis
    using memory_refines [OF st(1) _ p(2), where d = 0 and m = 3 and r = 1 and s = 7 and l = "0x53"]
      memory_refines [OF st(1) _ p(2), where d = 0 and m = 3 and r = 0 and s = "0xF" and l = "0x53"]
      p(1,3) st(2)
    by (simp add: Let_def resolved_def put_word_def half_def shift_defs)
qed

end
