(* ===== verification/LVDC_Control.thy ===== *)
theory LVDC_Control
  imports LVDC_Memory
begin

text \<open>
  Control of yaLVDC: \<open>runOneInstruction\<close> always returns, and interrupts save and restore the place of the
  program.
\<close>

unbundle bit_operations_syntax

section \<open>An instruction returns\<close>

text \<open>A pass ends without a jump, with the given number of cycles or five.\<close>

fun ends :: "cint \<Rightarrow> lv_outcome \<Rightarrow> bool" where
  "ends n (Failed st) = True"
| "ends n (Completed v st) = (deltaCycleCount v = n \<or> deltaCycleCount v = 5)"
| "ends n (Reenter d st) = False"

named_theorems ends \<open>instructions that end\<close>

lemma ends_WithData [ends]:
  "(\<And>d st. ends n (k d st)) \<Longrightarrow> ends n (WithData v residual operand k st)"
  by (simp add: WithData_def Let_def split: prod.split option.split)

lemma ends_Branch [ends]: "ends (deltaCycleCount v) (Branch residual operand v st)"
  by (simp add: Branch_def)

lemma ends_HOP [ends]: "ends (deltaCycleCount v) (lv_HOP residual operand v st)"
  unfolding lv_HOP_def by (rule ends) simp

lemma ends_MPY [ends]: "ends (deltaCycleCount v) (lv_MPY hold residual operand v st)"
  unfolding lv_MPY_def by (rule ends) (simp add: Let_def split: prod.split)

lemma ends_DIV [ends]: "ends (deltaCycleCount v) (lv_DIV residual operand v st)"
  unfolding lv_DIV_def by (rule ends) (simp add: Let_def split: prod.split)

lemma ends_Accumulate [ends]: "ends (deltaCycleCount v) (Accumulate f residual operand v st)"
  unfolding Accumulate_def by (rule ends) simp

lemma ends_PRS [ends]: "ends (deltaCycleCount v) (lv_PRS residual operand v st)"
  by (auto simp: lv_PRS_def Let_def intro: ends)

lemma ends_others [ends]:
  "ends (deltaCycleCount v) (lv_TNZ residual operand v st)"
  "ends (deltaCycleCount v) (lv_TMI residual operand v st)"
  "ends (deltaCycleCount v) (lv_STO residual operand v st)"
  "ends (deltaCycleCount v) (lv_SHF operand v st)"
  "ends (deltaCycleCount v) (lv_CDS operand v st)"
  "ends (deltaCycleCount v) (lv_CIO operand operand9 v st)"
  "ends (deltaCycleCount v) (lv_PIO a8 residual operand operand9 v st)"
  by (auto simp: lv_TNZ_def lv_TMI_def lv_STO_def lv_SHF_def lv_CDS_def lv_CIO_def lv_PIO_def Let_def
      ends_Branch split: option.split prod.split)

definition is_EXM :: "u16 \<Rightarrow> bool" where
  "is_EXM i \<longleftrightarrow> i AND 0xF = 0xE \<and> bit i 4"

lemma u8_of_int_of_u8: "u8_of_int (int_of_u8 w) = w"
  by (rule u8_eq_bitsI) simp

lemma residual_eq: "(ucast (shr 4 i AND 1) :: u8) = 1 \<longleftrightarrow> bit (i :: u16) 4"
  "(ucast (shr 4 i AND 1) :: u8) = 0 \<longleftrightarrow> \<not> bit i 4"
proof -
  have "(ucast (shr 4 i AND 1) :: u8) = of_bool (bit i 4)"
    by (rule bit_word_eqI) (auto simp: bit_simps)
  then show "(ucast (shr 4 i AND 1) :: u8) = 1 \<longleftrightarrow> bit (i :: u16) 4"
    "(ucast (shr 4 i AND 1) :: u8) = 0 \<longleftrightarrow> \<not> bit i 4" by simp_all
qed

lemma lv_Execute_ends:
  assumes "ptc st \<or> \<not> is_EXM i"
  shows "ends (deltaCycleCount v) (lv_Execute i v st)"
  using assms unfolding lv_Execute_def Let_def is_EXM_def
  by (auto simp: residual_eq intro: ends)

lemma lv_Execute_cases:
  "lv_Execute i v st = lv_EXM (ucast (shr 5 i AND 0xFF)) v st \<or> ends (deltaCycleCount v) (lv_Execute i v st)"
proof (cases "ptc st \<or> \<not> is_EXM i")
  case True
  then show ?thesis by (simp add: lv_Execute_ends)
next
  case False
  then have "lv_Execute i v st = lv_EXM (ucast (shr 5 i AND 0xFF)) v st \<or>
      lv_Execute i v st = lv_SHF (ucast (shr 5 i AND 0xFF)) v st"
    by (simp add: lv_Execute_def Let_def is_EXM_def residual_eq)
  then show ?thesis by (metis ends_others(4))
qed

lemma lv_EXM_cases:
  obtains st' where "lv_EXM operand v st = Failed st'"
  | st' i where "lv_EXM operand v st = Reenter (deltaCycleCount v + 1) st'"
      "pending (pendingInstruction st')" "pending_instruction (pendingInstruction st') = modified i operand"
  by (cases "lv_EXM operand v st")
    (auto simp: lv_EXM_def Let_def split: prod.splits option.splits if_splits)


lemma modified_not_EXM: "\<not> is_EXM (modified i operand)"
proof -
  have "\<not> bit (modified i operand) 4"
    by (simp add: modified_def bit_simps mask_bits)
  then show ?thesis by (simp add: is_EXM_def)
qed

lemma Countdown_keeps [simp]:
  "pendingInstruction (Countdown st) = pendingInstruction st" "ptc (Countdown st) = ptc st"
  "core (Countdown st) = core st" "hop (Countdown st) = hop st" "acc (Countdown st) = acc st"
  "hopSaver (Countdown st) = hopSaver st" "masterInterruptLatch (Countdown st) = masterInterruptLatch st"
  by (simp_all add: Countdown_def Let_def)

lemma lv_Fetch_delta: "lv_Fetch garbage delta st = (Some (i, v), st') \<Longrightarrow> deltaCycleCount v = delta"
  by (auto simp: lv_Fetch_def Let_def split: if_splits option.splits prod.splits)

lemma lv_Fetch_pending:
  assumes "lv_Fetch garbage delta st = (Some (i, v), st')" "pending (pendingInstruction st)"
  shows "i = pending_instruction (pendingInstruction st)"
  using assms by (auto simp: lv_Fetch_def Let_def split: if_splits option.splits prod.splits)

lemma lv_Execute_Reenter:
  assumes "lv_Execute i v st = Reenter d st'"
  shows "d = deltaCycleCount v + 1 \<and> pending (pendingInstruction st') \<and>
    \<not> is_EXM (pending_instruction (pendingInstruction st'))"
proof -
  have x: "\<not> ptc st" "is_EXM i"
    using assms lv_Execute_ends [of st i v] by auto
  let ?o = "ucast (shr 5 i AND 0xFF) :: u8"
  have "lv_EXM ?o v st = Reenter d st'" using assms lv_Execute_cases [of i v st] by auto
  then show ?thesis
    by (cases rule: lv_EXM_cases [of ?o v st]) (auto simp: modified_not_EXM)
qed

lemma lv_pass_Reenter:
  assumes "lv_pass garbage delta st = Reenter d st'"
  shows "d = delta + 1 \<and> pending (pendingInstruction st') \<and>
    \<not> is_EXM (pending_instruction (pendingInstruction st'))"
  using assms
  by (auto simp: lv_pass_def Let_def lv_Fetch_delta split: prod.splits option.splits lv_outcome.splits if_splits
      dest!: lv_Execute_Reenter)

lemma lv_pass_pending:
  assumes "pending (pendingInstruction st)" "\<not> is_EXM (pending_instruction (pendingInstruction st))"
  shows "lv_pass garbage delta st \<noteq> Reenter d st'"
proof
  assume *: "lv_pass garbage delta st = Reenter d st'"
  then obtain i v st1 where f: "lv_Fetch garbage delta (Countdown st) = (Some (i, v), st1)"
    and "lv_Execute i v (st1\<lparr>riLastInstruction := int_of_u16 i, lvdc_lastInstruction := i\<rparr>) = Reenter d st'"
    by (auto simp: lv_pass_def Let_def split: prod.splits option.splits lv_outcome.splits if_splits)
  with lv_Execute_ends [of "st1\<lparr>riLastInstruction := int_of_u16 i, lvdc_lastInstruction := i\<rparr>" i v]
  have "is_EXM i" by auto
  then show False using lv_Fetch_pending [OF f] assms by simp
qed

lemma lv_pass_Completed:
  assumes "lv_pass garbage delta st = Completed w st'"
  shows "deltaCycleCount w = delta \<or> deltaCycleCount w = 5"
proof -
  obtain i v st1 st2 where f: "lv_Fetch garbage delta (Countdown st) = (Some (i, v), st1)"
    and x: "lv_Execute i v (st1\<lparr>riLastInstruction := int_of_u16 i, lvdc_lastInstruction := i\<rparr>) = Completed w st2"
    using assms by (auto simp: lv_pass_def Let_def split: prod.splits option.splits lv_outcome.splits if_splits)
  have "lv_EXM operand v st3 \<noteq> Completed w st2" for operand st3
    by (rule lv_EXM_cases [of operand v st3]) auto
  then have "ends (deltaCycleCount v) (Completed w st2)" using x lv_Execute_cases by metis
  then show ?thesis using lv_Fetch_delta [OF f] by simp
qed

text \<open>C9: An instruction always ends.  An EXM makes \<open>runOneInstruction\<close> jump back once, to execute the
  instruction it has modified, and that instruction is never an EXM: so the function returns in every state,
  of either machine and with any value in its uninitialised variable, and an instruction that succeeds takes
  1 cycle, 2 with an EXM, or 5 (an MPH).\<close>

theorem runOneInstruction_returns:
  "\<exists>r st'. runOneInstruction garbage st = Some (r, st') \<and> r \<in> {None, Some 1, Some 2, Some 5}"
proof -
  have last: "\<exists>r st'. lv_passes garbage d s = Some (r, st') \<and> r \<in> {None, Some d, Some 5}"
    if "\<And>d' s'. lv_pass garbage d s \<noteq> Reenter d' s'" for d s
    by (subst lv_passes.simps) (use that lv_pass_Completed [of garbage d s] in \<open>cases "lv_pass garbage d s"; auto\<close>)
  show ?thesis
  proof (cases "lv_pass garbage 1 (Begin st)")
    case (Reenter d s)
    then have "d = 2" and "\<And>d' s'. lv_pass garbage 2 s \<noteq> Reenter d' s'"
      using lv_pass_Reenter [OF Reenter] lv_pass_pending [of s garbage 2] by auto
    with last [of 2 s] obtain r st' where "lv_passes garbage 2 s = Some (r, st')" "r \<in> {None, Some 2, Some 5}"
      by blast
    then show ?thesis
      using Reenter \<open>d = 2\<close> by (auto simp: runOneInstruction_def lv_passes.simps [of garbage 1])
  qed (use last [of 1 "Begin st"] in \<open>auto simp: runOneInstruction_def\<close>)
qed

section \<open>Interrupts\<close>

text \<open>The part of the state that the counters of the peripherals do not touch.\<close>

definition same_program :: "lvdc \<Rightarrow> lvdc \<Rightarrow> bool" where
  "same_program st st' \<longleftrightarrow> pendingInstruction st' = pendingInstruction st \<and> ptc st' = ptc st \<and>
     core st' = core st \<and> hop st' = hop st \<and> acc st' = acc st \<and> hopSaver st' = hopSaver st \<and>
     masterInterruptLatch st' = masterInterruptLatch st"

lemma same_program_Let:
  "same_program st a \<Longrightarrow> (\<And>x. same_program st x \<Longrightarrow> same_program st (f x)) \<Longrightarrow> same_program st (Let a f)"
  by simp

lemma same_program_Busy: "same_program st (BusyCounters st)"
  unfolding BusyCounters_def
  apply (rule same_program_Let, simp add: same_program_def Let_def)
  apply (rule same_program_Let, simp add: same_program_def Let_def)
  apply (rule same_program_Let, simp add: same_program_def Let_def)
  apply (simp add: same_program_def Let_def set_cio_def)
  done

lemma Begin_keeps [simp]:
  "pendingInstruction (Begin st) = pendingInstruction st" "ptc (Begin st) = ptc st"
  "core (Begin st) = core st" "hop (Begin st) = hop st" "acc (Begin st) = acc st"
  "hopSaver (Begin st) = hopSaver st" "masterInterruptLatch (Begin st) = masterInterruptLatch st"
  using same_program_Busy [of "st\<lparr>pioChange := -1, cioChange := -1, prsChange := -1, lastHop := -1,
    riLastHOP := hop st\<rparr>"]
  by (simp_all add: Begin_def Let_def same_program_def)

lemma fetchData_cong:
  assumes "core st = core st'" "ptc st = ptc st'" "l \<noteq> 0xFD"
  shows "fetchData m r s l st = fetchData m r s l st'"
  unfolding fetchData_def assms(1,2) using assms(3) by simp

lemma fetchInstruction_cong:
  assumes "core st = core st'"
  shows "fetchInstruction m s y l st = fetchInstruction m s y l st'"
  unfolding fetchInstruction_def assms by (rule refl)

text \<open>An instruction that completes in its first pass.\<close>

lemma runOne_Completed:
  assumes "lv_Fetch garbage 1 (Countdown (Begin st)) = (Some (i, v), s)"
    and "lv_Execute i v (s\<lparr>riLastInstruction := int_of_u16 i, lvdc_lastInstruction := i\<rparr>) = Completed w s'"
    and "isHOP w \<or> hop_ok ((rawHopStructure w)\<lparr>h_s := u8_of_int (nextS w)\<rparr>)"
  obtains st' where "runOneInstruction garbage st = Some (Some (deltaCycleCount w), st')"
    "core st' = core s'" "acc st' = acc s'" "ptc st' = ptc s'" "pendingInstruction st' = pendingInstruction s'"
    "masterInterruptLatch st' = masterInterruptLatch s'" "isHOP w \<Longrightarrow> hop st' = hop s'"
    "\<And>c. formHopConstant ((rawHopStructure v)\<lparr>h_loc := u8_of_int (saveLOC w)\<rparr>) (hopSaver s') = (True, c)
      \<Longrightarrow> hopSaver st' = c"
proof -
  obtain c where c: "isHOP w \<or> formHopConstant ((rawHopStructure w)\<lparr>h_loc := u8_of_int (nextLOC w),
      h_s := u8_of_int (nextS w)\<rparr>) (hop s') = (True, c)"
    using assms(3) parse_form [of "(rawHopStructure w)\<lparr>h_loc := u8_of_int (nextLOC w), h_s := u8_of_int (nextS w)\<rparr>" "hop s'"]
    by (auto simp: hop_ok_def)
  obtain b e where e: "formHopConstant ((rawHopStructure v)\<lparr>h_loc := u8_of_int (saveLOC w)\<rparr>) (hopSaver s') = (b, e)"
    by (cases "formHopConstant ((rawHopStructure v)\<lparr>h_loc := u8_of_int (saveLOC w)\<rparr>) (hopSaver s')")
  let ?hop = "if isHOP w then hop s' else c"
  have p: "lv_pass garbage 1 (Begin st) =
      Completed w (s'\<lparr>hop := ?hop, hopSaver := (if b then e else -1), rtcDivider := rtcDivider s' + deltaCycleCount w\<rparr>)"
    using c e by (cases "isHOP w") (simp_all add: lv_pass_def assms(1,2))
  show thesis
    by (rule that [of "s'\<lparr>hop := ?hop, hopSaver := (if b then e else -1), rtcDivider := rtcDivider s' + deltaCycleCount w\<rparr>"])
      (use e in \<open>simp_all add: runOneInstruction_def lv_passes.simps [of garbage 1] p\<close>)
qed

lemma hop_ok_loc [simp]: "hop_ok (h\<lparr>h_loc := l\<rparr>) = hop_ok h"
  by (simp add: hop_ok_def)

text \<open>A HOP with an operand of the residual sector.\<close>

definition residual_HOP :: "u8 \<Rightarrow> u16" where
  "residual_HOP l = 0x10 OR shl 5 (ucast l)"

lemma residual_HOP_fields:
  "residual_HOP l AND 0xF = 0" "(ucast (shr 4 (residual_HOP l) AND 1) :: u8) = 1"
  "(ucast (shr 5 (residual_HOP l) AND 0xFF) :: u8) = l"
proof -
  show "residual_HOP l AND 0xF = 0"
    by (rule i16_eqI) (auto simp: residual_HOP_def bit_simps mask_bits)
  show "(ucast (shr 4 (residual_HOP l) AND 1) :: u8) = 1"
    unfolding residual_eq by (simp add: residual_HOP_def bit_simps)
  show "(ucast (shr 5 (residual_HOP l) AND 0xFF) :: u8) = l"
    by (rule u8_eq_bitsI) (simp_all add: residual_HOP_def bit_simps mask_bits)
qed

lemma lv_Execute_residual_HOP: "lv_Execute (residual_HOP l) v st = lv_HOP 1 l v st"
  by (simp add: lv_Execute_def Let_def residual_HOP_fields)

lemma interrupt_HOP:
  assumes "uint n < 0x100"
  shows "i16_of_int (0x10 OR shl 5 n) = residual_HOP (u8_of_int n)"
proof -
  have "\<not> bit n k" if "8 \<le> k" for k using assms that uint_lt_iff_bits [of n 8] by simp
  then show ?thesis
    by (intro i16_eqI) (auto simp: residual_HOP_def bit_simps mask_bits not_le [symmetric])
qed

lemma runOne_HOP:
  assumes "lv_Fetch garbage 1 (Countdown (Begin st)) = (Some (residual_HOP l, v), s)"
    and "\<not> isHOP v" "deltaCycleCount v = 1" "l \<noteq> 0xFD"
    and "fst (fetchData (h_dm (hopStructure v)) 1 (h_ds (hopStructure v)) l st) = Some c"
    and "core s = core st" "ptc s = ptc st" "acc s = acc st"
    and "formHopConstant ((rawHopStructure v)\<lparr>h_loc := u8_of_int (nextLOC v)\<rparr>) (hopSaver s) = (True, d)"
  obtains st' where "runOneInstruction garbage st = Some (Some 1, st')" "hop st' = c" "hopSaver st' = d"
    "core st' = core st" "ptc st' = ptc st" "acc st' = acc st" "pendingInstruction st' = pendingInstruction s"
    "masterInterruptLatch st' = masterInterruptLatch s"
proof -
  let ?s = "s\<lparr>riLastInstruction := int_of_u16 (residual_HOP l), lvdc_lastInstruction := residual_HOP l\<rparr>"
  let ?v = "v\<lparr>isHOP := True, saveLOC := nextLOC v\<rparr>"
  let ?f = "snd (fetchData (h_dm (hopStructure v)) 1 (h_ds (hopStructure v)) l st)"
  have f: "fetchData (h_dm (hopStructure v)) 1 (h_ds (hopStructure v)) l (?s\<lparr>inhibitInterruptCycles := 1\<rparr>) = (Some c, ?f)"
    using fetchData_cong [of st "?s\<lparr>inhibitInterruptCycles := 1\<rparr>" l "h_dm (hopStructure v)" 1 "h_ds (hopStructure v)"]
      assms(4-7) by (simp add: prod_eq_iff)
  have x: "lv_Execute (residual_HOP l) v ?s = Completed ?v (?s\<lparr>inhibitInterruptCycles := 1,
      dataFromInstructionMemory := ?f, lastHop := hop s, hop := c\<rparr>)"
    unfolding lv_Execute_residual_HOP lv_HOP_def WithData_def f by simp
  show thesis
    by (rule runOne_Completed [OF assms(1) x]) (use assms(3,6-9) in \<open>auto intro: that\<close>)
qed

lemma lv_Fetch_next:
  assumes "\<not> pending (pendingInstruction st)" "parseHopConstant (ptc st) (hop st) = Some h"
    and "fst (fetchInstruction (h_im h) (h_is h) (h_s h) (h_loc h) st) = Some i"
  obtains v s where "lv_Fetch garbage 1 (Countdown (Begin st)) = (Some (i, v), s)" "hopStructure v = h"
    "rawHopStructure v = h" "nextS v = int_of_u8 (h_s h)" "\<not> isHOP v" "deltaCycleCount v = 1"
    "core s = core st" "ptc s = ptc st" "acc s = acc st" "hopSaver s = hopSaver st"
    "pendingInstruction s = pendingInstruction st" "masterInterruptLatch s = masterInterruptLatch st"
proof -
  have f: "fetchInstruction (h_im h) (h_is h) (h_s h) (h_loc h) (Countdown (Begin st)) =
      (Some i, snd (fetchInstruction (h_im h) (h_is h) (h_s h) (h_loc h) st))"
    using fetchInstruction_cong [of "Countdown (Begin st)" st "h_im h" "h_is h" "h_s h" "h_loc h"] assms(3)
    by (simp add: prod_eq_iff)
  show thesis
    by (rule that [of "\<lparr>hopStructure = h, rawHopStructure = h,
       nextLOC = (if h_loc h \<noteq> 0xFF then int_of_u8 (h_loc h) + 1 else int_of_u8 (h_loc h)),
       nextS = int_of_u8 (h_s h), saveLOC = garbage, isHOP = False, deltaCycleCount = 1\<rparr>"
       "(Countdown (Begin st))\<lparr>instructionFromDataMemory :=
         snd (fetchInstruction (h_im h) (h_is h) (h_s h) (h_loc h) st)\<rparr>"])
      (simp_all add: lv_Fetch_def assms f)
qed

lemma fetch_saved:
  assumes "word26 (hopSaver st)"
  shows "fst (fetchData m 1 s 0xFE (storeData m 1 s 0xFE d st)) = Some (hopSaver st)"
proof -
  have "hopSaver st \<noteq> -1"
    using assms by (auto simp: unsigned_minus_1_eq_mask mask_eq_exp_minus_1)
  then show ?thesis by (simp add: storeData_def fetchData_def Let_def set_core_def)
qed

lemma storeData_keeps [simp]:
  "acc (storeData m r s l d st) = acc st" "ptc (storeData m r s l d st) = ptc st"
  "pendingInstruction (storeData m r s l d st) = pendingInstruction st"
  "masterInterruptLatch (storeData m r s l d st) = masterInterruptLatch st"
  by (simp_all add: storeData_def Let_def set_core_def)

text \<open>STO 776 saves the HOP constant of the last branch.\<close>

lemma runOne_STO776:
  assumes "\<not> pending (pendingInstruction st)" "parseHopConstant (ptc st) (hop st) = Some h"
    and "fst (fetchInstruction (h_im h) (h_is h) (h_s h) (h_loc h) st) = Some 0x1FDB"
    and "word26 (hopSaver st)"
  obtains st' where "runOneInstruction garbage st = Some (Some 1, st')"
    "fst (fetchData (h_dm h) 1 (h_ds h) 0xFE st') = Some (hopSaver st)" "ptc st' = ptc st" "acc st' = acc st"
proof -
  obtain v s where f: "lv_Fetch garbage 1 (Countdown (Begin st)) = (Some (0x1FDB, v), s)"
    and v: "hopStructure v = h" "rawHopStructure v = h" "nextS v = int_of_u8 (h_s h)" "\<not> isHOP v" "deltaCycleCount v = 1"
    and s: "core s = core st" "ptc s = ptc st" "acc s = acc st" "hopSaver s = hopSaver st"
    by (rule lv_Fetch_next [OF assms(1-3)])
  let ?s = "s\<lparr>riLastInstruction := int_of_u16 0x1FDB, lvdc_lastInstruction := 0x1FDB\<rparr>"
  have x: "lv_Execute 0x1FDB v ?s = Completed v (storeData (h_dm h) 1 (h_ds h) 0xFE (acc s) ?s)"
    by (simp add: lv_Execute_def lv_STO_def v shift_defs)
  have w: "hop_ok ((rawHopStructure v)\<lparr>h_s := u8_of_int (nextS v)\<rparr>)"
    using parseHop_ok [OF assms(2)] by (simp add: v hop_ok_def u8_less_bits)
  have "word26 (hopSaver ?s)" using assms(4) s(4) by simp
  from fetch_saved [OF this, of "h_dm h" "h_ds h" "acc s"]
  have y: "fst (fetchData (h_dm h) 1 (h_ds h) 0xFE (storeData (h_dm h) 1 (h_ds h) 0xFE (acc s) ?s)) = Some (hopSaver st)"
    using s(4) by simp
  show thesis
  proof (rule runOne_Completed [OF f x])
    show "isHOP v \<or> hop_ok ((rawHopStructure v)\<lparr>h_s := u8_of_int (nextS v)\<rparr>)" using w by simp
    fix st'
    assume "runOneInstruction garbage st = Some (Some (deltaCycleCount v), st')"
      and c: "core st' = core (storeData (h_dm h) 1 (h_ds h) 0xFE (acc s) ?s)"
        "ptc st' = ptc (storeData (h_dm h) 1 (h_ds h) 0xFE (acc s) ?s)"
      and "acc st' = acc (storeData (h_dm h) 1 (h_ds h) 0xFE (acc s) ?s)"
    then show thesis
      using y fetchData_cong [OF c, where l = "0xFE" and m = "h_dm h" and r = 1 and s = "h_ds h"] s v
      by (intro that [of st']) simp_all
  qed
qed

lemma runOne_interrupt:
  assumes "masterInterruptLatch st = 1" "inhibitInterruptCycles st = 0" "uint (pendingInterruptIndex st) < 16"
    and "word26 (hop st)" "parseHopConstant (ptc st) (hop st) = Some h"
    and "fst (fetchData (h_dm h) 1 (h_ds h) (u8_of_int (pendingInterruptIndex st)) st) = Some c"
  obtains st' where "runOneInstruction garbage (checkForInterrupts st) = Some (Some 1, st')"
    "hop st' = c" "hopSaver st' = hop st" "core st' = core st" "ptc st' = ptc st" "acc st' = acc st"
    "\<not> pending (pendingInstruction st')" "masterInterruptLatch st' = 2"
proof -
  let ?i = "u8_of_int (pendingInterruptIndex st)"
  let ?st = "checkForInterrupts st"
  have i: "i16_of_int (0x10 OR shl 5 (pendingInterruptIndex st)) = residual_HOP ?i"
    by (rule interrupt_HOP) (use assms(3) in simp)
  have st: "?st = st\<lparr>masterInterruptLatch := 2, pendingInstruction :=
      \<lparr>pending = True, nextHop = hop st, pendingHop = hop st, pending_instruction = residual_HOP ?i\<rparr>\<rparr>"
    using assms(1,2) i by (simp add: checkForInterrupts_def)
  have "?i \<noteq> 0xFD"
  proof
    assume "?i = 0xFD"
    then have "bit ?i 7" by simp
    then show False using assms(3) uint_lt_iff_bits [of "pendingInterruptIndex st" 4] by simp
  qed
  have "fetchData (h_dm h) 1 (h_ds h) ?i ?st = fetchData (h_dm h) 1 (h_ds h) ?i st"
    by (rule fetchData_cong) (simp_all add: st \<open>?i \<noteq> 0xFD\<close>)
  then have d: "fst (fetchData (h_dm h) 1 (h_ds h) ?i ?st) = Some c" using assms(6) by simp
  define v where "v = \<lparr>hopStructure = h, rawHopStructure = h, nextLOC = int_of_u8 (h_loc h),
      nextS = int_of_u8 (h_s h), saveLOC = garbage, isHOP = False, deltaCycleCount = 1\<rparr>"
  define s where "s = (Countdown (Begin ?st))\<lparr>pendingInstruction := (pendingInstruction ?st)\<lparr>pending := False\<rparr>,
      hop := hop st\<rparr>"
  have p: "pendingInstruction ?st = \<lparr>pending = True, nextHop = hop st, pendingHop = hop st,
      pending_instruction = residual_HOP ?i\<rparr>"
    and k: "ptc ?st = ptc st" "core ?st = core st" "acc ?st = acc st" "masterInterruptLatch ?st = 2"
      "hopSaver ?st = hopSaver st"
    by (simp_all add: st)
  have f: "lv_Fetch garbage 1 (Countdown (Begin ?st)) = (Some (residual_HOP ?i, v), s)"
    by (simp add: lv_Fetch_def p k assms(5) v_def s_def)
  have e: "formHopConstant ((rawHopStructure v)\<lparr>h_loc := u8_of_int (nextLOC v)\<rparr>) (hopSaver s) = (True, hop st)"
    using form_parse [OF assms(5,4)] by (simp add: v_def u8_of_int_of_u8)
  have v: "\<not> isHOP v" "deltaCycleCount v = 1" "hopStructure v = h"
    and s: "core s = core ?st" "ptc s = ptc ?st" "acc s = acc ?st" "\<not> pending (pendingInstruction s)"
      "masterInterruptLatch s = 2"
    by (simp_all add: v_def s_def p k)
  show thesis
    by (rule runOne_HOP [OF f v(1,2) \<open>?i \<noteq> 0xFD\<close> d [folded v(3)] s(1-3) e])
      (rule that; simp add: k s)
qed

lemma runOne_HOP776:
  assumes "\<not> pending (pendingInstruction st)" "parseHopConstant (ptc st) (hop st) = Some h"
    and "fst (fetchInstruction (h_im h) (h_is h) (h_s h) (h_loc h) st) = Some 0x1FD0"
    and "fst (fetchData (h_dm h) 1 (h_ds h) 0xFE st) = Some c"
  obtains st' where "runOneInstruction garbage st = Some (Some 1, st')" "hop st' = c" "core st' = core st" "acc st' = acc st"
proof -
  have i: "0x1FD0 = residual_HOP 0xFE" by (simp add: residual_HOP_def shift_defs)
  obtain v s where f: "lv_Fetch garbage 1 (Countdown (Begin st)) = (Some (0x1FD0, v), s)"
    and v: "hopStructure v = h" "rawHopStructure v = h" "\<not> isHOP v" "deltaCycleCount v = 1"
    and s: "core s = core st" "ptc s = ptc st" "acc s = acc st"
    by (rule lv_Fetch_next [OF assms(1-3)])
  obtain d where "formHopConstant ((rawHopStructure v)\<lparr>h_loc := u8_of_int (nextLOC v)\<rparr>) (hopSaver s) = (True, d)"
    using parse_form [of "h\<lparr>h_loc := u8_of_int (nextLOC v)\<rparr>" "hopSaver s"] parseHop_ok [OF assms(2)] v by auto
  then show thesis
    by (rule runOne_HOP [OF f [unfolded i] v(3,4) _ _ s, rotated 2]) (use assms(4) v(1) in \<open>simp_all add: that\<close>)
qed

text \<open>C13: An interrupt saves and restores the place of the program.  When an interrupt is latched and not
  inhibited, the next instruction is a HOP to the constant in residual location 0 to 17 of sector 17 that
  belongs to the interrupt, whatever instruction was to be executed: the constant becomes the new HOP register,
  the old one is the saved HOP constant, the accumulator and the memory are unchanged and no further interrupt
  is taken (the latch is 2).  If the handler begins with STO 776, the old HOP register is then in residual
  location 376, and a later HOP 776 that finds it there resumes the program exactly where it was interrupted.\<close>

theorem interrupt_saves_and_returns:
  assumes "masterInterruptLatch st = 1" "inhibitInterruptCycles st = 0" "uint (pendingInterruptIndex st) < 16"
    and "word26 (hop st)" "parseHopConstant (ptc st) (hop st) = Some h"
    and "fst (fetchData (h_dm h) 1 (h_ds h) (u8_of_int (pendingInterruptIndex st)) st) = Some c"
    and "parseHopConstant (ptc st) c = Some k"
    and "fst (fetchInstruction (h_im k) (h_is k) (h_s k) (h_loc k) st) = Some 0x1FDB"
  shows "\<exists>st1 st2. runOneInstruction g (checkForInterrupts st) = Some (Some 1, st1) \<and>
    hop st1 = c \<and> hopSaver st1 = hop st \<and> core st1 = core st \<and> acc st1 = acc st \<and>
    checkForInterrupts st1 = st1 \<and> runOneInstruction g' st1 = Some (Some 1, st2) \<and> acc st2 = acc st \<and>
    fst (fetchData (h_dm k) 1 (h_ds k) 0xFE st2) = Some (hop st) \<and>
    (\<forall>st3 j. \<not> pending (pendingInstruction st3) \<and> parseHopConstant (ptc st3) (hop st3) = Some j \<and>
       fst (fetchInstruction (h_im j) (h_is j) (h_s j) (h_loc j) st3) = Some 0x1FD0 \<and>
       fst (fetchData (h_dm j) 1 (h_ds j) 0xFE st3) = fst (fetchData (h_dm k) 1 (h_ds k) 0xFE st2) \<longrightarrow>
       (\<exists>st4. runOneInstruction g'' st3 = Some (Some 1, st4) \<and> hop st4 = hop st \<and> acc st4 = acc st3))"
proof -
  obtain st1 where 1: "runOneInstruction g (checkForInterrupts st) = Some (Some 1, st1)"
    "hop st1 = c" "hopSaver st1 = hop st" "core st1 = core st" "ptc st1 = ptc st" "acc st1 = acc st"
    "\<not> pending (pendingInstruction st1)" "masterInterruptLatch st1 = 2"
    by (rule runOne_interrupt [OF assms(1-6)])
  have k: "parseHopConstant (ptc st1) (hop st1) = Some k" "word26 (hopSaver st1)"
    "fst (fetchInstruction (h_im k) (h_is k) (h_s k) (h_loc k) st1) = Some 0x1FDB"
    using 1 assms(4,7,8) fetchInstruction_cong [OF 1(4)] by simp_all
  obtain st2 where 2: "runOneInstruction g' st1 = Some (Some 1, st2)"
    "fst (fetchData (h_dm k) 1 (h_ds k) 0xFE st2) = Some (hopSaver st1)" "acc st2 = acc st1"
    by (rule runOne_STO776 [OF 1(7) k(1,3,2)])
  have "checkForInterrupts st1 = st1" using 1(8) by (simp add: checkForInterrupts_def)
  with 1 2 show ?thesis by (auto elim: runOne_HOP776)
qed

text \<open>Interrupt 3, whose handler is at location 100 of sector 2: the program is at location 23 of sector 5.\<close>

definition interrupted :: lvdc where
  "interrupted = (empty_state False)\<lparr>masterInterruptLatch := 1, pendingInterruptIndex := 3,
     hop := 0x994, core := (\<lambda>m s y l. if (m, s, y, l) = (0, 0xF, 2, 3) then 0x2008
       else if (m, s, y, l) = (0, 2, 0, 0x40) then 0x1FDB else -1)\<rparr>"

lemma interrupted_parse:
  "parseHopConstant False 0x994 = Some \<lparr>h_im = 0, h_is = 5, h_s = 0, h_loc = 0x13, h_dm = 0, h_ds = 0, h_dupin = 0, h_dupdn = 0\<rparr>"
  "parseHopConstant False 0x2008 = Some \<lparr>h_im = 0, h_is = 2, h_s = 0, h_loc = 0x40, h_dm = 0, h_ds = 0, h_dupin = 0, h_dupdn = 0\<rparr>"
  by (simp_all add: parseHopConstant_def shift_defs)

lemma interrupt_saves_and_returns_witness:
  "\<exists>st1 st2. runOneInstruction 0 (checkForInterrupts interrupted) = Some (Some 1, st1) \<and> hop st1 = 0x2008 \<and>
     hopSaver st1 = 0x994 \<and> runOneInstruction 0 st1 = Some (Some 1, st2) \<and>
     fst (fetchData 0 1 0 0xFE st2) = Some 0x994"
proof -
  have a: "masterInterruptLatch interrupted = 1" "inhibitInterruptCycles interrupted = 0"
    "pendingInterruptIndex interrupted = 3" "hop interrupted = 0x994" "ptc interrupted = False"
    by (simp_all add: interrupted_def empty_state_def)
  have f: "fst (fetchData 0 1 0 3 interrupted) = Some 0x2008"
    "fst (fetchInstruction 0 2 0 0x40 interrupted) = Some 0x1FDB"
    by (simp_all add: fetchData_def fetchInstruction_def Let_def interrupted_def empty_state_def)
  show ?thesis
    using interrupt_saves_and_returns [where st = interrupted and g = 0 and g' = 0 and c = "0x2008" and
        h = "\<lparr>h_im = 0, h_is = 5, h_s = 0, h_loc = 0x13, h_dm = 0, h_ds = 0, h_dupin = 0, h_dupdn = 0\<rparr>" and
        k = "\<lparr>h_im = 0, h_is = 2, h_s = 0, h_loc = 0x40, h_dm = 0, h_ds = 0, h_dupin = 0, h_dupdn = 0\<rparr>"]
    by (simp add: a f interrupted_parse) blast
qed

end
