(* ===== verification/LVDC_Peripherals.thy ===== *)
theory LVDC_Peripherals
  imports LVDC_Main LVDC_Memory
begin

text \<open>
  The virtual wire of yaLVDC: packets arrive complete and in order, however the stream of bytes is cut
  into receptions.
\<close>

unbundle bit_operations_syntax

section \<open>The parser as a step on its variables\<close>

type_synonym parser = "nat \<times> packet_locals \<times> u8 list \<times> wire"

text \<open>One byte of \<open>ParseInput\<close>.\<close>

fun parse1 :: "nat \<Rightarrow> u8 \<Rightarrow> parser \<Rightarrow> parser" where
  "parse1 i c (n, v, kept, w) =
     (let firstByte = (c AND 0x80 \<noteq> 0); b = int_of_u8 c
      in if \<not> firstByte \<and> n = 0 then (0, v, [], w)
         else if firstByte \<or> n = 0 then
           (1, v\<lparr>l_isMask := (0x40 AND c \<noteq> 0), l_ioType := 7 AND sar 3 b, l_source := 7 AND b\<rparr>, [c], w)
         else if n = 1 then (2, v\<lparr>l_channel := 0x7F AND b\<rparr>, kept @ [c], w)
         else if n = 2 then
           (3, v\<lparr>l_channel := l_channel v OR (shl 2 b AND 0x180), l_value := shl 21 (b AND 0x1F)\<rparr>, kept @ [c], w)
         else if n = 3 then (4, v\<lparr>l_value := l_value v OR shl 14 b\<rparr>, kept @ [c], w)
         else if n = 4 then (5, v\<lparr>l_value := l_value v OR shl 7 b\<rparr>, kept @ [c], w)
         else (0, v\<lparr>l_value := l_value v OR b\<rparr>, [],
               HandlePacket i (l_isMask v) (l_source v) (l_ioType v) (l_channel v) (l_value v OR b) w))"

declare parse1.simps [simp del]

definition result :: "parser \<Rightarrow> u8 list \<times> wire" where
  "result p = (case p of (n, v, kept, w) \<Rightarrow> (kept, w))"

lemma ParseInput_fold:
  "ParseInput i cs n v kept w = result (fold (parse1 i) cs (n, v, kept, w))"
proof (induction i cs n v kept w rule: ParseInput.induct)
  case (1 i n v kept w)
  then show ?case by (simp add: result_def)
next
  case (2 i c cs n v kept w)
  show ?case
    unfolding ParseInput.simps(2) Let_def fold_Cons o_apply parse1.simps
    by (cases "c AND 0x80 \<noteq> 0"; cases "n = 0"; cases "n = 1"; cases "n = 2"; cases "n = 3"; cases "n = 4")
      (use 2 in \<open>simp_all add: Let_def\<close>)
qed

text \<open>The variables that matter after \<open>n\<close> bytes.\<close>

definition agree :: "nat \<Rightarrow> packet_locals \<Rightarrow> packet_locals \<Rightarrow> bool" where
  "agree n v v' \<longleftrightarrow>
     (1 \<le> n \<longrightarrow> l_isMask v = l_isMask v' \<and> l_source v = l_source v' \<and> l_ioType v = l_ioType v') \<and>
     (2 \<le> n \<longrightarrow> l_channel v = l_channel v') \<and> (3 \<le> n \<longrightarrow> l_value v = l_value v')"

lemma parse1_agree:
  assumes "agree n v v'" "parse1 i c (n, v, kept, w) = (m, u, kept', w')"
  shows "\<exists>u'. parse1 i c (n, v', kept, w) = (m, u', kept', w') \<and> agree m u u'"
  using assms unfolding parse1.simps Let_def
  by (cases "c AND 0x80 \<noteq> 0"; cases "n = 0"; cases "n = 1"; cases "n = 2"; cases "n = 3"; cases "n = 4")
    (auto simp: agree_def)

lemma fold_agree:
  assumes "agree n v v'" "fold (parse1 i) cs (n, v, kept, w) = (m, u, kept', w')"
  shows "\<exists>u'. fold (parse1 i) cs (n, v', kept, w) = (m, u', kept', w') \<and> agree m u u'"
  using assms
proof (induction cs arbitrary: n v v' kept w)
  case (Cons c cs)
  obtain n1 v1 k1 w1 where p: "parse1 i c (n, v, kept, w) = (n1, v1, k1, w1)"
    by (cases "parse1 i c (n, v, kept, w)")
  obtain v1' where "parse1 i c (n, v', kept, w) = (n1, v1', k1, w1)" "agree n1 v1 v1'"
    using parse1_agree [OF Cons.prems(1) p] by blast
  then show ?case using Cons.IH [of n1 v1 v1' k1 w1] Cons.prems(2) p by simp
qed simp

text \<open>The bytes that are kept bring the parser back to its place.\<close>

definition resumes :: "nat \<Rightarrow> nat \<Rightarrow> packet_locals \<Rightarrow> u8 list \<Rightarrow> bool" where
  "resumes i n v kept \<longleftrightarrow>
     (\<forall>w. \<exists>v'. fold (parse1 i) kept (0, no_locals, [], w) = (n, v', kept, w) \<and> agree n v v')"

lemma parse1_resumes:
  assumes "resumes i n v kept" "parse1 i c (n, v, kept, w) = (m, u, kept', w')"
  shows "resumes i m u kept'"
proof -
  consider (empty) "m = 0" "kept' = []" | (first) "kept' = [c]" "c AND 0x80 \<noteq> 0" "m = 1"
    | (more) "kept' = kept @ [c]" "w' = w" "m \<noteq> 0" "\<not> c AND 0x80 \<noteq> 0" "n \<noteq> 0" "m = n + 1" "n < 5"
    using assms(2) by (auto simp: parse1.simps Let_def split: if_splits)
  then show ?thesis
  proof cases
    case empty
    then show ?thesis by (simp add: resumes_def agree_def)
  next
    case first
    then show ?thesis
      using assms(2) by (auto simp: resumes_def agree_def parse1.simps Let_def split: if_splits)
  next
    case more
    show ?thesis
      unfolding resumes_def
    proof (intro allI)
      fix w0
      obtain v' where f: "fold (parse1 i) kept (0, no_locals, [], w0) = (n, v', kept, w0)" and a: "agree n v v'"
        using assms(1) unfolding resumes_def by blast
      have "parse1 i c (n, v, kept, w0) = (m, u, kept', w0)"
        using assms(2) more by (auto simp: parse1.simps Let_def split: if_splits)
      from parse1_agree [OF a this] f more(1)
      show "\<exists>v'. fold (parse1 i) kept' (0, no_locals, [], w0) = (m, v', kept', w0) \<and> agree m u v'"
        by simp
    qed
  qed
qed

lemma fold_resumes:
  assumes "resumes i n v kept" "fold (parse1 i) cs (n, v, kept, w) = (m, u, kept', w')"
  shows "resumes i m u kept'"
  using assms
proof (induction cs arbitrary: n v kept w)
  case (Cons c cs)
  obtain n1 v1 k1 w1 where p: "parse1 i c (n, v, kept, w) = (n1, v1, k1, w1)"
    by (cases "parse1 i c (n, v, kept, w)")
  from Cons.IH [OF parse1_resumes [OF Cons.prems(1) p]] Cons.prems(2) p show ?case by simp
qed simp

text \<open>The bytes kept from one reception are parsed again with the next ones.\<close>

lemma ParseInput_split:
  "ParseInput i (xs @ ys) 0 no_locals [] w =
     (case ParseInput i xs 0 no_locals [] w of (kept, w') \<Rightarrow> ParseInput i (kept @ ys) 0 no_locals [] w')"
proof -
  obtain n v kept w' where x: "fold (parse1 i) xs (0, no_locals, [], w) = (n, v, kept, w')"
    by (cases "fold (parse1 i) xs (0, no_locals, [], w)")
  have "resumes i 0 no_locals []" by (simp add: resumes_def agree_def)
  from fold_resumes [OF this x] obtain v' where
    k: "fold (parse1 i) kept (0, no_locals, [], w') = (n, v', kept, w')" and a: "agree n v v'"
    unfolding resumes_def by blast
  obtain m u kept2 w2 where y: "fold (parse1 i) ys (n, v, kept, w') = (m, u, kept2, w2)"
    by (cases "fold (parse1 i) ys (n, v, kept, w')")
  from fold_agree [OF a y] show ?thesis
    by (auto simp: ParseInput_fold result_def x k y)
qed

section \<open>Packets\<close>

lemma ucast_u8 [simp]: "int_of_u8 (u8_of_int v) = v AND 0xFF"
  by (rule cint_eqI) (auto simp: bit_simps mask_bits)

lemma packet_fields:
  fixes t c p :: cint
  assumes "uint t < 8" "uint c < 512" "word26 p"
  shows "7 AND sar 3 (((if m then 0xC0 else 0x80) OR (shl 3 t AND 0x38)) AND 0xFF) = t"
    "7 AND (((if m then 0xC0 else 0x80) OR (shl 3 t AND 0x38)) AND 0xFF) = (0 :: cint)"
    "0x7F AND ((c AND 0x7F) AND 0xFF) OR (shl 2 ((sar 2 (c AND 0x180) OR (sar 21 p AND 0x1F)) AND 0xFF) AND 0x180) = c"
    "((shl 21 (((sar 2 (c AND 0x180) OR (sar 21 p AND 0x1F)) AND 0xFF) AND 0x1F) OR shl 14 ((sar 14 p AND 0x7F) AND 0xFF))
       OR shl 7 ((sar 7 p AND 0x7F) AND 0xFF)) OR ((p AND 0x7F) AND 0xFF) = p"
proof -
  have t: "\<not> bit t n" if "3 \<le> n" for n using assms(1) that uint_lt_iff_bits [of t 3] by simp
  have c: "\<not> bit c n" if "9 \<le> n" for n using assms(2) that uint_lt_iff_bits [of c 9] by simp
  have p: "\<not> bit p n" if "26 \<le> n" for n using assms(3) that by (simp only: word26_bits simp_thms)
  have w: "word26 t" "word26 c" "word26 (0 :: cint)" by (simp_all add: word26_bits t c)
  show "7 AND sar 3 (((if m then 0xC0 else 0x80) OR (shl 3 t AND 0x38)) AND 0xFF) = t"
    by (rule word26_eq_bitsI [OF _ w(1)]) (simp_all add: word26_bits bit_simps mask_bits t)
  show "7 AND (((if m then 0xC0 else 0x80) OR (shl 3 t AND 0x38)) AND 0xFF) = (0 :: cint)"
    by (rule word26_eq_bitsI [OF _ w(3)]) (simp_all add: word26_bits bit_simps mask_bits t)
  show "0x7F AND ((c AND 0x7F) AND 0xFF) OR (shl 2 ((sar 2 (c AND 0x180) OR (sar 21 p AND 0x1F)) AND 0xFF) AND 0x180) = c"
    by (rule word26_eq_bitsI [OF _ w(2)]) (simp_all add: word26_bits bit_simps mask_bits c)
  show "((shl 21 (((sar 2 (c AND 0x180) OR (sar 21 p AND 0x1F)) AND 0xFF) AND 0x1F) OR shl 14 ((sar 14 p AND 0x7F) AND 0xFF))
       OR shl 7 ((sar 7 p AND 0x7F) AND 0xFF)) OR ((p AND 0x7F) AND 0xFF) = p"
    by (rule word26_eq_bitsI [OF _ assms(3)]) (simp_all add: word26_bits bit_simps mask_bits p, auto)
qed

lemma packet_bytes:
  "(u8_of_int ((if m then 0xC0 else 0x80) OR x) AND 0x80 = 0) = False"
  "u8_of_int (c AND 0x7F) AND 0x80 = 0"
  "u8_of_int (sar 2 (c AND 0x180) OR (sar 21 p AND 0x1F)) AND 0x80 = 0"
proof -
  have "bit (u8_of_int ((if m then 0xC0 else 0x80) OR x) AND 0x80) 7"
    by (simp add: bit_simps mask_bits)
  then show "(u8_of_int ((if m then 0xC0 else 0x80) OR x) AND 0x80 = 0) = False"
    by (metis bit_0_eq bot_apply bot_bool_def)
  show "u8_of_int (c AND 0x7F) AND 0x80 = 0"
    by (rule u8_eq_bitsI) (simp add: bit_simps mask_bits)
  show "u8_of_int (sar 2 (c AND 0x180) OR (sar 21 p AND 0x1F)) AND 0x80 = 0"
    by (rule u8_eq_bitsI) (simp add: bit_simps mask_bits)
qed

text \<open>The bytes of a packet one by one.\<close>

lemma ParseInput_first:
  "c AND 0x80 \<noteq> 0 \<Longrightarrow> ParseInput i (c # cs) n v kept w = ParseInput i cs 1 (v\<lparr>l_isMask := (0x40 AND c \<noteq> 0),
     l_ioType := 7 AND sar 3 (int_of_u8 c), l_source := 7 AND int_of_u8 c\<rparr>) [c] w"
  by (simp add: Let_def)

lemma ParseInput_later:
  assumes "c AND 0x80 = 0"
  shows "ParseInput i (c # cs) 1 v kept w = ParseInput i cs 2 (v\<lparr>l_channel := 0x7F AND int_of_u8 c\<rparr>) (kept @ [c]) w"
    "ParseInput i (c # cs) 2 v kept w = ParseInput i cs 3 (v\<lparr>l_channel := l_channel v OR (shl 2 (int_of_u8 c) AND 0x180),
       l_value := shl 21 (int_of_u8 c AND 0x1F)\<rparr>) (kept @ [c]) w"
    "ParseInput i (c # cs) 3 v kept w = ParseInput i cs 4 (v\<lparr>l_value := l_value v OR shl 14 (int_of_u8 c)\<rparr>) (kept @ [c]) w"
    "ParseInput i (c # cs) 4 v kept w = ParseInput i cs 5 (v\<lparr>l_value := l_value v OR shl 7 (int_of_u8 c)\<rparr>) (kept @ [c]) w"
    "ParseInput i (c # cs) 5 v kept w = ParseInput i cs 0 (v\<lparr>l_value := l_value v OR int_of_u8 c\<rparr>) []
       (HandlePacket i (l_isMask v) (l_source v) (l_ioType v) (l_channel v) (l_value v OR int_of_u8 c) w)"
  using assms by (simp_all add: Let_def)

text \<open>A packet is handled whatever came before it.\<close>

lemma ParseInput_packet:
  assumes "uint t < 8" "uint c < 512" "word26 p"
  shows "ParseInput i (lvdc_packet t c p m) n v kept w = ([], HandlePacket i m 0 t c p w)"
proof -
  let ?b0 = "(if m then 0xC0 else 0x80) OR (shl 3 t AND 0x38) :: cint"
  have m: "(0x40 AND u8_of_int ?b0 \<noteq> 0) = m"
  proof -
    have "0x40 AND u8_of_int ?b0 = (if m then 0x40 else 0)"
      by (rule u8_eq_bitsI) (simp add: bit_simps mask_bits)
    then show ?thesis by simp
  qed
  have b0: "u8_of_int ?b0 AND 0x80 \<noteq> 0" using packet_bytes(1) by simp
  note later = ParseInput_later [OF packet_bytes(2)] ParseInput_later [OF packet_bytes(3)]
  show ?thesis
    unfolding lvdc_packet_def ParseInput_first [OF b0] later m ucast_u8
    by (cases v) (simp only: packet_locals.select_convs packet_locals.update_convs packet_fields [OF assms]
        ParseInput.simps(1))
qed

lemma ParseInput_append:
  "\<exists>n' v' kept'. ParseInput i (xs @ ys) n v kept w = ParseInput i ys n' v' kept' (snd (ParseInput i xs n v kept w))"
proof -
  obtain n' v' kept' w' where "fold (parse1 i) xs (n, v, kept, w) = (n', v', kept', w')"
    by (cases "fold (parse1 i) xs (n, v, kept, w)")
  then show ?thesis by (auto simp: ParseInput_fold result_def)
qed

text \<open>C33: Packets of the virtual wire.  A packet that \<open>formatPacket\<close> makes, for a channel of 9 bits and
  a word of 26 bits, is parsed into the same i/o type, channel, word and mask flag, and handled once, whatever
  bytes came before it (the rest of a broken packet, for example) and after everything complete in them.  The
  bytes that \<open>ParseWire\<close> keeps make the result independent of how the stream is cut into receptions.\<close>

theorem wire_packets:
  assumes "uint t < 8" "uint c < 512" "word26 p"
  shows "ParseInput i (xs @ lvdc_packet t c p m) n v kept w =
      ([], HandlePacket i m 0 t c p (snd (ParseInput i xs n v kept w))) \<and>
    ParseInput i (xs @ ys) 0 no_locals [] w =
      (case ParseInput i xs 0 no_locals [] w of (kept, w') \<Rightarrow> ParseInput i (kept @ ys) 0 no_locals [] w')"
proof
  obtain n' v' kept' where "ParseInput i (xs @ lvdc_packet t c p m) n v kept w =
      ParseInput i (lvdc_packet t c p m) n' v' kept' (snd (ParseInput i xs n v kept w))"
    using ParseInput_append by blast
  then show "ParseInput i (xs @ lvdc_packet t c p m) n v kept w =
      ([], HandlePacket i m 0 t c p (snd (ParseInput i xs n v kept w)))"
    unfolding ParseInput_packet [OF assms] .
qed (rule ParseInput_split)

lemma wire_packets_witness:
  "\<forall>w. ParseInput 0 ([0x95, 0x11] @ lvdc_packet 4 0x80 0x329CBB8 False) 0 no_locals [] w =
     ([], HandlePacket 0 False 0 4 0x80 0x329CBB8 w)"
proof
  fix w
  have "snd (ParseInput 0 [0x95, 0x11] 0 no_locals [] w) = w" by (simp add: Let_def)
  then show "ParseInput 0 ([0x95, 0x11] @ lvdc_packet 4 0x80 0x329CBB8 False) 0 no_locals [] w =
     ([], HandlePacket 0 False 0 4 0x80 0x329CBB8 w)"
    using wire_packets [where t = 4 and c = "0x80" and p = "0x329CBB8" and m = False and i = 0 and
      xs = "[0x95, 0x11]" and n = 0 and v = no_locals and kept = "[]" and w = w] by simp
qed

end
