(* ===== verification/Spec2Isabelle.thy ===== *)
theory Spec2Isabelle
  imports AGC_Invariant AGS_Traces AGS_Peripherals B1_Control B1_Peripherals
    LVDC_Control LVDC_Peripherals
begin

text \<open>
  A verification development for the four processor emulators at the core of Virtual AGC.  yaAGC
  (\<open>src/yaAGC\<close>) emulates the Block II Apollo guidance computer; it is modelled in the
  configuration of its WebAssembly build: the engine with the transport of \<open>ringbuffer_api.c\<close>
  and the interface of \<open>wasm.c\<close>, without the symbol \<open>GYRO_TIMING_SIMULATED\<close>.  yaAGS
  (\<open>src/yaAGS\<close>) emulates the abort electronics assembly of the lunar module; it is modelled with
  its socket transport \<open>SocketAPI_AGS.c\<close>.  The two share the packet formats of
  \<open>agc_utilities.c\<close>.  yaAGCb1 (\<open>src/yaAGCb1\<close>) emulates the Block I guidance computer, with its
  transport \<open>SocketAPI.c\<close>, its loaders, the commands of its console and its main loop.  yaLVDC
  (\<open>src/yaLVDC\<close>) emulates the launch vehicle digital computer and the PTC, which shares its processor;
  it is modelled with its virtual wire to the peripherals, its memory files and its main loop.

  \<^bold>\<open>The program.\<close>  A host loads a rope (\<open>set_fixed\<close> or \<open>agc_load_binfile\<close>), resets the
  machine (\<open>cpu_reset\<close>), and calls \<open>cpu_step\<close>; each step runs \<open>agc_engine\<close> for a number
  of machine cycles.  A cycle updates the DSKY lamps, takes the packets that wait in
  \<open>ringbuffer_in\<close>, pays for stolen cycles, runs the scaler (clocks, alarms, restart), drives the
  platform and the optics, and then fetches and executes an instruction or takes an interrupt.
  Output of a program goes through \<open>CpuWriteIO\<close> and \<open>ChannelOutput\<close> to \<open>ringbuffer_out\<close>,
  from where \<open>packet_read\<close> takes it.

  The abort guidance computer has one loop: \<open>aea_engine\<close> handles the 20 ms signal, which also
  ends a halt, takes at most one packet from each peripheral (\<open>ChannelInputAGS\<close>) and executes
  one instruction; \<open>INP\<close> and \<open>OUT\<close> read and write the ports, and what is written goes to all
  peripherals (\<open>ChannelOutputAGS\<close>).  The keyboard (DEDA) is buffered: the emulator collects the
  nibbles after a key press before it shows the key to the program.

  The Block I emulator has one flat array for registers, erasable and fixed memory.
  \<open>executeOneInstruction\<close> fetches an instruction, may take an interrupt and start again, executes the
  instruction, and lets the timers count; \<open>RESUME\<close> jumps back into the middle of the function with
  the instruction it brings back.  The main loop calls it until the emulated time has caught up with
  the clock, and \<open>ChannelInput\<close> before each instruction.

  The launch vehicle digital computer has no program counter: the HOP register names the next
  instruction and the sector of its data, and \<open>runOneInstruction\<close> forms it anew after each instruction.
  It jumps back once for an EXM, which executes a modified copy of another instruction.  Between two
  instructions \<open>checkForInterrupts\<close> may put a HOP in the place of the next one, and
  \<open>processInterruptsAndIO\<close> carries out what a PIO, CIO or PRS has put on a channel, counts the timers
  and exchanges packets with the peripherals; the panel of the PTC may pause the computer.

  \<^bold>\<open>The theories.\<close>
  \<^item> \<open>Prelude\<close>: the integers of the C code as words, promotion and truncation, the shifts, the
    masks of the sources (collection \<open>mask_bits\<close>), bounds and signs.
  \<^item> \<open>Queues\<close>, \<open>Stores\<close>: the two contracts, as locales: a bounded first-in first-out queue
    with a list abstraction, and a store whose cells keep a normalised value.  They are interpreted
    on the ring buffer (in \<open>Ringbuffer\<close>), on a queue of CDU pulses (in \<open>AGC_CduFifo\<close>) and on
    the erasable memory (in \<open>AGC_Memory\<close>).
  \<^item> \<open>Ringbuffer\<close>: \<open>ringbuffer.c\<close>, refined to a queue of 1023 packets.
  \<^item> \<open>Packets\<close>: \<open>FormIoPacket\<close>, \<open>ParseIoPacket\<close> and their counterparts for the abort
    guidance system, from \<open>agc_utilities.c\<close>.
  \<^item> \<open>AGC_Arith\<close>: the formats (one's complement, double precision, overflow) of
    \<open>agc_engine.c\<close>; \<open>sp_val\<close>, \<open>acc_val\<close> and \<open>dp_val\<close> are the numbers that words stand for.
  \<^item> \<open>AGC_State\<close>: the structure \<open>agc_t\<close> of \<open>agc_engine.h\<close>, extended by the file-scope
    variables to the record \<open>yaagc\<close>.
  \<^item> \<open>AGC_Memory\<close>: address map, bank switching, parity, editing registers.
  \<^item> \<open>AGC_Counters\<close>: the counter instructions PINC, MINC, PCDU, MCDU, SHINC, SHANC; the locale
    \<open>cyclic_counter\<close> states what the angle counters promise.
  \<^item> \<open>AGC_CduFifo\<close>: the queues that pace CDU pulses.
  \<^item> \<open>AGC_IO\<close>, \<open>AGC_Input\<close>: channels, output to the host, input from it.
  \<^item> \<open>AGC_Timers\<close>, \<open>AGC_Peripherals\<close>: one tick of the scaler with alarms and restart, and the
    cycles it steals (\<open>cycles_taken\<close>); gyros, platform, optics and DSKY lamps, lamp by lamp.
  \<^item> \<open>AGC_Divide\<close>, \<open>AGC_Instructions\<close>, \<open>AGC_Programs\<close>: every \<open>case\<close> of the
    instruction \<open>switch\<close>, one definition each (\<open>exec_XXX\<close>), and what the instructions compute.
  \<^item> \<open>AGC_Engine\<close>, \<open>AGC_Cycle\<close>: \<open>agc_engine\<close>, split at its comments, and what one cycle
    guarantees.
  \<^item> \<open>AGC_Init\<close>, \<open>AGC_Images\<close>: reset, rope images and core dumps
    (\<open>agc_engine_init.c\<close>), and what they load and restore.
  \<^item> \<open>Wasm_API\<close>, \<open>AGC_Invariant\<close>: the calls of the host, the step relation \<open>host_step\<close> and
    its reachable states, and the invariant of these states, proved for each operation of the
    model by the rules of the collection \<open>keeps\<close>.

  The theories of the abort guidance computer are built on \<open>Packets\<close> only:
  \<^item> \<open>AGS_State\<close>: the structure \<open>ags_t\<close> of \<open>aea_engine.h\<close>, extended by the static variables to
    the record \<open>ags\<close>; backtraces.
  \<^item> \<open>AGS_IO\<close>: ports, the DEDA buffer and the packets of the peripherals (\<open>SocketAPI_AGS.c\<close>,
    \<open>Output\<close>, \<open>Input\<close> and \<open>FetchDedaShift\<close> of \<open>aea_engine.c\<close>).
  \<^item> \<open>AGS_Engine\<close>: the instruction \<open>switch\<close> and \<open>aea_engine\<close>; \<open>AGS_Init\<close>: images, reset, core
    dumps (\<open>aea_engine_init.c\<close>).
  \<^item> \<open>AGS_Arith\<close>: what the arithmetic computes: \<open>ags_value\<close> and \<open>DoubleWord\<close> are the 18-bit and
    35-bit numbers of a word and of the double accumulator.
  \<^item> \<open>AGS_Invariant\<close>: the steps \<open>ags_step\<close> of the emulator and its surroundings, the reachable
    states and their invariant, proved operation by operation.
  \<^item> \<open>AGS_Traces\<close>: the ring of backtraces as a list, and the program memory that never changes.
  \<^item> \<open>AGS_Peripherals\<close>: reception of packets, the DEDA, images and dumps, when the processor
    returns, waiting for the 20 ms signal.

  The theories of the Block I computer are built on \<open>AGC_Arith\<close>, whose functions \<open>fromYaAGC.c\<close>
  repeats, and \<open>Packets\<close>:
  \<^item> \<open>B1_State\<close>: the structure \<open>agcBlock1_t\<close> of \<open>yaAGCb1.h\<close>, extended by the static variables to the
    record \<open>b1\<close>; single cells, editing, output to the peripherals.
  \<^item> \<open>B1_Engine\<close>: the instructions and \<open>executeOneInstruction\<close>, as passes between its two labels.
  \<^item> \<open>B1_Input\<close>: packets and connections of the peripherals, the loaders, the console, the main loop.
  \<^item> \<open>B1_Peripherals\<close>: the messages to one client, and what a DSKY that connects late shows.
  \<^item> \<open>B1_Arith\<close>: what the arithmetic computes; \<open>B1_Control\<close>: interrupts and their return, when the
    function returns, when it does not, and when it leaves the defined behaviour of C.

  The theories of the launch vehicle computer are built on \<open>Prelude\<close> only:
  \<^item> \<open>LVDC_State\<close>: the structure \<open>state_t\<close> of \<open>yaLVDC.h\<close> with the global variables of the other files,
    HOP constants, words of memory; \<open>LVDC_Engine\<close>: interrupts and \<open>runOneInstruction\<close>, one definition per
    instruction.
  \<^item> \<open>LVDC_IO\<close>, \<open>LVDC_Wire\<close>, \<open>LVDC_Main\<close>: channels, typewriter and timers
    (\<open>processInterruptsAndIO.c\<close>), the virtual wire (\<open>virtualWire.c\<close>), start, memory files, backtraces and
    the two branches of the main loop (\<open>readWriteCore.c\<close>, \<open>yaLVDC.c\<close>).
  \<^item> \<open>LVDC_Arith\<close>: multiplication and division; \<open>lv_value\<close> is the number of a word of 26 bits.
  \<^item> \<open>LVDC_Memory\<close>: HOP constants and the memory as an array of words (\<open>word_at\<close>);
    \<open>LVDC_Control\<close>: instructions end, and interrupts return; \<open>LVDC_Peripherals\<close>: packets of the wire.

  \<^bold>\<open>Conventions.\<close>  An \<open>int\<close> is a \<open>32 word\<close>, \<open>int16_t\<close> and \<open>uint16_t\<close> are
  \<open>16 word\<close>, with promotion (\<open>int_of_i16\<close>, \<open>int_of_u16\<close>) and truncation (\<open>i16_of_int\<close>)
  written out; one-bit fields are \<open>bool\<close>.  Every operation takes the state and returns it; a
  value it also returns comes first in a pair.  A static array is a function of the flat index.
  \<open>None\<close> is an access outside an array, a file that cannot be opened, or a loop that does not
  return; that \<open>ChannelInput\<close>, \<open>set_fixed\<close> and \<open>agc_engine\<close> return is proved.
  In yaAGS \<open>None\<close> is a quotient that the C type cannot hold, that of a division by zero included, or
  a read outside the buffer of the DEDA; it is proved for which divisions exactly an instruction is
  \<open>None\<close>, and that no other one is.
  A socket is the list of the bytes that have arrived; a peripheral connects, sends and disconnects
  between two calls of the engine.  The loops of
  the scaler, the gyros and the lamps are total functions with a measure.  Fuel is used for the jumps
  of the Block I emulator only, which may go on forever: \<open>b1_run\<close> counts passes, 18 are proved to be
  enough unless a fail bit is on or a \<open>RESUME\<close> meets another one, and for the two ways in which
  this goes on forever it is proved that no amount is enough.  There \<open>Crashed\<close> is undefined
  behaviour of C.  In yaLVDC the jumps for EXM and the tabulator are partial functions, where not returning
  is \<open>None\<close>, and that an instruction always returns is proved; the parameter \<open>garbage\<close> stands for the
  content of a variable that the code does not initialise.

  \<^bold>\<open>Not modelled.\<close>  Of the engine: printing, coverage counters, the log of CDU pulses, the
  backtraces and \<open>ShiftToDeda\<close>, which do nothing in this configuration.  The socket and null
  transports of yaAGC, the debuggers, the symbol tables and the command lines are user interface and
  system calls; so is the main loop of yaAGS, which calls \<open>aea_engine\<close> until the emulated time
  has caught up with the host's.  Of yaAGCb1 the parsing of texts (\<open>sscanf\<close>), the display, the log and
  the listing are left out.  Of yaLVDC the debugger (\<open>gdbInterface.c\<close>), the parsing of listings and command
  lines, the log of PIO instructions and the decoder of telemetry are left out.  The other
  programs of the repository (assemblers, the emulators of other computers, graphical front ends,
  the guidance programs themselves) are independent of these four.
\<close>

end
